(* ===== verification/MT_Prelude.thy ===== *)
theory MT_Prelude
  imports Main "HOL-Library.Word" "HOL-Library.Multiset" "HOL-Library.Product_Lexorder"
begin

text \<open>
  Shared vocabulary of the development: names for the machine types and the addresses of the
  runtime's objects, the collections of facts the component proofs use, and generic lemmas on
  lists, counting and words.

  Addresses are natural numbers, one address space per kind of object; the C pointer NULL is
  \<open>None\<close>. Quantities of C type \<^verbatim>\<open>uint64_t\<close> that the code compares, adds or saturates are
  \<open>64 word\<close>. Quantities of type \<^verbatim>\<open>size_t\<close> that count allocated objects or index an array
  are \<open>nat\<close>: every counted object occupies memory, so such a count stays below \<open>SIZE_MAX\<close>.
\<close>

section \<open>Machine types and addresses\<close>

type_synonym u64 = "64 word"
type_synonym i32 = "32 word"
type_synonym byte = "8 word"

type_synonym tptr = nat  \<comment> \<open>address of an \<^verbatim>\<open>mt_task_t\<close>\<close>
type_synonym cptr = nat  \<comment> \<open>address of an \<^verbatim>\<open>mt_chan_t\<close>\<close>
type_synonym hptr = nat  \<comment> \<open>address of an \<^verbatim>\<open>mt_task_handle_t\<close>\<close>
type_synonym wptr = nat  \<comment> \<open>address of an \<^verbatim>\<open>mt_select_waiter_t\<close>\<close>
type_synonym fptr = nat  \<comment> \<open>address of an \<^verbatim>\<open>mt_fd_waiter_t\<close>\<close>
type_synonym vptr = nat  \<comment> \<open>address of user data (\<^verbatim>\<open>void *\<close>)\<close>

abbreviation SIZE_MAX :: nat where "SIZE_MAX \<equiv> 2 ^ 64 - 1"

section \<open>Collections\<close>

named_theorems frame \<open>fields an operation leaves alone\<close>
named_theorems ops \<open>definitions of the runtime operations, for symbolic execution\<close>

section \<open>Lists\<close>

lemma set_remove1_distinct [simp]:
  "distinct xs \<Longrightarrow> set (remove1 x xs) = set xs - {x}"
  by (rule set_remove1_eq)

lemma length_remove1_mem:
  "x \<in> set xs \<Longrightarrow> length (remove1 x xs) = length xs - 1"
  by (simp add: length_remove1)

lemma remove1_append_mem:
  "x \<in> set xs \<Longrightarrow> remove1 x (xs @ ys) = remove1 x xs @ ys"
  by (simp add: remove1_append)

lemma mset_swap_nth:
  assumes "i < length xs" and "j < length xs"
  shows "mset (xs[i := xs ! j, j := xs ! i]) = mset xs"
  using assms mset_swap[of j xs i] by (simp add: list_update_swap)

lemma set_swap_nth:
  assumes "i < length xs" and "j < length xs"
  shows "set (xs[i := xs ! j, j := xs ! i]) = set xs"
  using mset_swap_nth[OF assms] by (metis mset_eq_setD)

lemma butlast_update_first_mset:
  assumes "length xs \<ge> 2"
  shows "mset ((butlast xs)[0 := last xs]) = mset xs - {#xs ! 0#}"
proof -
  from assms obtain y ys where xs: "xs = y # ys" and ne: "ys \<noteq> []"
    by (cases xs) (auto simp: Suc_le_eq)
  have "mset ys = add_mset (last ys) (mset (butlast ys))"
    using ne by (metis append_butlast_last_id add_mset_add_single mset.simps(1) mset.simps(2)
        mset_append)
  then show ?thesis using xs ne by simp
qed

section \<open>Saturating arithmetic on unsigned words\<close>

text \<open>
  The runtime guards an unsigned addition by \<^verbatim>\<open>MAX - a < b ? MAX : a + b\<close>. This is the
  saturating sum: it never wraps.
\<close>

lemma unat_max_word_64: "unat (- 1 :: u64) = 2 ^ 64 - 1"
  by (simp add: unsigned_minus_1_eq_mask mask_eq_exp_minus_1)

lemma unat_lt_64: "unat (w :: u64) < 2 ^ 64"
  using unsigned_less[of w, where ?'a = nat] by simp

lemma unat_max_diff_64: "unat (- 1 - a :: u64) = 2 ^ 64 - 1 - unat a"
proof -
  have "a \<le> - 1" by (rule word_order.extremum)
  then show ?thesis by (simp add: unat_sub unat_max_word_64)
qed

lemma unat_saturating_add:
  fixes a b :: u64
  shows "unat (if - 1 - a < b then - 1 else a + b) = min (2 ^ 64 - 1) (unat a + unat b)"
proof (cases "- 1 - a < b")
  case True
  then have "2 ^ 64 - 1 - unat a < unat b"
    by (simp add: word_less_nat_alt unat_max_diff_64)
  then show ?thesis using True unat_lt_64[of a] by (simp add: unat_max_word_64)
next
  case False
  then have "unat a + unat b < 2 ^ 64"
    using unat_lt_64[of a] by (simp add: word_less_nat_alt unat_max_diff_64)
  then show ?thesis using False by (simp add: unat_word_ariths)
qed

lemma unat_saturating_mult:
  fixes a c :: u64
  assumes "0 < c"
  shows "unat (if a > (- 1) div c then - 1 else a * c) = min (2 ^ 64 - 1) (unat a * unat c)"
proof -
  have c: "0 < unat c" using assms by (simp add: word_less_nat_alt)
  have d: "unat ((- 1) div c) = (2 ^ 64 - 1) div unat c"
    by (simp add: unat_div unat_max_word_64)
  show ?thesis
  proof (cases "a > (- 1) div c")
    case True
    then have "(2 ^ 64 - 1) div unat c < unat a" by (simp add: word_less_nat_alt d)
    then have "2 ^ 64 - 1 < unat a * unat c"
      using c by (metis div_less_iff_less_mult)
    then show ?thesis using True by (simp add: unat_max_word_64)
  next
    case False
    then have "unat a \<le> (2 ^ 64 - 1) div unat c" by (simp add: word_less_nat_alt d)
    then have le: "unat a * unat c \<le> 2 ^ 64 - 1"
      using c by (metis less_eq_div_iff_mult_less_eq)
    then show ?thesis using False by (simp add: unat_word_ariths)
  qed
qed

text \<open>Rounding up to thousands of thousands, as nanoseconds are to milliseconds.\<close>

lemma ceil_div: "m \<le> (m + 999999) div 1000000 * 1000000 \<and> (m + 999999) div 1000000 * 1000000 < m + 1000000" for m :: nat
  using div_mult_mod_eq[of "m + 999999" 1000000] mod_less_divisor[of 1000000 "m + 999999"] by linarith

end
