(* ===== verification/MT_Types.thy ===== *)
theory MT_Types
  imports MT_Prelude
begin

text \<open>
  The data of the runtime: the public enumerations of \<^verbatim>\<open>include/microthread.h\<close>, the private
  structs of \<^verbatim>\<open>src/runtime_internal.h\<close> and \<^verbatim>\<open>src/fd_wait_internal.h\<close>, and the state the
  operations transform.

  Representation choices.
  \<^item> An intrusive singly linked list (a head pointer, a tail pointer and a link field in each
    element) is the list of the addresses it links, head first. The element counter beside it
    stays a field of its own. The theory \<open>Intrusive_Queue\<close> models the head, tail and link
    manipulations and shows that they implement the list operations.
  \<^item> The global \<^verbatim>\<open>g_rt\<close> is the record \<open>mt_runtime\<close>; \<open>mt_state\<close> extends it by the memory the
    pointers lead to: one total store per kind of object, the bytes of user memory, the list
    of the \<^verbatim>\<open>epoll_ctl\<close> and \<^verbatim>\<open>kevent\<close> calls issued so far, oldest first, and the list of the
    resources taken from the system and given back (\<open>sys_calls\<close>): the stacks of tasks, and the
    descriptors and synchronisation objects the runtime opens for itself. Which addresses are
    allocated is what the runtime itself records: its lists of tasks, channels and handles.
  \<^item> The mutex has no field: every operation below is one critical section of the code, from
    \<^verbatim>\<open>mt_lock()\<close> to \<^verbatim>\<open>mt_unlock()\<close> (or to the context switch, which keeps the lock held), and a
    public call that takes the lock twice is two operations. Condition-variable signals,
    broadcasts and wake-pipe writes are counted, so that a missing wake-up is visible.
  \<^item> The build is the one with OS threads and without \<^verbatim>\<open>MT_TESTING\<close>.
\<close>

section \<open>Enumerations\<close>

text \<open>The status codes of the anonymous enum of \<^verbatim>\<open>include/microthread.h\<close>.\<close>

datatype mt_rc =
    MT_OK
  | MT_ERR
  | MT_ERR_INVALID
  | MT_ERR_NOMEM
  | MT_ERR_STATE
  | MT_ERR_CLOSED
  | MT_ERR_CANCELLED
  | MT_ERR_WOULD_BLOCK
  | MT_ERR_TIMEOUT
  | MT_ERR_IO
  | MT_ERR_BACKEND
  | MT_ERR_ADDRINFO
  | MT_ERR_UNSUPPORTED

datatype mt_task_state =
    MT_TASK_READY
  | MT_TASK_RUNNING
  | MT_TASK_SLEEPING
  | MT_TASK_WAITING_CHAN
  | MT_TASK_WAITING_SELECT
  | MT_TASK_WAITING_FD
  | MT_TASK_WAITING_JOIN
  | MT_TASK_DEAD

datatype mt_task_status =
    MT_TASK_STATUS_READY
  | MT_TASK_STATUS_RUNNING
  | MT_TASK_STATUS_SLEEPING
  | MT_TASK_STATUS_WAITING_CHAN
  | MT_TASK_STATUS_WAITING_JOIN
  | MT_TASK_STATUS_DONE
  | MT_TASK_STATUS_CANCELLED
  | MT_TASK_STATUS_WAITING_SELECT
  | MT_TASK_STATUS_WAITING_FD

datatype mt_chan_wait_kind = MT_CHAN_WAIT_NONE | MT_CHAN_WAIT_SEND | MT_CHAN_WAIT_RECV

text \<open>\<open>MT_SELECT_OTHER\<close> stands for an integer outside the enum, which C lets a caller store.\<close>

datatype mt_select_op =
    MT_SELECT_RECV
  | MT_SELECT_SEND
  | MT_SELECT_DEFAULT
  | MT_SELECT_TIMEOUT
  | MT_SELECT_OTHER

datatype mt_fd_waiter_state =
    MT_FD_WAITER_REMOVED
  | MT_FD_WAITER_ACTIVE
  | MT_FD_WAITER_READY_RESERVED

datatype mt_io_backend_kind =
    MT_IO_BACKEND_NONE
  | MT_IO_BACKEND_POLL
  | MT_IO_BACKEND_EPOLL
  | MT_IO_BACKEND_KQUEUE

text \<open>
  What the code asks of the event facility of the system: a call of \<^verbatim>\<open>epoll_ctl\<close> with a descriptor
  and its mask, or of \<^verbatim>\<open>kevent\<close> with a list of changes (descriptor, filter, flags). Filters other
  than the two the code names are \<open>EVFILT_OTHER\<close>.
\<close>

datatype epoll_op = EPOLL_CTL_ADD | EPOLL_CTL_MOD | EPOLL_CTL_DEL

datatype kfilter = EVFILT_READ | EVFILT_WRITE | EVFILT_OTHER

datatype backend_request = EpollCtl epoll_op int i32 | KeventChange "(int \<times> kfilter \<times> i32) list"

text \<open>
  What the code takes from the system and gives back, besides the memory of its own structs: open
  descriptors, anonymous mappings (address and length), the stacks of the build that uses \<^verbatim>\<open>malloc\<close>,
  and the mutex, the condition variable and the scheduler context of \<^verbatim>\<open>g_rt\<close>. A call that failed
  changes nothing and is not in the list. \<open>SysProtect\<close> is \<^verbatim>\<open>mprotect(addr, len, PROT_NONE)\<close>.
\<close>

datatype sys_resource =
    Descriptor int
  | Mapping nat u64
  | HeapBlock nat
  | RuntimeMutex
  | RuntimeCond
  | SchedulerContext

datatype sys_call = SysAcquire sys_resource | SysRelease sys_resource | SysProtect nat u64

datatype mt_stack_alloc_kind = MT_STACK_ALLOC_NONE | MT_STACK_ALLOC_MMAP | MT_STACK_ALLOC_MALLOC

section \<open>Structs\<close>

record mt_stack =
  mapping :: "nat option"
  mapping_size :: u64
  usable :: "nat option"
  usable_size :: u64
  guard_size :: u64
  alloc_kind :: mt_stack_alloc_kind

text \<open>
  \<^verbatim>\<open>struct mt_task\<close>. The machine context \<^verbatim>\<open>ctx\<close> is left out; the links \<^verbatim>\<open>next\<close>,
  \<^verbatim>\<open>wait_next\<close> and \<^verbatim>\<open>all_next\<close> are in the lists that hold the task.
\<close>

record mt_task =
  task_id :: i32
  task_fn :: nat
  task_arg :: nat
  stack :: mt_stack
  state :: mt_task_state
  wake_ns :: u64
  timer_seq :: u64
  handle :: "hptr option"
  join_waiting_on :: "hptr option"
  chan_wait_kind :: mt_chan_wait_kind
  chan_wait_ch :: "cptr option"
  chan_value :: "vptr option"
  chan_result :: mt_rc
  join_result :: mt_rc
  select_waiters :: "wptr list"
  select_waiter_count :: nat
  select_index :: nat
  select_result :: mt_rc
  select_in_timer :: bool
  select_counted_waiting :: bool
  fd_waiter :: "fptr option"
  fd_result :: mt_rc
  fd_ready_events :: i32
  fd_in_timer :: bool

record mt_select_waiter =
  sw_task :: "tptr option"
  sw_ch :: "cptr option"
  sw_op :: mt_select_op
  sw_value :: "vptr option"
  sw_index :: nat
  sw_active :: bool

record mt_fd_waiter =
  fw_task :: "tptr option"
  fw_fd :: int
  fw_events :: i32
  fw_generation :: u64
  fw_ready_events :: i32
  fw_state :: mt_fd_waiter_state

record mt_fd_generation =
  fg_fd :: int
  fg_generation :: u64
  fg_closing :: bool
  fg_adopted :: bool
  fg_original_flags :: int

record mt_task_handle =
  h_task :: "tptr option"
  h_status :: mt_task_status
  cancel_requested :: bool
  completed :: bool
  released :: bool
  h_join_result :: mt_rc
  join_q :: "tptr list"
  join_waiters :: nat

record mt_chan =
  elem_size :: nat
  capacity :: nat
  ch_len :: nat
  ch_head :: nat
  ch_tail :: nat
  ch_buffer :: "byte list"
  ch_closed :: bool
  send_q :: "tptr list"
  recv_q :: "tptr list"
  send_waiters :: nat
  recv_waiters :: nat
  select_send_q :: "wptr list"
  select_recv_q :: "wptr list"
  select_send_waiters :: nat
  select_recv_waiters :: nat

text \<open>
  \<open>items\<close> is the used prefix of the array: \<^verbatim>\<open>len\<close> is its length and the cells beyond, up to
  \<open>cap\<close>, are never read.
\<close>

record mt_timer_heap =
  items :: "tptr list"
  cap :: nat
  next_seq :: u64

record mt_runtime =
  initialized :: bool
  running :: bool
  stopping :: bool
  run_result :: mt_rc
  next_id :: i32
  default_stack_size :: u64
  worker_count :: nat
  active_workers :: nat
  running_tasks :: nat
  worker_threads :: nat
  current :: "tptr option"
  all_tasks :: "tptr list"
  runq :: "tptr list"
  channels :: "cptr list"
  handles :: "hptr list"
  timers :: mt_timer_heap
  runnable_count :: nat
  live_count :: nat
  completed_count :: nat
  channel_waiting_count :: nat
  join_waiting_count :: nat
  fd_waiters :: "fptr list"
  fd_waiting_count :: nat
  fd_generations :: "mt_fd_generation list"
  io_backend_kind :: mt_io_backend_kind
  io_backend_fd :: int
  io_wake_read_fd :: int
  io_wake_write_fd :: int
  io_polling :: bool

record mt_state = mt_runtime +
  task_mem :: "tptr \<Rightarrow> mt_task"
  chan_mem :: "cptr \<Rightarrow> mt_chan"
  handle_mem :: "hptr \<Rightarrow> mt_task_handle"
  sw_mem :: "wptr \<Rightarrow> mt_select_waiter"
  fw_mem :: "fptr \<Rightarrow> mt_fd_waiter"
  user_mem :: "vptr \<Rightarrow> byte"
  backend_calls :: "backend_request list"
  sys_calls :: "sys_call list"
  cond_signals :: nat
  cond_broadcasts :: nat
  io_wakes :: nat

section \<open>Zeroed objects\<close>

text \<open>What \<^verbatim>\<open>calloc\<close> and \<^verbatim>\<open>memset(..., 0, ...)\<close> leave: every enum at its first constructor.\<close>

definition zero_stack :: mt_stack where
  "zero_stack = \<lparr>mapping = None, mapping_size = 0, usable = None, usable_size = 0,
     guard_size = 0, alloc_kind = MT_STACK_ALLOC_NONE\<rparr>"

definition zero_task :: mt_task where
  "zero_task = \<lparr>task_id = 0, task_fn = 0, task_arg = 0, stack = zero_stack,
     state = MT_TASK_READY, wake_ns = 0, timer_seq = 0, handle = None, join_waiting_on = None,
     chan_wait_kind = MT_CHAN_WAIT_NONE, chan_wait_ch = None, chan_value = None,
     chan_result = MT_OK, join_result = MT_OK, select_waiters = [], select_waiter_count = 0,
     select_index = 0, select_result = MT_OK, select_in_timer = False,
     select_counted_waiting = False, fd_waiter = None, fd_result = MT_OK,
     fd_ready_events = 0, fd_in_timer = False\<rparr>"

definition zero_sw :: mt_select_waiter where
  "zero_sw = \<lparr>sw_task = None, sw_ch = None, sw_op = MT_SELECT_RECV, sw_value = None,
     sw_index = 0, sw_active = False\<rparr>"

definition zero_fw :: mt_fd_waiter where
  "zero_fw = \<lparr>fw_task = None, fw_fd = 0, fw_events = 0, fw_generation = 0,
     fw_ready_events = 0, fw_state = MT_FD_WAITER_REMOVED\<rparr>"

definition zero_handle :: mt_task_handle where
  "zero_handle = \<lparr>h_task = None, h_status = MT_TASK_STATUS_READY, cancel_requested = False,
     completed = False, released = False, h_join_result = MT_OK, join_q = [], join_waiters = 0\<rparr>"

definition zero_chan :: mt_chan where
  "zero_chan = \<lparr>elem_size = 0, capacity = 0, ch_len = 0, ch_head = 0, ch_tail = 0,
     ch_buffer = [], ch_closed = False, send_q = [], recv_q = [], send_waiters = 0,
     recv_waiters = 0, select_send_q = [], select_recv_q = [], select_send_waiters = 0,
     select_recv_waiters = 0\<rparr>"

definition zero_state :: mt_state where
  "zero_state = \<lparr>initialized = False, running = False, stopping = False, run_result = MT_OK,
     next_id = 0, default_stack_size = 0, worker_count = 0, active_workers = 0,
     running_tasks = 0, worker_threads = 0, current = None, all_tasks = [], runq = [],
     channels = [], handles = [], timers = \<lparr>items = [], cap = 0, next_seq = 0\<rparr>,
     runnable_count = 0, live_count = 0, completed_count = 0, channel_waiting_count = 0,
     join_waiting_count = 0, fd_waiters = [], fd_waiting_count = 0, fd_generations = [],
     io_backend_kind = MT_IO_BACKEND_NONE, io_backend_fd = 0, io_wake_read_fd = 0,
     io_wake_write_fd = 0, io_polling = False,
     task_mem = (\<lambda>_. zero_task), chan_mem = (\<lambda>_. zero_chan), handle_mem = (\<lambda>_. zero_handle),
     sw_mem = (\<lambda>_. zero_sw), fw_mem = (\<lambda>_. zero_fw), user_mem = (\<lambda>_. 0),
     backend_calls = [], sys_calls = [], cond_signals = 0, cond_broadcasts = 0, io_wakes = 0\<rparr>"

lemmas zero_defs = zero_stack_def zero_task_def zero_sw_def zero_fw_def zero_handle_def
  zero_chan_def zero_state_def

section \<open>Resources of the system\<close>

abbreviation sys_do :: "sys_call list \<Rightarrow> mt_state \<Rightarrow> mt_state" where
  "sys_do calls s \<equiv> s\<lparr>sys_calls := sys_calls s @ calls\<rparr>"

text \<open>What is held after a list of calls, when \<open>rs\<close> was held before.\<close>

fun held_after :: "sys_resource list \<Rightarrow> sys_call list \<Rightarrow> sys_resource list" where
  "held_after rs [] = rs"
| "held_after rs (SysAcquire r # cs) = held_after (r # rs) cs"
| "held_after rs (SysRelease r # cs) = held_after (remove1 r rs) cs"
| "held_after rs (SysProtect a n # cs) = held_after rs cs"

definition held :: "mt_state \<Rightarrow> sys_resource list" where
  "held s = held_after [] (sys_calls s)"

lemma held_after_append [simp]: "held_after rs (cs @ ds) = held_after (held_after rs cs) ds"
  by (induction rs cs rule: held_after.induct) simp_all

section \<open>Writing one object\<close>

text \<open>An assignment \<^verbatim>\<open>p->field = v\<close> is one of these with a record update.\<close>

definition upd_task :: "tptr \<Rightarrow> (mt_task \<Rightarrow> mt_task) \<Rightarrow> mt_state \<Rightarrow> mt_state" where
  "upd_task t f s = s\<lparr>task_mem := (task_mem s)(t := f (task_mem s t))\<rparr>"

definition upd_chan :: "cptr \<Rightarrow> (mt_chan \<Rightarrow> mt_chan) \<Rightarrow> mt_state \<Rightarrow> mt_state" where
  "upd_chan c f s = s\<lparr>chan_mem := (chan_mem s)(c := f (chan_mem s c))\<rparr>"

definition upd_handle :: "hptr \<Rightarrow> (mt_task_handle \<Rightarrow> mt_task_handle) \<Rightarrow> mt_state \<Rightarrow> mt_state" where
  "upd_handle h f s = s\<lparr>handle_mem := (handle_mem s)(h := f (handle_mem s h))\<rparr>"

definition upd_sw :: "wptr \<Rightarrow> (mt_select_waiter \<Rightarrow> mt_select_waiter) \<Rightarrow> mt_state \<Rightarrow> mt_state" where
  "upd_sw w f s = s\<lparr>sw_mem := (sw_mem s)(w := f (sw_mem s w))\<rparr>"

definition upd_fw :: "fptr \<Rightarrow> (mt_fd_waiter \<Rightarrow> mt_fd_waiter) \<Rightarrow> mt_state \<Rightarrow> mt_state" where
  "upd_fw w f s = s\<lparr>fw_mem := (fw_mem s)(w := f (fw_mem s w))\<rparr>"

text \<open>Each write changes its own store and, there, its own object.\<close>

lemma task_mem_upd_task [simp]:
  "task_mem (upd_task t f s) = (task_mem s)(t := f (task_mem s t))"
  by (simp add: upd_task_def)

lemma chan_mem_upd_chan [simp]:
  "chan_mem (upd_chan c f' s) = (chan_mem s)(c := f' (chan_mem s c))"
  by (simp add: upd_chan_def)

lemma handle_mem_upd_handle [simp]:
  "handle_mem (upd_handle h f' s) = (handle_mem s)(h := f' (handle_mem s h))"
  by (simp add: upd_handle_def)

lemma sw_mem_upd_sw [simp]:
  "sw_mem (upd_sw w f' s) = (sw_mem s)(w := f' (sw_mem s w))"
  by (simp add: upd_sw_def)

lemma fw_mem_upd_fw [simp]:
  "fw_mem (upd_fw w f' s) = (fw_mem s)(w := f' (fw_mem s w))"
  by (simp add: upd_fw_def)

text \<open>And leaves every other field alone.\<close>

lemma upd_task_frame [simp]:
  "initialized (upd_task p f s) = initialized s"
  "running (upd_task p f s) = running s"
  "stopping (upd_task p f s) = stopping s"
  "run_result (upd_task p f s) = run_result s"
  "next_id (upd_task p f s) = next_id s"
  "default_stack_size (upd_task p f s) = default_stack_size s"
  "worker_count (upd_task p f s) = worker_count s"
  "active_workers (upd_task p f s) = active_workers s"
  "running_tasks (upd_task p f s) = running_tasks s"
  "worker_threads (upd_task p f s) = worker_threads s"
  "current (upd_task p f s) = current s"
  "all_tasks (upd_task p f s) = all_tasks s"
  "runq (upd_task p f s) = runq s"
  "channels (upd_task p f s) = channels s"
  "handles (upd_task p f s) = handles s"
  "timers (upd_task p f s) = timers s"
  "runnable_count (upd_task p f s) = runnable_count s"
  "live_count (upd_task p f s) = live_count s"
  "completed_count (upd_task p f s) = completed_count s"
  "channel_waiting_count (upd_task p f s) = channel_waiting_count s"
  "join_waiting_count (upd_task p f s) = join_waiting_count s"
  "fd_waiters (upd_task p f s) = fd_waiters s"
  "fd_waiting_count (upd_task p f s) = fd_waiting_count s"
  "fd_generations (upd_task p f s) = fd_generations s"
  "io_backend_kind (upd_task p f s) = io_backend_kind s"
  "io_backend_fd (upd_task p f s) = io_backend_fd s"
  "io_wake_read_fd (upd_task p f s) = io_wake_read_fd s"
  "io_wake_write_fd (upd_task p f s) = io_wake_write_fd s"
  "io_polling (upd_task p f s) = io_polling s"
  "chan_mem (upd_task p f s) = chan_mem s"
  "handle_mem (upd_task p f s) = handle_mem s"
  "sw_mem (upd_task p f s) = sw_mem s"
  "fw_mem (upd_task p f s) = fw_mem s"
  "user_mem (upd_task p f s) = user_mem s"
  "backend_calls (upd_task p f s) = backend_calls s"
  "sys_calls (upd_task p f s) = sys_calls s"
  "cond_signals (upd_task p f s) = cond_signals s"
  "cond_broadcasts (upd_task p f s) = cond_broadcasts s"
  "io_wakes (upd_task p f s) = io_wakes s"
  by (simp_all add: upd_task_def)

lemma upd_chan_frame [simp]:
  "initialized (upd_chan p f s) = initialized s"
  "running (upd_chan p f s) = running s"
  "stopping (upd_chan p f s) = stopping s"
  "run_result (upd_chan p f s) = run_result s"
  "next_id (upd_chan p f s) = next_id s"
  "default_stack_size (upd_chan p f s) = default_stack_size s"
  "worker_count (upd_chan p f s) = worker_count s"
  "active_workers (upd_chan p f s) = active_workers s"
  "running_tasks (upd_chan p f s) = running_tasks s"
  "worker_threads (upd_chan p f s) = worker_threads s"
  "current (upd_chan p f s) = current s"
  "all_tasks (upd_chan p f s) = all_tasks s"
  "runq (upd_chan p f s) = runq s"
  "channels (upd_chan p f s) = channels s"
  "handles (upd_chan p f s) = handles s"
  "timers (upd_chan p f s) = timers s"
  "runnable_count (upd_chan p f s) = runnable_count s"
  "live_count (upd_chan p f s) = live_count s"
  "completed_count (upd_chan p f s) = completed_count s"
  "channel_waiting_count (upd_chan p f s) = channel_waiting_count s"
  "join_waiting_count (upd_chan p f s) = join_waiting_count s"
  "fd_waiters (upd_chan p f s) = fd_waiters s"
  "fd_waiting_count (upd_chan p f s) = fd_waiting_count s"
  "fd_generations (upd_chan p f s) = fd_generations s"
  "io_backend_kind (upd_chan p f s) = io_backend_kind s"
  "io_backend_fd (upd_chan p f s) = io_backend_fd s"
  "io_wake_read_fd (upd_chan p f s) = io_wake_read_fd s"
  "io_wake_write_fd (upd_chan p f s) = io_wake_write_fd s"
  "io_polling (upd_chan p f s) = io_polling s"
  "task_mem (upd_chan p f s) = task_mem s"
  "handle_mem (upd_chan p f s) = handle_mem s"
  "sw_mem (upd_chan p f s) = sw_mem s"
  "fw_mem (upd_chan p f s) = fw_mem s"
  "user_mem (upd_chan p f s) = user_mem s"
  "backend_calls (upd_chan p f s) = backend_calls s"
  "sys_calls (upd_chan p f s) = sys_calls s"
  "cond_signals (upd_chan p f s) = cond_signals s"
  "cond_broadcasts (upd_chan p f s) = cond_broadcasts s"
  "io_wakes (upd_chan p f s) = io_wakes s"
  by (simp_all add: upd_chan_def)

lemma upd_handle_frame [simp]:
  "initialized (upd_handle p f s) = initialized s"
  "running (upd_handle p f s) = running s"
  "stopping (upd_handle p f s) = stopping s"
  "run_result (upd_handle p f s) = run_result s"
  "next_id (upd_handle p f s) = next_id s"
  "default_stack_size (upd_handle p f s) = default_stack_size s"
  "worker_count (upd_handle p f s) = worker_count s"
  "active_workers (upd_handle p f s) = active_workers s"
  "running_tasks (upd_handle p f s) = running_tasks s"
  "worker_threads (upd_handle p f s) = worker_threads s"
  "current (upd_handle p f s) = current s"
  "all_tasks (upd_handle p f s) = all_tasks s"
  "runq (upd_handle p f s) = runq s"
  "channels (upd_handle p f s) = channels s"
  "handles (upd_handle p f s) = handles s"
  "timers (upd_handle p f s) = timers s"
  "runnable_count (upd_handle p f s) = runnable_count s"
  "live_count (upd_handle p f s) = live_count s"
  "completed_count (upd_handle p f s) = completed_count s"
  "channel_waiting_count (upd_handle p f s) = channel_waiting_count s"
  "join_waiting_count (upd_handle p f s) = join_waiting_count s"
  "fd_waiters (upd_handle p f s) = fd_waiters s"
  "fd_waiting_count (upd_handle p f s) = fd_waiting_count s"
  "fd_generations (upd_handle p f s) = fd_generations s"
  "io_backend_kind (upd_handle p f s) = io_backend_kind s"
  "io_backend_fd (upd_handle p f s) = io_backend_fd s"
  "io_wake_read_fd (upd_handle p f s) = io_wake_read_fd s"
  "io_wake_write_fd (upd_handle p f s) = io_wake_write_fd s"
  "io_polling (upd_handle p f s) = io_polling s"
  "task_mem (upd_handle p f s) = task_mem s"
  "chan_mem (upd_handle p f s) = chan_mem s"
  "sw_mem (upd_handle p f s) = sw_mem s"
  "fw_mem (upd_handle p f s) = fw_mem s"
  "user_mem (upd_handle p f s) = user_mem s"
  "backend_calls (upd_handle p f s) = backend_calls s"
  "sys_calls (upd_handle p f s) = sys_calls s"
  "cond_signals (upd_handle p f s) = cond_signals s"
  "cond_broadcasts (upd_handle p f s) = cond_broadcasts s"
  "io_wakes (upd_handle p f s) = io_wakes s"
  by (simp_all add: upd_handle_def)

lemma upd_sw_frame [simp]:
  "initialized (upd_sw p f s) = initialized s"
  "running (upd_sw p f s) = running s"
  "stopping (upd_sw p f s) = stopping s"
  "run_result (upd_sw p f s) = run_result s"
  "next_id (upd_sw p f s) = next_id s"
  "default_stack_size (upd_sw p f s) = default_stack_size s"
  "worker_count (upd_sw p f s) = worker_count s"
  "active_workers (upd_sw p f s) = active_workers s"
  "running_tasks (upd_sw p f s) = running_tasks s"
  "worker_threads (upd_sw p f s) = worker_threads s"
  "current (upd_sw p f s) = current s"
  "all_tasks (upd_sw p f s) = all_tasks s"
  "runq (upd_sw p f s) = runq s"
  "channels (upd_sw p f s) = channels s"
  "handles (upd_sw p f s) = handles s"
  "timers (upd_sw p f s) = timers s"
  "runnable_count (upd_sw p f s) = runnable_count s"
  "live_count (upd_sw p f s) = live_count s"
  "completed_count (upd_sw p f s) = completed_count s"
  "channel_waiting_count (upd_sw p f s) = channel_waiting_count s"
  "join_waiting_count (upd_sw p f s) = join_waiting_count s"
  "fd_waiters (upd_sw p f s) = fd_waiters s"
  "fd_waiting_count (upd_sw p f s) = fd_waiting_count s"
  "fd_generations (upd_sw p f s) = fd_generations s"
  "io_backend_kind (upd_sw p f s) = io_backend_kind s"
  "io_backend_fd (upd_sw p f s) = io_backend_fd s"
  "io_wake_read_fd (upd_sw p f s) = io_wake_read_fd s"
  "io_wake_write_fd (upd_sw p f s) = io_wake_write_fd s"
  "io_polling (upd_sw p f s) = io_polling s"
  "task_mem (upd_sw p f s) = task_mem s"
  "chan_mem (upd_sw p f s) = chan_mem s"
  "handle_mem (upd_sw p f s) = handle_mem s"
  "fw_mem (upd_sw p f s) = fw_mem s"
  "user_mem (upd_sw p f s) = user_mem s"
  "backend_calls (upd_sw p f s) = backend_calls s"
  "sys_calls (upd_sw p f s) = sys_calls s"
  "cond_signals (upd_sw p f s) = cond_signals s"
  "cond_broadcasts (upd_sw p f s) = cond_broadcasts s"
  "io_wakes (upd_sw p f s) = io_wakes s"
  by (simp_all add: upd_sw_def)

lemma upd_fw_frame [simp]:
  "initialized (upd_fw p f s) = initialized s"
  "running (upd_fw p f s) = running s"
  "stopping (upd_fw p f s) = stopping s"
  "run_result (upd_fw p f s) = run_result s"
  "next_id (upd_fw p f s) = next_id s"
  "default_stack_size (upd_fw p f s) = default_stack_size s"
  "worker_count (upd_fw p f s) = worker_count s"
  "active_workers (upd_fw p f s) = active_workers s"
  "running_tasks (upd_fw p f s) = running_tasks s"
  "worker_threads (upd_fw p f s) = worker_threads s"
  "current (upd_fw p f s) = current s"
  "all_tasks (upd_fw p f s) = all_tasks s"
  "runq (upd_fw p f s) = runq s"
  "channels (upd_fw p f s) = channels s"
  "handles (upd_fw p f s) = handles s"
  "timers (upd_fw p f s) = timers s"
  "runnable_count (upd_fw p f s) = runnable_count s"
  "live_count (upd_fw p f s) = live_count s"
  "completed_count (upd_fw p f s) = completed_count s"
  "channel_waiting_count (upd_fw p f s) = channel_waiting_count s"
  "join_waiting_count (upd_fw p f s) = join_waiting_count s"
  "fd_waiters (upd_fw p f s) = fd_waiters s"
  "fd_waiting_count (upd_fw p f s) = fd_waiting_count s"
  "fd_generations (upd_fw p f s) = fd_generations s"
  "io_backend_kind (upd_fw p f s) = io_backend_kind s"
  "io_backend_fd (upd_fw p f s) = io_backend_fd s"
  "io_wake_read_fd (upd_fw p f s) = io_wake_read_fd s"
  "io_wake_write_fd (upd_fw p f s) = io_wake_write_fd s"
  "io_polling (upd_fw p f s) = io_polling s"
  "task_mem (upd_fw p f s) = task_mem s"
  "chan_mem (upd_fw p f s) = chan_mem s"
  "handle_mem (upd_fw p f s) = handle_mem s"
  "sw_mem (upd_fw p f s) = sw_mem s"
  "user_mem (upd_fw p f s) = user_mem s"
  "backend_calls (upd_fw p f s) = backend_calls s"
  "sys_calls (upd_fw p f s) = sys_calls s"
  "cond_signals (upd_fw p f s) = cond_signals s"
  "cond_broadcasts (upd_fw p f s) = cond_broadcasts s"
  "io_wakes (upd_fw p f s) = io_wakes s"
  by (simp_all add: upd_fw_def)

end
