(* ===== verification/Ring_Buffer.thy ===== *)
theory Ring_Buffer
  imports MT_Types
begin

text \<open>
  The byte ring of a buffered channel: \<^verbatim>\<open>mt_chan_buffer_push\<close> and \<^verbatim>\<open>mt_chan_buffer_pop\<close> of
  \<^verbatim>\<open>src/channel.c\<close>, and \<^verbatim>\<open>memcpy\<close> between it and user memory.

  The locale \<open>bounded_fifo\<close> is the contract the channel operations rely on.
\<close>

section \<open>Interface\<close>

locale bounded_fifo =
  fixes put :: "'v \<Rightarrow> 'b \<Rightarrow> 'b"
    and get :: "'b \<Rightarrow> 'v \<times> 'b"
    and ok :: "'b \<Rightarrow> bool"
    and val :: "'b \<Rightarrow> 'v \<Rightarrow> bool"
    and size_bound :: "'b \<Rightarrow> nat"
    and cont :: "'b \<Rightarrow> 'v list"
  assumes cont_bound: "ok b \<Longrightarrow> length (cont b) \<le> size_bound b"
    and put_ok: "ok b \<Longrightarrow> val b v \<Longrightarrow> length (cont b) < size_bound b \<Longrightarrow>
          ok (put v b) \<and> cont (put v b) = cont b @ [v]"
    and get_ok: "ok b \<Longrightarrow> cont b = v # vs \<Longrightarrow> \<exists>b'. get b = (v, b') \<and> ok b' \<and> cont b' = vs"
    and put_keeps: "size_bound (put v b) = size_bound b \<and> (val (put v b) w \<longleftrightarrow> val b w)"
    and get_keeps: "size_bound (snd (get b)) = size_bound b \<and> (val (snd (get b)) w \<longleftrightarrow> val b w)"
begin

text \<open>A run of a client: \<open>Some v\<close> puts, \<open>None\<close> gets; the values got, in order.\<close>

fun run :: "'v option list \<Rightarrow> 'b \<Rightarrow> 'v list \<times> 'b" where
  "run [] b = ([], b)"
| "run (Some v # ops) b = run ops (put v b)"
| "run (None # ops) b = (let (v, b1) = get b; (vs, b2) = run ops b1 in (v # vs, b2))"

text \<open>The same run on a plain list; \<open>None\<close> when it would overflow, underflow or put a bad value.\<close>

fun spec_run :: "('v \<Rightarrow> bool) \<Rightarrow> nat \<Rightarrow> 'v option list \<Rightarrow> 'v list \<Rightarrow> ('v list \<times> 'v list) option" where
  "spec_run ok_val n [] q = Some ([], q)"
| "spec_run ok_val n (Some v # ops) q =
     (if length q < n \<and> ok_val v then spec_run ok_val n ops (q @ [v]) else None)"
| "spec_run ok_val n (None # ops) [] = None"
| "spec_run ok_val n (None # ops) (v # q) =
     map_option (\<lambda>(vs, q'). (v # vs, q')) (spec_run ok_val n ops q)"

lemma run_refines:
  "ok b \<Longrightarrow> spec_run (val b) (size_bound b) ops (cont b) = Some (vs, q) \<Longrightarrow>
    \<exists>b'. run ops b = (vs, b') \<and> ok b' \<and> cont b' = q"
proof (induction ops arbitrary: b vs q)
  case Nil
  then show ?case by simp
next
  case (Cons oper ops)
  show ?case
  proof (cases oper)
    case (Some v)
    from Cons.prems Some have v: "length (cont b) < size_bound b" "val b v"
      and sp: "spec_run (val b) (size_bound b) ops (cont b @ [v]) = Some (vs, q)"
      by (auto split: if_splits)
    have "val (put v b) = val b" using put_keeps by (intro ext) blast
    with Cons.IH[of "put v b" vs q] put_ok[OF Cons.prems(1) v(2,1)] put_keeps[of v b] sp Some
    show ?thesis by simp
  next
    case None
    with Cons.prems(2) obtain v r where c: "cont b = v # r" by (cases "cont b") auto
    from get_ok[OF Cons.prems(1) c] obtain b1 where b1: "get b = (v, b1)" "ok b1" "cont b1 = r"
      by blast
    have k: "size_bound b1 = size_bound b" "val b1 = val b"
      using get_keeps[of b] b1(1) by auto
    from Cons.prems(2) None c obtain vs' where
      "spec_run (val b) (size_bound b) ops r = Some (vs', q)" "vs = v # vs'" by auto
    with Cons.IH[of b1 vs' q] b1 k None show ?thesis by (auto split: prod.split)
  qed
qed

end

section \<open>Memory\<close>

definition read_mem :: "(vptr \<Rightarrow> byte) \<Rightarrow> vptr \<Rightarrow> nat \<Rightarrow> byte list" where
  "read_mem m p n = map m [p ..< p + n]"

definition write_mem :: "vptr \<Rightarrow> byte list \<Rightarrow> (vptr \<Rightarrow> byte) \<Rightarrow> vptr \<Rightarrow> byte" where
  "write_mem p bs m = (\<lambda>a. if p \<le> a \<and> a < p + length bs then bs ! (a - p) else m a)"

lemma length_read_mem [simp]: "length (read_mem m p n) = n"
  by (simp add: read_mem_def)

lemma read_write_same [simp]: "length bs = n \<Longrightarrow> read_mem (write_mem p bs m) p n = bs"
  by (rule nth_equalityI) (auto simp: read_mem_def write_mem_def)

text \<open>Two blocks of memory that do not overlap.\<close>

definition mem_disjoint :: "vptr \<Rightarrow> nat \<Rightarrow> vptr \<Rightarrow> nat \<Rightarrow> bool" where
  "mem_disjoint p m q n \<longleftrightarrow> p + m \<le> q \<or> q + n \<le> p"

lemma read_write_other:
  "mem_disjoint p (length bs) q n \<Longrightarrow> read_mem (write_mem p bs m) q n = read_mem m q n"
  by (auto simp: read_mem_def write_mem_def mem_disjoint_def)

section \<open>The ring\<close>

text \<open>\<^verbatim>\<open>memcpy\<close> into and out of the buffer at a byte offset.\<close>

definition copy_in :: "byte list \<Rightarrow> nat \<Rightarrow> byte list \<Rightarrow> byte list" where
  "copy_in buf off bs = take off buf @ bs @ drop (off + length bs) buf"

definition copy_out :: "byte list \<Rightarrow> nat \<Rightarrow> nat \<Rightarrow> byte list" where
  "copy_out buf off n = take n (drop off buf)"

definition mt_chan_buffer_push :: "byte list \<Rightarrow> mt_chan \<Rightarrow> mt_chan" where
  "mt_chan_buffer_push bs ch = ch\<lparr>
     ch_buffer := copy_in (ch_buffer ch) (ch_tail ch * elem_size ch) bs,
     ch_tail := (ch_tail ch + 1) mod capacity ch,
     ch_len := ch_len ch + 1\<rparr>"

definition mt_chan_buffer_pop :: "mt_chan \<Rightarrow> byte list \<times> mt_chan" where
  "mt_chan_buffer_pop ch =
     (copy_out (ch_buffer ch) (ch_head ch * elem_size ch) (elem_size ch),
      ch\<lparr>ch_head := (ch_head ch + 1) mod capacity ch, ch_len := ch_len ch - 1\<rparr>)"

definition ring_ok :: "mt_chan \<Rightarrow> bool" where
  "ring_ok ch \<longleftrightarrow> 0 < elem_size ch \<and> length (ch_buffer ch) = elem_size ch * capacity ch \<and>
     ch_len ch \<le> capacity ch \<and>
     (0 < capacity ch \<longrightarrow> ch_head ch < capacity ch \<and>
        ch_tail ch = (ch_head ch + ch_len ch) mod capacity ch)"

definition slot :: "mt_chan \<Rightarrow> nat \<Rightarrow> byte list" where
  "slot ch i = copy_out (ch_buffer ch) (((ch_head ch + i) mod capacity ch) * elem_size ch) (elem_size ch)"

definition ring_content :: "mt_chan \<Rightarrow> byte list list" where
  "ring_content ch = map (slot ch) [0 ..< ch_len ch]"

lemma length_ring_content [simp]: "length (ring_content ch) = ch_len ch"
  by (simp add: ring_content_def)

lemma slot_bound: "i < c \<Longrightarrow> i * n + n \<le> n * (c :: nat)"
  using mult_le_mono1[of "Suc i" c n] by (simp add: mult.commute)

lemma copy_out_in_same:
  "off + length bs \<le> length buf \<Longrightarrow> n = length bs \<Longrightarrow> copy_out (copy_in buf off bs) off n = bs"
  by (simp add: copy_out_def copy_in_def)

lemma copy_out_in_other:
  assumes "off + length bs \<le> length buf" and "q + n \<le> off \<or> off + length bs \<le> q"
  shows "copy_out (copy_in buf off bs) q n = copy_out buf q n"
proof (rule nth_equalityI)
  have len: "length (copy_in buf off bs) = length buf" using assms(1) by (simp add: copy_in_def)
  then show "length (copy_out (copy_in buf off bs) q n) = length (copy_out buf q n)"
    by (simp add: copy_out_def)
  fix i assume "i < length (copy_out (copy_in buf off bs) q n)"
  with len have i: "i < n" "q + i < length buf" by (auto simp: copy_out_def)
  have "copy_in buf off bs ! (q + i) = buf ! (q + i)"
    using assms i by (auto simp: copy_in_def nth_append)
  then show "copy_out (copy_in buf off bs) q n ! i = copy_out buf q n ! i"
    using i len by (simp add: copy_out_def)
qed

text \<open>Different slots do not overlap.\<close>

lemma ring_index_neq:
  assumes "i < j" "j < c" "h < (c :: nat)" shows "(h + i) mod c \<noteq> (h + j) mod c"
proof
  assume eq: "(h + i) mod c = (h + j) mod c"
  have "((h + j) - (h + i)) mod c = 0"
    using mod_eq_dvd_iff_nat[of "h + i" "h + j" c] eq assms(1) by (metis add_le_cancel_left
        dvd_imp_mod_0 less_imp_le)
  moreover have "(h + j) - (h + i) = j - i" by simp
  ultimately show False using assms by simp
qed

lemma slots_apart: "a \<noteq> b \<Longrightarrow> b * n + n \<le> a * n \<or> a * n + n \<le> b * (n :: nat)"
  using mult_le_mono1[of "Suc b" a n] mult_le_mono1[of "Suc a" b n] by fastforce

lemma push_slot_old:
  assumes ok: "ring_ok ch" and room: "ch_len ch < capacity ch" and len: "length bs = elem_size ch"
    and i: "i < ch_len ch"
  shows "slot (mt_chan_buffer_push bs ch) i = slot ch i"
proof -
  have "(ch_head ch + i) mod capacity ch \<noteq> ch_tail ch"
    using ring_index_neq[OF i room] ok room by (auto simp: ring_ok_def)
  moreover have "ch_tail ch < capacity ch" using ok room by (auto simp: ring_ok_def)
  then have "ch_tail ch * elem_size ch + elem_size ch \<le> length (ch_buffer ch)"
    using slot_bound[of "ch_tail ch" "capacity ch" "elem_size ch"] ok by (simp add: ring_ok_def)
  ultimately show ?thesis
    using slots_apart[of "(ch_head ch + i) mod capacity ch" "ch_tail ch" "elem_size ch"]
    by (auto simp: slot_def mt_chan_buffer_push_def len intro!: copy_out_in_other)
qed

lemma push_slot_new:
  assumes ok: "ring_ok ch" and room: "ch_len ch < capacity ch" and len: "length bs = elem_size ch"
  shows "slot (mt_chan_buffer_push bs ch) (ch_len ch) = bs"
proof -
  have t: "ch_tail ch < capacity ch" "(ch_head ch + ch_len ch) mod capacity ch = ch_tail ch"
    using ok room by (auto simp: ring_ok_def)
  then have "ch_tail ch * elem_size ch + elem_size ch \<le> length (ch_buffer ch)"
    using slot_bound[of "ch_tail ch" "capacity ch" "elem_size ch"] ok by (simp add: ring_ok_def)
  with t show ?thesis by (simp add: slot_def mt_chan_buffer_push_def len copy_out_in_same)
qed

lemma push_content:
  assumes "ring_ok ch" and "ch_len ch < capacity ch" and "length bs = elem_size ch"
  shows "ring_content (mt_chan_buffer_push bs ch) = ring_content ch @ [bs]"
proof -
  have l: "ch_len (mt_chan_buffer_push bs ch) = Suc (ch_len ch)" by (simp add: mt_chan_buffer_push_def)
  show ?thesis
    unfolding ring_content_def l by (simp add: push_slot_new assms) (simp add: push_slot_old assms)
qed

lemma push_ring_ok:
  assumes ok: "ring_ok ch" and room: "ch_len ch < capacity ch" and len: "length bs = elem_size ch"
  shows "ring_ok (mt_chan_buffer_push bs ch)"
proof -
  have "ch_tail ch < capacity ch" using ok room by (auto simp: ring_ok_def)
  then have "ch_tail ch * elem_size ch + elem_size ch \<le> length (ch_buffer ch)"
    using slot_bound[of "ch_tail ch" "capacity ch" "elem_size ch"] ok by (simp add: ring_ok_def)
  with ok room len show ?thesis
    by (auto simp: ring_ok_def mt_chan_buffer_push_def copy_in_def mod_Suc_eq)
qed

lemma pop_content:
  assumes "ring_ok ch" and "0 < ch_len ch"
  shows "ring_content ch = fst (mt_chan_buffer_pop ch) # ring_content (snd (mt_chan_buffer_pop ch))"
proof -
  obtain n where n: "ch_len ch = Suc n" using assms(2) by (cases "ch_len ch") auto
  then have c: "0 < capacity ch" "ch_head ch < capacity ch" using assms(1) by (auto simp: ring_ok_def)
  have s0: "slot ch 0 = fst (mt_chan_buffer_pop ch)"
    using c by (simp add: slot_def mt_chan_buffer_pop_def)
  have "slot (snd (mt_chan_buffer_pop ch)) i = slot ch (Suc i)" for i
    by (simp add: slot_def mt_chan_buffer_pop_def mod_simps)
  then show ?thesis
    using n by (simp add: ring_content_def s0 upt_conv_Cons map_Suc_upt[symmetric] del: upt_Suc)
      (simp add: mt_chan_buffer_pop_def)
qed

lemma pop_ring_ok:
  assumes "ring_ok ch" and "0 < ch_len ch" shows "ring_ok (snd (mt_chan_buffer_pop ch))"
proof -
  obtain n where "ch_len ch = Suc n" using assms(2) by (cases "ch_len ch") auto
  with assms(1) show ?thesis by (auto simp: ring_ok_def mt_chan_buffer_pop_def mod_simps)
qed

interpretation ring: bounded_fifo mt_chan_buffer_push mt_chan_buffer_pop ring_ok
  "\<lambda>ch bs. length bs = elem_size ch" capacity ring_content
proof
  show "ring_ok ch \<Longrightarrow> length (ring_content ch) \<le> capacity ch" for ch by (simp add: ring_ok_def)
  show "ring_ok ch \<Longrightarrow> length bs = elem_size ch \<Longrightarrow> length (ring_content ch) < capacity ch \<Longrightarrow>
      ring_ok (mt_chan_buffer_push bs ch) \<and>
      ring_content (mt_chan_buffer_push bs ch) = ring_content ch @ [bs]" for ch bs
    by (simp add: push_ring_ok push_content)
  show "\<exists>b'. mt_chan_buffer_pop ch = (v, b') \<and> ring_ok b' \<and> ring_content b' = vs"
    if "ring_ok ch" "ring_content ch = v # vs" for ch v vs
  proof -
    have "0 < ch_len ch" using arg_cong[OF that(2), of length] by simp
    with pop_content[OF that(1)] pop_ring_ok[OF that(1)] that(2) show ?thesis
      by (cases "mt_chan_buffer_pop ch") auto
  qed
qed (simp_all add: mt_chan_buffer_push_def mt_chan_buffer_pop_def)

end
