(* ===== verification/Timer_Heap.thy ===== *)
theory Timer_Heap
  imports MT_Types
begin

text \<open>
  The array heap of \<^verbatim>\<open>src/timer.c\<close>: the comparison \<^verbatim>\<open>mt_timer_less\<close>, the two sift loops and
  what push, pop and remove do to the array of task pointers.

  The locale \<open>timer_order\<close> is what the heap relies on of the comparison. The locale
  \<open>timer_queue\<close> is the contract the scheduler relies on: a pop returns a task that no other task
  precedes, and push, pop and remove change the collection by exactly one task.
\<close>

section \<open>Interfaces\<close>

text \<open>A strict weak order: irreflexive, transitive, and incomparability is transitive too.\<close>

locale timer_order =
  fixes lt :: "'a \<Rightarrow> 'a \<Rightarrow> bool"
  assumes lt_irrefl: "\<not> lt a a"
    and lt_trans: "lt a b \<Longrightarrow> lt b c \<Longrightarrow> lt a c"
    and lt_weak: "lt a c \<Longrightarrow> lt a b \<or> lt b c"
begin

lemma lt_asym: "lt a b \<Longrightarrow> \<not> lt b a"
  using lt_irrefl lt_trans by blast

lemma not_lt_trans: "\<not> lt b a \<Longrightarrow> \<not> lt c b \<Longrightarrow> \<not> lt c a"
  using lt_weak by blast

end

locale timer_queue = timer_order lt
  for lt :: "'a \<Rightarrow> 'a \<Rightarrow> bool" +
  fixes push :: "'a list \<Rightarrow> 'a \<Rightarrow> 'a list"
    and pop :: "'a list \<Rightarrow> ('a \<times> 'a list) option"
    and remove :: "'a list \<Rightarrow> 'a \<Rightarrow> 'a list option"
    and inv :: "'a list \<Rightarrow> bool"
  assumes inv_Nil: "inv []"
    and inv_push: "inv xs \<Longrightarrow> inv (push xs x)"
    and mset_push: "inv xs \<Longrightarrow> mset (push xs x) = add_mset x (mset xs)"
    and pop_None: "pop xs = None \<longleftrightarrow> xs = []"
    and pop_Some: "inv xs \<Longrightarrow> pop xs = Some (x, ys) \<Longrightarrow>
          inv ys \<and> mset xs = add_mset x (mset ys) \<and> (\<forall>y \<in> set xs. \<not> lt y x)"
    and remove_None: "remove xs x = None \<longleftrightarrow> x \<notin> set xs"
    and remove_Some: "inv xs \<Longrightarrow> remove xs x = Some ys \<Longrightarrow>
          inv ys \<and> mset xs = add_mset x (mset ys)"
begin

text \<open>Popping \<open>n\<close> times: the elements come out in order.\<close>

primrec pop_seq :: "nat \<Rightarrow> 'a list \<Rightarrow> 'a list" where
  "pop_seq 0 xs = []"
| "pop_seq (Suc n) xs = (case pop xs of None \<Rightarrow> [] | Some (x, ys) \<Rightarrow> x # pop_seq n ys)"

lemma pop_seq_mset: "inv xs \<Longrightarrow> mset (pop_seq (length xs) xs) = mset xs"
proof (induction "length xs" arbitrary: xs)
  case 0
  then show ?case by simp
next
  case (Suc n)
  then obtain x ys where p: "pop xs = Some (x, ys)"
    using pop_None by (cases "pop xs") auto
  have y: "inv ys" "mset xs = add_mset x (mset ys)" using pop_Some[OF Suc.prems p] by auto
  then have "length ys = n"
    using Suc.hyps(2) by (metis nat.inject size_add_mset size_mset)
  with Suc.hyps y p show ?case by (metis list.size(4) mset.simps(2) option.simps(5) pop_seq.simps(2)
        prod.simps(2))
qed

lemma pop_seq_sorted: "inv xs \<Longrightarrow> sorted_wrt (\<lambda>a b. \<not> lt b a) (pop_seq n xs)"
proof (induction n arbitrary: xs)
  case 0
  then show ?case by simp
next
  case (Suc n)
  show ?case
  proof (cases "pop xs")
    case None
    then show ?thesis by simp
  next
    case (Some p)
    then obtain x ys where p: "pop xs = Some (x, ys)" by (cases p) auto
    have y: "inv ys" "mset xs = add_mset x (mset ys)" "\<forall>y \<in> set xs. \<not> lt y x"
      using pop_Some[OF Suc.prems p] by auto
    have sub: "set (pop_seq n zs) \<subseteq> set zs" if "inv zs" for zs
      using that
    proof (induction n arbitrary: zs)
      case (Suc n)
      show ?case
      proof (cases "pop zs")
        case (Some q)
        then obtain z us where q: "pop zs = Some (z, us)" by (cases q) auto
        from pop_Some[OF Suc.prems q] have "inv us" "set zs = insert z (set us)"
          by (auto dest: mset_eq_setD simp flip: set_mset_mset)
        with Suc.IH[of us] q show ?thesis by auto
      qed simp
    qed simp
    have "set ys \<subseteq> set xs" using y(2) by (metis set_mset_add_mset_insert set_mset_mset subset_insertI)
    with sub[OF y(1)] y(3) Suc.IH[OF y(1)] p show ?thesis by auto
  qed
qed

end

section \<open>The comparison\<close>

definition mt_timer_less :: "(tptr \<Rightarrow> mt_task) \<Rightarrow> tptr \<Rightarrow> tptr \<Rightarrow> bool" where
  "mt_timer_less m a b =
     (if wake_ns (m a) \<noteq> wake_ns (m b) then wake_ns (m a) < wake_ns (m b)
      else timer_seq (m a) < timer_seq (m b))"

definition timer_key :: "(tptr \<Rightarrow> mt_task) \<Rightarrow> tptr \<Rightarrow> u64 \<times> u64" where
  "timer_key m t = (wake_ns (m t), timer_seq (m t))"

lemma mt_timer_less_key: "mt_timer_less m a b \<longleftrightarrow> timer_key m a < timer_key m b"
  by (auto simp: mt_timer_less_def timer_key_def less_prod_def)

interpretation tord: timer_order "mt_timer_less m" for m
  by unfold_locales (auto simp: mt_timer_less_key)

section \<open>The sift loops\<close>

definition heap_parent :: "nat \<Rightarrow> nat" where
  "heap_parent i = (i - 1) div 2"

lemma heap_parent_less [simp]: "0 < i \<Longrightarrow> heap_parent i < i"
  by (auto simp: heap_parent_def)

lemma heap_parent_neq [simp]: "0 < i \<Longrightarrow> heap_parent i \<noteq> i" "0 < i \<Longrightarrow> i \<noteq> heap_parent i"
  by (auto simp: heap_parent_def)

lemma heap_parent_le [simp]: "heap_parent i \<le> i"
  by (auto simp: heap_parent_def)

lemma heap_parent_bound [simp]: "i < n \<Longrightarrow> heap_parent i < n"
  using heap_parent_le le_less_trans by blast

lemma heap_parent_child [simp]: "heap_parent (i * 2 + 1) = i" "heap_parent (i * 2 + 2) = i"
  "heap_parent (Suc (i * 2)) = i" "heap_parent (Suc (Suc (i * 2))) = i"
  by (auto simp: heap_parent_def)

lemma heap_child_cases:
  "0 < j \<Longrightarrow> heap_parent j = i \<Longrightarrow> j = i * 2 + 1 \<or> j = i * 2 + 2"
  by (auto simp: heap_parent_def)

definition mt_timer_swap :: "'a list \<Rightarrow> nat \<Rightarrow> nat \<Rightarrow> 'a list" where
  "mt_timer_swap xs a b = xs[a := xs ! b, b := xs ! a]"

lemma length_timer_swap [simp]: "length (mt_timer_swap xs a b) = length xs"
  by (simp add: mt_timer_swap_def)

function timer_sift_up :: "('a \<Rightarrow> 'a \<Rightarrow> bool) \<Rightarrow> 'a list \<Rightarrow> nat \<Rightarrow> 'a list \<times> nat" where
  "timer_sift_up lt xs i =
     (if i > 0 then
        let parent = heap_parent i in
        if \<not> lt (xs ! i) (xs ! parent) then (xs, i)
        else timer_sift_up lt (mt_timer_swap xs i parent) parent
      else (xs, i))"
  by pat_completeness auto
termination
  by (relation "measure (\<lambda>(_, _, i). i)") auto

definition timer_smallest :: "('a \<Rightarrow> 'a \<Rightarrow> bool) \<Rightarrow> 'a list \<Rightarrow> nat \<Rightarrow> nat" where
  "timer_smallest lt xs i =
     (let left = i * 2 + 1; right = left + 1; smallest = i;
          smallest = (if left < length xs \<and> lt (xs ! left) (xs ! smallest) then left else smallest);
          smallest = (if right < length xs \<and> lt (xs ! right) (xs ! smallest) then right
                      else smallest)
      in smallest)"

lemma timer_smallest_cases:
  "timer_smallest lt xs i = i \<or>
   (i < timer_smallest lt xs i \<and> timer_smallest lt xs i < length xs \<and>
    heap_parent (timer_smallest lt xs i) = i)"
  by (auto simp: timer_smallest_def Let_def)

function timer_sift_down :: "('a \<Rightarrow> 'a \<Rightarrow> bool) \<Rightarrow> 'a list \<Rightarrow> nat \<Rightarrow> 'a list" where
  "timer_sift_down lt xs i =
     (let smallest = timer_smallest lt xs i in
      if smallest = i then xs
      else timer_sift_down lt (mt_timer_swap xs i smallest) smallest)"
  by pat_completeness auto
termination
proof (relation "measure (\<lambda>(_, xs, i). length xs - i)")
  fix lt and xs :: "'a list" and i smallest :: nat
  assume "smallest = timer_smallest lt xs i" and "smallest \<noteq> i"
  then have "i < smallest" "smallest < length xs" using timer_smallest_cases by metis+
  then show "((lt, mt_timer_swap xs i smallest, smallest), lt, xs, i)
      \<in> measure (\<lambda>(_, xs, i). length xs - i)" by simp
qed simp

declare timer_sift_up.simps [simp del] timer_sift_down.simps [simp del]

section \<open>Push, pop and remove on the array\<close>

definition heap_push :: "('a \<Rightarrow> 'a \<Rightarrow> bool) \<Rightarrow> 'a list \<Rightarrow> 'a \<Rightarrow> 'a list" where
  "heap_push lt xs x = fst (timer_sift_up lt (xs @ [x]) (length xs))"

definition heap_pop :: "('a \<Rightarrow> 'a \<Rightarrow> bool) \<Rightarrow> 'a list \<Rightarrow> ('a \<times> 'a list) option" where
  "heap_pop lt xs =
     (if length xs = 0 then None
      else let top = xs ! 0; rest = butlast xs in
           if length rest > 0
           then Some (top, timer_sift_down lt (rest[0 := xs ! length rest]) 0)
           else Some (top, rest))"

text \<open>The index the search loop of \<^verbatim>\<open>mt_timer_remove\<close> stops at.\<close>

fun find_index :: "'a list \<Rightarrow> 'a \<Rightarrow> nat \<Rightarrow> nat option" where
  "find_index [] x i = None"
| "find_index (y # ys) x i = (if y = x then Some i else find_index ys x (i + 1))"

definition heap_remove_at :: "('a \<Rightarrow> 'a \<Rightarrow> bool) \<Rightarrow> 'a list \<Rightarrow> nat \<Rightarrow> 'a list" where
  "heap_remove_at lt xs i =
     (let rest = butlast xs in
      if i \<noteq> length rest
      then let (ys, j) = timer_sift_up lt (rest[i := xs ! length rest]) i
           in timer_sift_down lt ys j
      else rest)"

definition heap_remove :: "('a \<Rightarrow> 'a \<Rightarrow> bool) \<Rightarrow> 'a list \<Rightarrow> 'a \<Rightarrow> 'a list option" where
  "heap_remove lt xs x = map_option (heap_remove_at lt xs) (find_index xs x 0)"

section \<open>The heap property\<close>

definition is_heap :: "('a \<Rightarrow> 'a \<Rightarrow> bool) \<Rightarrow> 'a list \<Rightarrow> bool" where
  "is_heap lt xs \<longleftrightarrow> (\<forall>j < length xs. 0 < j \<longrightarrow> \<not> lt (xs ! j) (xs ! (heap_parent j)))"

text \<open>
  While an element is out of place, the order may fail at that element only. \<open>heap_up\<close> allows a
  violation against its parent, \<open>heap_down\<close> against its children; both ask its parent to precede
  its children.
\<close>

definition heap_up :: "('a \<Rightarrow> 'a \<Rightarrow> bool) \<Rightarrow> 'a list \<Rightarrow> nat \<Rightarrow> bool" where
  "heap_up lt xs i \<longleftrightarrow>
     (\<forall>j < length xs. 0 < j \<longrightarrow> j \<noteq> i \<longrightarrow> \<not> lt (xs ! j) (xs ! (heap_parent j))) \<and>
     (\<forall>j < length xs. 0 < j \<longrightarrow> 0 < i \<longrightarrow> heap_parent j = i \<longrightarrow> \<not> lt (xs ! j) (xs ! (heap_parent i)))"

definition heap_down :: "('a \<Rightarrow> 'a \<Rightarrow> bool) \<Rightarrow> 'a list \<Rightarrow> nat \<Rightarrow> bool" where
  "heap_down lt xs i \<longleftrightarrow>
     (\<forall>j < length xs. 0 < j \<longrightarrow> heap_parent j \<noteq> i \<longrightarrow> \<not> lt (xs ! j) (xs ! (heap_parent j))) \<and>
     (\<forall>j < length xs. 0 < j \<longrightarrow> 0 < i \<longrightarrow> heap_parent j = i \<longrightarrow> \<not> lt (xs ! j) (xs ! (heap_parent i)))"

lemma nth_timer_swap:
  "a < length xs \<Longrightarrow> b < length xs \<Longrightarrow>
   mt_timer_swap xs a b ! k = (if k = a then xs ! b else if k = b then xs ! a else xs ! k)"
  by (auto simp: mt_timer_swap_def nth_list_update)

lemma mset_timer_swap: "a < length xs \<Longrightarrow> b < length xs \<Longrightarrow> mset (mt_timer_swap xs a b) = mset xs"
  by (simp add: mt_timer_swap_def mset_swap_nth)

lemma length_sift_up [simp]: "length (fst (timer_sift_up lt xs i)) = length xs"
proof (induction lt xs i rule: timer_sift_up.induct)
  case (1 lt xs i)
  then show ?case by (subst timer_sift_up.simps) (simp add: Let_def)
qed

lemma length_sift_down [simp]: "length (timer_sift_down lt xs i) = length xs"
proof (induction lt xs i rule: timer_sift_down.induct)
  case (1 lt xs i)
  then show ?case by (subst timer_sift_down.simps) (simp add: Let_def)
qed

lemma sift_up_index: "snd (timer_sift_up lt xs i) \<le> i"
proof (induction lt xs i rule: timer_sift_up.induct)
  case (1 lt xs i)
  then show ?case
    by (subst timer_sift_up.simps) (auto simp: Let_def intro: order_trans[OF _ heap_parent_le])
qed

lemma mset_sift_up: "i < length xs \<Longrightarrow> mset (fst (timer_sift_up lt xs i)) = mset xs"
proof (induction lt xs i rule: timer_sift_up.induct)
  case (1 lt xs i)
  show ?case
  proof (cases "i > 0 \<and> lt (xs ! i) (xs ! (heap_parent i))")
    case True
    then have "mset (fst (timer_sift_up lt (mt_timer_swap xs i (heap_parent i)) (heap_parent i))) = mset xs"
      using 1 by (simp add: mset_timer_swap)
    with True show ?thesis by (subst timer_sift_up.simps) (simp add: Let_def)
  next
    case False
    then show ?thesis by (subst timer_sift_up.simps) (auto simp: Let_def)
  qed
qed

lemma mset_sift_down: "i < length xs \<Longrightarrow> mset (timer_sift_down lt xs i) = mset xs"
proof (induction lt xs i rule: timer_sift_down.induct)
  case (1 lt xs i)
  show ?case
  proof (cases "timer_smallest lt xs i = i")
    case True
    then show ?thesis by (subst timer_sift_down.simps) simp
  next
    case False
    then have "timer_smallest lt xs i < length xs" using timer_smallest_cases by metis
    with False 1 show ?thesis
      by (subst timer_sift_down.simps) (simp add: Let_def mset_timer_swap)
  qed
qed

section \<open>The loops restore the order\<close>

context timer_order
begin

lemma smallest_eq:
  assumes "timer_smallest lt xs i = i" and "j < length xs" "0 < j" "heap_parent j = i"
  shows "\<not> lt (xs ! j) (xs ! i)"
  using heap_child_cases[OF assms(3,4)] assms(1,2)
  by (auto simp: timer_smallest_def Let_def split: if_splits)

lemma smallest_less:
  assumes "timer_smallest lt xs i = m" and "m \<noteq> i"
  shows "lt (xs ! m) (xs ! i)"
proof -
  have "lt (xs ! (i * 2 + 2)) (xs ! i)"
    if "lt (xs ! (i * 2 + 2)) (xs ! (i * 2 + 1))" "lt (xs ! (i * 2 + 1)) (xs ! i)"
    using that lt_trans by blast
  with assms show ?thesis by (auto simp: timer_smallest_def Let_def split: if_splits)
qed

lemma smallest_least:
  assumes m: "timer_smallest lt xs i = m" "m \<noteq> i" and j: "j < length xs" "0 < j" "heap_parent j = i"
  shows "\<not> lt (xs ! j) (xs ! m)"
proof -
  have "\<not> lt (xs ! (i * 2 + 1)) (xs ! (i * 2 + 2))" if "lt (xs ! (i * 2 + 2)) (xs ! (i * 2 + 1))"
    using that by (rule lt_asym)
  moreover have "\<not> lt (xs ! (i * 2 + 1)) (xs ! (i * 2 + 2))"
    if "\<not> lt (xs ! (i * 2 + 1)) (xs ! i)" "lt (xs ! (i * 2 + 2)) (xs ! i)"
    using that lt_trans by blast
  ultimately show ?thesis
    using heap_child_cases[OF j(2,3)] j(1) m lt_irrefl
    by (auto simp: timer_smallest_def Let_def split: if_splits)
qed

lemma heap_up_step:
  assumes h: "heap_up lt xs i" and i: "i < length xs" "0 < i" and p: "p = heap_parent i"
    and l: "lt (xs ! i) (xs ! p)"
  shows "heap_up lt (mt_timer_swap xs i p) p"
proof -
  have pi: "p < i" "p < length xs" using i p by (auto intro: less_trans)
  note nth = nth_timer_swap[OF i(1) pi(2)]
  have ord: "\<not> lt (xs ! j) (xs ! heap_parent j)" if "j < length xs" "0 < j" "j \<noteq> i" for j
    using h that by (simp add: heap_up_def)
  have grand: "\<not> lt (xs ! j) (xs ! p)" if "j < length xs" "0 < j" "heap_parent j = i" for j
    using h that i p by (simp add: heap_up_def)
  have "\<not> lt (mt_timer_swap xs i p ! j) (mt_timer_swap xs i p ! heap_parent j)"
    if j: "j < length xs" "0 < j" "j \<noteq> p" for j
  proof (cases "j = i")
    case True
    with lt_asym[OF l] p[symmetric] pi show ?thesis by (simp add: nth)
  next
    case False
    consider "heap_parent j = i" | "heap_parent j = p" | "heap_parent j \<noteq> i" "heap_parent j \<noteq> p" by auto
    then show ?thesis
    proof cases
      case 1 with False j grand show ?thesis by (simp add: nth)
    next
      case 2
      have "\<not> lt (xs ! j) (xs ! i)" using ord[OF j(1,2) False] 2 l lt_trans by auto
      with 2 False j pi show ?thesis by (simp add: nth)
    next
      case 3 with False j ord show ?thesis by (simp add: nth)
    qed
  qed
  moreover have "\<not> lt (mt_timer_swap xs i p ! j) (mt_timer_swap xs i p ! heap_parent p)"
    if j: "j < length xs" "0 < j" "0 < p" "heap_parent j = p" for j
  proof -
    have pp: "heap_parent p < p" using j(3) by simp
    have a: "\<not> lt (xs ! p) (xs ! heap_parent p)" using ord[of p] pi j(3) by simp
    have "j \<noteq> p" using j(2,4) by auto
    moreover have "\<not> lt (xs ! j) (xs ! heap_parent p)" if "j \<noteq> i"
      using ord[OF j(1,2) that] j(4) not_lt_trans[OF a] by simp
    ultimately show ?thesis using a pp pi by (auto simp: nth)
  qed
  ultimately show ?thesis by (simp add: heap_up_def)
qed

lemma sift_up_heap:
  "heap_up lt xs i \<Longrightarrow> i < length xs \<Longrightarrow> is_heap lt (fst (timer_sift_up lt xs i))"
proof (induction i arbitrary: xs rule: less_induct)
  case (less i)
  show ?case
  proof (cases "0 < i \<and> lt (xs ! i) (xs ! heap_parent i)")
    case True
    with less.prems have "heap_up lt (mt_timer_swap xs i (heap_parent i)) (heap_parent i)"
      by (intro heap_up_step) auto
    with True less.IH[of "heap_parent i" "mt_timer_swap xs i (heap_parent i)"] less.prems(2)
    show ?thesis
      by (subst timer_sift_up.simps) (auto simp: Let_def intro: less_trans)
  next
    case False
    then have "fst (timer_sift_up lt xs i) = xs"
      by (subst timer_sift_up.simps) (auto simp: Let_def)
    with False less.prems show ?thesis by (auto simp: is_heap_def heap_up_def)
  qed
qed

lemma heap_down_step:
  assumes h: "heap_down lt xs i" and i: "i < length xs"
    and m: "timer_smallest lt xs i = m" "m \<noteq> i"
  shows "heap_down lt (mt_timer_swap xs i m) m"
proof -
  have mi: "i < m" "m < length xs" "heap_parent m = i"
    using timer_smallest_cases[of lt xs i] m by auto
  note nth = nth_timer_swap[OF i mi(2)]
  have ord: "\<not> lt (xs ! j) (xs ! heap_parent j)" if "j < length xs" "0 < j" "heap_parent j \<noteq> i" for j
    using h that by (simp add: heap_down_def)
  have grand: "\<not> lt (xs ! m) (xs ! heap_parent i)" if "0 < i"
    using h that mi by (simp add: heap_down_def)
  have "\<not> lt (mt_timer_swap xs i m ! j) (mt_timer_swap xs i m ! heap_parent j)"
    if j: "j < length xs" "0 < j" "heap_parent j \<noteq> m" for j
  proof -
    consider "heap_parent j = i" "j = m" | "heap_parent j = i" "j \<noteq> m" | "j = i"
      | "heap_parent j \<noteq> i" "j \<noteq> i" by auto
    then show ?thesis
    proof cases
      case 1 with mi smallest_less[OF m] show ?thesis by (auto simp: nth dest: lt_asym)
    next
      case 2
      then have "j \<noteq> i" using j(2) by auto
      with 2 smallest_least[OF m j(1,2)] show ?thesis by (simp add: nth)
    next
      case 3 with j grand show ?thesis by (simp add: nth)
    next
      case 4 with j mi ord show ?thesis by (auto simp: nth)
    qed
  qed
  moreover have "\<not> lt (mt_timer_swap xs i m ! j) (mt_timer_swap xs i m ! heap_parent m)"
    if j: "j < length xs" "0 < j" "heap_parent j = m" for j
  proof -
    have "m < j" using heap_parent_less[OF j(2)] j(3) by simp
    with ord[OF j(1,2)] j mi m show ?thesis by (auto simp: nth)
  qed
  ultimately show ?thesis by (simp add: heap_down_def)
qed

lemma sift_down_heap:
  "heap_down lt xs i \<Longrightarrow> i < length xs \<Longrightarrow> is_heap lt (timer_sift_down lt xs i)"
proof (induction "length xs - i" arbitrary: xs i rule: less_induct)
  case less
  show ?case
  proof (cases "timer_smallest lt xs i = i")
    case True
    then have "timer_sift_down lt xs i = xs" by (subst timer_sift_down.simps) simp
    moreover have "is_heap lt xs"
      using less.prems(1) smallest_eq[OF True] by (auto simp: is_heap_def heap_down_def)
    ultimately show ?thesis by simp
  next
    case False
    let ?m = "timer_smallest lt xs i"
    have m: "i < ?m" "?m < length xs" using timer_smallest_cases[of lt xs i] False by auto
    have "is_heap lt (timer_sift_down lt (mt_timer_swap xs i ?m) ?m)"
      using less.hyps[of "mt_timer_swap xs i ?m" ?m] heap_down_step[OF less.prems refl False] m
      by simp
    with False show ?thesis by (subst timer_sift_down.simps) (simp add: Let_def)
  qed
qed

lemma sift_down_id: "is_heap lt xs \<Longrightarrow> timer_sift_down lt xs i = xs"
proof -
  assume h: "is_heap lt xs"
  have "timer_smallest lt xs i = i"
  proof (rule ccontr)
    assume ne: "timer_smallest lt xs i \<noteq> i"
    then have "timer_smallest lt xs i < length xs" "0 < timer_smallest lt xs i"
      "heap_parent (timer_smallest lt xs i) = i"
      using timer_smallest_cases[of lt xs i] by auto
    with h smallest_less[OF refl ne] show False by (metis is_heap_def)
  qed
  then show ?thesis by (subst timer_sift_down.simps) simp
qed

lemma heap_root_least: "is_heap lt xs \<Longrightarrow> j < length xs \<Longrightarrow> \<not> lt (xs ! j) (xs ! 0)"
proof (induction j rule: less_induct)
  case (less j)
  show ?case
  proof (cases "j = 0")
    case True
    then show ?thesis by (simp add: lt_irrefl)
  next
    case False
    then have "\<not> lt (xs ! heap_parent j) (xs ! 0)"
      using less by (auto intro: less_trans)
    moreover have "\<not> lt (xs ! j) (xs ! heap_parent j)" using less.prems False by (simp add: is_heap_def)
    ultimately show ?thesis using not_lt_trans by blast
  qed
qed

lemma heap_push_heap: "is_heap lt xs \<Longrightarrow> is_heap lt (heap_push lt xs x)"
proof -
  assume h: "is_heap lt xs"
  have "heap_up lt (xs @ [x]) (length xs)"
  proof -
    have "\<not> lt ((xs @ [x]) ! j) ((xs @ [x]) ! heap_parent j)"
      if "j < length (xs @ [x])" "0 < j" "j \<noteq> length xs" for j
      using h that by (auto simp: is_heap_def nth_append)
    moreover have "heap_parent j \<noteq> length xs" if "j < length (xs @ [x])" "0 < j" for j
      using that heap_parent_less[OF that(2)] by auto
    ultimately show ?thesis by (auto simp: heap_up_def)
  qed
  then show ?thesis by (simp add: heap_push_def sift_up_heap)
qed

text \<open>
  Overwriting the element at \<open>i\<close> of a heap may break the order between \<open>i\<close> and its parent or
  between \<open>i\<close> and its children, never elsewhere. Sifting up and then down repairs both.
\<close>

definition heap_mid :: "'a list \<Rightarrow> nat \<Rightarrow> bool" where
  "heap_mid xs i \<longleftrightarrow>
     (\<forall>j < length xs. 0 < j \<longrightarrow> j \<noteq> i \<longrightarrow> heap_parent j \<noteq> i \<longrightarrow> \<not> lt (xs ! j) (xs ! heap_parent j)) \<and>
     (\<forall>j < length xs. 0 < j \<longrightarrow> 0 < i \<longrightarrow> heap_parent j = i \<longrightarrow> \<not> lt (xs ! j) (xs ! heap_parent i))"

lemma heap_mid_update:
  assumes h: "is_heap lt xs" and i: "i < length xs"
  shows "heap_mid (xs[i := v]) i"
proof -
  have "\<not> lt (xs ! j) (xs ! heap_parent i)" "j \<noteq> i"
    if "j < length xs" "0 < j" "0 < i" "heap_parent j = i" for j
  proof -
    have "\<not> lt (xs ! j) (xs ! i)" "\<not> lt (xs ! i) (xs ! heap_parent i)"
      using h that i by (auto simp: is_heap_def)
    then show "\<not> lt (xs ! j) (xs ! heap_parent i)" using not_lt_trans by blast
    show "j \<noteq> i" using that by auto
  qed
  with h show ?thesis by (auto simp: heap_mid_def is_heap_def nth_list_update)
qed

lemma heap_mid_up:
  assumes "heap_mid xs i" and "0 < i" and l: "lt (xs ! i) (xs ! heap_parent i)"
  shows "heap_up lt xs i"
proof -
  have "\<not> lt (xs ! j) (xs ! i)" if "j < length xs" "0 < j" "heap_parent j = i" for j
    using assms that lt_trans[of "xs ! j" "xs ! i" "xs ! heap_parent i"]
    by (auto simp: heap_mid_def)
  with assms show ?thesis unfolding heap_up_def heap_mid_def by metis
qed

lemma heap_mid_down:
  assumes "heap_mid xs i" and "\<not> (0 < i \<and> lt (xs ! i) (xs ! heap_parent i))"
  shows "heap_down lt xs i"
  using assms unfolding heap_down_def heap_mid_def by metis

lemma heap_mid_repair:
  assumes "heap_mid xs i" and i: "i < length xs"
  shows "is_heap lt (timer_sift_down lt (fst (timer_sift_up lt xs i)) (snd (timer_sift_up lt xs i)))"
    (is "?heap")
    and "mset (timer_sift_down lt (fst (timer_sift_up lt xs i)) (snd (timer_sift_up lt xs i))) = mset xs"
    (is "?mset")
proof -
  show ?heap
  proof (cases "0 < i \<and> lt (xs ! i) (xs ! heap_parent i)")
    case True
    with assms have "is_heap lt (fst (timer_sift_up lt xs i))"
      by (intro sift_up_heap heap_mid_up) auto
    then show ?thesis by (simp add: sift_down_id)
  next
    case False
    then have "timer_sift_up lt xs i = (xs, i)"
      by (subst timer_sift_up.simps) (auto simp: Let_def)
    with heap_mid_down[OF assms(1) False] i show ?thesis by (simp add: sift_down_heap)
  qed
  have "snd (timer_sift_up lt xs i) < length xs" using sift_up_index i le_less_trans by metis
  then show ?mset using i by (simp add: mset_sift_down mset_sift_up)
qed

lemma is_heap_prefix: "is_heap lt (xs @ ys) \<Longrightarrow> is_heap lt xs"
  unfolding is_heap_def by (metis heap_parent_bound length_append nth_append trans_less_add1)

lemma heap_pop_heap:
  assumes h: "is_heap lt xs" and p: "heap_pop lt xs = Some (x, ys)"
  shows "is_heap lt ys" and "mset xs = add_mset x (mset ys)" and "x = xs ! 0"
proof -
  obtain bs l where xs: "xs = bs @ [l]"
    using p by (cases xs rule: rev_cases) (auto simp: heap_pop_def)
  have bl: "is_heap lt bs" using h is_heap_prefix xs by blast
  have "is_heap lt ys \<and> mset xs = add_mset x (mset ys) \<and> x = xs ! 0"
  proof (cases bs)
    case Nil
    with p xs show ?thesis by (auto simp: heap_pop_def is_heap_def)
  next
    case (Cons b cs)
    then have "heap_down lt (bs[0 := l]) 0"
      by (intro heap_mid_down heap_mid_update[OF bl]) auto
    with p xs Cons show ?thesis
      by (auto simp: heap_pop_def Let_def sift_down_heap mset_sift_down)
  qed
  then show "is_heap lt ys" "mset xs = add_mset x (mset ys)" "x = xs ! 0" by auto
qed

lemma heap_remove_at_heap:
  assumes h: "is_heap lt xs" and i: "i < length xs"
  shows "is_heap lt (heap_remove_at lt xs i)"
    and "mset xs = add_mset (xs ! i) (mset (heap_remove_at lt xs i))"
proof -
  obtain bs l where xs: "xs = bs @ [l]" using i by (cases xs rule: rev_cases) auto
  have bl: "is_heap lt bs" using h is_heap_prefix xs by blast
  have "is_heap lt (heap_remove_at lt xs i) \<and>
      mset xs = add_mset (xs ! i) (mset (heap_remove_at lt xs i))"
  proof (cases "i = length bs")
    case True
    with bl show ?thesis by (simp add: heap_remove_at_def xs)
  next
    case False
    then have ib: "i < length bs" using i xs by simp
    have "mset (bs[i := l]) = add_mset l (mset bs - {#bs ! i#})" using ib by (simp add: mset_update)
    then have "mset xs = add_mset (xs ! i) (mset (bs[i := l]))" using ib xs by (simp add: nth_append)
    moreover have "heap_mid (bs[i := l]) i" using bl ib by (rule heap_mid_update)
    moreover have "heap_remove_at lt xs i = timer_sift_down lt
        (fst (timer_sift_up lt (bs[i := l]) i)) (snd (timer_sift_up lt (bs[i := l]) i))"
      using False by (simp add: heap_remove_at_def xs split_beta Let_def)
    ultimately show ?thesis using heap_mid_repair[of "bs[i := l]" i] ib by simp
  qed
  then show "is_heap lt (heap_remove_at lt xs i)"
    and "mset xs = add_mset (xs ! i) (mset (heap_remove_at lt xs i))" by auto
qed

end

lemma find_index_None: "find_index xs x k = None \<longleftrightarrow> x \<notin> set xs"
  by (induction xs arbitrary: k) auto

lemma find_index_Some:
  "find_index xs x k = Some i \<Longrightarrow> k \<le> i \<and> i - k < length xs \<and> xs ! (i - k) = x"
proof (induction xs arbitrary: k)
  case (Cons y ys)
  show ?case
  proof (cases "y = x")
    case False
    with Cons have "Suc k \<le> i \<and> i - Suc k < length ys \<and> ys ! (i - Suc k) = x" by auto
    then show ?thesis by (auto simp: nth_Cons' Suc_diff_Suc)
  qed (use Cons.prems in auto)
qed simp

lemma mset_heap_push [simp]: "mset (heap_push lt xs x) = add_mset x (mset xs)"
  by (simp add: heap_push_def mset_sift_up)

lemma set_heap_push [simp]: "set (heap_push lt xs x) = insert x (set xs)"
  using mset_heap_push[of lt xs x] by (metis set_mset_add_mset_insert set_mset_mset)

lemma heap_pop_None: "heap_pop lt xs = None \<longleftrightarrow> xs = []"
  by (auto simp: heap_pop_def Let_def)

lemma heap_remove_None: "heap_remove lt xs x = None \<longleftrightarrow> x \<notin> set xs"
  by (simp add: heap_remove_def find_index_None)

section \<open>The array meets the timer contract\<close>

interpretation theap: timer_queue "mt_timer_less m" "heap_push (mt_timer_less m)"
  "heap_pop (mt_timer_less m)" "heap_remove (mt_timer_less m)" "is_heap (mt_timer_less m)" for m
proof unfold_locales
  show "is_heap (mt_timer_less m) []" by (simp add: is_heap_def)
  show "is_heap (mt_timer_less m) xs \<Longrightarrow> is_heap (mt_timer_less m) (heap_push (mt_timer_less m) xs x)"
    for xs x by (rule tord.heap_push_heap)
  show "mset (heap_push (mt_timer_less m) xs x) = add_mset x (mset xs)" for xs x by simp
  show "heap_pop (mt_timer_less m) xs = None \<longleftrightarrow> xs = []" for xs by (rule heap_pop_None)
  show "heap_remove (mt_timer_less m) xs x = None \<longleftrightarrow> x \<notin> set xs" for xs x
    by (rule heap_remove_None)
next
  fix xs x ys assume h: "is_heap (mt_timer_less m) xs" and p: "heap_pop (mt_timer_less m) xs = Some (x, ys)"
  note pop = tord.heap_pop_heap[OF h p]
  moreover have "\<forall>y \<in> set xs. \<not> mt_timer_less m y x"
    using tord.heap_root_least[OF h] pop(3) by (metis in_set_conv_nth)
  ultimately show "is_heap (mt_timer_less m) ys \<and> mset xs = add_mset x (mset ys) \<and>
      (\<forall>y \<in> set xs. \<not> mt_timer_less m y x)" by blast
next
  fix xs x ys assume h: "is_heap (mt_timer_less m) xs" and r: "heap_remove (mt_timer_less m) xs x = Some ys"
  then obtain i where i: "find_index xs x 0 = Some i" and ys: "ys = heap_remove_at (mt_timer_less m) xs i"
    by (auto simp: heap_remove_def)
  have "i < length xs" "xs ! i = x" using find_index_Some[OF i] by auto
  with tord.heap_remove_at_heap[OF h, of i] ys
  show "is_heap (mt_timer_less m) ys \<and> mset xs = add_mset x (mset ys)" by simp
qed

end
