(* ===== verification/Intrusive_Queue.thy ===== *)
theory Intrusive_Queue
  imports MT_Prelude
begin

text \<open>
  The contract of the runtime's FIFO queues, as the locale \<open>fifo_queue\<close>, and its pointer-level
  provider: the intrusive singly linked queue that \<^verbatim>\<open>src/run_queue.c\<close> and
  \<^verbatim>\<open>src/wait_queue.c\<close> implement four times over (run queue, channel and join wait queues, select
  wait queues) with a head pointer, a tail pointer, a counter and a link field in each element.

  The elements live outside the queue and several queues share one link field (every wait queue
  of every channel and every handle links its tasks through \<^verbatim>\<open>wait_next\<close>), so besides the
  contract there is a frame property: an operation on one queue does not disturb another queue
  whose elements are different.
\<close>

section \<open>The contract\<close>

text \<open>
  \<open>rep q xs\<close> says that the queue \<open>q\<close> holds the elements \<open>xs\<close>, first element first.
  \<open>remove\<close> searches a linked structure, so it may fail to return; its law says that it returns.
\<close>

locale fifo_queue =
  fixes push :: "'q \<Rightarrow> 'a \<Rightarrow> 'q"
    and pop :: "'q \<Rightarrow> 'a option \<times> 'q"
    and remove :: "'q \<Rightarrow> 'a \<Rightarrow> (bool \<times> 'q) option"
    and rep :: "'q \<Rightarrow> 'a list \<Rightarrow> bool"
  assumes rep_distinct: "rep q xs \<Longrightarrow> distinct xs"
    and rep_push: "rep q xs \<Longrightarrow> x \<notin> set xs \<Longrightarrow> rep (push q x) (xs @ [x])"
    and pop_Nil: "rep q [] \<Longrightarrow> pop q = (None, q)"
    and pop_Cons: "rep q (x # xs) \<Longrightarrow> \<exists>q'. pop q = (Some x, q') \<and> rep q' xs"
    and remove_mem: "rep q xs \<Longrightarrow> x \<in> set xs \<Longrightarrow>
          \<exists>q'. remove q x = Some (True, q') \<and> rep q' (remove1 x xs)"
    and remove_not_mem: "rep q xs \<Longrightarrow> x \<notin> set xs \<Longrightarrow> remove q x = Some (False, q)"
begin

text \<open>Emptying the queue by \<open>n\<close> pops, and pushing a whole list.\<close>

primrec drain :: "nat \<Rightarrow> 'q \<Rightarrow> 'a list" where
  "drain 0 q = []"
| "drain (Suc n) q = (case pop q of (None, _) \<Rightarrow> [] | (Some x, q') \<Rightarrow> x # drain n q')"

primrec push_all :: "'q \<Rightarrow> 'a list \<Rightarrow> 'q" where
  "push_all q [] = q"
| "push_all q (x # xs) = push_all (push q x) xs"

lemma drain_rep: "rep q xs \<Longrightarrow> drain (length xs) q = xs"
proof (induction xs arbitrary: q)
  case Nil
  then show ?case by simp
next
  case (Cons x xs)
  from pop_Cons[OF Cons.prems] obtain q' where "pop q = (Some x, q')" and "rep q' xs" by blast
  with Cons.IH show ?case by simp
qed

lemma push_all_rep:
  "rep q xs \<Longrightarrow> distinct (xs @ ys) \<Longrightarrow> rep (push_all q ys) (xs @ ys)"
proof (induction ys arbitrary: q xs)
  case Nil
  then show ?case by simp
next
  case (Cons y ys)
  then have "rep (push q y) (xs @ [y])" by (intro rep_push) auto
  from Cons.IH[OF this] Cons.prems show ?case by simp
qed

lemma fifo_order:
  assumes "rep q xs" and "distinct (xs @ ys)"
  shows "drain (length xs + length ys) (push_all q ys) = xs @ ys"
  using drain_rep[OF push_all_rep[OF assms]] by simp

text \<open>Round robin: the first element goes to the back.\<close>

definition rotate_step :: "'q \<Rightarrow> 'q" where
  "rotate_step q = (case pop q of (None, q') \<Rightarrow> q' | (Some x, q') \<Rightarrow> push q' x)"

lemma rotate_step_rep: "rep q xs \<Longrightarrow> rep (rotate_step q) (rotate1 xs)"
proof (cases xs)
  case Nil
  assume "rep q xs"
  with Nil pop_Nil show ?thesis by (simp add: rotate_step_def)
next
  case (Cons y ys)
  assume r: "rep q xs"
  with Cons pop_Cons obtain q' where q': "pop q = (Some y, q')" "rep q' ys" by blast
  have "y \<notin> set ys" using rep_distinct[OF r] Cons by simp
  with q' Cons show ?thesis by (simp add: rotate_step_def rep_push)
qed

lemma rotate_steps_rep: "rep q xs \<Longrightarrow> rep ((rotate_step ^^ n) q) (rotate n xs)"
  by (induction n) (auto simp: rotate_def intro: rotate_step_rep)

lemma round_robin:
  assumes "rep q xs" and "xs \<noteq> []"
  shows "fst (pop ((rotate_step ^^ n) q)) = Some (xs ! (n mod length xs))"
proof -
  have "rep ((rotate_step ^^ n) q) (rotate n xs)" by (rule rotate_steps_rep[OF assms(1)])
  moreover have "rotate n xs = xs ! (n mod length xs) # tl (rotate n xs)"
    using assms(2) by (metis hd_rotate_conv_nth list.collapse rotate_is_Nil_conv)
  ultimately show ?thesis using pop_Cons by (metis fst_conv)
qed

end

section \<open>Linked structure\<close>

primrec chain :: "('a \<Rightarrow> 'a option) \<Rightarrow> 'a option \<Rightarrow> 'a list \<Rightarrow> bool" where
  "chain lnk p [] = (p = None)"
| "chain lnk p (x # xs) = (p = Some x \<and> chain lnk (lnk x) xs)"

primrec seg :: "('a \<Rightarrow> 'a option) \<Rightarrow> 'a option \<Rightarrow> 'a list \<Rightarrow> 'a option \<Rightarrow> bool" where
  "seg lnk p [] r = (p = r)"
| "seg lnk p (x # xs) r = (p = Some x \<and> seg lnk (lnk x) xs r)"

lemma chain_seg: "chain lnk p xs = seg lnk p xs None"
  by (induction xs arbitrary: p) auto

lemma seg_append: "seg lnk p (xs @ ys) r = (\<exists>m. seg lnk p xs m \<and> seg lnk m ys r)"
  by (induction xs arbitrary: p) auto

lemma seg_upd [simp]: "x \<notin> set xs \<Longrightarrow> seg (lnk(x := v)) p xs r = seg lnk p xs r"
  by (induction xs arbitrary: p) auto

lemma chain_upd [simp]: "x \<notin> set xs \<Longrightarrow> chain (lnk(x := v)) p xs = chain lnk p xs"
  by (simp add: chain_seg)

lemma seg_snoc: "seg lnk p (xs @ [x]) r = (seg lnk p xs (Some x) \<and> lnk x = r)"
  by (auto simp: seg_append)

section \<open>The queue of the code\<close>

record 'a iqueue =
  q_link :: "'a \<Rightarrow> 'a option"
  q_head :: "'a option"
  q_tail :: "'a option"
  q_count :: nat

definition q_push :: "'a iqueue \<Rightarrow> 'a \<Rightarrow> 'a iqueue" where
  "q_push q x =
     (let q = q\<lparr>q_link := (q_link q)(x := None)\<rparr>;
          q = (case q_tail q of
                 None \<Rightarrow> q\<lparr>q_head := Some x, q_tail := Some x\<rparr>
               | Some l \<Rightarrow> q\<lparr>q_link := (q_link q)(l := Some x), q_tail := Some x\<rparr>)
      in q\<lparr>q_count := q_count q + 1\<rparr>)"

definition q_pop :: "'a iqueue \<Rightarrow> 'a option \<times> 'a iqueue" where
  "q_pop q =
     (case q_head q of
        None \<Rightarrow> (None, q)
      | Some x \<Rightarrow>
          let q = q\<lparr>q_head := q_link q x\<rparr>;
              q = (if q_head q = None then q\<lparr>q_tail := None\<rparr> else q);
              q = q\<lparr>q_link := (q_link q)(x := None)\<rparr>;
              q = (if q_count q > 0 then q\<lparr>q_count := q_count q - 1\<rparr> else q)
          in (Some x, q))"

text \<open>
  The search loop. \<open>prev\<close> is the element whose link field the pointer-to-pointer \<^verbatim>\<open>link\<close> of the
  code designates; \<open>None\<close> stands for the head pointer.
\<close>

definition q_at :: "'a iqueue \<Rightarrow> 'a option \<Rightarrow> 'a option" where
  "q_at q prev = (case prev of None \<Rightarrow> q_head q | Some p \<Rightarrow> q_link q p)"

definition q_set_at :: "'a iqueue \<Rightarrow> 'a option \<Rightarrow> 'a option \<Rightarrow> 'a iqueue" where
  "q_set_at q prev v = (case prev of
     None \<Rightarrow> q\<lparr>q_head := v\<rparr>
   | Some p \<Rightarrow> q\<lparr>q_link := (q_link q)(p := v)\<rparr>)"

definition q_unlink :: "'a iqueue \<Rightarrow> 'a option \<Rightarrow> 'a \<Rightarrow> 'a iqueue" where
  "q_unlink q prev x =
     (let q = q_set_at q prev (q_link q x);
          q = (if q_tail q = Some x then q\<lparr>q_tail := prev\<rparr> else q);
          q = q\<lparr>q_link := (q_link q)(x := None)\<rparr>
      in if q_count q > 0 then q\<lparr>q_count := q_count q - 1\<rparr> else q)"

partial_function (option) q_remove_from ::
  "'a iqueue \<Rightarrow> 'a \<Rightarrow> 'a option \<Rightarrow> (bool \<times> 'a iqueue) option" where
  "q_remove_from q x prev =
     (case q_at q prev of
        None \<Rightarrow> Some (False, q)
      | Some y \<Rightarrow> if y = x then Some (True, q_unlink q prev x) else q_remove_from q x (Some y))"

definition q_remove :: "'a iqueue \<Rightarrow> 'a \<Rightarrow> (bool \<times> 'a iqueue) option" where
  "q_remove q x = q_remove_from q x None"

text \<open>What the four fields mean together.\<close>

definition is_queue :: "'a iqueue \<Rightarrow> 'a list \<Rightarrow> bool" where
  "is_queue q xs \<longleftrightarrow> chain (q_link q) (q_head q) xs \<and> distinct xs \<and>
     q_tail q = (if xs = [] then None else Some (last xs)) \<and> q_count q = length xs"

section \<open>Correctness\<close>

lemma is_queue_push:
  assumes "is_queue q xs" and "x \<notin> set xs"
  shows "is_queue (q_push q x) (xs @ [x])"
proof (cases xs rule: rev_cases)
  case Nil
  with assms show ?thesis by (simp add: is_queue_def q_push_def)
next
  case (snoc ys l)
  have "seg (q_link q) (q_head q) ys (Some l)"
    using assms(1) snoc by (simp add: is_queue_def chain_seg seg_snoc)
  moreover have "l \<notin> set ys" "l \<noteq> x" "x \<notin> set ys"
    using assms snoc by (auto simp: is_queue_def)
  ultimately show ?thesis
    using assms snoc by (simp add: is_queue_def q_push_def chain_seg seg_append)
qed

lemma q_pop_empty: "is_queue q [] \<Longrightarrow> q_pop q = (None, q)"
  by (simp add: is_queue_def q_pop_def)

lemma is_queue_pop:
  assumes "is_queue q (x # xs)"
  shows "\<exists>q'. q_pop q = (Some x, q') \<and> is_queue q' xs"
proof -
  have "chain (q_link q) (q_link q x) xs" using assms by (simp add: is_queue_def)
  moreover have "x \<notin> set xs" "distinct xs" using assms by (auto simp: is_queue_def)
  moreover have "q_link q x = None \<longleftrightarrow> xs = []"
    using calculation(1) by (cases xs) auto
  ultimately show ?thesis
    using assms by (auto simp: is_queue_def q_pop_def Let_def)
qed

text \<open>
  One search step's invariant: the elements before the current link are \<open>ys\<close>, the rest of the
  chain is \<open>zs\<close>.
\<close>

definition q_split :: "'a iqueue \<Rightarrow> 'a option \<Rightarrow> 'a list \<Rightarrow> 'a list \<Rightarrow> bool" where
  "q_split q prev ys zs \<longleftrightarrow> is_queue q (ys @ zs) \<and>
     prev = (if ys = [] then None else Some (last ys))"

lemma q_split_at: "q_split q prev ys zs \<Longrightarrow> q_at q prev = (case zs of [] \<Rightarrow> None | z # _ \<Rightarrow> Some z)"
  by (cases ys rule: rev_cases; cases zs)
    (auto simp: q_split_def q_at_def is_queue_def chain_seg seg_append)

lemma is_queue_unlink:
  assumes "q_split q prev ys (x # zs)"
  shows "is_queue (q_unlink q prev x) (ys @ zs)"
proof -
  have q: "is_queue q (ys @ x # zs)" using assms by (simp add: q_split_def)
  then have d: "distinct ys" "distinct zs" "set ys \<inter> set zs = {}" "x \<notin> set ys" "x \<notin> set zs"
    by (auto simp: is_queue_def)
  have tl: "q_tail q = Some x \<longleftrightarrow> zs = []"
    using q d by (auto simp: is_queue_def)
  have rest: "seg (q_link q) (q_link q x) zs None"
    using q by (auto simp: is_queue_def chain_seg seg_append)
  show ?thesis
  proof (cases ys rule: rev_cases)
    case Nil
    then have "prev = None" using assms by (simp add: q_split_def)
    with Nil q d tl rest show ?thesis
      by (auto simp: is_queue_def q_unlink_def q_set_at_def chain_seg Let_def)
  next
    case (snoc us p)
    then have p: "prev = Some p" using assms by (simp add: q_split_def)
    have "seg (q_link q) (q_head q) us (Some p)"
      using q snoc by (auto simp: is_queue_def chain_seg seg_append)
    moreover have "p \<notin> set us" "p \<noteq> x" "p \<notin> set zs" "x \<notin> set us"
      using d snoc by auto
    ultimately show ?thesis
      using p snoc q d tl rest
      by (auto simp: is_queue_def q_unlink_def q_set_at_def chain_seg seg_append Let_def)
  qed
qed

lemma q_remove_from_mem:
  "q_split q prev ys zs \<Longrightarrow> x \<notin> set ys \<Longrightarrow> x \<in> set zs \<Longrightarrow>
    \<exists>q'. q_remove_from q x prev = Some (True, q') \<and> is_queue q' (ys @ remove1 x zs)"
proof (induction zs arbitrary: ys prev)
  case Nil
  then show ?case by simp
next
  case (Cons z zs)
  have at: "q_at q prev = Some z" using q_split_at[OF Cons.prems(1)] by simp
  show ?case
  proof (cases "z = x")
    case True
    then show ?thesis
      using at is_queue_unlink[of q prev ys x zs] Cons.prems(1)
      by (subst q_remove_from.simps) simp
  next
    case False
    have "q_split q (Some z) (ys @ [z]) zs" using Cons.prems(1) by (simp add: q_split_def)
    from Cons.IH[OF this] Cons.prems False obtain q' where
      "q_remove_from q x (Some z) = Some (True, q')" "is_queue q' ((ys @ [z]) @ remove1 x zs)"
      by auto
    then show ?thesis using at False by (subst q_remove_from.simps) simp
  qed
qed

lemma q_remove_from_not_mem:
  "q_split q prev ys zs \<Longrightarrow> x \<notin> set zs \<Longrightarrow> q_remove_from q x prev = Some (False, q)"
proof (induction zs arbitrary: ys prev)
  case Nil
  then show ?case using q_split_at[OF Nil.prems(1)] by (subst q_remove_from.simps) simp
next
  case (Cons z zs)
  have at: "q_at q prev = Some z" using q_split_at[OF Cons.prems(1)] by simp
  have "q_split q (Some z) (ys @ [z]) zs" using Cons.prems(1) by (simp add: q_split_def)
  from Cons.IH[OF this] at Cons.prems(2) show ?case by (subst q_remove_from.simps) auto
qed

lemma q_split_start: "is_queue q xs \<Longrightarrow> q_split q None [] xs"
  by (simp add: q_split_def)

text \<open>The pointer manipulations meet the contract.\<close>

interpretation ptr: fifo_queue q_push q_pop q_remove is_queue
proof
  show "is_queue q xs \<Longrightarrow> distinct xs" for q :: "'a iqueue" and xs
    by (simp add: is_queue_def)
  show "is_queue q xs \<Longrightarrow> x \<notin> set xs \<Longrightarrow> is_queue (q_push q x) (xs @ [x])"
    for q :: "'a iqueue" and xs x by (rule is_queue_push)
  show "is_queue q [] \<Longrightarrow> q_pop q = (None, q)" for q :: "'a iqueue" by (rule q_pop_empty)
  show "is_queue q (x # xs) \<Longrightarrow> \<exists>q'. q_pop q = (Some x, q') \<and> is_queue q' xs"
    for q :: "'a iqueue" and x xs by (rule is_queue_pop)
  show "is_queue q xs \<Longrightarrow> x \<in> set xs \<Longrightarrow>
      \<exists>q'. q_remove q x = Some (True, q') \<and> is_queue q' (remove1 x xs)"
    for q :: "'a iqueue" and x xs
    using q_remove_from_mem[OF q_split_start] by (force simp: q_remove_def)
  show "is_queue q xs \<Longrightarrow> x \<notin> set xs \<Longrightarrow> q_remove q x = Some (False, q)"
    for q :: "'a iqueue" and x xs
    using q_remove_from_not_mem[OF q_split_start] by (simp add: q_remove_def)
qed

section \<open>Queues that share a link field\<close>

text \<open>The cells an operation may write: the queue's own elements and the element pushed.\<close>

lemma q_push_link:
  "is_queue q xs \<Longrightarrow> y \<notin> set xs \<Longrightarrow> y \<noteq> x \<Longrightarrow> q_link (q_push q x) y = q_link q y"
  by (auto simp: q_push_def is_queue_def Let_def split: option.splits if_splits)

lemma q_pop_link:
  "is_queue q xs \<Longrightarrow> y \<notin> set xs \<Longrightarrow> q_link (snd (q_pop q)) y = q_link q y"
  by (cases xs) (auto simp: q_pop_def is_queue_def Let_def split: option.splits if_splits)

lemma q_remove_from_link:
  "q_split q prev ys zs \<Longrightarrow> y \<notin> set (ys @ zs) \<Longrightarrow> q_remove_from q x prev = Some (b, q') \<Longrightarrow>
    q_link q' y = q_link q y"
proof (induction zs arbitrary: ys prev)
  case Nil
  then show ?case using q_split_at[OF Nil.prems(1)] by (subst (asm) q_remove_from.simps) simp
next
  case (Cons z zs)
  have at: "q_at q prev = Some z" using q_split_at[OF Cons.prems(1)] by simp
  have nxt: "q_split q (Some z) (ys @ [z]) zs" using Cons.prems(1) by (simp add: q_split_def)
  show ?case
  proof (cases "z = x")
    case True
    have "prev = None \<or> (\<exists>p \<in> set ys. prev = Some p)"
      using Cons.prems(1) by (auto simp: q_split_def)
    then show ?thesis
      using True at Cons.prems
      by (subst (asm) q_remove_from.simps)
        (auto simp: q_unlink_def q_set_at_def Let_def split: if_splits)
  next
    case False
    then have "q_remove_from q x (Some z) = Some (b, q')"
      using Cons.prems(3) at by (subst (asm) q_remove_from.simps) simp
    from Cons.IH[OF nxt _ this] Cons.prems(2) show ?thesis by simp
  qed
qed

lemma q_remove_link:
  "is_queue q xs \<Longrightarrow> y \<notin> set xs \<Longrightarrow> q_remove q x = Some (b, q') \<Longrightarrow> q_link q' y = q_link q y"
  using q_remove_from_link[OF q_split_start] by (auto simp: q_remove_def)

lemma chain_cong: "(\<And>y. y \<in> set ys \<Longrightarrow> l1 y = l2 y) \<Longrightarrow> chain l1 p ys = chain l2 p ys"
  by (induction ys arbitrary: p) auto

end
