(* ===== verification/Run_Queue.thy ===== *)
theory Run_Queue
  imports MT_Types Intrusive_Queue
begin

text \<open>
  \<^verbatim>\<open>src/runtime.c\<close> (notification and the registries of tasks, channels and handles) and
  \<^verbatim>\<open>src/run_queue.c\<close> (the shared FIFO of runnable tasks).
\<close>

section \<open>Notification\<close>

definition mt_io_backend_wake :: "mt_state \<Rightarrow> mt_state" where
  "mt_io_backend_wake s =
     (if io_wake_write_fd s < 0 then s else s\<lparr>io_wakes := io_wakes s + 1\<rparr>)"

definition mt_notify_one :: "mt_state \<Rightarrow> mt_state" where
  "mt_notify_one s =
     (if initialized s then mt_io_backend_wake (s\<lparr>cond_signals := cond_signals s + 1\<rparr>) else s)"

definition mt_notify_all :: "mt_state \<Rightarrow> mt_state" where
  "mt_notify_all s =
     (if initialized s then mt_io_backend_wake (s\<lparr>cond_broadcasts := cond_broadcasts s + 1\<rparr>)
      else s)"

section \<open>Registries\<close>

definition mt_task_register :: "tptr \<Rightarrow> mt_state \<Rightarrow> mt_state" where
  "mt_task_register t s = s\<lparr>all_tasks := t # all_tasks s\<rparr>"

definition mt_task_unregister :: "tptr \<Rightarrow> mt_state \<Rightarrow> mt_state" where
  "mt_task_unregister t s = s\<lparr>all_tasks := remove1 t (all_tasks s)\<rparr>"

definition mt_chan_register :: "cptr \<Rightarrow> mt_state \<Rightarrow> mt_state" where
  "mt_chan_register c s = s\<lparr>channels := c # channels s\<rparr>"

definition mt_chan_unregister :: "cptr \<Rightarrow> mt_state \<Rightarrow> mt_state" where
  "mt_chan_unregister c s = s\<lparr>channels := remove1 c (channels s)\<rparr>"

definition mt_handle_register :: "hptr \<Rightarrow> mt_state \<Rightarrow> mt_state" where
  "mt_handle_register h s = s\<lparr>handles := h # handles s\<rparr>"

definition mt_handle_unregister :: "hptr \<Rightarrow> mt_state \<Rightarrow> mt_state" where
  "mt_handle_unregister h s = s\<lparr>handles := remove1 h (handles s)\<rparr>"

section \<open>The run queue\<close>

definition mt_runq_push :: "tptr \<Rightarrow> mt_state \<Rightarrow> mt_state" where
  "mt_runq_push t s =
     mt_notify_one (s\<lparr>runq := runq s @ [t], runnable_count := runnable_count s + 1\<rparr>)"

definition mt_runq_pop :: "mt_state \<Rightarrow> tptr option \<times> mt_state" where
  "mt_runq_pop s =
     (case runq s of
        [] \<Rightarrow> (None, s)
      | t # ts \<Rightarrow> (Some t, s\<lparr>runq := ts, runnable_count := runnable_count s - 1\<rparr>))"

definition mt_runq_remove :: "tptr \<Rightarrow> mt_state \<Rightarrow> bool \<times> mt_state" where
  "mt_runq_remove t s =
     (if t \<in> set (runq s)
      then (True, s\<lparr>runq := remove1 t (runq s),
                    runnable_count :=
                      (if runnable_count s > 0 then runnable_count s - 1 else runnable_count s)\<rparr>)
      else (False, s))"

definition mt_debug_runnable_count :: "mt_state \<Rightarrow> nat" where
  "mt_debug_runnable_count s = runnable_count s"

text \<open>The counter beside the queue counts it.\<close>

definition runq_rep :: "mt_state \<Rightarrow> tptr list \<Rightarrow> bool" where
  "runq_rep s ts \<longleftrightarrow> runq s = ts \<and> distinct ts \<and> runnable_count s = length ts"

section \<open>Frames\<close>

lemma wake_frame [simp]:
  "initialized (mt_io_backend_wake s) = initialized s"
  "running (mt_io_backend_wake s) = running s"
  "stopping (mt_io_backend_wake s) = stopping s"
  "run_result (mt_io_backend_wake s) = run_result s"
  "next_id (mt_io_backend_wake s) = next_id s"
  "default_stack_size (mt_io_backend_wake s) = default_stack_size s"
  "worker_count (mt_io_backend_wake s) = worker_count s"
  "active_workers (mt_io_backend_wake s) = active_workers s"
  "running_tasks (mt_io_backend_wake s) = running_tasks s"
  "worker_threads (mt_io_backend_wake s) = worker_threads s"
  "current (mt_io_backend_wake s) = current s"
  "all_tasks (mt_io_backend_wake s) = all_tasks s"
  "runq (mt_io_backend_wake s) = runq s"
  "channels (mt_io_backend_wake s) = channels s"
  "handles (mt_io_backend_wake s) = handles s"
  "timers (mt_io_backend_wake s) = timers s"
  "runnable_count (mt_io_backend_wake s) = runnable_count s"
  "live_count (mt_io_backend_wake s) = live_count s"
  "completed_count (mt_io_backend_wake s) = completed_count s"
  "channel_waiting_count (mt_io_backend_wake s) = channel_waiting_count s"
  "join_waiting_count (mt_io_backend_wake s) = join_waiting_count s"
  "fd_waiters (mt_io_backend_wake s) = fd_waiters s"
  "fd_waiting_count (mt_io_backend_wake s) = fd_waiting_count s"
  "fd_generations (mt_io_backend_wake s) = fd_generations s"
  "io_backend_kind (mt_io_backend_wake s) = io_backend_kind s"
  "io_backend_fd (mt_io_backend_wake s) = io_backend_fd s"
  "io_wake_read_fd (mt_io_backend_wake s) = io_wake_read_fd s"
  "io_wake_write_fd (mt_io_backend_wake s) = io_wake_write_fd s"
  "io_polling (mt_io_backend_wake s) = io_polling s"
  "task_mem (mt_io_backend_wake s) = task_mem s"
  "chan_mem (mt_io_backend_wake s) = chan_mem s"
  "handle_mem (mt_io_backend_wake s) = handle_mem s"
  "sw_mem (mt_io_backend_wake s) = sw_mem s"
  "fw_mem (mt_io_backend_wake s) = fw_mem s"
  "user_mem (mt_io_backend_wake s) = user_mem s"
  "backend_calls (mt_io_backend_wake s) = backend_calls s"
  "sys_calls (mt_io_backend_wake s) = sys_calls s"
  "cond_signals (mt_io_backend_wake s) = cond_signals s"
  "cond_broadcasts (mt_io_backend_wake s) = cond_broadcasts s"
  by (simp_all add: mt_io_backend_wake_def)

lemma notify_one_frame [simp]:
  "initialized (mt_notify_one s) = initialized s"
  "running (mt_notify_one s) = running s"
  "stopping (mt_notify_one s) = stopping s"
  "run_result (mt_notify_one s) = run_result s"
  "next_id (mt_notify_one s) = next_id s"
  "default_stack_size (mt_notify_one s) = default_stack_size s"
  "worker_count (mt_notify_one s) = worker_count s"
  "active_workers (mt_notify_one s) = active_workers s"
  "running_tasks (mt_notify_one s) = running_tasks s"
  "worker_threads (mt_notify_one s) = worker_threads s"
  "current (mt_notify_one s) = current s"
  "all_tasks (mt_notify_one s) = all_tasks s"
  "runq (mt_notify_one s) = runq s"
  "channels (mt_notify_one s) = channels s"
  "handles (mt_notify_one s) = handles s"
  "timers (mt_notify_one s) = timers s"
  "runnable_count (mt_notify_one s) = runnable_count s"
  "live_count (mt_notify_one s) = live_count s"
  "completed_count (mt_notify_one s) = completed_count s"
  "channel_waiting_count (mt_notify_one s) = channel_waiting_count s"
  "join_waiting_count (mt_notify_one s) = join_waiting_count s"
  "fd_waiters (mt_notify_one s) = fd_waiters s"
  "fd_waiting_count (mt_notify_one s) = fd_waiting_count s"
  "fd_generations (mt_notify_one s) = fd_generations s"
  "io_backend_kind (mt_notify_one s) = io_backend_kind s"
  "io_backend_fd (mt_notify_one s) = io_backend_fd s"
  "io_wake_read_fd (mt_notify_one s) = io_wake_read_fd s"
  "io_wake_write_fd (mt_notify_one s) = io_wake_write_fd s"
  "io_polling (mt_notify_one s) = io_polling s"
  "task_mem (mt_notify_one s) = task_mem s"
  "chan_mem (mt_notify_one s) = chan_mem s"
  "handle_mem (mt_notify_one s) = handle_mem s"
  "sw_mem (mt_notify_one s) = sw_mem s"
  "fw_mem (mt_notify_one s) = fw_mem s"
  "user_mem (mt_notify_one s) = user_mem s"
  "backend_calls (mt_notify_one s) = backend_calls s"
  "sys_calls (mt_notify_one s) = sys_calls s"
  "cond_broadcasts (mt_notify_one s) = cond_broadcasts s"
  by (simp_all add: mt_notify_one_def)

lemma notify_all_frame [simp]:
  "initialized (mt_notify_all s) = initialized s"
  "running (mt_notify_all s) = running s"
  "stopping (mt_notify_all s) = stopping s"
  "run_result (mt_notify_all s) = run_result s"
  "next_id (mt_notify_all s) = next_id s"
  "default_stack_size (mt_notify_all s) = default_stack_size s"
  "worker_count (mt_notify_all s) = worker_count s"
  "active_workers (mt_notify_all s) = active_workers s"
  "running_tasks (mt_notify_all s) = running_tasks s"
  "worker_threads (mt_notify_all s) = worker_threads s"
  "current (mt_notify_all s) = current s"
  "all_tasks (mt_notify_all s) = all_tasks s"
  "runq (mt_notify_all s) = runq s"
  "channels (mt_notify_all s) = channels s"
  "handles (mt_notify_all s) = handles s"
  "timers (mt_notify_all s) = timers s"
  "runnable_count (mt_notify_all s) = runnable_count s"
  "live_count (mt_notify_all s) = live_count s"
  "completed_count (mt_notify_all s) = completed_count s"
  "channel_waiting_count (mt_notify_all s) = channel_waiting_count s"
  "join_waiting_count (mt_notify_all s) = join_waiting_count s"
  "fd_waiters (mt_notify_all s) = fd_waiters s"
  "fd_waiting_count (mt_notify_all s) = fd_waiting_count s"
  "fd_generations (mt_notify_all s) = fd_generations s"
  "io_backend_kind (mt_notify_all s) = io_backend_kind s"
  "io_backend_fd (mt_notify_all s) = io_backend_fd s"
  "io_wake_read_fd (mt_notify_all s) = io_wake_read_fd s"
  "io_wake_write_fd (mt_notify_all s) = io_wake_write_fd s"
  "io_polling (mt_notify_all s) = io_polling s"
  "task_mem (mt_notify_all s) = task_mem s"
  "chan_mem (mt_notify_all s) = chan_mem s"
  "handle_mem (mt_notify_all s) = handle_mem s"
  "sw_mem (mt_notify_all s) = sw_mem s"
  "fw_mem (mt_notify_all s) = fw_mem s"
  "user_mem (mt_notify_all s) = user_mem s"
  "backend_calls (mt_notify_all s) = backend_calls s"
  "sys_calls (mt_notify_all s) = sys_calls s"
  "cond_signals (mt_notify_all s) = cond_signals s"
  by (simp_all add: mt_notify_all_def)

lemma task_register_frame [simp]:
  "initialized (mt_task_register t s) = initialized s"
  "running (mt_task_register t s) = running s"
  "stopping (mt_task_register t s) = stopping s"
  "run_result (mt_task_register t s) = run_result s"
  "next_id (mt_task_register t s) = next_id s"
  "default_stack_size (mt_task_register t s) = default_stack_size s"
  "worker_count (mt_task_register t s) = worker_count s"
  "active_workers (mt_task_register t s) = active_workers s"
  "running_tasks (mt_task_register t s) = running_tasks s"
  "worker_threads (mt_task_register t s) = worker_threads s"
  "current (mt_task_register t s) = current s"
  "runq (mt_task_register t s) = runq s"
  "channels (mt_task_register t s) = channels s"
  "handles (mt_task_register t s) = handles s"
  "timers (mt_task_register t s) = timers s"
  "runnable_count (mt_task_register t s) = runnable_count s"
  "live_count (mt_task_register t s) = live_count s"
  "completed_count (mt_task_register t s) = completed_count s"
  "channel_waiting_count (mt_task_register t s) = channel_waiting_count s"
  "join_waiting_count (mt_task_register t s) = join_waiting_count s"
  "fd_waiters (mt_task_register t s) = fd_waiters s"
  "fd_waiting_count (mt_task_register t s) = fd_waiting_count s"
  "fd_generations (mt_task_register t s) = fd_generations s"
  "io_backend_kind (mt_task_register t s) = io_backend_kind s"
  "io_backend_fd (mt_task_register t s) = io_backend_fd s"
  "io_wake_read_fd (mt_task_register t s) = io_wake_read_fd s"
  "io_wake_write_fd (mt_task_register t s) = io_wake_write_fd s"
  "io_polling (mt_task_register t s) = io_polling s"
  "task_mem (mt_task_register t s) = task_mem s"
  "chan_mem (mt_task_register t s) = chan_mem s"
  "handle_mem (mt_task_register t s) = handle_mem s"
  "sw_mem (mt_task_register t s) = sw_mem s"
  "fw_mem (mt_task_register t s) = fw_mem s"
  "user_mem (mt_task_register t s) = user_mem s"
  "backend_calls (mt_task_register t s) = backend_calls s"
  "sys_calls (mt_task_register t s) = sys_calls s"
  "cond_signals (mt_task_register t s) = cond_signals s"
  "cond_broadcasts (mt_task_register t s) = cond_broadcasts s"
  "io_wakes (mt_task_register t s) = io_wakes s"
  by (simp_all add: mt_task_register_def)

lemma task_unregister_frame [simp]:
  "initialized (mt_task_unregister t s) = initialized s"
  "running (mt_task_unregister t s) = running s"
  "stopping (mt_task_unregister t s) = stopping s"
  "run_result (mt_task_unregister t s) = run_result s"
  "next_id (mt_task_unregister t s) = next_id s"
  "default_stack_size (mt_task_unregister t s) = default_stack_size s"
  "worker_count (mt_task_unregister t s) = worker_count s"
  "active_workers (mt_task_unregister t s) = active_workers s"
  "running_tasks (mt_task_unregister t s) = running_tasks s"
  "worker_threads (mt_task_unregister t s) = worker_threads s"
  "current (mt_task_unregister t s) = current s"
  "runq (mt_task_unregister t s) = runq s"
  "channels (mt_task_unregister t s) = channels s"
  "handles (mt_task_unregister t s) = handles s"
  "timers (mt_task_unregister t s) = timers s"
  "runnable_count (mt_task_unregister t s) = runnable_count s"
  "live_count (mt_task_unregister t s) = live_count s"
  "completed_count (mt_task_unregister t s) = completed_count s"
  "channel_waiting_count (mt_task_unregister t s) = channel_waiting_count s"
  "join_waiting_count (mt_task_unregister t s) = join_waiting_count s"
  "fd_waiters (mt_task_unregister t s) = fd_waiters s"
  "fd_waiting_count (mt_task_unregister t s) = fd_waiting_count s"
  "fd_generations (mt_task_unregister t s) = fd_generations s"
  "io_backend_kind (mt_task_unregister t s) = io_backend_kind s"
  "io_backend_fd (mt_task_unregister t s) = io_backend_fd s"
  "io_wake_read_fd (mt_task_unregister t s) = io_wake_read_fd s"
  "io_wake_write_fd (mt_task_unregister t s) = io_wake_write_fd s"
  "io_polling (mt_task_unregister t s) = io_polling s"
  "task_mem (mt_task_unregister t s) = task_mem s"
  "chan_mem (mt_task_unregister t s) = chan_mem s"
  "handle_mem (mt_task_unregister t s) = handle_mem s"
  "sw_mem (mt_task_unregister t s) = sw_mem s"
  "fw_mem (mt_task_unregister t s) = fw_mem s"
  "user_mem (mt_task_unregister t s) = user_mem s"
  "backend_calls (mt_task_unregister t s) = backend_calls s"
  "sys_calls (mt_task_unregister t s) = sys_calls s"
  "cond_signals (mt_task_unregister t s) = cond_signals s"
  "cond_broadcasts (mt_task_unregister t s) = cond_broadcasts s"
  "io_wakes (mt_task_unregister t s) = io_wakes s"
  by (simp_all add: mt_task_unregister_def)

lemma handle_unregister_frame [simp]:
  "initialized (mt_handle_unregister h s) = initialized s"
  "running (mt_handle_unregister h s) = running s"
  "stopping (mt_handle_unregister h s) = stopping s"
  "run_result (mt_handle_unregister h s) = run_result s"
  "next_id (mt_handle_unregister h s) = next_id s"
  "default_stack_size (mt_handle_unregister h s) = default_stack_size s"
  "worker_count (mt_handle_unregister h s) = worker_count s"
  "active_workers (mt_handle_unregister h s) = active_workers s"
  "running_tasks (mt_handle_unregister h s) = running_tasks s"
  "worker_threads (mt_handle_unregister h s) = worker_threads s"
  "current (mt_handle_unregister h s) = current s"
  "all_tasks (mt_handle_unregister h s) = all_tasks s"
  "runq (mt_handle_unregister h s) = runq s"
  "channels (mt_handle_unregister h s) = channels s"
  "timers (mt_handle_unregister h s) = timers s"
  "runnable_count (mt_handle_unregister h s) = runnable_count s"
  "live_count (mt_handle_unregister h s) = live_count s"
  "completed_count (mt_handle_unregister h s) = completed_count s"
  "channel_waiting_count (mt_handle_unregister h s) = channel_waiting_count s"
  "join_waiting_count (mt_handle_unregister h s) = join_waiting_count s"
  "fd_waiters (mt_handle_unregister h s) = fd_waiters s"
  "fd_waiting_count (mt_handle_unregister h s) = fd_waiting_count s"
  "fd_generations (mt_handle_unregister h s) = fd_generations s"
  "io_backend_kind (mt_handle_unregister h s) = io_backend_kind s"
  "io_backend_fd (mt_handle_unregister h s) = io_backend_fd s"
  "io_wake_read_fd (mt_handle_unregister h s) = io_wake_read_fd s"
  "io_wake_write_fd (mt_handle_unregister h s) = io_wake_write_fd s"
  "io_polling (mt_handle_unregister h s) = io_polling s"
  "task_mem (mt_handle_unregister h s) = task_mem s"
  "chan_mem (mt_handle_unregister h s) = chan_mem s"
  "handle_mem (mt_handle_unregister h s) = handle_mem s"
  "sw_mem (mt_handle_unregister h s) = sw_mem s"
  "fw_mem (mt_handle_unregister h s) = fw_mem s"
  "user_mem (mt_handle_unregister h s) = user_mem s"
  "backend_calls (mt_handle_unregister h s) = backend_calls s"
  "sys_calls (mt_handle_unregister h s) = sys_calls s"
  "cond_signals (mt_handle_unregister h s) = cond_signals s"
  "cond_broadcasts (mt_handle_unregister h s) = cond_broadcasts s"
  "io_wakes (mt_handle_unregister h s) = io_wakes s"
  by (simp_all add: mt_handle_unregister_def)

lemma runq_push_frame [simp]:
  "initialized (mt_runq_push t s) = initialized s"
  "running (mt_runq_push t s) = running s"
  "stopping (mt_runq_push t s) = stopping s"
  "run_result (mt_runq_push t s) = run_result s"
  "next_id (mt_runq_push t s) = next_id s"
  "default_stack_size (mt_runq_push t s) = default_stack_size s"
  "worker_count (mt_runq_push t s) = worker_count s"
  "active_workers (mt_runq_push t s) = active_workers s"
  "running_tasks (mt_runq_push t s) = running_tasks s"
  "worker_threads (mt_runq_push t s) = worker_threads s"
  "current (mt_runq_push t s) = current s"
  "all_tasks (mt_runq_push t s) = all_tasks s"
  "channels (mt_runq_push t s) = channels s"
  "handles (mt_runq_push t s) = handles s"
  "timers (mt_runq_push t s) = timers s"
  "live_count (mt_runq_push t s) = live_count s"
  "completed_count (mt_runq_push t s) = completed_count s"
  "channel_waiting_count (mt_runq_push t s) = channel_waiting_count s"
  "join_waiting_count (mt_runq_push t s) = join_waiting_count s"
  "fd_waiters (mt_runq_push t s) = fd_waiters s"
  "fd_waiting_count (mt_runq_push t s) = fd_waiting_count s"
  "fd_generations (mt_runq_push t s) = fd_generations s"
  "io_backend_kind (mt_runq_push t s) = io_backend_kind s"
  "io_backend_fd (mt_runq_push t s) = io_backend_fd s"
  "io_wake_read_fd (mt_runq_push t s) = io_wake_read_fd s"
  "io_wake_write_fd (mt_runq_push t s) = io_wake_write_fd s"
  "io_polling (mt_runq_push t s) = io_polling s"
  "task_mem (mt_runq_push t s) = task_mem s"
  "chan_mem (mt_runq_push t s) = chan_mem s"
  "handle_mem (mt_runq_push t s) = handle_mem s"
  "sw_mem (mt_runq_push t s) = sw_mem s"
  "fw_mem (mt_runq_push t s) = fw_mem s"
  "user_mem (mt_runq_push t s) = user_mem s"
  "backend_calls (mt_runq_push t s) = backend_calls s"
  "sys_calls (mt_runq_push t s) = sys_calls s"
  "cond_broadcasts (mt_runq_push t s) = cond_broadcasts s"
  by (simp_all add: mt_runq_push_def)

lemma runq_pop_frame [simp]:
  "initialized (snd (mt_runq_pop s)) = initialized s"
  "running (snd (mt_runq_pop s)) = running s"
  "stopping (snd (mt_runq_pop s)) = stopping s"
  "run_result (snd (mt_runq_pop s)) = run_result s"
  "next_id (snd (mt_runq_pop s)) = next_id s"
  "default_stack_size (snd (mt_runq_pop s)) = default_stack_size s"
  "worker_count (snd (mt_runq_pop s)) = worker_count s"
  "active_workers (snd (mt_runq_pop s)) = active_workers s"
  "running_tasks (snd (mt_runq_pop s)) = running_tasks s"
  "worker_threads (snd (mt_runq_pop s)) = worker_threads s"
  "current (snd (mt_runq_pop s)) = current s"
  "all_tasks (snd (mt_runq_pop s)) = all_tasks s"
  "channels (snd (mt_runq_pop s)) = channels s"
  "handles (snd (mt_runq_pop s)) = handles s"
  "timers (snd (mt_runq_pop s)) = timers s"
  "live_count (snd (mt_runq_pop s)) = live_count s"
  "completed_count (snd (mt_runq_pop s)) = completed_count s"
  "channel_waiting_count (snd (mt_runq_pop s)) = channel_waiting_count s"
  "join_waiting_count (snd (mt_runq_pop s)) = join_waiting_count s"
  "fd_waiters (snd (mt_runq_pop s)) = fd_waiters s"
  "fd_waiting_count (snd (mt_runq_pop s)) = fd_waiting_count s"
  "fd_generations (snd (mt_runq_pop s)) = fd_generations s"
  "io_backend_kind (snd (mt_runq_pop s)) = io_backend_kind s"
  "io_backend_fd (snd (mt_runq_pop s)) = io_backend_fd s"
  "io_wake_read_fd (snd (mt_runq_pop s)) = io_wake_read_fd s"
  "io_wake_write_fd (snd (mt_runq_pop s)) = io_wake_write_fd s"
  "io_polling (snd (mt_runq_pop s)) = io_polling s"
  "task_mem (snd (mt_runq_pop s)) = task_mem s"
  "chan_mem (snd (mt_runq_pop s)) = chan_mem s"
  "handle_mem (snd (mt_runq_pop s)) = handle_mem s"
  "sw_mem (snd (mt_runq_pop s)) = sw_mem s"
  "fw_mem (snd (mt_runq_pop s)) = fw_mem s"
  "user_mem (snd (mt_runq_pop s)) = user_mem s"
  "backend_calls (snd (mt_runq_pop s)) = backend_calls s"
  "sys_calls (snd (mt_runq_pop s)) = sys_calls s"
  "cond_signals (snd (mt_runq_pop s)) = cond_signals s"
  "cond_broadcasts (snd (mt_runq_pop s)) = cond_broadcasts s"
  "io_wakes (snd (mt_runq_pop s)) = io_wakes s"
  by (simp_all add: mt_runq_pop_def split: list.splits)

lemma runq_remove_frame [simp]:
  "initialized (snd (mt_runq_remove t s)) = initialized s"
  "running (snd (mt_runq_remove t s)) = running s"
  "stopping (snd (mt_runq_remove t s)) = stopping s"
  "run_result (snd (mt_runq_remove t s)) = run_result s"
  "next_id (snd (mt_runq_remove t s)) = next_id s"
  "default_stack_size (snd (mt_runq_remove t s)) = default_stack_size s"
  "worker_count (snd (mt_runq_remove t s)) = worker_count s"
  "active_workers (snd (mt_runq_remove t s)) = active_workers s"
  "running_tasks (snd (mt_runq_remove t s)) = running_tasks s"
  "worker_threads (snd (mt_runq_remove t s)) = worker_threads s"
  "current (snd (mt_runq_remove t s)) = current s"
  "all_tasks (snd (mt_runq_remove t s)) = all_tasks s"
  "channels (snd (mt_runq_remove t s)) = channels s"
  "handles (snd (mt_runq_remove t s)) = handles s"
  "timers (snd (mt_runq_remove t s)) = timers s"
  "live_count (snd (mt_runq_remove t s)) = live_count s"
  "completed_count (snd (mt_runq_remove t s)) = completed_count s"
  "channel_waiting_count (snd (mt_runq_remove t s)) = channel_waiting_count s"
  "join_waiting_count (snd (mt_runq_remove t s)) = join_waiting_count s"
  "fd_waiters (snd (mt_runq_remove t s)) = fd_waiters s"
  "fd_waiting_count (snd (mt_runq_remove t s)) = fd_waiting_count s"
  "fd_generations (snd (mt_runq_remove t s)) = fd_generations s"
  "io_backend_kind (snd (mt_runq_remove t s)) = io_backend_kind s"
  "io_backend_fd (snd (mt_runq_remove t s)) = io_backend_fd s"
  "io_wake_read_fd (snd (mt_runq_remove t s)) = io_wake_read_fd s"
  "io_wake_write_fd (snd (mt_runq_remove t s)) = io_wake_write_fd s"
  "io_polling (snd (mt_runq_remove t s)) = io_polling s"
  "task_mem (snd (mt_runq_remove t s)) = task_mem s"
  "chan_mem (snd (mt_runq_remove t s)) = chan_mem s"
  "handle_mem (snd (mt_runq_remove t s)) = handle_mem s"
  "sw_mem (snd (mt_runq_remove t s)) = sw_mem s"
  "fw_mem (snd (mt_runq_remove t s)) = fw_mem s"
  "user_mem (snd (mt_runq_remove t s)) = user_mem s"
  "backend_calls (snd (mt_runq_remove t s)) = backend_calls s"
  "sys_calls (snd (mt_runq_remove t s)) = sys_calls s"
  "cond_signals (snd (mt_runq_remove t s)) = cond_signals s"
  "cond_broadcasts (snd (mt_runq_remove t s)) = cond_broadcasts s"
  "io_wakes (snd (mt_runq_remove t s)) = io_wakes s"
  by (simp_all add: mt_runq_remove_def)

lemma notify_signals [simp]:
  "cond_signals (mt_notify_one s) = (if initialized s then cond_signals s + 1 else cond_signals s)"
  "cond_broadcasts (mt_notify_all s) =
     (if initialized s then cond_broadcasts s + 1 else cond_broadcasts s)"
  by (simp_all add: mt_notify_one_def mt_notify_all_def)

lemma all_tasks_register [simp]:
  "all_tasks (mt_task_register t s) = t # all_tasks s"
  "all_tasks (mt_task_unregister t s) = remove1 t (all_tasks s)"
  by (simp_all add: mt_task_register_def mt_task_unregister_def)

lemma handles_unregister [simp]:
  "handles (mt_handle_unregister h s) = remove1 h (handles s)"
  by (simp add: mt_handle_unregister_def)

lemma runq_push_simps [simp]:
  "runq (mt_runq_push t s) = runq s @ [t]"
  "runnable_count (mt_runq_push t s) = runnable_count s + 1"
  "cond_signals (mt_runq_push t s) = (if initialized s then cond_signals s + 1 else cond_signals s)"
  by (simp_all add: mt_runq_push_def)

lemma runq_remove_simps [simp]:
  "fst (mt_runq_remove t s) \<longleftrightarrow> t \<in> set (runq s)"
  "runq (snd (mt_runq_remove t s)) = remove1 t (runq s)"
  by (simp_all add: mt_runq_remove_def remove1_idem)

section \<open>The run queue meets the queue contract\<close>

interpretation rq: fifo_queue
  "\<lambda>s t. mt_runq_push t s" mt_runq_pop "\<lambda>s t. Some (mt_runq_remove t s)" runq_rep
proof
  show "runq_rep s ts \<Longrightarrow> distinct ts" for s ts by (simp add: runq_rep_def)
  show "runq_rep s ts \<Longrightarrow> t \<notin> set ts \<Longrightarrow> runq_rep (mt_runq_push t s) (ts @ [t])" for s ts t
    by (simp add: runq_rep_def)
  show "runq_rep s [] \<Longrightarrow> mt_runq_pop s = (None, s)" for s
    by (simp add: runq_rep_def mt_runq_pop_def)
  show "runq_rep s (t # ts) \<Longrightarrow> \<exists>s'. mt_runq_pop s = (Some t, s') \<and> runq_rep s' ts" for s t ts
    by (simp add: runq_rep_def mt_runq_pop_def)
  show "runq_rep s ts \<Longrightarrow> t \<in> set ts \<Longrightarrow>
      \<exists>s'. Some (mt_runq_remove t s) = Some (True, s') \<and> runq_rep s' (remove1 t ts)" for s ts t
    by (auto simp: runq_rep_def mt_runq_remove_def length_remove1_mem)
  show "runq_rep s ts \<Longrightarrow> t \<notin> set ts \<Longrightarrow> Some (mt_runq_remove t s) = Some (False, s)" for s ts t
    by (simp add: runq_rep_def mt_runq_remove_def)
qed

end
