(* ===== verification/Wait_Queue.thy ===== *)
theory Wait_Queue
  imports Run_Queue
begin

text \<open>
  \<^verbatim>\<open>src/wait_queue.c\<close>: the queues of parked tasks (channel senders, channel receivers, joiners)
  and of select registrations.

  A wait queue is the pair of its elements and its counter, the two things the code passes by
  address. The select queues also write the \<^verbatim>\<open>active\<close> flag of the registration they link.
\<close>

type_synonym waitq = "nat list \<times> nat"

section \<open>Queues of tasks\<close>

fun mt_chan_waitq_push :: "waitq \<Rightarrow> tptr \<Rightarrow> waitq" where
  "mt_chan_waitq_push (q, n) t = (q @ [t], n + 1)"

fun mt_chan_waitq_pop :: "waitq \<Rightarrow> tptr option \<times> waitq" where
  "mt_chan_waitq_pop ([], n) = (None, ([], n))"
| "mt_chan_waitq_pop (t # q, n) = (Some t, (q, if n > 0 then n - 1 else n))"

fun mt_waitq_remove :: "waitq \<Rightarrow> tptr \<Rightarrow> bool \<times> waitq" where
  "mt_waitq_remove (q, n) t =
     (if t \<in> set q then (True, (remove1 t q, if n > 0 then n - 1 else n)) else (False, (q, n)))"

fun waitq_rep :: "waitq \<Rightarrow> nat list \<Rightarrow> bool" where
  "waitq_rep (q, n) xs \<longleftrightarrow> q = xs \<and> distinct xs \<and> n = length xs"

interpretation wq: fifo_queue
  mt_chan_waitq_push mt_chan_waitq_pop "\<lambda>q t. Some (mt_waitq_remove q t)" waitq_rep
proof
  show "waitq_rep q xs \<Longrightarrow> distinct xs" for q xs by (cases q) simp
  show "waitq_rep q xs \<Longrightarrow> x \<notin> set xs \<Longrightarrow> waitq_rep (mt_chan_waitq_push q x) (xs @ [x])" for q xs x
    by (cases q) simp
  show "waitq_rep q [] \<Longrightarrow> mt_chan_waitq_pop q = (None, q)" for q by (cases q) auto
  show "waitq_rep q (x # xs) \<Longrightarrow> \<exists>q'. mt_chan_waitq_pop q = (Some x, q') \<and> waitq_rep q' xs"
    for q x xs by (cases q) auto
  show "waitq_rep q xs \<Longrightarrow> x \<in> set xs \<Longrightarrow>
      \<exists>q'. Some (mt_waitq_remove q x) = Some (True, q') \<and> waitq_rep q' (remove1 x xs)" for q xs x
    by (cases q) (auto simp: length_remove1_mem)
  show "waitq_rep q xs \<Longrightarrow> x \<notin> set xs \<Longrightarrow> Some (mt_waitq_remove q x) = Some (False, q)" for q xs x
    by (cases q) auto
qed

section \<open>Queues of select registrations\<close>

type_synonym sw_store = "wptr \<Rightarrow> mt_select_waiter"

definition set_active :: "bool \<Rightarrow> wptr \<Rightarrow> sw_store \<Rightarrow> sw_store" where
  "set_active b w m = m(w := (m w)\<lparr>sw_active := b\<rparr>)"

fun mt_select_waitq_push :: "waitq \<times> sw_store \<Rightarrow> wptr \<Rightarrow> waitq \<times> sw_store" where
  "mt_select_waitq_push ((q, n), m) w = ((q @ [w], n + 1), set_active True w m)"

fun mt_select_waitq_pop :: "waitq \<times> sw_store \<Rightarrow> wptr option \<times> waitq \<times> sw_store" where
  "mt_select_waitq_pop (([], n), m) = (None, ([], n), m)"
| "mt_select_waitq_pop ((w # q, n), m) =
     (Some w, (q, if n > 0 then n - 1 else n), set_active False w m)"

fun mt_select_waitq_remove :: "waitq \<times> sw_store \<Rightarrow> wptr \<Rightarrow> bool \<times> waitq \<times> sw_store" where
  "mt_select_waitq_remove ((q, n), m) w =
     (if w \<in> set q
      then (True, (remove1 w q, if n > 0 then n - 1 else n), set_active False w m)
      else (False, (q, n), m))"

text \<open>Linked exactly when active: the flag tells the owner whether to unlink before freeing.\<close>

fun select_waitq_rep :: "waitq \<times> sw_store \<Rightarrow> nat list \<Rightarrow> bool" where
  "select_waitq_rep (q, m) xs \<longleftrightarrow> waitq_rep q xs \<and> (\<forall>w \<in> set xs. sw_active (m w))"

interpretation swq: fifo_queue
  mt_select_waitq_push mt_select_waitq_pop "\<lambda>q w. Some (mt_select_waitq_remove q w)"
  select_waitq_rep
proof
  show "select_waitq_rep q xs \<Longrightarrow> distinct xs" for q xs
    by (cases q; cases "fst q") simp
  show "select_waitq_rep q xs \<Longrightarrow> x \<notin> set xs \<Longrightarrow>
      select_waitq_rep (mt_select_waitq_push q x) (xs @ [x])" for q xs x
    by (cases q; cases "fst q") (auto simp: set_active_def)
  show "select_waitq_rep q [] \<Longrightarrow> mt_select_waitq_pop q = (None, q)" for q
    by (cases q; cases "fst q") auto
  show "select_waitq_rep q (x # xs) \<Longrightarrow>
      \<exists>q'. mt_select_waitq_pop q = (Some x, q') \<and> select_waitq_rep q' xs" for q x xs
    by (cases q; cases "fst q") (auto simp: set_active_def)
  show "select_waitq_rep q xs \<Longrightarrow> x \<in> set xs \<Longrightarrow>
      \<exists>q'. Some (mt_select_waitq_remove q x) = Some (True, q') \<and>
        select_waitq_rep q' (remove1 x xs)" for q xs x
    by (cases q; cases "fst q") (auto simp: set_active_def length_remove1_mem)
  show "select_waitq_rep q xs \<Longrightarrow> x \<notin> set xs \<Longrightarrow>
      Some (mt_select_waitq_remove q x) = Some (False, q)" for q xs x
    by (cases q; cases "fst q") auto
qed

section \<open>The queues of one channel and of one handle\<close>

definition chan_send_push :: "cptr \<Rightarrow> tptr \<Rightarrow> mt_state \<Rightarrow> mt_state" where
  "chan_send_push c t s =
     (let (q, n) = mt_chan_waitq_push (send_q (chan_mem s c), send_waiters (chan_mem s c)) t
      in upd_chan c (\<lambda>ch. ch\<lparr>send_q := q, send_waiters := n\<rparr>) s)"

definition chan_recv_push :: "cptr \<Rightarrow> tptr \<Rightarrow> mt_state \<Rightarrow> mt_state" where
  "chan_recv_push c t s =
     (let (q, n) = mt_chan_waitq_push (recv_q (chan_mem s c), recv_waiters (chan_mem s c)) t
      in upd_chan c (\<lambda>ch. ch\<lparr>recv_q := q, recv_waiters := n\<rparr>) s)"

definition chan_send_pop :: "cptr \<Rightarrow> mt_state \<Rightarrow> tptr option \<times> mt_state" where
  "chan_send_pop c s =
     (let (t, (q, n)) = mt_chan_waitq_pop (send_q (chan_mem s c), send_waiters (chan_mem s c))
      in (t, upd_chan c (\<lambda>ch. ch\<lparr>send_q := q, send_waiters := n\<rparr>) s))"

definition chan_recv_pop :: "cptr \<Rightarrow> mt_state \<Rightarrow> tptr option \<times> mt_state" where
  "chan_recv_pop c s =
     (let (t, (q, n)) = mt_chan_waitq_pop (recv_q (chan_mem s c), recv_waiters (chan_mem s c))
      in (t, upd_chan c (\<lambda>ch. ch\<lparr>recv_q := q, recv_waiters := n\<rparr>) s))"

definition chan_send_remove :: "cptr \<Rightarrow> tptr \<Rightarrow> mt_state \<Rightarrow> bool \<times> mt_state" where
  "chan_send_remove c t s =
     (let (b, (q, n)) = mt_waitq_remove (send_q (chan_mem s c), send_waiters (chan_mem s c)) t
      in (b, upd_chan c (\<lambda>ch. ch\<lparr>send_q := q, send_waiters := n\<rparr>) s))"

definition chan_recv_remove :: "cptr \<Rightarrow> tptr \<Rightarrow> mt_state \<Rightarrow> bool \<times> mt_state" where
  "chan_recv_remove c t s =
     (let (b, (q, n)) = mt_waitq_remove (recv_q (chan_mem s c), recv_waiters (chan_mem s c)) t
      in (b, upd_chan c (\<lambda>ch. ch\<lparr>recv_q := q, recv_waiters := n\<rparr>) s))"

definition join_push :: "hptr \<Rightarrow> tptr \<Rightarrow> mt_state \<Rightarrow> mt_state" where
  "join_push h t s =
     (let (q, n) = mt_chan_waitq_push (join_q (handle_mem s h), join_waiters (handle_mem s h)) t
      in upd_handle h (\<lambda>k. k\<lparr>join_q := q, join_waiters := n\<rparr>) s)"

definition join_pop :: "hptr \<Rightarrow> mt_state \<Rightarrow> tptr option \<times> mt_state" where
  "join_pop h s =
     (let (t, (q, n)) = mt_chan_waitq_pop (join_q (handle_mem s h), join_waiters (handle_mem s h))
      in (t, upd_handle h (\<lambda>k. k\<lparr>join_q := q, join_waiters := n\<rparr>) s))"

definition join_remove :: "hptr \<Rightarrow> tptr \<Rightarrow> mt_state \<Rightarrow> bool \<times> mt_state" where
  "join_remove h t s =
     (let (b, (q, n)) = mt_waitq_remove (join_q (handle_mem s h), join_waiters (handle_mem s h)) t
      in (b, upd_handle h (\<lambda>k. k\<lparr>join_q := q, join_waiters := n\<rparr>) s))"

definition select_send_push :: "cptr \<Rightarrow> wptr \<Rightarrow> mt_state \<Rightarrow> mt_state" where
  "select_send_push c w s =
     (let ((q, n), m) = mt_select_waitq_push
        ((select_send_q (chan_mem s c), select_send_waiters (chan_mem s c)), sw_mem s) w
      in upd_chan c (\<lambda>ch. ch\<lparr>select_send_q := q, select_send_waiters := n\<rparr>) (s\<lparr>sw_mem := m\<rparr>))"

definition select_recv_push :: "cptr \<Rightarrow> wptr \<Rightarrow> mt_state \<Rightarrow> mt_state" where
  "select_recv_push c w s =
     (let ((q, n), m) = mt_select_waitq_push
        ((select_recv_q (chan_mem s c), select_recv_waiters (chan_mem s c)), sw_mem s) w
      in upd_chan c (\<lambda>ch. ch\<lparr>select_recv_q := q, select_recv_waiters := n\<rparr>) (s\<lparr>sw_mem := m\<rparr>))"

definition select_send_pop :: "cptr \<Rightarrow> mt_state \<Rightarrow> wptr option \<times> mt_state" where
  "select_send_pop c s =
     (let (w, (q, n), m) = mt_select_waitq_pop
        ((select_send_q (chan_mem s c), select_send_waiters (chan_mem s c)), sw_mem s)
      in (w, upd_chan c (\<lambda>ch. ch\<lparr>select_send_q := q, select_send_waiters := n\<rparr>) (s\<lparr>sw_mem := m\<rparr>)))"

definition select_recv_pop :: "cptr \<Rightarrow> mt_state \<Rightarrow> wptr option \<times> mt_state" where
  "select_recv_pop c s =
     (let (w, (q, n), m) = mt_select_waitq_pop
        ((select_recv_q (chan_mem s c), select_recv_waiters (chan_mem s c)), sw_mem s)
      in (w, upd_chan c (\<lambda>ch. ch\<lparr>select_recv_q := q, select_recv_waiters := n\<rparr>) (s\<lparr>sw_mem := m\<rparr>)))"

definition select_send_remove :: "cptr \<Rightarrow> wptr \<Rightarrow> mt_state \<Rightarrow> bool \<times> mt_state" where
  "select_send_remove c w s =
     (let (b, (q, n), m) = mt_select_waitq_remove
        ((select_send_q (chan_mem s c), select_send_waiters (chan_mem s c)), sw_mem s) w
      in (b, upd_chan c (\<lambda>ch. ch\<lparr>select_send_q := q, select_send_waiters := n\<rparr>) (s\<lparr>sw_mem := m\<rparr>)))"

definition select_recv_remove :: "cptr \<Rightarrow> wptr \<Rightarrow> mt_state \<Rightarrow> bool \<times> mt_state" where
  "select_recv_remove c w s =
     (let (b, (q, n), m) = mt_select_waitq_remove
        ((select_recv_q (chan_mem s c), select_recv_waiters (chan_mem s c)), sw_mem s) w
      in (b, upd_chan c (\<lambda>ch. ch\<lparr>select_recv_q := q, select_recv_waiters := n\<rparr>) (s\<lparr>sw_mem := m\<rparr>)))"

end
