(* ===== verification/Task_State.thy ===== *)
theory Task_State
  imports Wait_Queue
begin

text \<open>
  \<^verbatim>\<open>src/task_state.c\<close>: parking a task on a channel, a select or a join, and completing the
  wait. The counters \<^verbatim>\<open>channel_waiting_count\<close> and \<^verbatim>\<open>join_waiting_count\<close> feed the scheduler's
  deadlock detection.
\<close>

definition mt_task_mark_ready :: "tptr \<Rightarrow> mt_state \<Rightarrow> mt_state" where
  "mt_task_mark_ready t s = mt_runq_push t (upd_task t (\<lambda>k. k\<lparr>state := MT_TASK_READY\<rparr>) s)"

definition mt_task_mark_running :: "tptr \<Rightarrow> mt_state \<Rightarrow> mt_state" where
  "mt_task_mark_running t s = upd_task t (\<lambda>k. k\<lparr>state := MT_TASK_RUNNING\<rparr>) s"

definition mt_task_mark_dead :: "tptr \<Rightarrow> mt_state \<Rightarrow> mt_state" where
  "mt_task_mark_dead t s = upd_task t (\<lambda>k. k\<lparr>state := MT_TASK_DEAD\<rparr>) s"

definition mt_task_block_on_channel ::
  "tptr \<Rightarrow> cptr \<Rightarrow> mt_chan_wait_kind \<Rightarrow> vptr option \<Rightarrow> mt_state \<Rightarrow> mt_state" where
  "mt_task_block_on_channel t c kind v s =
     (let s = upd_task t (\<lambda>k. k\<lparr>chan_wait_kind := kind, chan_wait_ch := Some c, chan_value := v,
                chan_result := MT_OK, state := MT_TASK_WAITING_CHAN\<rparr>) s
      in s\<lparr>channel_waiting_count := channel_waiting_count s + 1\<rparr>)"

definition dec_channel_waiting :: "mt_state \<Rightarrow> mt_state" where
  "dec_channel_waiting s =
     (if channel_waiting_count s > 0
      then s\<lparr>channel_waiting_count := channel_waiting_count s - 1\<rparr> else s)"

definition dec_join_waiting :: "mt_state \<Rightarrow> mt_state" where
  "dec_join_waiting s =
     (if join_waiting_count s > 0
      then s\<lparr>join_waiting_count := join_waiting_count s - 1\<rparr> else s)"

definition mt_task_complete_channel_wait :: "tptr \<Rightarrow> mt_rc \<Rightarrow> mt_state \<Rightarrow> mt_state" where
  "mt_task_complete_channel_wait t result s =
     (let s = upd_task t (\<lambda>k. k\<lparr>chan_result := result, chan_wait_kind := MT_CHAN_WAIT_NONE,
                chan_wait_ch := None, chan_value := None\<rparr>) s;
          s = dec_channel_waiting s
      in mt_task_mark_ready t s)"

definition mt_task_clear_channel_wait :: "tptr \<Rightarrow> mt_state \<Rightarrow> mt_state" where
  "mt_task_clear_channel_wait t s =
     upd_task t (\<lambda>k. k\<lparr>chan_wait_kind := MT_CHAN_WAIT_NONE, chan_wait_ch := None,
       chan_value := None\<rparr>) s"

definition mt_task_block_on_select :: "tptr \<Rightarrow> mt_state \<Rightarrow> mt_state" where
  "mt_task_block_on_select t s =
     (let s = upd_task t (\<lambda>k. k\<lparr>state := MT_TASK_WAITING_SELECT\<rparr>) s
      in if \<not> select_counted_waiting (task_mem s t)
         then upd_task t (\<lambda>k. k\<lparr>select_counted_waiting := True\<rparr>)
                (s\<lparr>channel_waiting_count := channel_waiting_count s + 1\<rparr>)
         else s)"

definition mt_task_complete_select_wait :: "tptr \<Rightarrow> mt_state \<Rightarrow> mt_state" where
  "mt_task_complete_select_wait t s =
     (if select_counted_waiting (task_mem s t)
      then upd_task t (\<lambda>k. k\<lparr>select_counted_waiting := False\<rparr>) (dec_channel_waiting s)
      else s)"

definition mt_task_block_on_join :: "tptr \<Rightarrow> hptr \<Rightarrow> mt_state \<Rightarrow> mt_state" where
  "mt_task_block_on_join t h s =
     (let s = upd_task t (\<lambda>k. k\<lparr>join_waiting_on := Some h, join_result := MT_OK,
                state := MT_TASK_WAITING_JOIN\<rparr>) s
      in s\<lparr>join_waiting_count := join_waiting_count s + 1\<rparr>)"

definition mt_task_complete_join_wait :: "tptr \<Rightarrow> mt_rc \<Rightarrow> mt_state \<Rightarrow> mt_state" where
  "mt_task_complete_join_wait t result s =
     (let s = upd_task t (\<lambda>k. k\<lparr>join_result := result, join_waiting_on := None\<rparr>) s;
          s = dec_join_waiting s
      in mt_task_mark_ready t s)"

section \<open>The operations as record updates\<close>

text \<open>
  The same operations with every conditional pushed into the fields it decides, which is the form
  symbolic execution wants: one record update per operation, no case split on the state.
\<close>

lemma notify_one_eq:
  "mt_notify_one s = s\<lparr>cond_signals := cond_signals s + (if initialized s then 1 else 0),
     io_wakes := io_wakes s + (if initialized s \<and> \<not> io_wake_write_fd s < 0 then 1 else 0)\<rparr>"
  by (simp add: mt_notify_one_def mt_io_backend_wake_def)

lemma notify_all_eq:
  "mt_notify_all s = s\<lparr>cond_broadcasts := cond_broadcasts s + (if initialized s then 1 else 0),
     io_wakes := io_wakes s + (if initialized s \<and> \<not> io_wake_write_fd s < 0 then 1 else 0)\<rparr>"
  by (simp add: mt_notify_all_def mt_io_backend_wake_def)

lemma dec_channel_waiting_eq:
  "dec_channel_waiting s = s\<lparr>channel_waiting_count := channel_waiting_count s - 1\<rparr>"
  by (simp add: dec_channel_waiting_def)

lemma dec_join_waiting_eq:
  "dec_join_waiting s = s\<lparr>join_waiting_count := join_waiting_count s - 1\<rparr>"
  by (simp add: dec_join_waiting_def)

lemmas task_state_ops = mt_task_mark_ready_def mt_task_mark_running_def mt_task_mark_dead_def
  mt_task_block_on_channel_def mt_task_complete_channel_wait_def mt_task_clear_channel_wait_def
  mt_task_block_on_join_def mt_task_complete_join_wait_def mt_runq_push_def
  notify_one_eq notify_all_eq dec_channel_waiting_eq dec_join_waiting_eq

lemmas wait_queue_ops = chan_send_push_def chan_recv_push_def chan_send_pop_def chan_recv_pop_def
  chan_send_remove_def chan_recv_remove_def join_push_def join_pop_def join_remove_def
  select_send_push_def select_recv_push_def select_send_pop_def select_recv_pop_def
  select_send_remove_def select_recv_remove_def

lemmas upd_defs = upd_task_def upd_chan_def upd_handle_def upd_sw_def upd_fw_def

text \<open>Two tasks are equal when their fields are: the order of updates does not matter.\<close>

lemma mt_task_eq_iff:
  "(a :: mt_task) = b \<longleftrightarrow>
     task_id a = task_id b \<and> task_fn a = task_fn b \<and> task_arg a = task_arg b \<and>
     stack a = stack b \<and> state a = state b \<and> wake_ns a = wake_ns b \<and>
     timer_seq a = timer_seq b \<and> handle a = handle b \<and> join_waiting_on a = join_waiting_on b \<and>
     chan_wait_kind a = chan_wait_kind b \<and> chan_wait_ch a = chan_wait_ch b \<and> chan_value a = chan_value b \<and>
     chan_result a = chan_result b \<and> join_result a = join_result b \<and> select_waiters a = select_waiters b \<and>
     select_waiter_count a = select_waiter_count b \<and> select_index a = select_index b \<and> select_result a = select_result b \<and>
     select_in_timer a = select_in_timer b \<and> select_counted_waiting a = select_counted_waiting b \<and> fd_waiter a = fd_waiter b \<and>
     fd_result a = fd_result b \<and> fd_ready_events a = fd_ready_events b \<and> fd_in_timer a = fd_in_timer b"
  by (cases a; cases b) simp

lemma fun_upd_same_iff: "m(t := a) = m(t := b) \<longleftrightarrow> a = b"
  by (metis fun_upd_same)

lemmas task_eq = fun_upd_same_iff mt_task_eq_iff

end
