(* ===== verification/Timer.thy ===== *)
theory Timer
  imports Timer_Heap Task_State
begin

text \<open>
  \<^verbatim>\<open>src/timer.c\<close> on the runtime state: the clock with its fallback, the saturating deadline
  arithmetic, and push, pop, remove and peek on the timer heap. Waking expired timers needs the
  select and descriptor wake-ups and is in the theory \<open>Wake_Timers\<close>.
\<close>

section \<open>Clock and deadlines\<close>

abbreviation MT_NS_PER_MS :: u64 where "MT_NS_PER_MS \<equiv> 1000000"
abbreviation UINT64_MAX :: u64 where "UINT64_MAX \<equiv> - 1"

text \<open>\<open>clock\<close> is the \<^verbatim>\<open>timespec\<close> that \<^verbatim>\<open>clock_gettime\<close> delivered, \<open>None\<close> when it failed.\<close>

definition mt_now_ns_raw :: "(u64 \<times> u64) option \<Rightarrow> u64 \<times> bool" where
  "mt_now_ns_raw clock =
     (case clock of
        None \<Rightarrow> (0, False)
      | Some (sec, nsec) \<Rightarrow> (sec * 1000000000 + nsec, True))"

text \<open>Returns the time and the new value of the thread-local \<^verbatim>\<open>last_good_ns\<close>.\<close>

definition mt_now_ns :: "(u64 \<times> u64) option \<Rightarrow> u64 \<Rightarrow> u64 \<times> u64" where
  "mt_now_ns clock last_good_ns =
     (let (now, ok) = mt_now_ns_raw clock
      in if ok then (now, now) else (last_good_ns, last_good_ns))"

text \<open>The deadline computation, written out in \<^verbatim>\<open>mt_sleep_ms\<close> and \<^verbatim>\<open>mt_select\<close>.\<close>

definition deadline_after :: "u64 \<Rightarrow> u64 \<Rightarrow> u64" where
  "deadline_after now_ns ms =
     (let sleep_ns = (if ms > UINT64_MAX div MT_NS_PER_MS then UINT64_MAX else ms * MT_NS_PER_MS)
      in if UINT64_MAX - now_ns < sleep_ns then UINT64_MAX else now_ns + sleep_ns)"

lemma unat_deadline_after:
  "unat (deadline_after now ms) = min (2 ^ 64 - 1) (unat now + unat ms * 1000000)"
proof -
  define ns where "ns = (if ms > UINT64_MAX div MT_NS_PER_MS then UINT64_MAX else ms * MT_NS_PER_MS)"
  have "unat ns = min (2 ^ 64 - 1) (unat ms * 1000000)"
    unfolding ns_def using unat_saturating_mult[of MT_NS_PER_MS ms] by simp
  moreover have "unat (deadline_after now ms) = min (2 ^ 64 - 1) (unat now + unat ns)"
    unfolding deadline_after_def Let_def ns_def[symmetric] by (rule unat_saturating_add)
  ultimately show ?thesis by (simp add: min_def)
qed

lemma deadline_after_ge: "now \<le> deadline_after now ms"
  using unat_lt_64[of now] by (simp add: word_le_nat_alt unat_deadline_after)

section \<open>Capacity\<close>

function grow_cap :: "nat \<Rightarrow> nat \<Rightarrow> nat" where
  "grow_cap c needed = (if c < needed \<and> 0 < c then grow_cap (c * 2) needed else c)"
  by pat_completeness auto
termination
  by (relation "measure (\<lambda>(c, needed). needed - c)") auto

declare grow_cap.simps [simp del]

lemma grow_cap_ge: "0 < c \<Longrightarrow> needed \<le> grow_cap c needed"
proof (induction c needed rule: grow_cap.induct)
  case (1 c needed)
  then show ?case by (subst grow_cap.simps) auto
qed

text \<open>\<open>alloc_ok\<close> tells whether \<^verbatim>\<open>realloc\<close> delivered the memory.\<close>

definition mt_timer_reserve :: "nat \<Rightarrow> bool \<Rightarrow> mt_state \<Rightarrow> mt_rc \<times> mt_state" where
  "mt_timer_reserve needed alloc_ok s =
     (if cap (timers s) \<ge> needed then (MT_OK, s)
      else let new_cap = grow_cap (if cap (timers s) \<noteq> 0 then cap (timers s) * 2 else 16) needed
           in if \<not> alloc_ok then (MT_ERR_NOMEM, s)
              else (MT_OK, s\<lparr>timers := (timers s)\<lparr>cap := new_cap\<rparr>\<rparr>))"

section \<open>Push, pop, remove, peek\<close>

definition mt_timer_push_state ::
  "tptr \<Rightarrow> u64 \<Rightarrow> mt_task_state \<Rightarrow> bool \<Rightarrow> mt_state \<Rightarrow> mt_rc \<times> mt_state" where
  "mt_timer_push_state t deadline_ns st alloc_ok s =
     (let (rc, s) = mt_timer_reserve (length (items (timers s)) + 1) alloc_ok s
      in if rc \<noteq> MT_OK then (MT_ERR_NOMEM, s)
         else let s = upd_task t (\<lambda>k. k\<lparr>wake_ns := deadline_ns,
                        timer_seq := next_seq (timers s), state := st\<rparr>) s;
                  s = s\<lparr>timers := (timers s)\<lparr>next_seq := next_seq (timers s) + 1\<rparr>\<rparr>;
                  s = s\<lparr>timers := (timers s)\<lparr>items :=
                        heap_push (mt_timer_less (task_mem s)) (items (timers s)) t\<rparr>\<rparr>
              in (MT_OK, mt_notify_all s))"

definition mt_timer_push :: "tptr \<Rightarrow> u64 \<Rightarrow> bool \<Rightarrow> mt_state \<Rightarrow> mt_rc \<times> mt_state" where
  "mt_timer_push t deadline_ns alloc_ok s =
     mt_timer_push_state t deadline_ns MT_TASK_SLEEPING alloc_ok s"

definition mt_timer_pop :: "mt_state \<Rightarrow> tptr option \<times> mt_state" where
  "mt_timer_pop s =
     (case heap_pop (mt_timer_less (task_mem s)) (items (timers s)) of
        None \<Rightarrow> (None, s)
      | Some (first, rest) \<Rightarrow>
          (Some first, upd_task first (\<lambda>k. k\<lparr>wake_ns := 0\<rparr>)
             (s\<lparr>timers := (timers s)\<lparr>items := rest\<rparr>\<rparr>)))"

definition mt_timer_remove :: "tptr \<Rightarrow> mt_state \<Rightarrow> bool \<times> mt_state" where
  "mt_timer_remove t s =
     (case heap_remove (mt_timer_less (task_mem s)) (items (timers s)) t of
        None \<Rightarrow> (False, s)
      | Some rest \<Rightarrow>
          (True, upd_task t (\<lambda>k. k\<lparr>wake_ns := 0\<rparr>)
             (s\<lparr>timers := (timers s)\<lparr>items := rest\<rparr>\<rparr>)))"

definition mt_timer_peek :: "mt_state \<Rightarrow> tptr option" where
  "mt_timer_peek s = (if length (items (timers s)) > 0 then Some (items (timers s) ! 0) else None)"

definition mt_debug_sleeping_task_count :: "mt_state \<Rightarrow> nat" where
  "mt_debug_sleeping_task_count s = length (items (timers s))"

section \<open>Invariant\<close>

text \<open>The array is a heap for the keys stored in the tasks, holds no task twice, and fits.\<close>

definition timers_ok :: "mt_state \<Rightarrow> bool" where
  "timers_ok s \<longleftrightarrow> is_heap (mt_timer_less (task_mem s)) (items (timers s)) \<and>
     distinct (items (timers s)) \<and> length (items (timers s)) \<le> cap (timers s)"

lemma is_heap_cong:
  assumes "\<And>t. t \<in> set xs \<Longrightarrow> timer_key m t = timer_key m' t"
  shows "is_heap (mt_timer_less m) xs = is_heap (mt_timer_less m') xs"
  using assms by (simp add: is_heap_def mt_timer_less_key)

text \<open>Writing other fields, or the key of a task that is not in the heap, keeps the invariant.\<close>

lemma timers_ok_cong:
  assumes "timers s' = timers s"
    and "\<And>t. t \<in> set (items (timers s)) \<Longrightarrow> timer_key (task_mem s') t = timer_key (task_mem s) t"
  shows "timers_ok s' = timers_ok s"
  using assms is_heap_cong[of "items (timers s)" "task_mem s'" "task_mem s"]
  by (simp add: timers_ok_def)

lemma timers_ok_upd_task [simp]:
  "(\<And>k. wake_ns (f k) = wake_ns k) \<Longrightarrow> (\<And>k. timer_seq (f k) = timer_seq k) \<Longrightarrow>
    timers_ok (upd_task t f s) = timers_ok s"
  by (rule timers_ok_cong) (auto simp: timer_key_def)

lemma reserve_eq:
  "mt_timer_reserve n a s =
     (if cap (timers s) \<ge> n then (MT_OK, s)
      else if \<not> a then (MT_ERR_NOMEM, s)
      else (MT_OK, s\<lparr>timers := (timers s)\<lparr>cap :=
             grow_cap (if cap (timers s) \<noteq> 0 then cap (timers s) * 2 else 16) n\<rparr>\<rparr>))"
  by (simp add: mt_timer_reserve_def Let_def)

definition timer_pushed :: "tptr \<Rightarrow> u64 \<Rightarrow> mt_task_state \<Rightarrow> mt_state \<Rightarrow> tptr \<Rightarrow> mt_task" where
  "timer_pushed t d st s = (task_mem s)(t := (task_mem s t)\<lparr>wake_ns := d,
     timer_seq := next_seq (timers s), state := st\<rparr>)"

lemma timer_push_fail:
  "fst (mt_timer_push_state t d st a s) \<noteq> MT_OK \<Longrightarrow>
    mt_timer_push_state t d st a s = (MT_ERR_NOMEM, s)"
  by (auto simp: mt_timer_push_state_def Let_def reserve_eq split: if_splits)

lemma timers_cap_self [simp]: "h\<lparr>cap := cap h, next_seq := n, items := xs\<rparr> = h\<lparr>next_seq := n, items := xs\<rparr>"
  by (cases h) simp

lemma timer_push_eq:
  assumes "mt_timer_push_state t d st a s = (MT_OK, s')"
  obtains c where "length (items (timers s)) + 1 \<le> c"
    and "s' = mt_notify_all (s\<lparr>task_mem := timer_pushed t d st s,
           timers := (timers s)\<lparr>cap := c, next_seq := next_seq (timers s) + 1,
             items := heap_push (mt_timer_less (timer_pushed t d st s)) (items (timers s)) t\<rparr>\<rparr>)"
proof (cases "length (items (timers s)) + 1 \<le> cap (timers s)")
  case True
  with assms that[of "cap (timers s)"] show ?thesis
    by (simp add: mt_timer_push_state_def reserve_eq upd_task_def timer_pushed_def)
next
  case False
  let ?c = "grow_cap (if cap (timers s) \<noteq> 0 then cap (timers s) * 2 else 16)
    (length (items (timers s)) + 1)"
  from False assms have a by (auto simp: mt_timer_push_state_def reserve_eq split: if_splits)
  with False assms that[of ?c] show ?thesis
    by (simp add: mt_timer_push_state_def reserve_eq upd_task_def timer_pushed_def Let_def
        grow_cap_ge)
qed

lemma timer_push_ok:
  assumes p: "mt_timer_push_state t d st a s = (MT_OK, s')" and ok: "timers_ok s"
    and t: "t \<notin> set (items (timers s))"
  shows "timers_ok s'" and "mset (items (timers s')) = add_mset t (mset (items (timers s)))"
    and "task_mem s' = timer_pushed t d st s"
    and "next_seq (timers s') = next_seq (timers s) + 1"
proof -
  obtain c where c: "length (items (timers s)) + 1 \<le> c" and s': "s' = mt_notify_all
      (s\<lparr>task_mem := timer_pushed t d st s,
         timers := (timers s)\<lparr>cap := c, next_seq := next_seq (timers s) + 1,
           items := heap_push (mt_timer_less (timer_pushed t d st s)) (items (timers s)) t\<rparr>\<rparr>)"
    using timer_push_eq[OF p] by blast
  show "task_mem s' = timer_pushed t d st s" "next_seq (timers s') = next_seq (timers s) + 1"
    and ms: "mset (items (timers s')) = add_mset t (mset (items (timers s)))"
    by (simp_all add: s')
  have "timer_key (timer_pushed t d st s) u = timer_key (task_mem s) u"
    if "u \<in> set (items (timers s))" for u
    using t that by (auto simp: timer_key_def timer_pushed_def)
  from is_heap_cong[OF this] have "is_heap (mt_timer_less (timer_pushed t d st s)) (items (timers s))"
    using ok by (simp add: timers_ok_def)
  moreover have "distinct (items (timers s'))"
    using ok t ms mset_eq_imp_distinct_iff[of "items (timers s')" "t # items (timers s)"]
    by (simp add: timers_ok_def)
  moreover have "length (items (timers s')) = length (items (timers s)) + 1"
    using arg_cong[OF ms, of size] by simp
  ultimately show "timers_ok s'" using c by (simp add: timers_ok_def s' tord.heap_push_heap)
qed

lemma timer_pop_None: "fst (mt_timer_pop s) = None \<longleftrightarrow> items (timers s) = []"
  using heap_pop_None[of "mt_timer_less (task_mem s)" "items (timers s)"]
  by (auto simp: mt_timer_pop_def split: option.splits)

lemma timer_pop_Some:
  assumes p: "mt_timer_pop s = (Some t, s')" and ok: "timers_ok s"
  shows "timers_ok s'" and "mset (items (timers s)) = add_mset t (mset (items (timers s')))"
    and "\<forall>u \<in> set (items (timers s)). \<not> mt_timer_less (task_mem s) u t"
    and "s' = upd_task t (\<lambda>k. k\<lparr>wake_ns := 0\<rparr>) (s\<lparr>timers := timers s'\<rparr>)"
    and "t \<notin> set (items (timers s'))"
proof -
  let ?lt = "mt_timer_less (task_mem s)"
  obtain ys where h: "heap_pop ?lt (items (timers s)) = Some (t, ys)"
    and s': "s' = upd_task t (\<lambda>k. k\<lparr>wake_ns := 0\<rparr>) (s\<lparr>timers := (timers s)\<lparr>items := ys\<rparr>\<rparr>)"
    using p by (auto simp: mt_timer_pop_def split: option.splits)
  have heap: "is_heap ?lt (items (timers s))" using ok by (simp add: timers_ok_def)
  note pop = theap.pop_Some[OF heap h]
  show ms: "mset (items (timers s)) = add_mset t (mset (items (timers s')))"
    and "\<forall>u \<in> set (items (timers s)). \<not> ?lt u t" using pop s' by auto
  show "s' = upd_task t (\<lambda>k. k\<lparr>wake_ns := 0\<rparr>) (s\<lparr>timers := timers s'\<rparr>)" by (simp add: s')
  have d: "distinct (t # ys)"
    using ok pop mset_eq_imp_distinct_iff[of "items (timers s)" "t # ys"] by (simp add: timers_ok_def)
  then show "t \<notin> set (items (timers s'))" by (simp add: s')
  have "timer_key (task_mem s') u = timer_key (task_mem s) u" if "u \<in> set ys" for u
    using d that by (auto simp: s' timer_key_def)
  from is_heap_cong[OF this] have "is_heap (mt_timer_less (task_mem s')) ys" using pop by simp
  moreover have "length ys \<le> cap (timers s)"
    using ok arg_cong[OF conjunct1[OF conjunct2[OF pop]], of size] by (simp add: timers_ok_def)
  ultimately show "timers_ok s'" using d by (simp add: timers_ok_def s')
qed

lemma timer_remove_not_mem: "t \<notin> set (items (timers s)) \<Longrightarrow> mt_timer_remove t s = (False, s)"
  using heap_remove_None[of "mt_timer_less (task_mem s)" "items (timers s)" t]
  by (simp add: mt_timer_remove_def)

lemma timer_remove_mem:
  assumes ok: "timers_ok s" and t: "t \<in> set (items (timers s))"
  obtains s' where "mt_timer_remove t s = (True, s')" and "timers_ok s'"
    and "mset (items (timers s)) = add_mset t (mset (items (timers s')))"
    and "s' = upd_task t (\<lambda>k. k\<lparr>wake_ns := 0\<rparr>) (s\<lparr>timers := timers s'\<rparr>)"
proof -
  let ?lt = "mt_timer_less (task_mem s)"
  obtain ys where h: "heap_remove ?lt (items (timers s)) t = Some ys"
    using t by (cases "heap_remove ?lt (items (timers s)) t") (auto simp: heap_remove_None)
  let ?s' = "upd_task t (\<lambda>k. k\<lparr>wake_ns := 0\<rparr>) (s\<lparr>timers := (timers s)\<lparr>items := ys\<rparr>\<rparr>)"
  have heap: "is_heap ?lt (items (timers s))" using ok by (simp add: timers_ok_def)
  note rem = theap.remove_Some[OF heap h]
  have d: "distinct (t # ys)"
    using ok rem mset_eq_imp_distinct_iff[of "items (timers s)" "t # ys"] by (simp add: timers_ok_def)
  have "timer_key (task_mem ?s') u = timer_key (task_mem s) u" if "u \<in> set ys" for u
    using d that by (auto simp: timer_key_def)
  from is_heap_cong[OF this] have "is_heap (mt_timer_less (task_mem ?s')) ys" using rem by simp
  moreover have "length ys \<le> cap (timers s)"
    using ok arg_cong[OF conjunct2[OF rem], of size] by (simp add: timers_ok_def)
  ultimately have "timers_ok ?s'" using d by (simp add: timers_ok_def)
  then show ?thesis using that[of ?s'] h rem by (simp add: mt_timer_remove_def)
qed

text \<open>Removal as one update, whether or not the task was queued.\<close>

definition timers_without :: "tptr \<Rightarrow> mt_state \<Rightarrow> mt_timer_heap" where
  "timers_without t s = timers (snd (mt_timer_remove t s))"

lemma timers_without_fields [simp]:
  "next_seq (timers_without t s) = next_seq (timers s)" "cap (timers_without t s) = cap (timers s)"
  by (simp_all add: timers_without_def mt_timer_remove_def split: option.splits)

lemma timer_remove_eq:
  "mt_timer_remove t s =
     (t \<in> set (items (timers s)),
      s\<lparr>timers := timers_without t s, task_mem := (task_mem s)(t := (task_mem s t)\<lparr>wake_ns :=
         if t \<in> set (items (timers s)) then 0 else wake_ns (task_mem s t)\<rparr>)\<rparr>)"
  using heap_remove_None[of "mt_timer_less (task_mem s)" "items (timers s)" t]
  by (auto simp: timers_without_def mt_timer_remove_def upd_task_def split: option.splits)

lemma timers_without_mset:
  "timers_ok s \<Longrightarrow> mset (items (timers_without t s)) = mset (items (timers s)) - {#t#}"
proof (cases "t \<in> set (items (timers s))")
  case True
  assume "timers_ok s"
  from timer_remove_mem[OF this True] obtain s' where "mt_timer_remove t s = (True, s')"
    "mset (items (timers s)) = add_mset t (mset (items (timers s')))" by blast
  then show ?thesis by (simp add: timers_without_def)
qed (simp add: timers_without_def timer_remove_not_mem)

lemma timers_without_set [simp]:
  "timers_ok s \<Longrightarrow> set (items (timers_without t s)) = set (items (timers s)) - {t}"
proof -
  assume ok: "timers_ok s"
  then have "distinct (items (timers s))" by (simp add: timers_ok_def)
  moreover have m: "mset (items (timers_without t s)) = mset (remove1 t (items (timers s)))"
    by (simp add: timers_without_mset[OF ok])
  ultimately show ?thesis using mset_eq_setD[OF m] by simp
qed

lemma timers_ok_remove: "timers_ok s \<Longrightarrow> timers_ok (snd (mt_timer_remove t s))"
  by (cases "t \<in> set (items (timers s))")
    (auto simp: timer_remove_not_mem elim: timer_remove_mem[of s t])

section \<open>The minimum\<close>

text \<open>
  Popping a timer of a well-formed heap takes out exactly one task, one that no queued task
  precedes in the order of deadlines and sequence numbers, leaves the rest queued, resets the
  deadline of the popped task and keeps the heap well formed.
\<close>

lemma mt_timer_pop_min:
  assumes "timers_ok s" and "items (timers s) \<noteq> []"
  shows "\<exists>t s'. mt_timer_pop s = (Some t, s') \<and> timers_ok s' \<and>
    mset (items (timers s)) = add_mset t (mset (items (timers s'))) \<and>
    (\<forall>u \<in> set (items (timers s)). \<not> mt_timer_less (task_mem s) u t) \<and>
    wake_ns (task_mem s' t) = 0"
proof -
  obtain t s' where p: "mt_timer_pop s = (Some t, s')"
    using assms(2) timer_pop_None[of s] by (cases "mt_timer_pop s"; cases "fst (mt_timer_pop s)") auto
  have "wake_ns (task_mem s' t) = 0"
    by (subst timer_pop_Some(4)[OF p assms(1)]) simp
  with p timer_pop_Some(1-3)[OF p assms(1)] show ?thesis by blast
qed

end
