(* ===== verification/Select_Wait.thy ===== *)
theory Select_Wait
  imports Timer
begin

text \<open>
  \<^verbatim>\<open>src/select_wait.c\<close>: the registrations a parked \<^verbatim>\<open>mt_select\<close> leaves on its channels, and the
  ways such a task is woken: by a channel operation, by its timeout or by cancellation.
\<close>

section \<open>Operations\<close>

definition mt_select_remove_waiter_from_channel :: "wptr \<Rightarrow> mt_state \<Rightarrow> bool \<times> mt_state" where
  "mt_select_remove_waiter_from_channel w s =
     (if \<not> sw_active (sw_mem s w) then (False, s)
      else case sw_ch (sw_mem s w) of
             None \<Rightarrow> (False, s)
           | Some c \<Rightarrow>
               (if sw_op (sw_mem s w) = MT_SELECT_SEND then select_send_remove c w s
                else if sw_op (sw_mem s w) = MT_SELECT_RECV then select_recv_remove c w s
                else (False, s)))"

text \<open>The loop over the \<^verbatim>\<open>task_next\<close> chain.\<close>

primrec free_waiters :: "wptr list \<Rightarrow> mt_state \<Rightarrow> mt_state" where
  "free_waiters [] s = s"
| "free_waiters (w # ws) s =
     free_waiters ws
       (if sw_active (sw_mem s w) then snd (mt_select_remove_waiter_from_channel w s) else s)"

definition mt_select_free_task_waiters :: "tptr \<Rightarrow> mt_state \<Rightarrow> mt_state" where
  "mt_select_free_task_waiters t s =
     upd_task t (\<lambda>k. k\<lparr>select_waiters := [], select_waiter_count := 0\<rparr>)
       (free_waiters (select_waiters (task_mem s t)) s)"

definition mt_select_unpark_task :: "tptr \<Rightarrow> mt_rc \<Rightarrow> nat \<Rightarrow> mt_state \<Rightarrow> mt_state" where
  "mt_select_unpark_task t result index s =
     (let s = (if select_in_timer (task_mem s t)
               then upd_task t (\<lambda>k. k\<lparr>select_in_timer := False\<rparr>) (snd (mt_timer_remove t s))
               else s);
          s = mt_select_free_task_waiters t s;
          s = mt_task_complete_select_wait t s;
          s = upd_task t (\<lambda>k. k\<lparr>select_result := result, select_index := index\<rparr>) s
      in mt_task_mark_ready t s)"

definition mt_select_complete_waiter :: "wptr \<Rightarrow> mt_rc \<Rightarrow> mt_state \<Rightarrow> mt_state" where
  "mt_select_complete_waiter w result s =
     (case sw_task (sw_mem s w) of
        None \<Rightarrow> s
      | Some t \<Rightarrow>
          mt_select_unpark_task t result (sw_index (sw_mem s w))
            (upd_sw w (\<lambda>k. k\<lparr>sw_active := False\<rparr>) s))"

definition mt_select_timeout_ready :: "tptr \<Rightarrow> mt_state \<Rightarrow> mt_state" where
  "mt_select_timeout_ready t s =
     (let s = upd_task t (\<lambda>k. k\<lparr>select_in_timer := False\<rparr>) s;
          s = mt_select_free_task_waiters t s;
          s = mt_task_complete_select_wait t s;
          s = upd_task t (\<lambda>k. k\<lparr>select_result := MT_OK\<rparr>) s
      in mt_task_mark_ready t s)"

section \<open>Invariant: a registration is linked exactly where it says\<close>

definition linked_send :: "mt_state \<Rightarrow> cptr \<Rightarrow> wptr \<Rightarrow> bool" where
  "linked_send s c w \<longleftrightarrow> sw_active (sw_mem s w) \<and> sw_ch (sw_mem s w) = Some c \<and>
     sw_op (sw_mem s w) = MT_SELECT_SEND"

definition linked_recv :: "mt_state \<Rightarrow> cptr \<Rightarrow> wptr \<Rightarrow> bool" where
  "linked_recv s c w \<longleftrightarrow> sw_active (sw_mem s w) \<and> sw_ch (sw_mem s w) = Some c \<and>
     sw_op (sw_mem s w) = MT_SELECT_RECV"

definition select_chan_ok :: "mt_state \<Rightarrow> cptr \<Rightarrow> bool" where
  "select_chan_ok s c \<longleftrightarrow>
     waitq_rep (select_send_q (chan_mem s c), select_send_waiters (chan_mem s c))
       (select_send_q (chan_mem s c)) \<and>
     waitq_rep (select_recv_q (chan_mem s c), select_recv_waiters (chan_mem s c))
       (select_recv_q (chan_mem s c)) \<and>
     (\<forall>w. w \<in> set (select_send_q (chan_mem s c)) \<longleftrightarrow> linked_send s c w) \<and>
     (\<forall>w. w \<in> set (select_recv_q (chan_mem s c)) \<longleftrightarrow> linked_recv s c w)"

definition select_ok :: "mt_state \<Rightarrow> bool" where
  "select_ok s \<longleftrightarrow> (\<forall>c. select_chan_ok s c) \<and>
     (\<forall>w. sw_active (sw_mem s w) \<longrightarrow> (\<exists>c. linked_send s c w \<or> linked_recv s c w))"

text \<open>The channel with the registrations \<open>W\<close> taken out of its select queues.\<close>

definition drop_waiters :: "wptr set \<Rightarrow> mt_chan \<Rightarrow> mt_chan" where
  "drop_waiters W ch = ch\<lparr>
     select_send_q := filter (\<lambda>w. w \<notin> W) (select_send_q ch),
     select_send_waiters := length (filter (\<lambda>w. w \<notin> W) (select_send_q ch)),
     select_recv_q := filter (\<lambda>w. w \<notin> W) (select_recv_q ch),
     select_recv_waiters := length (filter (\<lambda>w. w \<notin> W) (select_recv_q ch))\<rparr>"

definition deactivate_all :: "wptr set \<Rightarrow> sw_store \<Rightarrow> sw_store" where
  "deactivate_all W m = (\<lambda>w. if w \<in> W then (m w)\<lparr>sw_active := False\<rparr> else m w)"

lemma drop_waiters_twice: "drop_waiters V (drop_waiters W ch) = drop_waiters (W \<union> V) ch"
  by (simp add: drop_waiters_def conj_commute)

lemma drop_waiters_fields [simp]:
  "elem_size (drop_waiters W ch) = elem_size ch" "capacity (drop_waiters W ch) = capacity ch"
  "ch_len (drop_waiters W ch) = ch_len ch" "ch_head (drop_waiters W ch) = ch_head ch"
  "ch_tail (drop_waiters W ch) = ch_tail ch" "ch_buffer (drop_waiters W ch) = ch_buffer ch"
  "ch_closed (drop_waiters W ch) = ch_closed ch" "send_q (drop_waiters W ch) = send_q ch"
  "recv_q (drop_waiters W ch) = recv_q ch" "send_waiters (drop_waiters W ch) = send_waiters ch"
  "recv_waiters (drop_waiters W ch) = recv_waiters ch"
  "select_send_q (drop_waiters W ch) = filter (\<lambda>w. w \<notin> W) (select_send_q ch)"
  "select_recv_q (drop_waiters W ch) = filter (\<lambda>w. w \<notin> W) (select_recv_q ch)"
  "select_send_waiters (drop_waiters W ch) = length (filter (\<lambda>w. w \<notin> W) (select_send_q ch))"
  "select_recv_waiters (drop_waiters W ch) = length (filter (\<lambda>w. w \<notin> W) (select_recv_q ch))"
  by (simp_all add: drop_waiters_def)

lemma deactivate_all_twice: "deactivate_all V (deactivate_all W m) = deactivate_all (W \<union> V) m"
  by (auto simp: deactivate_all_def)

lemma drop_waiters_id:
  "select_chan_ok s c \<Longrightarrow> (\<forall>w \<in> W. \<not> sw_active (sw_mem s w)) \<Longrightarrow>
    drop_waiters W (chan_mem s c) = chan_mem s c"
proof -
  assume ok: "select_chan_ok s c" and W: "\<forall>w \<in> W. \<not> sw_active (sw_mem s w)"
  then have "filter (\<lambda>w. w \<notin> W) (select_send_q (chan_mem s c)) = select_send_q (chan_mem s c)"
    "filter (\<lambda>w. w \<notin> W) (select_recv_q (chan_mem s c)) = select_recv_q (chan_mem s c)"
    by (auto simp: filter_id_conv select_chan_ok_def linked_send_def linked_recv_def)
  with ok show ?thesis by (simp add: drop_waiters_def select_chan_ok_def)
qed

lemma select_ok_dropped:
  assumes "select_ok s" and "s' = s\<lparr>chan_mem := drop_waiters W \<circ> chan_mem s,
    sw_mem := deactivate_all W (sw_mem s)\<rparr>"
  shows "select_ok s'"
  using assms by (auto simp: select_ok_def select_chan_ok_def linked_send_def linked_recv_def
      deactivate_all_def)

text \<open>Unlinking one registration, as an update of the two stores.\<close>

lemma filter_neq_id [simp]: "x \<notin> set xs \<Longrightarrow> filter (\<lambda>y. y \<noteq> x) xs = xs"
  by (auto simp: filter_id_conv)

lemma remove1_filter: "distinct xs \<Longrightarrow> remove1 x xs = filter (\<lambda>y. y \<noteq> x) xs"
  by (induction xs) auto

lemma chan_upd_drop:
  assumes ok: "select_ok s" and x: "x = drop_waiters {w} (chan_mem s c)"
    and w: "linked_send s c w \<or> linked_recv s c w"
  shows "(chan_mem s)(c := x) = drop_waiters {w} \<circ> chan_mem s"
proof
  fix d
  show "((chan_mem s)(c := x)) d = (drop_waiters {w} \<circ> chan_mem s) d"
  proof (cases "d = c")
    case False
    then have "w \<notin> set (select_send_q (chan_mem s d))" "w \<notin> set (select_recv_q (chan_mem s d))"
      using ok w by (auto simp: select_ok_def select_chan_ok_def linked_send_def linked_recv_def)
    moreover have "select_send_waiters (chan_mem s d) = length (select_send_q (chan_mem s d))"
      "select_recv_waiters (chan_mem s d) = length (select_recv_q (chan_mem s d))"
      using ok by (auto simp: select_ok_def select_chan_ok_def)
    ultimately show ?thesis using False by (simp add: drop_waiters_def)
  qed (simp add: x)
qed

lemma remove_waiter_eq:
  assumes ok: "select_ok s"
  shows "(if sw_active (sw_mem s w) then snd (mt_select_remove_waiter_from_channel w s) else s) =
    s\<lparr>chan_mem := drop_waiters {w} \<circ> chan_mem s, sw_mem := deactivate_all {w} (sw_mem s)\<rparr>"
proof (cases "sw_active (sw_mem s w)")
  case False
  have "drop_waiters {w} \<circ> chan_mem s = chan_mem s"
    using ok False by (auto simp: select_ok_def drop_waiters_id)
  moreover have "deactivate_all {w} (sw_mem s) = sw_mem s"
    using False by (auto simp: deactivate_all_def)
  ultimately show ?thesis using False by simp
next
  case True
  have sw: "set_active False w (sw_mem s) = deactivate_all {w} (sw_mem s)"
    by (auto simp: set_active_def deactivate_all_def)
  obtain c where c: "linked_send s c w \<or> linked_recv s c w"
    using ok True by (auto simp: select_ok_def)
  have ch: "select_chan_ok s c" using ok by (simp add: select_ok_def)
  have q: "distinct (select_send_q (chan_mem s c))" "distinct (select_recv_q (chan_mem s c))"
    "select_send_waiters (chan_mem s c) = length (select_send_q (chan_mem s c))"
    "select_recv_waiters (chan_mem s c) = length (select_recv_q (chan_mem s c))"
    using ch by (auto simp: select_chan_ok_def)
  from c show ?thesis
  proof
    assume l: "linked_send s c w"
    then have m: "w \<in> set (select_send_q (chan_mem s c))" "w \<notin> set (select_recv_q (chan_mem s c))"
      using ch by (auto simp: select_chan_ok_def linked_send_def linked_recv_def)
    have "(chan_mem s c)\<lparr>select_send_q := remove1 w (select_send_q (chan_mem s c)),
        select_send_waiters := length (remove1 w (select_send_q (chan_mem s c)))\<rparr> =
        drop_waiters {w} (chan_mem s c)"
      using m(2) by (simp add: drop_waiters_def remove1_filter q)
    from chan_upd_drop[OF ok this c] show ?thesis
      using l m True q by (auto simp: mt_select_remove_waiter_from_channel_def linked_send_def
          select_send_remove_def length_remove1 upd_chan_def sw)
  next
    assume l: "linked_recv s c w"
    then have m: "w \<in> set (select_recv_q (chan_mem s c))" "w \<notin> set (select_send_q (chan_mem s c))"
      using ch by (auto simp: select_chan_ok_def linked_send_def linked_recv_def)
    have "(chan_mem s c)\<lparr>select_recv_q := remove1 w (select_recv_q (chan_mem s c)),
        select_recv_waiters := length (remove1 w (select_recv_q (chan_mem s c)))\<rparr> =
        drop_waiters {w} (chan_mem s c)"
      using m(2) by (simp add: drop_waiters_def remove1_filter q)
    from chan_upd_drop[OF ok this c] show ?thesis
      using l m True q by (auto simp: mt_select_remove_waiter_from_channel_def linked_recv_def
          select_recv_remove_def length_remove1 upd_chan_def sw)
  qed
qed

text \<open>The whole loop: every listed registration leaves its queue, and nothing else changes.\<close>

lemma free_waiters_eq:
  "select_ok s \<Longrightarrow> free_waiters ws s =
     s\<lparr>chan_mem := drop_waiters (set ws) \<circ> chan_mem s, sw_mem := deactivate_all (set ws) (sw_mem s)\<rparr>"
proof (induction ws arbitrary: s)
  case Nil
  have "drop_waiters {} \<circ> chan_mem s = chan_mem s"
    using Nil by (auto simp: select_ok_def drop_waiters_id)
  moreover have "deactivate_all {} (sw_mem s) = sw_mem s" by (simp add: deactivate_all_def)
  ultimately show ?case by simp
next
  case (Cons w ws)
  let ?s = "s\<lparr>chan_mem := drop_waiters {w} \<circ> chan_mem s, sw_mem := deactivate_all {w} (sw_mem s)\<rparr>"
  have "select_ok ?s" using select_ok_dropped[OF Cons.prems] by blast
  from Cons.IH[OF this] show ?case
    by (simp add: remove_waiter_eq[OF Cons.prems] drop_waiters_twice deactivate_all_twice comp_def)
qed

lemma free_waiters_ok: "select_ok s \<Longrightarrow> select_ok (free_waiters ws s)"
  by (rule select_ok_dropped) (auto simp: free_waiters_eq)

section \<open>The wake-ups as updates\<close>

text \<open>
  \<open>select_woken\<close> is what every wake-up of a parked select does apart from the timer and the two
  result fields: the registrations are gone, the wait is no longer counted, the task is runnable.
\<close>

definition select_woken :: "tptr \<Rightarrow> mt_state \<Rightarrow> mt_state" where
  "select_woken t s = mt_notify_one (s\<lparr>
     task_mem := (task_mem s)(t := (task_mem s t)\<lparr>select_waiters := [], select_waiter_count := 0,
       select_in_timer := False, select_counted_waiting := False, state := MT_TASK_READY\<rparr>),
     chan_mem := drop_waiters (set (select_waiters (task_mem s t))) \<circ> chan_mem s,
     sw_mem := deactivate_all (set (select_waiters (task_mem s t))) (sw_mem s),
     channel_waiting_count := channel_waiting_count s -
       (if select_counted_waiting (task_mem s t) then 1 else 0),
     runq := runq s @ [t], runnable_count := runnable_count s + 1\<rparr>)"

lemma select_ok_upd_task [simp]: "select_ok (upd_task t f s) = select_ok s"
  by (simp add: select_ok_def select_chan_ok_def linked_send_def linked_recv_def)

lemma select_ok_timers [simp]: "select_ok (s\<lparr>timers := h\<rparr>) = select_ok s"
  by (simp add: select_ok_def select_chan_ok_def linked_send_def linked_recv_def)

lemma select_ok_task_mem [simp]: "select_ok (s\<lparr>task_mem := m\<rparr>) = select_ok s"
  by (simp add: select_ok_def select_chan_ok_def linked_send_def linked_recv_def)

lemma task_self_update [simp]:
  "\<not> select_counted_waiting k \<Longrightarrow> k\<lparr>select_counted_waiting := False\<rparr> = k"
  "\<not> select_in_timer k \<Longrightarrow> k\<lparr>select_in_timer := False\<rparr> = k"
  by (cases k; simp)+

lemma complete_select_wait_eq:
  "mt_task_complete_select_wait t s = s\<lparr>
     task_mem := (task_mem s)(t := (task_mem s t)\<lparr>select_counted_waiting := False\<rparr>),
     channel_waiting_count := channel_waiting_count s -
       (if select_counted_waiting (task_mem s t) then 1 else 0)\<rparr>"
  by (auto simp: mt_task_complete_select_wait_def dec_channel_waiting_eq upd_task_def)

lemma mark_ready_eq:
  "mt_task_mark_ready t s = mt_notify_one (s\<lparr>
     task_mem := (task_mem s)(t := (task_mem s t)\<lparr>state := MT_TASK_READY\<rparr>),
     runq := runq s @ [t], runnable_count := runnable_count s + 1\<rparr>)"
  by (simp add: mt_task_mark_ready_def mt_runq_push_def upd_task_def)

lemma free_task_waiters_eq:
  "select_ok s \<Longrightarrow> mt_select_free_task_waiters t s = s\<lparr>
     task_mem := (task_mem s)(t := (task_mem s t)\<lparr>select_waiters := [], select_waiter_count := 0\<rparr>),
     chan_mem := drop_waiters (set (select_waiters (task_mem s t))) \<circ> chan_mem s,
     sw_mem := deactivate_all (set (select_waiters (task_mem s t))) (sw_mem s)\<rparr>"
  by (simp add: mt_select_free_task_waiters_def free_waiters_eq upd_task_def)

lemma timeout_ready_eq:
  assumes "select_ok s"
  shows "mt_select_timeout_ready t s =
    select_woken t (upd_task t (\<lambda>k. k\<lparr>select_result := MT_OK\<rparr>) s)"
proof -
  let ?s1 = "upd_task t (\<lambda>k. k\<lparr>select_in_timer := False\<rparr>) s"
  have "select_ok ?s1" using assms by simp
  note free = free_task_waiters_eq[OF this]
  show ?thesis
    unfolding mt_select_timeout_ready_def Let_def select_woken_def mark_ready_eq free
    by (rule arg_cong[of _ _ mt_notify_one], rule mt_state.equality)
      (simp_all add: complete_select_wait_eq task_eq split del: if_split)
qed

definition select_unqueued :: "tptr \<Rightarrow> mt_state \<Rightarrow> mt_state" where
  "select_unqueued t s = (if select_in_timer (task_mem s t) then snd (mt_timer_remove t s) else s)"

lemma unpark_eq:
  assumes "select_ok s"
  shows "mt_select_unpark_task t r i s =
    select_woken t (upd_task t (\<lambda>k. k\<lparr>select_result := r, select_index := i\<rparr>) (select_unqueued t s))"
proof -
  let ?s1 = "if select_in_timer (task_mem s t)
    then upd_task t (\<lambda>k. k\<lparr>select_in_timer := False\<rparr>) (snd (mt_timer_remove t s)) else s"
  have "select_ok ?s1" using assms by (simp add: timer_remove_eq)
  note free = free_task_waiters_eq[OF this]
  show ?thesis
    unfolding mt_select_unpark_task_def Let_def select_woken_def mark_ready_eq free select_unqueued_def
    by (rule arg_cong[of _ _ mt_notify_one], cases "select_in_timer (task_mem s t)";
        rule mt_state.equality)
      (simp_all add: complete_select_wait_eq timer_remove_eq task_eq split del: if_split)
qed

lemma select_ok_notify [simp]: "select_ok (mt_notify_one s) = select_ok s"
  by (simp add: select_ok_def select_chan_ok_def linked_send_def linked_recv_def)

lemma select_ok_woken: "select_ok s \<Longrightarrow> select_ok (select_woken t s)"
  unfolding select_woken_def select_ok_notify
  by (drule select_ok_dropped[OF _ refl, of _ "set (select_waiters (task_mem s t))"])
    (simp add: select_ok_def select_chan_ok_def linked_send_def linked_recv_def)

lemma select_ok_unqueued [simp]: "select_ok (select_unqueued t s) = select_ok s"
  by (simp add: select_unqueued_def timer_remove_eq)

lemma select_ok_unpark: "select_ok s \<Longrightarrow> select_ok (mt_select_unpark_task t r i s)"
  by (simp add: unpark_eq select_ok_woken)

lemma select_ok_timeout: "select_ok s \<Longrightarrow> select_ok (mt_select_timeout_ready t s)"
  by (simp add: timeout_ready_eq select_ok_woken)

text \<open>A pop is the removal of the first registration.\<close>

lemma select_send_pop_eq:
  assumes ok: "select_ok s" and q: "select_send_q (chan_mem s c) = w # ws"
  shows "select_send_pop c s = (Some w, s\<lparr>chan_mem := drop_waiters {w} \<circ> chan_mem s,
    sw_mem := deactivate_all {w} (sw_mem s)\<rparr>)"
proof -
  have ch: "select_chan_ok s c" using ok by (simp add: select_ok_def)
  have l: "linked_send s c w" using ch q unfolding select_chan_ok_def by (metis list.set_intros(1))
  then have "w \<notin> set (select_recv_q (chan_mem s c))"
    using ch by (auto simp: select_chan_ok_def linked_send_def linked_recv_def)
  then have "(chan_mem s c)\<lparr>select_send_q := ws, select_send_waiters := length ws\<rparr> =
      drop_waiters {w} (chan_mem s c)"
    using ch q by (simp add: drop_waiters_def select_chan_ok_def)
  from chan_upd_drop[OF ok this] l show ?thesis
    using ch q by (auto simp: select_send_pop_def upd_chan_def select_chan_ok_def set_active_def
        deactivate_all_def fun_eq_iff)
qed

lemma select_recv_pop_eq:
  assumes ok: "select_ok s" and q: "select_recv_q (chan_mem s c) = w # ws"
  shows "select_recv_pop c s = (Some w, s\<lparr>chan_mem := drop_waiters {w} \<circ> chan_mem s,
    sw_mem := deactivate_all {w} (sw_mem s)\<rparr>)"
proof -
  have ch: "select_chan_ok s c" using ok by (simp add: select_ok_def)
  have l: "linked_recv s c w" using ch q unfolding select_chan_ok_def by (metis list.set_intros(1))
  then have "w \<notin> set (select_send_q (chan_mem s c))"
    using ch by (auto simp: select_chan_ok_def linked_send_def linked_recv_def)
  then have "(chan_mem s c)\<lparr>select_recv_q := ws, select_recv_waiters := length ws\<rparr> =
      drop_waiters {w} (chan_mem s c)"
    using ch q by (simp add: drop_waiters_def select_chan_ok_def)
  from chan_upd_drop[OF ok this] l show ?thesis
    using ch q by (auto simp: select_recv_pop_def upd_chan_def select_chan_ok_def set_active_def
        deactivate_all_def fun_eq_iff)
qed

lemma chan_self_update [simp]:
  "send_q ch = [] \<Longrightarrow> ch\<lparr>send_q := []\<rparr> = ch"
  "recv_q ch = [] \<Longrightarrow> ch\<lparr>recv_q := []\<rparr> = ch"
  "select_send_q ch = [] \<Longrightarrow> ch\<lparr>select_send_q := []\<rparr> = ch"
  "select_recv_q ch = [] \<Longrightarrow> ch\<lparr>select_recv_q := []\<rparr> = ch"
  by (cases ch; simp)+

lemma pop_Nil_eq:
  "select_send_q (chan_mem s c) = [] \<Longrightarrow> select_send_pop c s = (None, s)"
  "select_recv_q (chan_mem s c) = [] \<Longrightarrow> select_recv_pop c s = (None, s)"
  "send_q (chan_mem s c) = [] \<Longrightarrow> chan_send_pop c s = (None, s)"
  "recv_q (chan_mem s c) = [] \<Longrightarrow> chan_recv_pop c s = (None, s)"
  by (simp_all add: select_send_pop_def select_recv_pop_def chan_send_pop_def chan_recv_pop_def
      upd_chan_def)

end
