(* ===== verification/Fd_Wait.thy ===== *)
theory Fd_Wait
  imports Timer
begin

text \<open>
  \<^verbatim>\<open>src/io_backend.c\<close> and \<^verbatim>\<open>src/io_backend_epoll.c\<close>: the per-descriptor generation entries,
  the list of descriptor waiters with its conflict rule, the registration of interest with the
  backend (epoll or kqueue), and the wake-ups of waiting tasks.

  \<open>alloc_ok\<close> tells whether \<^verbatim>\<open>calloc\<close> delivered a generation entry; \<open>ctl\<close> is the outcome of the
  \<^verbatim>\<open>epoll_ctl\<close> or \<^verbatim>\<open>kevent\<close> call that registers interest. Successful registrations, and the requests
  to modify or delete one (whose outcome the code ignores), are appended to \<open>backend_calls\<close>.
\<close>

abbreviation MT_FD_READ :: i32 where "MT_FD_READ \<equiv> 1"
abbreviation MT_FD_WRITE :: i32 where "MT_FD_WRITE \<equiv> 2"

unbundle bit_operations_syntax

section \<open>Generations\<close>

fun gen_find :: "int \<Rightarrow> mt_fd_generation list \<Rightarrow> mt_fd_generation option" where
  "gen_find fd [] = None"
| "gen_find fd (g # gs) = (if fg_fd g = fd then Some g else gen_find fd gs)"

text \<open>Writing through the pointer the search returned: the first entry of the descriptor.\<close>

fun gen_update :: "int \<Rightarrow> (mt_fd_generation \<Rightarrow> mt_fd_generation) \<Rightarrow>
    mt_fd_generation list \<Rightarrow> mt_fd_generation list" where
  "gen_update fd f [] = []"
| "gen_update fd f (g # gs) = (if fg_fd g = fd then f g # gs else g # gen_update fd f gs)"

fun gen_remove :: "int \<Rightarrow> mt_fd_generation list \<Rightarrow> mt_fd_generation list" where
  "gen_remove fd [] = []"
| "gen_remove fd (g # gs) = (if fg_fd g = fd then gs else g # gen_remove fd gs)"

definition gen_new :: "int \<Rightarrow> u64 \<Rightarrow> int \<Rightarrow> mt_fd_generation" where
  "gen_new fd generation flags = \<lparr>fg_fd = fd, fg_generation = generation, fg_closing = False,
     fg_adopted = False, fg_original_flags = flags\<rparr>"

definition mt_fd_generation_current :: "int \<Rightarrow> bool \<Rightarrow> mt_state \<Rightarrow> u64 \<times> mt_state" where
  "mt_fd_generation_current fd alloc_ok s =
     (case gen_find fd (fd_generations s) of
        Some g \<Rightarrow> (fg_generation g, s)
      | None \<Rightarrow>
          if \<not> alloc_ok then (0, s)
          else (1, s\<lparr>fd_generations := gen_new fd 1 (- 1) # fd_generations s\<rparr>))"

definition mt_fd_generation_find :: "int \<Rightarrow> mt_state \<Rightarrow> mt_fd_generation option" where
  "mt_fd_generation_find fd s = gen_find fd (fd_generations s)"

definition mt_fd_is_closing :: "int \<Rightarrow> mt_state \<Rightarrow> bool" where
  "mt_fd_is_closing fd s =
     (case mt_fd_generation_find fd s of None \<Rightarrow> False | Some g \<Rightarrow> fg_closing g)"

definition mt_fd_set_closing :: "int \<Rightarrow> bool \<Rightarrow> bool \<Rightarrow> mt_state \<Rightarrow> mt_rc \<times> mt_state" where
  "mt_fd_set_closing fd closing alloc_ok s =
     (case mt_fd_generation_find fd s of
        Some _ \<Rightarrow>
          (MT_OK, s\<lparr>fd_generations :=
             gen_update fd (\<lambda>g. g\<lparr>fg_closing := closing\<rparr>) (fd_generations s)\<rparr>)
      | None \<Rightarrow>
          if \<not> alloc_ok then (MT_ERR_NOMEM, s)
          else (MT_OK, s\<lparr>fd_generations :=
                  (gen_new fd 1 0)\<lparr>fg_closing := closing\<rparr> # fd_generations s\<rparr>))"

definition mt_fd_generation_bump :: "int \<Rightarrow> bool \<Rightarrow> mt_state \<Rightarrow> mt_state" where
  "mt_fd_generation_bump fd alloc_ok s =
     (case gen_find fd (fd_generations s) of
        Some _ \<Rightarrow>
          s\<lparr>fd_generations := gen_update fd
             (\<lambda>g. let g = g\<lparr>fg_generation := fg_generation g + 1\<rparr>
                  in if fg_generation g = 0 then g\<lparr>fg_generation := 1\<rparr> else g)
             (fd_generations s)\<rparr>
      | None \<Rightarrow>
          if \<not> alloc_ok then s
          else s\<lparr>fd_generations := gen_new fd 2 (- 1) # fd_generations s\<rparr>)"

definition mt_fd_generation_remove :: "int \<Rightarrow> mt_state \<Rightarrow> bool \<times> mt_state" where
  "mt_fd_generation_remove fd s =
     (gen_find fd (fd_generations s) \<noteq> None,
      s\<lparr>fd_generations := gen_remove fd (fd_generations s)\<rparr>)"

section \<open>Waiters\<close>

definition mt_fd_waiter_is_active :: "mt_fd_waiter \<Rightarrow> bool" where
  "mt_fd_waiter_is_active w \<longleftrightarrow> fw_state w = MT_FD_WAITER_ACTIVE"

definition mt_fd_waiter_reserves_conflict :: "mt_fd_waiter \<Rightarrow> bool" where
  "mt_fd_waiter_reserves_conflict w \<longleftrightarrow>
     fw_state w = MT_FD_WAITER_ACTIVE \<or> fw_state w = MT_FD_WAITER_READY_RESERVED"

definition mt_fd_waiter_set_state :: "fptr \<Rightarrow> mt_fd_waiter_state \<Rightarrow> mt_state \<Rightarrow> mt_state" where
  "mt_fd_waiter_set_state w st s = upd_fw w (\<lambda>k. k\<lparr>fw_state := st\<rparr>) s"

primrec active_events :: "(fptr \<Rightarrow> mt_fd_waiter) \<Rightarrow> int \<Rightarrow> fptr option \<Rightarrow> fptr list \<Rightarrow> i32 \<Rightarrow> i32" where
  "active_events m fd exclude [] active = active"
| "active_events m fd exclude (w # ws) active =
     active_events m fd exclude ws
       (if Some w \<noteq> exclude \<and> mt_fd_waiter_is_active (m w) \<and> fw_fd (m w) = fd
        then active OR fw_events (m w) else active)"

definition mt_fd_active_events_for_fd :: "int \<Rightarrow> fptr option \<Rightarrow> i32 \<Rightarrow> mt_state \<Rightarrow> i32" where
  "mt_fd_active_events_for_fd fd exclude extra_events s =
     active_events (fw_mem s) fd exclude (fd_waiters s) extra_events"

definition mt_fd_waiter_conflicts :: "int \<Rightarrow> i32 \<Rightarrow> mt_state \<Rightarrow> bool" where
  "mt_fd_waiter_conflicts fd events s =
     list_ex (\<lambda>w. mt_fd_waiter_reserves_conflict (fw_mem s w) \<and> fw_fd (fw_mem s w) = fd \<and>
       fw_events (fw_mem s w) AND events \<noteq> 0) (fd_waiters s)"

section \<open>The epoll backend\<close>

abbreviation EPOLLIN :: i32 where "EPOLLIN \<equiv> 1"
abbreviation EPOLLOUT :: i32 where "EPOLLOUT \<equiv> 4"
abbreviation EPOLLERR :: i32 where "EPOLLERR \<equiv> 8"
abbreviation EPOLLHUP :: i32 where "EPOLLHUP \<equiv> 16"

definition mt_epoll_events_from_fd_events :: "i32 \<Rightarrow> i32" where
  "mt_epoll_events_from_fd_events events =
     (let out = EPOLLERR OR EPOLLHUP;
          out = (if events AND MT_FD_READ \<noteq> 0 then out OR EPOLLIN else out)
      in if events AND MT_FD_WRITE \<noteq> 0 then out OR EPOLLOUT else out)"

definition mt_epoll_events_to_fd_events :: "i32 \<Rightarrow> i32" where
  "mt_epoll_events_to_fd_events events =
     (let out = 0;
          out = (if events AND (EPOLLIN OR EPOLLHUP OR EPOLLERR) \<noteq> 0
                 then out OR MT_FD_READ else out)
      in if events AND (EPOLLOUT OR EPOLLHUP OR EPOLLERR) \<noteq> 0 then out OR MT_FD_WRITE else out)"

text \<open>What \<^verbatim>\<open>epoll_ctl\<close> or \<^verbatim>\<open>kevent\<close> returned: success, the error \<^verbatim>\<open>EBADF\<close>, or another error.\<close>

datatype ctl_result = CTL_OK | CTL_EBADF | CTL_OTHER

definition backend_call :: "backend_request \<Rightarrow> mt_state \<Rightarrow> mt_state" where
  "backend_call c s = s\<lparr>backend_calls := backend_calls s @ [c]\<rparr>"

definition mt_epoll_backend_add :: "fptr \<Rightarrow> ctl_result \<Rightarrow> mt_state \<Rightarrow> mt_rc \<times> mt_state" where
  "mt_epoll_backend_add w ctl s =
     (let fd = fw_fd (fw_mem s w);
          previous = mt_fd_active_events_for_fd fd None 0 s;
          combined = previous OR fw_events (fw_mem s w);
          op = (if previous \<noteq> 0 then EPOLL_CTL_MOD else EPOLL_CTL_ADD)
      in case ctl of
           CTL_OK \<Rightarrow> (MT_OK, backend_call (EpollCtl op fd (mt_epoll_events_from_fd_events combined)) s)
         | CTL_EBADF \<Rightarrow> (MT_ERR_INVALID, s)
         | CTL_OTHER \<Rightarrow> (MT_ERR_BACKEND, s))"

definition mt_epoll_backend_remove :: "fptr \<Rightarrow> mt_state \<Rightarrow> mt_state" where
  "mt_epoll_backend_remove w s =
     (let fd = fw_fd (fw_mem s w);
          remaining = mt_fd_active_events_for_fd fd None 0 s
      in if remaining \<noteq> 0
         then backend_call (EpollCtl EPOLL_CTL_MOD fd (mt_epoll_events_from_fd_events remaining)) s
         else backend_call (EpollCtl EPOLL_CTL_DEL fd 0) s)"

section \<open>The kqueue backend\<close>

abbreviation EV_ADD :: i32 where "EV_ADD \<equiv> 1"
abbreviation EV_DELETE :: i32 where "EV_DELETE \<equiv> 2"
abbreviation EV_ENABLE :: i32 where "EV_ENABLE \<equiv> 4"
abbreviation EV_CLEAR :: i32 where "EV_CLEAR \<equiv> 32"
abbreviation EV_ERROR :: i32 where "EV_ERROR \<equiv> 16384"
abbreviation EV_EOF :: i32 where "EV_EOF \<equiv> 32768"

text \<open>The array of changes both calls fill in: one for each event of the waiter.\<close>

definition kqueue_changes :: "int \<Rightarrow> i32 \<Rightarrow> i32 \<Rightarrow> (int \<times> kfilter \<times> i32) list" where
  "kqueue_changes fd events flags =
     (if events AND MT_FD_READ \<noteq> 0 then [(fd, EVFILT_READ, flags)] else []) @
     (if events AND MT_FD_WRITE \<noteq> 0 then [(fd, EVFILT_WRITE, flags)] else [])"

definition mt_kqueue_backend_add :: "fptr \<Rightarrow> ctl_result \<Rightarrow> mt_state \<Rightarrow> mt_rc \<times> mt_state" where
  "mt_kqueue_backend_add w ctl s =
     (let evs = kqueue_changes (fw_fd (fw_mem s w)) (fw_events (fw_mem s w))
                  (EV_ADD OR EV_ENABLE OR EV_CLEAR)
      in case ctl of
           CTL_OK \<Rightarrow> (MT_OK, backend_call (KeventChange evs) s)
         | CTL_EBADF \<Rightarrow> (MT_ERR_INVALID, s)
         | CTL_OTHER \<Rightarrow> (MT_ERR_BACKEND, s))"

definition mt_kqueue_backend_remove :: "fptr \<Rightarrow> mt_state \<Rightarrow> mt_state" where
  "mt_kqueue_backend_remove w s =
     (let evs = kqueue_changes (fw_fd (fw_mem s w)) (fw_events (fw_mem s w)) EV_DELETE
      in if length evs > 0 then backend_call (KeventChange evs) s else s)"

section \<open>The backend interface\<close>

text \<open>
  A build has epoll, kqueue or neither, and initialisation sets the kind accordingly, so the kind
  selects the branch that the build contains.
\<close>

definition mt_io_backend_add :: "fptr \<Rightarrow> ctl_result \<Rightarrow> mt_state \<Rightarrow> mt_rc \<times> mt_state" where
  "mt_io_backend_add w ctl s =
     (if io_backend_kind s = MT_IO_BACKEND_POLL then (MT_OK, s)
      else if io_backend_kind s = MT_IO_BACKEND_EPOLL then mt_epoll_backend_add w ctl s
      else if io_backend_kind s = MT_IO_BACKEND_KQUEUE then mt_kqueue_backend_add w ctl s
      else (MT_OK, s))"

definition mt_io_backend_remove :: "fptr \<Rightarrow> mt_state \<Rightarrow> mt_state" where
  "mt_io_backend_remove w s =
     (if io_backend_kind s = MT_IO_BACKEND_POLL \<or> io_backend_fd s < 0 then s
      else if io_backend_kind s = MT_IO_BACKEND_EPOLL then mt_epoll_backend_remove w s
      else if io_backend_kind s = MT_IO_BACKEND_KQUEUE then mt_kqueue_backend_remove w s
      else s)"

lemmas backend_add_defs =
  mt_io_backend_add_def mt_epoll_backend_add_def mt_kqueue_backend_add_def backend_call_def

lemmas backend_remove_defs =
  mt_io_backend_remove_def mt_epoll_backend_remove_def mt_kqueue_backend_remove_def backend_call_def

definition mt_io_backend_name_locked :: "mt_state \<Rightarrow> string" where
  "mt_io_backend_name_locked s =
     (case io_backend_kind s of
        MT_IO_BACKEND_EPOLL \<Rightarrow> ''epoll''
      | MT_IO_BACKEND_KQUEUE \<Rightarrow> ''kqueue''
      | MT_IO_BACKEND_POLL \<Rightarrow> ''poll''
      | MT_IO_BACKEND_NONE \<Rightarrow> ''none'')"

section \<open>Waiter life cycle\<close>

definition mt_fd_waiter_unlink :: "fptr \<Rightarrow> mt_state \<Rightarrow> bool \<times> mt_state" where
  "mt_fd_waiter_unlink w s =
     (w \<in> set (fd_waiters s), s\<lparr>fd_waiters := remove1 w (fd_waiters s)\<rparr>)"

definition mt_fd_waiter_deactivate :: "fptr \<Rightarrow> bool \<Rightarrow> mt_state \<Rightarrow> bool \<times> mt_state" where
  "mt_fd_waiter_deactivate w keep_conflict_reserved s =
     (let was_active = mt_fd_waiter_is_active (fw_mem s w);
          s = (if was_active
               then let s = mt_fd_waiter_set_state w
                          (if keep_conflict_reserved then MT_FD_WAITER_READY_RESERVED
                           else MT_FD_WAITER_REMOVED) s;
                        s = mt_io_backend_remove w s
                    in if fd_waiting_count s > 0
                       then s\<lparr>fd_waiting_count := fd_waiting_count s - 1\<rparr> else s
               else s);
          s = (if keep_conflict_reserved
               then mt_fd_waiter_set_state w MT_FD_WAITER_READY_RESERVED s
               else snd (mt_fd_waiter_unlink w (mt_fd_waiter_set_state w MT_FD_WAITER_REMOVED s)));
          s = (if was_active \<or> keep_conflict_reserved then mt_notify_all s else s)
      in (was_active, s))"

definition mt_fd_waiter_add :: "fptr \<Rightarrow> ctl_result \<Rightarrow> mt_state \<Rightarrow> mt_rc \<times> mt_state" where
  "mt_fd_waiter_add w ctl s =
     (let (rc, s) = mt_io_backend_add w ctl s
      in if rc \<noteq> MT_OK then (rc, s)
         else let s = mt_fd_waiter_set_state w MT_FD_WAITER_ACTIVE s;
                  s = s\<lparr>fd_waiters := w # fd_waiters s, fd_waiting_count := fd_waiting_count s + 1\<rparr>
              in (MT_OK, mt_notify_all s))"

definition mt_fd_waiter_remove :: "fptr \<Rightarrow> mt_state \<Rightarrow> bool \<times> mt_state" where
  "mt_fd_waiter_remove w s = mt_fd_waiter_deactivate w False s"

text \<open>Freeing the memory leaves no trace in the state.\<close>

definition mt_fd_free_waiter :: "fptr \<Rightarrow> mt_state \<Rightarrow> mt_state" where
  "mt_fd_free_waiter w s = snd (mt_fd_waiter_remove w s)"

section \<open>Waking\<close>

definition mt_fd_ready_waiter :: "fptr \<Rightarrow> mt_rc \<Rightarrow> i32 \<Rightarrow> mt_state \<Rightarrow> mt_state" where
  "mt_fd_ready_waiter w result ready_events s =
     (case fw_task (fw_mem s w) of
        None \<Rightarrow> s
      | Some t \<Rightarrow>
          let s = snd (mt_fd_waiter_deactivate w True s);
              s = (if fd_in_timer (task_mem s t)
                   then upd_task t (\<lambda>k. k\<lparr>fd_in_timer := False\<rparr>) (snd (mt_timer_remove t s))
                   else s);
              s = upd_task t (\<lambda>k. k\<lparr>fd_result := result, fd_ready_events := ready_events\<rparr>) s
          in if state (task_mem s t) = MT_TASK_WAITING_FD then mt_task_mark_ready t s else s)"

definition mt_fd_timeout_ready :: "tptr \<Rightarrow> mt_state \<Rightarrow> mt_state" where
  "mt_fd_timeout_ready t s =
     (let s = upd_task t (\<lambda>k. k\<lparr>fd_in_timer := False\<rparr>) s;
          s = (case fd_waiter (task_mem s t) of
                 None \<Rightarrow> s
               | Some w \<Rightarrow> snd (mt_fd_waiter_deactivate w True s));
          s = upd_task t (\<lambda>k. k\<lparr>fd_result := MT_ERR_TIMEOUT, fd_ready_events := 0\<rparr>) s
      in mt_task_mark_ready t s)"

text \<open>
  The search for the waiter an event is for. The generation is read once, for the first match;
  a waiter of an older generation is woken with \<open>MT_ERR_CLOSED\<close> and nobody is returned.
\<close>

fun find_waiter_in :: "int \<Rightarrow> i32 \<Rightarrow> bool \<Rightarrow> fptr list \<Rightarrow> mt_state \<Rightarrow> fptr option \<times> mt_state" where
  "find_waiter_in fd ready_events alloc_ok [] s = (None, s)"
| "find_waiter_in fd ready_events alloc_ok (w # ws) s =
     (if mt_fd_waiter_is_active (fw_mem s w) \<and> fw_fd (fw_mem s w) = fd \<and>
         fw_events (fw_mem s w) AND ready_events \<noteq> 0
      then let (gen, s) = mt_fd_generation_current fd alloc_ok s
           in if fw_generation (fw_mem s w) = gen then (Some w, s)
              else (None, mt_fd_ready_waiter w MT_ERR_CLOSED 0 s)
      else find_waiter_in fd ready_events alloc_ok ws s)"

definition mt_fd_find_waiter :: "int \<Rightarrow> i32 \<Rightarrow> bool \<Rightarrow> mt_state \<Rightarrow> fptr option \<times> mt_state" where
  "mt_fd_find_waiter fd ready_events alloc_ok s =
     find_waiter_in fd ready_events alloc_ok (fd_waiters s) s"

text \<open>
  The two wake loops. Waking keeps the waiter linked, so following the saved \<^verbatim>\<open>next\<close> pointer
  visits the list as it was at the start.
\<close>

primrec wake_all_in :: "mt_rc \<Rightarrow> fptr list \<Rightarrow> mt_state \<Rightarrow> mt_state" where
  "wake_all_in result [] s = s"
| "wake_all_in result (w # ws) s =
     wake_all_in result ws
       (if mt_fd_waiter_is_active (fw_mem s w) then mt_fd_ready_waiter w result 0 s else s)"

definition mt_fd_wake_all :: "mt_rc \<Rightarrow> mt_state \<Rightarrow> mt_state" where
  "mt_fd_wake_all result s = wake_all_in result (fd_waiters s) s"

primrec wake_fd_in :: "int \<Rightarrow> fptr list \<Rightarrow> mt_state \<Rightarrow> mt_state" where
  "wake_fd_in fd [] s = s"
| "wake_fd_in fd (w # ws) s =
     wake_fd_in fd ws
       (if mt_fd_waiter_is_active (fw_mem s w) \<and> fw_fd (fw_mem s w) = fd
        then mt_fd_ready_waiter w MT_ERR_CLOSED 0 s else s)"

definition mt_fd_wake_for_close :: "int \<Rightarrow> bool \<Rightarrow> mt_state \<Rightarrow> mt_state" where
  "mt_fd_wake_for_close fd alloc_ok s =
     (let s = mt_fd_generation_bump fd alloc_ok s
      in wake_fd_in fd (fd_waiters s) s)"

end
