(* ===== verification/Wake_Timers.thy ===== *)
theory Wake_Timers
  imports Select_Wait Fd_Wait
begin

text \<open>
  \<^verbatim>\<open>mt_wake_expired_timers\<close> of \<^verbatim>\<open>src/timer.c\<close>: the loop that wakes every task whose deadline has
  passed, earliest first, through the wake-up its state calls for.
\<close>

section \<open>Nothing a timer wake-up calls queues a timer\<close>

lemma remove_waiter_shape:
  "snd (mt_select_remove_waiter_from_channel w s) =
     s\<lparr>chan_mem := chan_mem (snd (mt_select_remove_waiter_from_channel w s)),
       sw_mem := sw_mem (snd (mt_select_remove_waiter_from_channel w s))\<rparr>"
  by (rule mt_state.equality)
    (simp_all add: mt_select_remove_waiter_from_channel_def select_send_remove_def
      select_recv_remove_def split: option.split prod.split)

lemma free_waiters_shape: "\<exists>cm sm. free_waiters ws s = s\<lparr>chan_mem := cm, sw_mem := sm\<rparr>"
proof (induction ws arbitrary: s)
  case Nil
  show ?case by (rule exI[of _ "chan_mem s"], rule exI[of _ "sw_mem s"]) simp
next
  case (Cons w ws)
  let ?s = "if sw_active (sw_mem s w) then snd (mt_select_remove_waiter_from_channel w s) else s"
  have "\<exists>cm sm. ?s = s\<lparr>chan_mem := cm, sw_mem := sm\<rparr>"
  proof (cases "sw_active (sw_mem s w)")
    case True
    then have "?s = snd (mt_select_remove_waiter_from_channel w s)" by simp
    with remove_waiter_shape[of w s] show ?thesis by metis
  next
    case False
    show ?thesis by (rule exI[of _ "chan_mem s"], rule exI[of _ "sw_mem s"]) (simp add: False)
  qed
  then obtain cm sm where s1: "?s = s\<lparr>chan_mem := cm, sw_mem := sm\<rparr>" by (elim exE)
  from Cons.IH[of ?s] obtain cm' sm' where
    "free_waiters ws ?s = ?s\<lparr>chan_mem := cm', sw_mem := sm'\<rparr>" by (elim exE)
  also have "\<dots> = s\<lparr>chan_mem := cm', sw_mem := sm'\<rparr>" unfolding s1 by simp
  finally show ?case unfolding free_waiters.simps by (intro exI)
qed

lemma free_task_waiters_timers [simp]: "timers (mt_select_free_task_waiters t s) = timers s"
  using free_waiters_shape[of "select_waiters (task_mem s t)" s]
  by (auto simp: mt_select_free_task_waiters_def)

lemma timers_mark_ready [simp]: "timers (mt_task_mark_ready t s) = timers s"
  by (simp add: mark_ready_eq)

lemma timers_select_timeout [simp]: "timers (mt_select_timeout_ready t s) = timers s"
  by (simp add: mt_select_timeout_ready_def Let_def complete_select_wait_eq)

lemma timers_backend_remove [simp]: "timers (mt_io_backend_remove w s) = timers s"
  by (simp add: backend_remove_defs Let_def)

lemma timers_deactivate [simp]: "timers (snd (mt_fd_waiter_deactivate w b s)) = timers s"
  by (simp add: mt_fd_waiter_deactivate_def Let_def mt_fd_waiter_set_state_def
      mt_fd_waiter_unlink_def)

lemma timers_fd_timeout [simp]: "timers (mt_fd_timeout_ready t s) = timers s"
  by (simp add: mt_fd_timeout_ready_def Let_def split: option.split)

section \<open>The loop\<close>

definition wake_timer :: "tptr \<Rightarrow> mt_state \<Rightarrow> mt_state" where
  "wake_timer t s =
     (if state (task_mem s t) = MT_TASK_WAITING_SELECT then mt_select_timeout_ready t s
      else if state (task_mem s t) = MT_TASK_WAITING_FD then mt_fd_timeout_ready t s
      else mt_task_mark_ready t s)"

lemma timers_wake_timer [simp]: "timers (wake_timer t s) = timers s"
  by (simp add: wake_timer_def)

lemma length_timer_pop:
  "mt_timer_pop s = (Some t, s') \<Longrightarrow> length (items (timers s')) < length (items (timers s))"
  by (auto simp: mt_timer_pop_def heap_pop_def Let_def split: option.splits if_splits list.splits)

function mt_wake_expired_timers :: "u64 \<Rightarrow> mt_state \<Rightarrow> mt_state" where
  "mt_wake_expired_timers now_ns s =
     (case mt_timer_peek s of
        None \<Rightarrow> s
      | Some t \<Rightarrow>
          if wake_ns (task_mem s t) > now_ns then s
          else case mt_timer_pop s of
                 (None, _) \<Rightarrow> s
               | (Some t, s') \<Rightarrow> mt_wake_expired_timers now_ns (wake_timer t s'))"
  by pat_completeness auto
termination
  by (relation "measure (\<lambda>(_, s). length (items (timers s)))") 
    (auto intro: length_timer_pop dest: sym)

declare mt_wake_expired_timers.simps [simp del]

section \<open>What one wake-up does\<close>

lemma free_task_waiters_frame [simp]:
  "runq (mt_select_free_task_waiters t s) = runq s"
  "task_mem (mt_select_free_task_waiters t s) =
     (task_mem s)(t := (task_mem s t)\<lparr>select_waiters := [], select_waiter_count := 0\<rparr>)"
  using free_waiters_shape[of "select_waiters (task_mem s t)" s]
  by (auto simp: mt_select_free_task_waiters_def)

lemma backend_remove_frame [simp]:
  "runq (mt_io_backend_remove w s) = runq s" "task_mem (mt_io_backend_remove w s) = task_mem s"
  by (simp_all add: backend_remove_defs Let_def)

lemma deactivate_frame [simp]:
  "runq (snd (mt_fd_waiter_deactivate w b s)) = runq s"
  "task_mem (snd (mt_fd_waiter_deactivate w b s)) = task_mem s"
  by (simp_all add: mt_fd_waiter_deactivate_def Let_def mt_fd_waiter_set_state_def
      mt_fd_waiter_unlink_def)

lemma wake_timer_runq [simp]: "runq (wake_timer t s) = runq s @ [t]"
  by (simp add: wake_timer_def mt_select_timeout_ready_def mt_fd_timeout_ready_def Let_def
      mark_ready_eq complete_select_wait_eq split: option.split)

lemma wake_timer_other: "u \<noteq> t \<Longrightarrow> task_mem (wake_timer t s) u = task_mem s u"
  by (simp add: wake_timer_def mt_select_timeout_ready_def mt_fd_timeout_ready_def Let_def
      mark_ready_eq complete_select_wait_eq split: option.split)

lemma wake_timer_state: "state (task_mem (wake_timer t s) t) = MT_TASK_READY"
  by (simp add: wake_timer_def mt_select_timeout_ready_def mt_fd_timeout_ready_def Let_def
      mark_ready_eq complete_select_wait_eq split: option.split)

lemma timers_ok_wake_timer:
  assumes "t \<notin> set (items (timers s))" and "timers_ok s"
  shows "timers_ok (wake_timer t s)"
proof -
  have "timer_key (task_mem (wake_timer t s)) u = timer_key (task_mem s) u"
    if "u \<in> set (items (timers s))" for u
  proof -
    from that assms(1) have "u \<noteq> t" by blast
    then show ?thesis by (simp add: timer_key_def wake_timer_other)
  qed
  with timers_ok_cong[of "wake_timer t s" s] assms(2) show ?thesis by simp
qed

section \<open>The loop wakes exactly the expired tasks, in order\<close>

lemma peek_eq: "mt_timer_peek s = (case items (timers s) of [] \<Rightarrow> None | t # _ \<Rightarrow> Some t)"
  by (simp add: mt_timer_peek_def split: list.split)

lemma pop_peek: "mt_timer_peek s = Some t \<Longrightarrow> \<exists>s'. mt_timer_pop s = (Some t, s')"
  by (auto simp: mt_timer_peek_def mt_timer_pop_def heap_pop_def Let_def split: if_splits)

lemma wake_expired_done:
  assumes "timers_ok s"
    and "mt_timer_peek s = None \<or> (\<exists>t. mt_timer_peek s = Some t \<and> now < wake_ns (task_mem s t))"
  shows "mt_wake_expired_timers now s = s"
    and "\<forall>u \<in> set (items (timers s)). now < wake_ns (task_mem s u)"
proof -
  show "mt_wake_expired_timers now s = s"
    using assms(2) by (subst mt_wake_expired_timers.simps) auto
  show "\<forall>u \<in> set (items (timers s)). now < wake_ns (task_mem s u)"
  proof
    fix u assume u: "u \<in> set (items (timers s))"
    then obtain t where t: "mt_timer_peek s = Some t" "now < wake_ns (task_mem s t)"
      using assms(2) by (auto simp: peek_eq split: list.splits)
    then obtain s' where "mt_timer_pop s = (Some t, s')" using pop_peek by blast
    from timer_pop_Some(3)[OF this assms(1)] u have "\<not> mt_timer_less (task_mem s) u t" by blast
    then have "wake_ns (task_mem s t) \<le> wake_ns (task_mem s u)"
      by (auto simp: mt_timer_less_def split: if_splits)
    with t(2) show "now < wake_ns (task_mem s u)" by (rule order.strict_trans2)
  qed
qed

lemma wake_expired_step:
  assumes "mt_timer_peek s = Some t" and "\<not> now < wake_ns (task_mem s t)"
    and "mt_timer_pop s = (Some t, s1)"
  shows "mt_wake_expired_timers now s = mt_wake_expired_timers now (wake_timer t s1)"
  using assms by (subst mt_wake_expired_timers.simps) simp

lemma wake_expired_spec:
  assumes "timers_ok s"
  shows "\<exists>ts. runq (mt_wake_expired_timers now s) = runq s @ ts \<and>
    mset ts = {#t \<in># mset (items (timers s)). wake_ns (task_mem s t) \<le> now#} \<and>
    sorted_wrt (\<lambda>a b. \<not> mt_timer_less (task_mem s) b a) ts \<and>
    mset (items (timers (mt_wake_expired_timers now s))) =
      {#t \<in># mset (items (timers s)). now < wake_ns (task_mem s t)#} \<and>
    timers_ok (mt_wake_expired_timers now s)"
  using assms
proof (induction now s rule: mt_wake_expired_timers.induct)
  case (1 now s)
  show ?case
  proof (cases "mt_timer_peek s = None \<or> (\<exists>t. mt_timer_peek s = Some t \<and> now < wake_ns (task_mem s t))")
    case True
    note stop = wake_expired_done[OF 1(2) True]
    then have "{#t \<in># mset (items (timers s)). wake_ns (task_mem s t) \<le> now#} = {#}"
      "{#t \<in># mset (items (timers s)). now < wake_ns (task_mem s t)#} = mset (items (timers s))"
      using multiset_partition by (auto simp: not_less filter_mset_eq_conv)
    then show ?thesis using 1(2) stop(1) by simp
  next
    case False
    then obtain t where t: "mt_timer_peek s = Some t" "\<not> now < wake_ns (task_mem s t)" by auto
    then obtain s1 where p: "mt_timer_pop s = (Some t, s1)" using pop_peek by blast
    note pop = timer_pop_Some[OF p 1(2)]
    let ?s2 = "wake_timer t s1"
    have ok2: "timers_ok ?s2" using pop by (simp add: timers_ok_wake_timer)
    have same: "task_mem ?s2 u = task_mem s u" if "u \<in> set (items (timers s1))" for u
    proof -
      from that pop(5) have "u \<noteq> t" by blast
      moreover from this have "task_mem s1 u = task_mem s u" by (subst pop(4)) simp
      ultimately show ?thesis by (simp add: wake_timer_other)
    qed
    note step = wake_expired_step[OF t p]
    from 1(1)[OF t(1) t(2) p[symmetric] refl ok2] obtain ts where
      r: "runq (mt_wake_expired_timers now ?s2) = runq ?s2 @ ts"
        "mset ts = {#u \<in># mset (items (timers s1)). wake_ns (task_mem ?s2 u) \<le> now#}"
        "sorted_wrt (\<lambda>a b. \<not> mt_timer_less (task_mem ?s2) b a) ts"
        "mset (items (timers (mt_wake_expired_timers now ?s2))) =
          {#u \<in># mset (items (timers s1)). now < wake_ns (task_mem ?s2 u)#}"
        "timers_ok (mt_wake_expired_timers now ?s2)" by auto
    have "{#u \<in># mset (items (timers s1)). wake_ns (task_mem ?s2 u) \<le> now#} =
        {#u \<in># mset (items (timers s1)). wake_ns (task_mem s u) \<le> now#}"
      "{#u \<in># mset (items (timers s1)). now < wake_ns (task_mem ?s2 u)#} =
        {#u \<in># mset (items (timers s1)). now < wake_ns (task_mem s u)#}"
      using same by (auto intro!: filter_mset_cong)
    note r = r[unfolded this]
    have sub: "set ts \<subseteq> set (items (timers s1))"
      using arg_cong[OF r(2), of set_mset] by auto
    have less: "mt_timer_less (task_mem ?s2) b a = mt_timer_less (task_mem s) b a"
      if "a \<in> set ts" "b \<in> set ts" for a b
      using same sub that by (simp add: mt_timer_less_def subset_iff)
    have srt: "sorted_wrt (\<lambda>a b. \<not> mt_timer_less (task_mem s) b a) ts"
      by (rule sorted_wrt_mono_rel[OF _ r(3)]) (simp add: less)
    have "set (items (timers s)) = insert t (set (items (timers s1)))"
      using arg_cong[OF pop(2), of set_mset] by simp
    then have min: "\<forall>u \<in> set ts. \<not> mt_timer_less (task_mem s) u t" using sub pop(3) by blast
    have "runq s1 = runq s" by (subst pop(4)) simp
    then have rq: "runq (mt_wake_expired_timers now ?s2) = runq s @ t # ts" using r(1) by simp
    have le: "wake_ns (task_mem s t) \<le> now" using t(2) by simp
    show ?thesis
      unfolding step pop(2)
      using rq r(2,4,5) srt min le t(2) by (intro exI[of _ "t # ts"]) simp
  qed
qed

end
