(* ===== verification/Runtime_Init.thy ===== *)
theory Runtime_Init
  imports Fd_Wait
begin

text \<open>
  \<^verbatim>\<open>mt_init\<close>, \<^verbatim>\<open>mt_init_with_options\<close> (\<^verbatim>\<open>src/runtime_lifecycle.c\<close>) and the start and stop of the
  I/O backend (\<^verbatim>\<open>src/io_backend.c\<close>, \<^verbatim>\<open>src/io_backend_epoll.c\<close>). The outcomes of the operating
  system calls are the fields of \<open>init_env\<close>, which also says whether the build has epoll
  (\<^verbatim>\<open>MT_HAVE_EPOLL\<close>) or kqueue (\<^verbatim>\<open>MT_HAVE_KQUEUE\<close>); \<^verbatim>\<open>MT_FORCE_POLL_BACKEND\<close> unsets both.
\<close>

record init_env =
  mutex_init_ok :: bool
  cond_init_ok :: bool
  ctx_init_ok :: bool
  pipe_fds :: "(int \<times> int) option"
  nonblock_ok :: bool
  have_epoll :: bool
  epoll_create_fd :: int
  epoll_wake_ok :: bool
  have_kqueue :: bool
  kqueue_fd :: int
  kqueue_wake_ok :: bool

abbreviation MT_DEFAULT_STACK_SIZE :: u64 where "MT_DEFAULT_STACK_SIZE \<equiv> 65536"
abbreviation MT_MIN_STACK_SIZE :: u64 where "MT_MIN_STACK_SIZE \<equiv> 16384"

section \<open>I/O backend\<close>

text \<open>\<^verbatim>\<open>close(fd)\<close>; the code ignores its result.\<close>

definition sys_close :: "int \<Rightarrow> mt_state \<Rightarrow> mt_state" where
  "sys_close fd s = sys_do [SysRelease (Descriptor fd)] s"

definition mt_io_make_wake_pipe :: "init_env \<Rightarrow> mt_state \<Rightarrow> mt_rc \<times> mt_state" where
  "mt_io_make_wake_pipe env s =
     (case pipe_fds env of
        None \<Rightarrow> (MT_ERR_BACKEND, s)
      | Some (r, w) \<Rightarrow>
          let s = sys_do [SysAcquire (Descriptor r), SysAcquire (Descriptor w)] s
          in if \<not> nonblock_ok env
             then (MT_ERR_BACKEND, sys_close w (sys_close r s))
             else (MT_OK, s\<lparr>io_wake_read_fd := r, io_wake_write_fd := w\<rparr>))"

text \<open>
  Reading the wake pipe empty, up to 128 bytes at a time; \<open>unread\<close> is what the pipe holds. On an
  empty pipe \<^verbatim>\<open>read\<close> fails and the loop ends.
\<close>

function mt_io_drain_wake_pipe :: "int \<Rightarrow> nat \<Rightarrow> nat" where
  "mt_io_drain_wake_pipe fd unread =
     (if fd < 0 then unread
      else if unread = 0 then 0
      else mt_io_drain_wake_pipe fd (unread - min 128 unread))"
  by pat_completeness auto
termination
  by (relation "measure snd") auto

declare mt_io_drain_wake_pipe.simps [simp del]

lemma drain_empties: "0 \<le> fd \<Longrightarrow> mt_io_drain_wake_pipe fd unread = 0"
  by (induction fd unread rule: mt_io_drain_wake_pipe.induct) (subst mt_io_drain_wake_pipe.simps, simp)

text \<open>A new epoll or kqueue instance starts with no registrations.\<close>

definition mt_epoll_backend_init :: "init_env \<Rightarrow> mt_state \<Rightarrow> mt_rc \<times> mt_state" where
  "mt_epoll_backend_init env s =
     (let s = s\<lparr>io_backend_fd := epoll_create_fd env\<rparr>
      in if io_backend_fd s < 0 then (MT_ERR_BACKEND, s)
         else let s = sys_do [SysAcquire (Descriptor (io_backend_fd s))] s;
                  s = s\<lparr>io_backend_kind := MT_IO_BACKEND_EPOLL, backend_calls := []\<rparr>
              in if \<not> epoll_wake_ok env then (MT_ERR_BACKEND, s)
                 else (MT_OK, backend_call (EpollCtl EPOLL_CTL_ADD (io_wake_read_fd s) EPOLLIN) s))"

definition mt_kqueue_backend_init :: "init_env \<Rightarrow> mt_state \<Rightarrow> mt_rc \<times> mt_state" where
  "mt_kqueue_backend_init env s =
     (let s = s\<lparr>io_backend_fd := kqueue_fd env\<rparr>
      in if io_backend_fd s < 0 then (MT_ERR_BACKEND, s)
         else let s = sys_do [SysAcquire (Descriptor (io_backend_fd s))] s;
                  s = s\<lparr>io_backend_kind := MT_IO_BACKEND_KQUEUE, backend_calls := []\<rparr>
              in if \<not> kqueue_wake_ok env then (MT_ERR_BACKEND, s)
                 else (MT_OK, backend_call (KeventChange
                        [(io_wake_read_fd s, EVFILT_READ, EV_ADD OR EV_CLEAR)]) s))"

definition mt_io_backend_init :: "init_env \<Rightarrow> mt_state \<Rightarrow> mt_rc \<times> mt_state" where
  "mt_io_backend_init env s =
     (let s = s\<lparr>io_backend_fd := - 1, io_wake_read_fd := - 1, io_wake_write_fd := - 1,
                io_backend_kind := MT_IO_BACKEND_POLL, io_polling := False\<rparr>;
          (rc, s) = mt_io_make_wake_pipe env s
      in if rc \<noteq> MT_OK then (rc, s)
         else if have_epoll env
         then let (rc, s) = mt_epoll_backend_init env s
              in if rc \<noteq> MT_OK then (rc, s) else (MT_OK, s)
         else if have_kqueue env
         then let (rc, s) = mt_kqueue_backend_init env s
              in if rc \<noteq> MT_OK then (rc, s) else (MT_OK, s)
         else (MT_OK, s))"

lemmas backend_init_defs =
  mt_io_backend_init_def mt_io_make_wake_pipe_def mt_epoll_backend_init_def
  mt_kqueue_backend_init_def backend_call_def sys_close_def

definition close_backend_fd :: "mt_state \<Rightarrow> mt_state" where
  "close_backend_fd s =
     (if io_backend_fd s \<ge> 0 then (sys_close (io_backend_fd s) s)\<lparr>io_backend_fd := - 1\<rparr> else s)"

definition close_wake_fds :: "mt_state \<Rightarrow> mt_state" where
  "close_wake_fds s =
     (let s = (if io_wake_read_fd s \<ge> 0
               then (sys_close (io_wake_read_fd s) s)\<lparr>io_wake_read_fd := - 1\<rparr> else s)
      in if io_wake_write_fd s \<ge> 0
         then (sys_close (io_wake_write_fd s) s)\<lparr>io_wake_write_fd := - 1\<rparr> else s)"

definition mt_io_backend_shutdown :: "mt_state \<Rightarrow> mt_state" where
  "mt_io_backend_shutdown s =
     (let s = close_wake_fds (close_backend_fd s)
      in s\<lparr>fd_generations := [], io_backend_kind := MT_IO_BACKEND_NONE, io_polling := False\<rparr>)"

lemmas backend_shutdown_defs =
  mt_io_backend_shutdown_def close_wake_fds_def close_backend_fd_def sys_close_def

section \<open>Initialisation\<close>

text \<open>\<^verbatim>\<open>memset(&g_rt, 0, sizeof(g_rt))\<close>: the runtime fields, not the memory they point to.\<close>

definition clear_runtime :: "mt_state \<Rightarrow> mt_state" where
  "clear_runtime s = mt_runtime.extend (mt_runtime.truncate zero_state) (mt_runtime.more s)"

text \<open>\<open>options\<close> is the \<^verbatim>\<open>stack_size\<close> field of the options, \<open>None\<close> for a null pointer.\<close>

definition mt_init_with_options :: "u64 option \<Rightarrow> init_env \<Rightarrow> mt_state \<Rightarrow> mt_rc \<times> mt_state" where
  "mt_init_with_options options env s =
     (if initialized s then (MT_OK, s)
      else let requested = (case options of None \<Rightarrow> 0 | Some n \<Rightarrow> n)
           in if requested \<noteq> 0 \<and> requested < MT_MIN_STACK_SIZE then (MT_ERR_INVALID, s)
              else let s = clear_runtime s;
                       s = s\<lparr>default_stack_size :=
                               (if requested \<noteq> 0 then requested else MT_DEFAULT_STACK_SIZE),
                             io_backend_kind := MT_IO_BACKEND_NONE, io_backend_fd := - 1,
                             io_wake_read_fd := - 1, io_wake_write_fd := - 1\<rparr>
                   in if \<not> mutex_init_ok env then (MT_ERR, s)
                      else let s = sys_do [SysAcquire RuntimeMutex] s
                      in if \<not> cond_init_ok env then (MT_ERR, sys_do [SysRelease RuntimeMutex] s)
                      else let s = sys_do [SysAcquire RuntimeCond] s
                      in if \<not> ctx_init_ok env
                         then (MT_ERR, sys_do [SysRelease RuntimeCond, SysRelease RuntimeMutex] s)
                      else let s = sys_do [SysAcquire SchedulerContext] s;
                               (io_rc, s) = mt_io_backend_init env s
                           in if io_rc \<noteq> MT_OK
                              then let s = sys_do [SysRelease SchedulerContext, SysRelease RuntimeCond,
                                                   SysRelease RuntimeMutex] s
                                   in (io_rc, mt_io_backend_shutdown s)
                              else (MT_OK, s\<lparr>initialized := True, next_id := 1,
                                     worker_count := 1, run_result := MT_OK\<rparr>))"

definition mt_init :: "init_env \<Rightarrow> mt_state \<Rightarrow> mt_rc \<times> mt_state" where
  "mt_init env s = mt_init_with_options None env s"

text \<open>\<^verbatim>\<open>!g_rt.initialized && mt_init() != MT_OK\<close>, the guard of the public entry points.\<close>

definition ensure_init :: "init_env \<Rightarrow> mt_state \<Rightarrow> bool \<times> mt_state" where
  "ensure_init env s =
     (if initialized s then (True, s)
      else let (rc, s) = mt_init env s in (rc = MT_OK, s))"

section \<open>The state after initialisation\<close>

text \<open>Every queue and counter is empty, and a failure leaves no descriptor open.\<close>

definition fresh_runtime :: "mt_state \<Rightarrow> bool" where
  "fresh_runtime s \<longleftrightarrow> \<not> running s \<and> \<not> stopping s \<and> run_result s = MT_OK \<and> all_tasks s = [] \<and>
     runq s = [] \<and> runnable_count s = 0 \<and> live_count s = 0 \<and> channels s = [] \<and> handles s = [] \<and>
     items (timers s) = [] \<and> channel_waiting_count s = 0 \<and> join_waiting_count s = 0 \<and>
     fd_waiters s = [] \<and> fd_waiting_count s = 0 \<and> fd_generations s = [] \<and> running_tasks s = 0"

lemma clear_runtime_fresh [simp]: "fresh_runtime (clear_runtime s)"
  by (simp add: fresh_runtime_def clear_runtime_def mt_runtime.defs zero_state_def)

lemma clear_runtime_initialized [simp]: "\<not> initialized (clear_runtime s)"
  by (simp add: clear_runtime_def mt_runtime.defs zero_state_def)

lemma fresh_runtime_upd [simp]:
  "fresh_runtime (s\<lparr>io_backend_kind := k\<rparr>) = fresh_runtime s"
  "fresh_runtime (s\<lparr>io_backend_fd := a\<rparr>) = fresh_runtime s"
  "fresh_runtime (s\<lparr>io_wake_read_fd := a\<rparr>) = fresh_runtime s"
  "fresh_runtime (s\<lparr>io_wake_write_fd := a\<rparr>) = fresh_runtime s"
  "fresh_runtime (s\<lparr>io_polling := b\<rparr>) = fresh_runtime s"
  "fresh_runtime (s\<lparr>default_stack_size := n\<rparr>) = fresh_runtime s"
  "fresh_runtime (s\<lparr>initialized := b\<rparr>) = fresh_runtime s"
  "fresh_runtime (s\<lparr>next_id := i\<rparr>) = fresh_runtime s"
  "fresh_runtime (s\<lparr>worker_count := c\<rparr>) = fresh_runtime s"
  "fresh_runtime (s\<lparr>backend_calls := cs\<rparr>) = fresh_runtime s"
  "fresh_runtime (s\<lparr>sys_calls := ds\<rparr>) = fresh_runtime s"
  by (simp_all add: fresh_runtime_def)

lemma fresh_run_result [simp]: "fresh_runtime s \<Longrightarrow> fresh_runtime (s\<lparr>run_result := MT_OK\<rparr>)"
  by (simp add: fresh_runtime_def)

lemma io_backend_init_frame:
  assumes "mt_io_backend_init env s = (rc, s')"
  shows "fresh_runtime s' = fresh_runtime s" "initialized s' = initialized s"
    "default_stack_size s' = default_stack_size s"
    "rc = MT_OK \<Longrightarrow> io_backend_kind s' = (if have_epoll env then MT_IO_BACKEND_EPOLL
       else if have_kqueue env then MT_IO_BACKEND_KQUEUE else MT_IO_BACKEND_POLL)"
  using assms by (auto simp: backend_init_defs Let_def split: option.splits if_splits)

lemma io_backend_shutdown_closes:
  "io_backend_fd (mt_io_backend_shutdown s) < 0" "io_wake_read_fd (mt_io_backend_shutdown s) < 0"
  "io_wake_write_fd (mt_io_backend_shutdown s) < 0"
  "initialized (mt_io_backend_shutdown s) = initialized s"
  "fresh_runtime s \<Longrightarrow> fresh_runtime (mt_io_backend_shutdown s)"
  by (auto simp: backend_shutdown_defs Let_def fresh_runtime_def)

text \<open>What initialisation takes from the system, and that the shutdown of the backend closes it.\<close>

lemma clear_runtime_sys_calls [simp]: "sys_calls (clear_runtime s) = sys_calls s"
  by (cases s) (simp add: clear_runtime_def mt_runtime.defs)

lemma io_backend_shutdown_sys_calls:
  "sys_calls (mt_io_backend_shutdown s) = sys_calls s @ map (SysRelease \<circ> Descriptor)
     (filter (\<lambda>fd. 0 \<le> fd) [io_backend_fd s, io_wake_read_fd s, io_wake_write_fd s])"
  by (simp add: backend_shutdown_defs Let_def)

definition backend_held :: "mt_state \<Rightarrow> sys_resource list" where
  "backend_held s = map Descriptor (filter (\<lambda>fd. 0 \<le> fd) [io_backend_fd s, io_wake_write_fd s, io_wake_read_fd s])"

lemma io_backend_init_held:
  assumes "mt_io_backend_init env s = (rc, s')"
    and "\<And>r w. pipe_fds env = Some (r, w) \<Longrightarrow> 0 \<le> r \<and> 0 \<le> w"
  shows "held s' = backend_held s' @ held s"
  using assms by (auto simp: backend_init_defs Let_def held_def backend_held_def split: option.splits if_splits)

lemma io_backend_shutdown_held:
  "held s = backend_held s @ rs \<Longrightarrow> held (mt_io_backend_shutdown s) = rs"
  by (auto simp: held_def io_backend_shutdown_sys_calls backend_held_def)

section \<open>Properties\<close>

text \<open>
  C37: Initialisation is all or nothing. On success the runtime is marked initialised, every queue
  and counter is empty, the first task gets the identifier 1, the default stack is the requested
  one or 64 KiB, and the runtime holds its mutex, condition variable, scheduler context, the two
  ends of the wake pipe and, in the builds with epoll or kqueue, the backend descriptor. On failure, at
  whatever point, the runtime stays uninitialised with empty queues, and everything the call has
  opened or set up until then has been closed or destroyed: what is held is what was held before.
\<close>

theorem mt_init_all_or_nothing:
  assumes "\<not> initialized s" and "requested = 0 \<or> MT_MIN_STACK_SIZE \<le> requested"
    and "\<And>r w. pipe_fds env = Some (r, w) \<Longrightarrow> 0 \<le> r \<and> 0 \<le> w"
  shows "case mt_init_with_options (Some requested) env s of (rc, s') \<Rightarrow>
    fresh_runtime s' \<and> initialized s' = (rc = MT_OK) \<and>
    (if rc = MT_OK
     then next_id s' = 1 \<and> default_stack_size s' =
            (if requested \<noteq> 0 then requested else MT_DEFAULT_STACK_SIZE) \<and>
          held s' = (if have_epoll env \<or> have_kqueue env then [Descriptor (io_backend_fd s')] else []) @
            [Descriptor (io_wake_write_fd s'), Descriptor (io_wake_read_fd s'),
             SchedulerContext, RuntimeCond, RuntimeMutex] @ held s
     else io_backend_fd s' < 0 \<and> io_wake_read_fd s' < 0 \<and> io_wake_write_fd s' < 0 \<and> held s' = held s)"
proof -
  let ?s = "(clear_runtime s)\<lparr>default_stack_size :=
      (if requested \<noteq> 0 then requested else MT_DEFAULT_STACK_SIZE),
      io_backend_kind := MT_IO_BACKEND_NONE, io_backend_fd := - 1,
      io_wake_read_fd := - 1, io_wake_write_fd := - 1,
      sys_calls := sys_calls s @ [SysAcquire RuntimeMutex, SysAcquire RuntimeCond, SysAcquire SchedulerContext]\<rparr>"
  obtain rc s' where io: "mt_io_backend_init env ?s = (rc, s')" by (cases "mt_io_backend_init env ?s")
  note frame = io_backend_init_frame[OF io]
  have h: "held s' = backend_held s' @ [SchedulerContext, RuntimeCond, RuntimeMutex] @ held s"
    using io_backend_init_held[OF io assms(3)] by (simp add: held_def)
  have fds: "rc = MT_OK \<Longrightarrow> backend_held s' = (if have_epoll env \<or> have_kqueue env then [Descriptor (io_backend_fd s')] else []) @
      [Descriptor (io_wake_write_fd s'), Descriptor (io_wake_read_fd s')]"
    using io assms(3) by (auto simp: backend_init_defs backend_held_def Let_def split: option.splits if_splits)
  let ?f = "s'\<lparr>sys_calls := sys_calls s' @ [SysRelease SchedulerContext, SysRelease RuntimeCond, SysRelease RuntimeMutex]\<rparr>"
  have "held ?f = backend_held ?f @ held s" using h by (auto simp: held_def backend_held_def)
  then have "held (mt_io_backend_shutdown ?f) = held s" by (rule io_backend_shutdown_held)
  moreover from assms(2) have "\<not> (requested \<noteq> 0 \<and> requested < MT_MIN_STACK_SIZE)" by auto
  ultimately show ?thesis using assms(1) io frame h fds
    by (auto simp: mt_init_with_options_def Let_def io_backend_shutdown_closes held_def)
qed

definition good_env :: init_env where
  "good_env = \<lparr>mutex_init_ok = True, cond_init_ok = True, ctx_init_ok = True,
     pipe_fds = Some (3, 4), nonblock_ok = True, have_epoll = True, epoll_create_fd = 5, epoll_wake_ok = True,
     have_kqueue = False, kqueue_fd = - 1, kqueue_wake_ok = False\<rparr>"

theorem mt_init_all_or_nothing_witness:
  "held (snd (mt_init_with_options (Some 32768) good_env zero_state)) =
     [Descriptor 5, Descriptor 4, Descriptor 3, SchedulerContext, RuntimeCond, RuntimeMutex] \<and>
   held (snd (mt_init_with_options (Some 32768) (good_env\<lparr>epoll_wake_ok := False\<rparr>) zero_state)) = [] \<and>
   held (snd (mt_init_with_options (Some 32768) (good_env\<lparr>nonblock_ok := False\<rparr>) zero_state)) = []"
proof -
  have u: "\<not> initialized zero_state" by (simp add: zero_state_def)
  have a: "(32768 :: u64) = 0 \<or> MT_MIN_STACK_SIZE \<le> 32768" by simp
  have p: "0 \<le> r \<and> 0 \<le> w" if "pipe_fds good_env = Some (r, w)" for r w
    using that by (simp add: good_env_def)
  let ?i = "\<lambda>env. mt_init_with_options (Some 32768) env zero_state"
  have "fst (?i good_env) = MT_OK" "fst (?i (good_env\<lparr>epoll_wake_ok := False\<rparr>)) \<noteq> MT_OK"
    "fst (?i (good_env\<lparr>nonblock_ok := False\<rparr>)) \<noteq> MT_OK" by code_simp+
  moreover have "io_backend_fd (snd (?i good_env)) = 5 \<and> io_wake_write_fd (snd (?i good_env)) = 4 \<and>
      io_wake_read_fd (snd (?i good_env)) = 3" by code_simp
  moreover have "held zero_state = []" by (simp add: held_def zero_state_def)
  ultimately show ?thesis
    using mt_init_all_or_nothing[OF u a, of good_env] p mt_init_all_or_nothing[OF u a, of "good_env\<lparr>epoll_wake_ok := False\<rparr>"]
      mt_init_all_or_nothing[OF u a, of "good_env\<lparr>nonblock_ok := False\<rparr>"]
    by (simp add: good_env_def split: prod.splits)
qed

end
