(* ===== verification/Channel.thy ===== *)
theory Channel
  imports Ring_Buffer Wake_Timers Runtime_Init
begin

text \<open>
  \<^verbatim>\<open>src/channel.c\<close>: bounded and unbuffered channels. Each operation is one critical section.

  \<^item> Pointers a caller may pass as null are options.
  \<^item> \<open>cur\<close> is \<^verbatim>\<open>mt_current_task()\<close>: the calling microthread, \<open>None\<close> on an OS thread.
  \<^item> A call that switches to the scheduler instead of returning yields \<open>Park\<close>; the task later
    returns the \<^verbatim>\<open>chan_result\<close> that its waker stored.
  \<^item> The value of a parked sender is read from its memory when it is transferred, and the value of
    a parked receiver is written to its memory, as \<^verbatim>\<open>memcpy\<close> does. The pointer of a parked task is
    never null, so \<open>the\<close> is applied to \<open>Some\<close> only.
\<close>

datatype outcome = Return mt_rc | Park

section \<open>Moving values\<close>

definition mt_chan_ready_waiter :: "tptr \<Rightarrow> mt_rc \<Rightarrow> mt_state \<Rightarrow> mt_state" where
  "mt_chan_ready_waiter t result s = mt_task_complete_channel_wait t result s"

definition value_at :: "cptr \<Rightarrow> vptr option \<Rightarrow> mt_state \<Rightarrow> byte list" where
  "value_at c p s = read_mem (user_mem s) (the p) (elem_size (chan_mem s c))"

definition store_at :: "vptr option \<Rightarrow> byte list \<Rightarrow> mt_state \<Rightarrow> mt_state" where
  "store_at p bs s = s\<lparr>user_mem := write_mem (the p) bs (user_mem s)\<rparr>"

definition buffer_push :: "cptr \<Rightarrow> byte list \<Rightarrow> mt_state \<Rightarrow> mt_state" where
  "buffer_push c bs s = upd_chan c (mt_chan_buffer_push bs) s"

definition buffer_pop :: "cptr \<Rightarrow> vptr option \<Rightarrow> mt_state \<Rightarrow> mt_state" where
  "buffer_pop c out s =
     (let (bs, ch) = mt_chan_buffer_pop (chan_mem s c)
      in store_at out bs (upd_chan c (\<lambda>_. ch) s))"

definition mt_chan_fill_buffer_from_waiting_sender :: "cptr \<Rightarrow> mt_state \<Rightarrow> mt_state" where
  "mt_chan_fill_buffer_from_waiting_sender c s =
     (if ch_closed (chan_mem s c) \<or> capacity (chan_mem s c) = 0 \<or>
         ch_len (chan_mem s c) \<ge> capacity (chan_mem s c)
      then s
      else case chan_send_pop c s of
             (Some sender, s) \<Rightarrow>
               mt_chan_ready_waiter sender MT_OK
                 (buffer_push c (value_at c (chan_value (task_mem s sender)) s) s)
           | (None, s) \<Rightarrow>
               (case select_send_pop c s of
                  (Some w, s) \<Rightarrow>
                    mt_select_complete_waiter w MT_OK
                      (buffer_push c (value_at c (sw_value (sw_mem s w)) s) s)
                | (None, s) \<Rightarrow> s))"

section \<open>Send and receive\<close>

text \<open>The part \<^verbatim>\<open>mt_chan_send\<close> and \<^verbatim>\<open>mt_chan_try_send\<close> share; \<open>None\<close> when it would block.\<close>

definition send_now :: "cptr \<Rightarrow> vptr option \<Rightarrow> mt_state \<Rightarrow> mt_rc option \<times> mt_state" where
  "send_now c v s =
     (if ch_closed (chan_mem s c) then (Some MT_ERR_CLOSED, s)
      else case chan_recv_pop c s of
             (Some receiver, s) \<Rightarrow>
               (Some MT_OK, mt_chan_ready_waiter receiver MT_OK
                  (store_at (chan_value (task_mem s receiver)) (value_at c v s) s))
           | (None, s) \<Rightarrow>
               (case select_recv_pop c s of
                  (Some w, s) \<Rightarrow>
                    (Some MT_OK, mt_select_complete_waiter w MT_OK
                       (store_at (sw_value (sw_mem s w)) (value_at c v s) s))
                | (None, s) \<Rightarrow>
                    if capacity (chan_mem s c) > 0 \<and> ch_len (chan_mem s c) < capacity (chan_mem s c)
                    then (Some MT_OK, buffer_push c (value_at c v s) s)
                    else (None, s)))"

definition mt_chan_try_send :: "cptr option \<Rightarrow> vptr option \<Rightarrow> mt_state \<Rightarrow> mt_rc \<times> mt_state" where
  "mt_chan_try_send ch v s =
     (case ch of
        None \<Rightarrow> (MT_ERR_INVALID, s)
      | Some c \<Rightarrow>
          if v = None then (MT_ERR_INVALID, s)
          else case send_now c v s of
                 (Some rc, s) \<Rightarrow> (rc, s)
               | (None, s) \<Rightarrow> (MT_ERR_WOULD_BLOCK, s))"

definition mt_chan_send ::
  "tptr option \<Rightarrow> cptr option \<Rightarrow> vptr option \<Rightarrow> mt_state \<Rightarrow> outcome \<times> mt_state" where
  "mt_chan_send cur ch v s =
     (case ch of
        None \<Rightarrow> (Return MT_ERR_INVALID, s)
      | Some c \<Rightarrow>
          if v = None then (Return MT_ERR_INVALID, s)
          else case send_now c v s of
                 (Some rc, s) \<Rightarrow> (Return rc, s)
               | (None, s) \<Rightarrow>
                   (case cur of
                      None \<Rightarrow> (Return MT_ERR_STATE, s)
                    | Some t \<Rightarrow>
                        (Park, chan_send_push c t
                           (mt_task_block_on_channel t c MT_CHAN_WAIT_SEND v s))))"

text \<open>The part \<^verbatim>\<open>mt_chan_recv\<close> and \<^verbatim>\<open>mt_chan_try_recv\<close> share.\<close>

definition recv_now :: "cptr \<Rightarrow> vptr option \<Rightarrow> mt_state \<Rightarrow> mt_rc option \<times> mt_state" where
  "recv_now c out s =
     (if ch_len (chan_mem s c) > 0
      then (Some MT_OK, mt_chan_fill_buffer_from_waiting_sender c (buffer_pop c out s))
      else case chan_send_pop c s of
             (Some sender, s) \<Rightarrow>
               if ch_closed (chan_mem s c)
               then (Some MT_ERR_CLOSED, mt_chan_ready_waiter sender MT_ERR_CLOSED s)
               else (Some MT_OK, mt_chan_ready_waiter sender MT_OK
                      (store_at out (value_at c (chan_value (task_mem s sender)) s) s))
           | (None, s) \<Rightarrow>
               (case select_send_pop c s of
                  (Some w, s) \<Rightarrow>
                    if ch_closed (chan_mem s c)
                    then (Some MT_ERR_CLOSED, mt_select_complete_waiter w MT_ERR_CLOSED s)
                    else (Some MT_OK, mt_select_complete_waiter w MT_OK
                           (store_at out (value_at c (sw_value (sw_mem s w)) s) s))
                | (None, s) \<Rightarrow>
                    if ch_closed (chan_mem s c) then (Some MT_ERR_CLOSED, s) else (None, s)))"

definition mt_chan_try_recv :: "cptr option \<Rightarrow> vptr option \<Rightarrow> mt_state \<Rightarrow> mt_rc \<times> mt_state" where
  "mt_chan_try_recv ch out s =
     (case ch of
        None \<Rightarrow> (MT_ERR_INVALID, s)
      | Some c \<Rightarrow>
          if out = None then (MT_ERR_INVALID, s)
          else case recv_now c out s of
                 (Some rc, s) \<Rightarrow> (rc, s)
               | (None, s) \<Rightarrow> (MT_ERR_WOULD_BLOCK, s))"

definition mt_chan_recv ::
  "tptr option \<Rightarrow> cptr option \<Rightarrow> vptr option \<Rightarrow> mt_state \<Rightarrow> outcome \<times> mt_state" where
  "mt_chan_recv cur ch out s =
     (case ch of
        None \<Rightarrow> (Return MT_ERR_INVALID, s)
      | Some c \<Rightarrow>
          if out = None then (Return MT_ERR_INVALID, s)
          else case recv_now c out s of
                 (Some rc, s) \<Rightarrow> (Return rc, s)
               | (None, s) \<Rightarrow>
                   (case cur of
                      None \<Rightarrow> (Return MT_ERR_STATE, s)
                    | Some t \<Rightarrow>
                        (Park, chan_recv_push c t
                           (mt_task_block_on_channel t c MT_CHAN_WAIT_RECV out s))))"

section \<open>Create, close, destroy\<close>

text \<open>\<open>new_ch\<close> is the address \<^verbatim>\<open>calloc\<close> returned; \<open>buf_ok\<close> whether the buffer was allocated.
  A fresh buffer holds unspecified bytes; \<open>junk\<close> supplies them.\<close>

definition mt_chan_create ::
  "nat \<Rightarrow> nat \<Rightarrow> init_env \<Rightarrow> cptr option \<Rightarrow> bool \<Rightarrow> (nat \<Rightarrow> byte) \<Rightarrow> mt_state \<Rightarrow> cptr option \<times> mt_state" where
  "mt_chan_create es n env new_ch buf_ok junk s =
     (if es = 0 then (None, s)
      else let (ok, s) = ensure_init env s
           in if \<not> ok then (None, s)
              else if n > 0 \<and> es > SIZE_MAX div n then (None, s)
              else case new_ch of
                     None \<Rightarrow> (None, s)
                   | Some c \<Rightarrow>
                       if n > 0 \<and> \<not> buf_ok then (None, s)
                       else (Some c, mt_chan_register c
                              (upd_chan c (\<lambda>_. zero_chan\<lparr>elem_size := es, capacity := n,
                                 ch_buffer := map junk [0 ..< es * n]\<rparr>) s)))"

text \<open>The four loops that wake the waiters of a closed channel.\<close>

function wake_closed_senders :: "cptr \<Rightarrow> mt_state \<Rightarrow> mt_state" where
  "wake_closed_senders c s =
     (case chan_send_pop c s of
        (None, s) \<Rightarrow> s
      | (Some t, s) \<Rightarrow> wake_closed_senders c (mt_chan_ready_waiter t MT_ERR_CLOSED s))"
  by pat_completeness auto

function wake_closed_receivers :: "cptr \<Rightarrow> mt_state \<Rightarrow> mt_state" where
  "wake_closed_receivers c s =
     (case chan_recv_pop c s of
        (None, s) \<Rightarrow> s
      | (Some t, s) \<Rightarrow> wake_closed_receivers c (mt_chan_ready_waiter t MT_ERR_CLOSED s))"
  by pat_completeness auto

function wake_closed_select_senders :: "cptr \<Rightarrow> mt_state \<Rightarrow> mt_state" where
  "wake_closed_select_senders c s =
     (case select_send_pop c s of
        (None, s) \<Rightarrow> s
      | (Some w, s) \<Rightarrow> wake_closed_select_senders c (mt_select_complete_waiter w MT_ERR_CLOSED s))"
  by pat_completeness auto

function wake_closed_select_receivers :: "cptr \<Rightarrow> mt_state \<Rightarrow> mt_state" where
  "wake_closed_select_receivers c s =
     (case select_recv_pop c s of
        (None, s) \<Rightarrow> s
      | (Some w, s) \<Rightarrow> wake_closed_select_receivers c (mt_select_complete_waiter w MT_ERR_CLOSED s))"
  by pat_completeness auto

subsection \<open>The loops end: every round shortens the queue\<close>

lemma ready_waiter_chan_mem [simp]: "chan_mem (mt_chan_ready_waiter t r s) = chan_mem s"
  by (simp add: mt_chan_ready_waiter_def mt_task_complete_channel_wait_def mark_ready_eq
      dec_channel_waiting_eq Let_def)

lemma remove_waiter_shorter:
  "length (select_send_q (chan_mem (snd (mt_select_remove_waiter_from_channel w s)) c)) \<le>
     length (select_send_q (chan_mem s c))"
  "length (select_recv_q (chan_mem (snd (mt_select_remove_waiter_from_channel w s)) c)) \<le>
     length (select_recv_q (chan_mem s c))"
  by (auto simp: mt_select_remove_waiter_from_channel_def select_send_remove_def
      select_recv_remove_def length_remove1 split: option.split)

lemma free_waiters_shorter:
  "length (select_send_q (chan_mem (free_waiters ws s) c)) \<le> length (select_send_q (chan_mem s c))"
  "length (select_recv_q (chan_mem (free_waiters ws s) c)) \<le> length (select_recv_q (chan_mem s c))"
  by (induction ws arbitrary: s)
    (auto intro: order_trans[OF _ remove_waiter_shorter(1)] order_trans[OF _ remove_waiter_shorter(2)])

lemma chan_mem_timer_remove [simp]: "chan_mem (snd (mt_timer_remove t s)) = chan_mem s"
  by (simp add: timer_remove_eq)

lemma chan_mem_unpark:
  "\<exists>ws s'. chan_mem s' = chan_mem s \<and>
     chan_mem (mt_select_unpark_task t r i s) = chan_mem (free_waiters ws s')"
proof -
  let ?s = "if select_in_timer (task_mem s t)
    then upd_task t (\<lambda>k. k\<lparr>select_in_timer := False\<rparr>) (snd (mt_timer_remove t s)) else s"
  have "chan_mem ?s = chan_mem s" by simp
  moreover have "chan_mem (mt_select_unpark_task t r i s) =
      chan_mem (free_waiters (select_waiters (task_mem ?s t)) ?s)"
    by (simp only: mt_select_unpark_task_def Let_def mark_ready_eq complete_select_wait_eq
        mt_select_free_task_waiters_def) simp
  ultimately show ?thesis by blast
qed

lemma complete_waiter_shorter:
  "length (select_send_q (chan_mem (mt_select_complete_waiter w r s) c)) \<le>
     length (select_send_q (chan_mem s c))"
  "length (select_recv_q (chan_mem (mt_select_complete_waiter w r s) c)) \<le>
     length (select_recv_q (chan_mem s c))"
proof (atomize (full), cases "sw_task (sw_mem s w)")
  case (Some t)
  let ?s = "upd_sw w (\<lambda>k. k\<lparr>sw_active := False\<rparr>) s"
  obtain ws s' where "chan_mem s' = chan_mem ?s" "chan_mem (mt_select_complete_waiter w r s) =
      chan_mem (free_waiters ws s')"
    using chan_mem_unpark[of ?s t r "sw_index (sw_mem s w)"] Some
    by (auto simp: mt_select_complete_waiter_def)
  with free_waiters_shorter[of ws s' c]
  show "length (select_send_q (chan_mem (mt_select_complete_waiter w r s) c)) \<le>
      length (select_send_q (chan_mem s c)) \<and>
    length (select_recv_q (chan_mem (mt_select_complete_waiter w r s) c)) \<le>
      length (select_recv_q (chan_mem s c))" by simp
qed (simp add: mt_select_complete_waiter_def)

lemma chan_pop_shorter:
  "chan_send_pop c s = (Some t, s') \<Longrightarrow> length (send_q (chan_mem s' c)) < length (send_q (chan_mem s c))"
  "chan_recv_pop c s = (Some t, s') \<Longrightarrow> length (recv_q (chan_mem s' c)) < length (recv_q (chan_mem s c))"
  by (cases "send_q (chan_mem s c)"; cases "recv_q (chan_mem s c)";
      auto simp: chan_send_pop_def chan_recv_pop_def)+

lemma select_pop_shorter:
  "select_send_pop c s = (Some w, s') \<Longrightarrow>
     length (select_send_q (chan_mem s' c)) < length (select_send_q (chan_mem s c))"
  "select_recv_pop c s = (Some w, s') \<Longrightarrow>
     length (select_recv_q (chan_mem s' c)) < length (select_recv_q (chan_mem s c))"
  by (cases "select_send_q (chan_mem s c)"; cases "select_recv_q (chan_mem s c)";
      auto simp: select_send_pop_def select_recv_pop_def)+

termination wake_closed_senders
  by (relation "measure (\<lambda>(c, s). length (send_q (chan_mem s c)))") (auto intro: chan_pop_shorter dest: sym)

termination wake_closed_receivers
  by (relation "measure (\<lambda>(c, s). length (recv_q (chan_mem s c)))") (auto intro: chan_pop_shorter dest: sym)

termination wake_closed_select_senders
  by (relation "measure (\<lambda>(c, s). length (select_send_q (chan_mem s c)))")
    (auto intro: le_less_trans[OF complete_waiter_shorter(1)] select_pop_shorter dest: sym)

termination wake_closed_select_receivers
  by (relation "measure (\<lambda>(c, s). length (select_recv_q (chan_mem s c)))")
    (auto intro: le_less_trans[OF complete_waiter_shorter(2)] select_pop_shorter dest: sym)

declare wake_closed_senders.simps [simp del] wake_closed_receivers.simps [simp del]
  wake_closed_select_senders.simps [simp del] wake_closed_select_receivers.simps [simp del]

definition mt_chan_wake_closed_waiters :: "cptr \<Rightarrow> mt_state \<Rightarrow> mt_state" where
  "mt_chan_wake_closed_waiters c s =
     wake_closed_select_receivers c (wake_closed_select_senders c
       (wake_closed_receivers c (wake_closed_senders c s)))"

definition mt_chan_close :: "cptr option \<Rightarrow> mt_state \<Rightarrow> mt_rc \<times> mt_state" where
  "mt_chan_close ch s =
     (case ch of
        None \<Rightarrow> (MT_ERR_INVALID, s)
      | Some c \<Rightarrow>
          if ch_closed (chan_mem s c) then (MT_ERR_CLOSED, s)
          else (MT_OK, mt_chan_wake_closed_waiters c (upd_chan c (\<lambda>k. k\<lparr>ch_closed := True\<rparr>) s)))"

definition mt_chan_destroy :: "cptr option \<Rightarrow> mt_state \<Rightarrow> mt_rc \<times> mt_state" where
  "mt_chan_destroy ch s =
     (case ch of
        None \<Rightarrow> (MT_ERR_INVALID, s)
      | Some c \<Rightarrow>
          if send_waiters (chan_mem s c) \<noteq> 0 \<or> recv_waiters (chan_mem s c) \<noteq> 0
          then (MT_ERR_STATE, s)
          else let s = (if select_send_waiters (chan_mem s c) \<noteq> 0 \<or>
                           select_recv_waiters (chan_mem s c) \<noteq> 0
                        then mt_chan_wake_closed_waiters c
                               (upd_chan c (\<lambda>k. k\<lparr>ch_closed := True\<rparr>) s)
                        else s);
                   s = mt_chan_unregister c s
               in (MT_OK, upd_chan c (\<lambda>_. zero_chan) s))"

section \<open>Observers\<close>

definition mt_chan_len :: "cptr option \<Rightarrow> mt_state \<Rightarrow> nat" where
  "mt_chan_len ch s = (case ch of None \<Rightarrow> 0 | Some c \<Rightarrow> ch_len (chan_mem s c))"

definition mt_chan_capacity :: "cptr option \<Rightarrow> mt_state \<Rightarrow> nat" where
  "mt_chan_capacity ch s = (case ch of None \<Rightarrow> 0 | Some c \<Rightarrow> capacity (chan_mem s c))"

definition mt_chan_is_closed :: "cptr option \<Rightarrow> mt_state \<Rightarrow> bool" where
  "mt_chan_is_closed ch s = (case ch of None \<Rightarrow> False | Some c \<Rightarrow> ch_closed (chan_mem s c))"

end
