(* ===== verification/Select.thy ===== *)
theory Select
  imports Channel
begin

text \<open>
  \<^verbatim>\<open>mt_select\<close> of \<^verbatim>\<open>src/channel.c\<close>. The call validates its cases, tries each channel case in its
  own critical section, and only then parks in a further one; the pieces are separate definitions
  because other workers can run between them. \<open>mt_select\<close> composes them without interference.
\<close>

record mt_select_case =
  sc_op :: mt_select_op
  sc_ch :: "cptr option"
  sc_value :: "vptr option"
  sc_timeout_ms :: u64

text \<open>A returned status with the index stored through \<^verbatim>\<open>selected_index\<close>, if any.\<close>

datatype select_outcome = Selected mt_rc "nat option" | SelectPark

section \<open>Validation\<close>

record select_plan =
  default_index :: "nat option"
  timeout_index :: "nat option"
  timeout_ms :: u64
  channel_cases :: nat

definition empty_plan :: select_plan where
  "empty_plan = \<lparr>default_index = None, timeout_index = None, timeout_ms = 0, channel_cases = 0\<rparr>"

fun select_validate :: "mt_select_case list \<Rightarrow> nat \<Rightarrow> select_plan \<Rightarrow> select_plan option" where
  "select_validate [] i p = Some p"
| "select_validate (k # ks) i p =
     (case sc_op k of
        MT_SELECT_RECV \<Rightarrow>
          if sc_ch k = None \<or> sc_value k = None then None
          else select_validate ks (i + 1) (p\<lparr>channel_cases := channel_cases p + 1\<rparr>)
      | MT_SELECT_SEND \<Rightarrow>
          if sc_ch k = None \<or> sc_value k = None then None
          else select_validate ks (i + 1) (p\<lparr>channel_cases := channel_cases p + 1\<rparr>)
      | MT_SELECT_DEFAULT \<Rightarrow>
          if default_index p \<noteq> None then None
          else select_validate ks (i + 1) (p\<lparr>default_index := Some i\<rparr>)
      | MT_SELECT_TIMEOUT \<Rightarrow>
          if timeout_index p \<noteq> None then None
          else select_validate ks (i + 1)
                 (p\<lparr>timeout_index := Some i, timeout_ms := sc_timeout_ms k\<rparr>)
      | MT_SELECT_OTHER \<Rightarrow> None)"

section \<open>The polling pass\<close>

definition is_chan_case :: "mt_select_case \<Rightarrow> bool" where
  "is_chan_case k \<longleftrightarrow> sc_op k = MT_SELECT_RECV \<or> sc_op k = MT_SELECT_SEND"

definition mt_select_try_case :: "mt_select_case \<Rightarrow> mt_state \<Rightarrow> mt_rc \<times> mt_state" where
  "mt_select_try_case k s =
     (case sc_op k of
        MT_SELECT_RECV \<Rightarrow> mt_chan_try_recv (sc_ch k) (sc_value k) s
      | MT_SELECT_SEND \<Rightarrow> mt_chan_try_send (sc_ch k) (sc_value k) s
      | _ \<Rightarrow> (MT_ERR_INVALID, s))"

fun select_try :: "mt_select_case list \<Rightarrow> nat \<Rightarrow> mt_state \<Rightarrow> (mt_rc \<times> nat) option \<times> mt_state" where
  "select_try [] i s = (None, s)"
| "select_try (k # ks) i s =
     (if \<not> is_chan_case k then select_try ks (i + 1) s
      else let (rc, s) = mt_select_try_case k s
           in if rc \<noteq> MT_ERR_WOULD_BLOCK then (Some (rc, i), s) else select_try ks (i + 1) s)"

section \<open>Parking\<close>

text \<open>\<open>allocs\<close> lists what successive calls of \<^verbatim>\<open>mt_alloc_select_waiter\<close> return.\<close>

definition register_case :: "tptr \<Rightarrow> mt_select_case \<Rightarrow> nat \<Rightarrow> wptr \<Rightarrow> mt_state \<Rightarrow> mt_state" where
  "register_case t k i w s =
     (let s = upd_sw w (\<lambda>_. zero_sw\<lparr>sw_task := Some t, sw_ch := sc_ch k, sw_op := sc_op k,
                sw_value := sc_value k, sw_index := i\<rparr>) s;
          s = upd_task t (\<lambda>r. r\<lparr>select_waiters := w # select_waiters r,
                select_waiter_count := select_waiter_count r + 1\<rparr>) s
      in if sc_op k = MT_SELECT_SEND then select_send_push (the (sc_ch k)) w s
         else select_recv_push (the (sc_ch k)) w s)"

fun register_cases ::
  "tptr \<Rightarrow> mt_select_case list \<Rightarrow> nat \<Rightarrow> wptr option list \<Rightarrow> mt_state \<Rightarrow> bool \<times> mt_state" where
  "register_cases t [] i allocs s = (True, s)"
| "register_cases t (k # ks) i allocs s =
     (if \<not> is_chan_case k then register_cases t ks (i + 1) allocs s
      else case allocs of
             Some w # allocs' \<Rightarrow> register_cases t ks (i + 1) allocs' (register_case t k i w s)
           | _ \<Rightarrow> (False, s))"

definition mt_select_park ::
  "tptr option \<Rightarrow> mt_select_case list \<Rightarrow> select_plan \<Rightarrow> wptr option list \<Rightarrow> u64 \<Rightarrow> bool \<Rightarrow>
     mt_state \<Rightarrow> select_outcome \<times> mt_state" where
  "mt_select_park cur cases p allocs now_ns timer_ok s =
     (case cur of
        None \<Rightarrow> (Selected MT_ERR_STATE None, s)
      | Some t \<Rightarrow>
          if channel_cases p = 0 \<and> timeout_index p = None then (Selected MT_ERR_INVALID None, s)
          else
            let s = upd_task t (\<lambda>r. r\<lparr>select_waiters := [], select_waiter_count := 0,
                      select_result := MT_OK,
                      select_index := (case timeout_index p of Some i \<Rightarrow> i | None \<Rightarrow> 0),
                      select_in_timer := False, select_counted_waiting := False\<rparr>) s;
                (ok, s) = register_cases t cases 0 allocs s
            in if \<not> ok then (Selected MT_ERR_NOMEM None, mt_select_free_task_waiters t s)
               else case timeout_index p of
                      None \<Rightarrow> (SelectPark, mt_task_block_on_select t s)
                    | Some i \<Rightarrow>
                        let s = upd_task t (\<lambda>r. r\<lparr>select_index := i\<rparr>) s;
                            (rc, s) = mt_timer_push_state t (deadline_after now_ns (timeout_ms p))
                              MT_TASK_WAITING_SELECT timer_ok s
                        in if rc \<noteq> MT_OK
                           then (Selected MT_ERR_NOMEM None, mt_select_free_task_waiters t s)
                           else (SelectPark, mt_task_block_on_select t
                                  (upd_task t (\<lambda>r. r\<lparr>select_in_timer := True\<rparr>) s)))"

text \<open>
  \<open>has_index\<close> is false when the pointer \<^verbatim>\<open>selected_index\<close> is null; a null array of cases is the empty
  list, which the code treats alike.
\<close>

definition mt_select ::
  "tptr option \<Rightarrow> mt_select_case list \<Rightarrow> bool \<Rightarrow> wptr option list \<Rightarrow> u64 \<Rightarrow> bool \<Rightarrow>
     mt_state \<Rightarrow> select_outcome \<times> mt_state" where
  "mt_select cur cases has_index allocs now_ns timer_ok s =
     (if cases = [] \<or> \<not> has_index then (Selected MT_ERR_INVALID None, s)
      else case select_validate cases 0 empty_plan of
             None \<Rightarrow> (Selected MT_ERR_INVALID None, s)
           | Some p \<Rightarrow>
               (case select_try cases 0 s of
                  (Some (rc, i), s) \<Rightarrow> (Selected rc (Some i), s)
                | (None, s) \<Rightarrow>
                    (case default_index p of
                       Some i \<Rightarrow> (Selected MT_OK (Some i), s)
                     | None \<Rightarrow>
                         if timeout_index p \<noteq> None \<and> timeout_ms p = 0
                         then (Selected MT_OK (timeout_index p), s)
                         else mt_select_park cur cases p allocs now_ns timer_ok s)))"

end
