(* ===== verification/Stack.thy ===== *)
theory Stack
  imports Runtime_Init
begin

text \<open>
  \<^verbatim>\<open>src/stack.c\<close> in its three builds. With guard pages task stacks are anonymous mappings whose
  lowest page is protected; this is the build the task model uses. The two other builds allocate
  with \<^verbatim>\<open>malloc\<close>, or leave the stack to the system. Sizes are 64-bit words and wrap around as \<^verbatim>\<open>size_t\<close> does.
\<close>

text \<open>\<open>page\<close> is the result of \<^verbatim>\<open>sysconf(_SC_PAGESIZE)\<close>.\<close>

definition mt_page_size :: "int \<Rightarrow> u64" where
  "mt_page_size page = (if page > 0 then word_of_int page else 4096)"

definition mt_round_up :: "u64 \<Rightarrow> u64 \<Rightarrow> u64" where
  "mt_round_up val align =
     (if align = 0 then val
      else let r = val mod align in if r = 0 then val else val + (align - r))"

text \<open>
  \<open>map_addr\<close> is the address \<^verbatim>\<open>mmap\<close> returned, \<open>None\<close> for \<^verbatim>\<open>MAP_FAILED\<close>. The last component of the
  result is what was asked of the system and granted: a failed \<^verbatim>\<open>mmap\<close> or \<^verbatim>\<open>mprotect\<close> is not in it.
\<close>

definition mt_stack_alloc ::
  "u64 \<Rightarrow> int \<Rightarrow> nat option \<Rightarrow> bool \<Rightarrow> mt_rc \<times> mt_stack \<times> sys_call list" where
  "mt_stack_alloc requested page map_addr mprotect_ok =
     (let requested_size = (if requested = 0 then MT_DEFAULT_STACK_SIZE else requested)
      in if requested_size < MT_MIN_STACK_SIZE then (MT_ERR_INVALID, zero_stack, [])
         else let guard = mt_page_size page;
                  usable_bytes = mt_round_up requested_size guard;
                  total = usable_bytes + guard
              in case map_addr of
                   None \<Rightarrow> (MT_ERR_NOMEM, zero_stack, [])
                 | Some a \<Rightarrow>
                     let calls = [SysAcquire (Mapping a total)];
                         calls = calls @ (if mprotect_ok then [SysProtect a guard] else [])
                     in if \<not> mprotect_ok
                        then (MT_ERR, zero_stack, calls @ [SysRelease (Mapping a total)])
                        else (MT_OK, \<lparr>mapping = Some a, mapping_size = total,
                               usable = Some (a + unat guard), usable_size = usable_bytes,
                               guard_size = guard, alloc_kind = MT_STACK_ALLOC_MMAP\<rparr>, calls))"

text \<open>The build without guard pages (\<^verbatim>\<open>MT_DISABLE_GUARD_PAGES\<close>); \<open>addr\<close> is the result of \<^verbatim>\<open>malloc\<close>.\<close>

definition mt_stack_alloc_malloc :: "u64 \<Rightarrow> int \<Rightarrow> nat option \<Rightarrow> mt_rc \<times> mt_stack \<times> sys_call list" where
  "mt_stack_alloc_malloc requested page addr =
     (let requested_size = (if requested = 0 then MT_DEFAULT_STACK_SIZE else requested)
      in if requested_size < MT_MIN_STACK_SIZE then (MT_ERR_INVALID, zero_stack, [])
         else let usable_bytes = mt_round_up requested_size (mt_page_size page);
                  total = usable_bytes
              in case addr of
                   None \<Rightarrow> (MT_ERR_NOMEM, zero_stack, [])
                 | Some a \<Rightarrow>
                     (MT_OK, \<lparr>mapping = Some a, mapping_size = total, usable = Some a,
                        usable_size = usable_bytes, guard_size = 0, alloc_kind = MT_STACK_ALLOC_MALLOC\<rparr>,
                      [SysAcquire (HeapBlock a)]))"

text \<open>The Windows build, whose fibers bring their own stacks: only the sizes are recorded.\<close>

definition mt_stack_alloc_fiber :: "u64 \<Rightarrow> bool \<Rightarrow> u64 \<Rightarrow> mt_rc \<times> mt_stack" where
  "mt_stack_alloc_fiber requested guard_pages page_size =
     (let requested_size = (if requested = 0 then MT_DEFAULT_STACK_SIZE else requested)
      in if requested_size < MT_MIN_STACK_SIZE then (MT_ERR_INVALID, zero_stack)
         else (MT_OK, zero_stack\<lparr>usable_size := requested_size,
                 guard_size := (if guard_pages then page_size else 0),
                 alloc_kind := MT_STACK_ALLOC_NONE\<rparr>))"

text \<open>What is given back to the system, if anything, and the cleared struct.\<close>

definition mt_stack_free :: "mt_stack \<Rightarrow> sys_call list \<times> mt_stack" where
  "mt_stack_free st =
     (if alloc_kind st = MT_STACK_ALLOC_MMAP \<and> mapping st \<noteq> None \<and> mapping_size st > 0
      then ([SysRelease (Mapping (the (mapping st)) (mapping_size st))], zero_stack)
      else if alloc_kind st = MT_STACK_ALLOC_MALLOC \<and> mapping st \<noteq> None
      then ([SysRelease (HeapBlock (the (mapping st)))], zero_stack)
      else ([], zero_stack))"

definition mt_stack_context_base :: "mt_stack \<Rightarrow> nat option" where
  "mt_stack_context_base st = usable st"

definition mt_stack_context_size :: "mt_stack \<Rightarrow> u64" where
  "mt_stack_context_size st = usable_size st"

section \<open>Rounding\<close>

text \<open>Below the wrap-around, the smallest multiple of the alignment that is not less.\<close>

lemma round_up_spec:
  assumes a: "0 < align" and room: "unat val + unat align \<le> 2 ^ 64"
  shows "unat val \<le> unat (mt_round_up val align)"
    and "unat (mt_round_up val align) < unat val + unat align"
    and "unat align dvd unat (mt_round_up val align)"
proof -
  let ?v = "unat val" and ?a = "unat align" and ?r = "unat (mt_round_up val align)"
  have pos: "0 < ?a" using a by (simp add: word_less_nat_alt)
  have r: "unat (val mod align) = ?v mod ?a" by (simp add: unat_mod)
  have "?v \<le> ?r \<and> ?r < ?v + ?a \<and> ?a dvd ?r"
  proof (cases "?v mod ?a = 0")
    case True
    then have "mt_round_up val align = val"
      using r by (auto simp: mt_round_up_def Let_def word_unat_eq_iff)
    with True pos show ?thesis by auto
  next
    case False
    have ne: "align \<noteq> 0" "val mod align \<noteq> 0" using pos False r by (auto simp: word_unat_eq_iff)
    have le: "?v mod ?a < ?a" using pos by simp
    have sub: "unat (align - val mod align) = ?a - ?v mod ?a"
      using le r by (simp add: unat_sub word_le_nat_alt)
    have "?v + (?a - ?v mod ?a) < 2 ^ 64" using room False le by linarith
    then have eq: "?r = ?v + (?a - ?v mod ?a)"
      using ne sub by (simp add: mt_round_up_def Let_def unat_add_lem[THEN iffD1])
    have "?v = ?a * (?v div ?a) + ?v mod ?a" by simp
    with le have "?v + (?a - ?v mod ?a) = ?a * (?v div ?a) + ?a" by linarith
    also have "\<dots> = ?a * (?v div ?a + 1)" by simp
    finally have "?a dvd ?v + (?a - ?v mod ?a)" by (metis dvd_triv_left)
    with eq le False show ?thesis by simp
  qed
  then show "?v \<le> ?r" "?r < ?v + ?a" "?a dvd ?r" by blast+
qed

section \<open>The memory of a stack\<close>

text \<open>What a byte of the address space may be used for, and how the calls change that.\<close>

datatype access = Unmapped | NoAccess | ReadWrite

definition set_access :: "nat \<Rightarrow> u64 \<Rightarrow> access \<Rightarrow> (nat \<Rightarrow> access) \<Rightarrow> nat \<Rightarrow> access" where
  "set_access a n k m x = (if a \<le> x \<and> x < a + unat n then k else m x)"

fun access_after :: "(nat \<Rightarrow> access) \<Rightarrow> sys_call list \<Rightarrow> nat \<Rightarrow> access" where
  "access_after m [] = m"
| "access_after m (SysAcquire (Mapping a n) # cs) = access_after (set_access a n ReadWrite m) cs"
| "access_after m (SysRelease (Mapping a n) # cs) = access_after (set_access a n Unmapped m) cs"
| "access_after m (SysProtect a n # cs) = access_after (set_access a n NoAccess m) cs"
| "access_after m (_ # cs) = access_after m cs"

text \<open>What a stack owns.\<close>

definition stack_memory :: "mt_stack \<Rightarrow> sys_resource list" where
  "stack_memory st =
     (case mapping st of
        None \<Rightarrow> []
      | Some a \<Rightarrow>
          (case alloc_kind st of
             MT_STACK_ALLOC_NONE \<Rightarrow> []
           | MT_STACK_ALLOC_MMAP \<Rightarrow> if mapping_size st = 0 then [] else [Mapping a (mapping_size st)]
           | MT_STACK_ALLOC_MALLOC \<Rightarrow> [HeapBlock a]))"

text \<open>Freeing a stack gives back just that, in every build.\<close>

lemma stack_free_calls: "fst (mt_stack_free st) = map SysRelease (stack_memory st)"
  by (cases "mapping st"; cases "alloc_kind st") (auto simp: mt_stack_free_def stack_memory_def word_greater_zero_iff)

lemma stack_free_zero: "snd (mt_stack_free st) = zero_stack"
  by (simp add: mt_stack_free_def)

text \<open>The \<^verbatim>\<open>malloc\<close> build keeps the same books, without a guard.\<close>

lemma mt_stack_alloc_malloc_owned:
  "mt_stack_alloc_malloc requested page addr = (rc, st, calls) \<Longrightarrow> held_after rs calls = stack_memory st @ rs"
  by (auto simp: mt_stack_alloc_malloc_def stack_memory_def zero_stack_def Let_def split: if_splits option.splits)

section \<open>Properties\<close>

text \<open>
  C38: A stack allocation of a nonzero size that does not wrap around succeeds exactly when the size is
  not below the minimum and both \<^verbatim>\<open>mmap\<close> and \<^verbatim>\<open>mprotect\<close> succeed. It then gives a usable area that
  holds the requested size, is a whole number of pages and wastes less than one page; the mapping is the
  usable area plus exactly one page below it; that guard page can be neither read nor written, the usable
  area can, and no other byte of the address space has changed. When it fails, the struct is zeroed, the
  address space is as before and no mapping is kept.
\<close>

theorem mt_stack_alloc_bounds:
  assumes "mt_stack_alloc requested page map_addr mprotect_ok = (rc, st, calls)"
    and "requested \<noteq> 0" and "0 < page" and "page < 2 ^ 32"
    and "unat requested + 2 * nat page \<le> 2 ^ 64"
    and "\<And>a x. map_addr = Some a \<Longrightarrow> a \<le> x \<Longrightarrow>
      x < a + unat (mt_round_up requested (mt_page_size page) + mt_page_size page) \<Longrightarrow> m x = Unmapped"
  shows "(rc = MT_OK \<longleftrightarrow> MT_MIN_STACK_SIZE \<le> requested \<and> map_addr \<noteq> None \<and> mprotect_ok) \<and>
    (if rc = MT_OK
     then unat requested \<le> unat (usable_size st) \<and> unat (usable_size st) < unat requested + nat page \<and>
       nat page dvd unat (usable_size st) \<and>
       unat (mapping_size st) = unat (usable_size st) + nat page \<and>
       (\<exists>a. mapping st = Some a \<and> usable st = Some (a + nat page) \<and>
          held_after rs calls = Mapping a (mapping_size st) # rs \<and>
          (\<forall>x. access_after m calls x =
             (if a \<le> x \<and> x < a + nat page then NoAccess
              else if a + nat page \<le> x \<and> x < a + nat page + unat (usable_size st) then ReadWrite
              else m x)))
     else st = zero_stack \<and> access_after m calls = m \<and> held_after rs calls = rs)"
proof -
  have pg: "unat (mt_page_size page) = nat page"
    using assms(3,4) by (simp add: mt_page_size_def unat_eq_nat_uint uint_word_of_int)
  let ?u = "mt_round_up requested (mt_page_size page)"
  have pos: "0 < mt_page_size page" using pg assms(3) by (simp add: word_less_nat_alt)
  have "unat requested + unat (mt_page_size page) \<le> 2 ^ 64" using assms(5) pg by linarith
  note up = round_up_spec[OF pos this, unfolded pg]
  have "unat ?u + unat (mt_page_size page) < 2 ^ 64" using up(2) pg assms(5) by linarith
  then have tot: "unat (?u + mt_page_size page) = unat ?u + nat page"
    using pg by (simp add: unat_add_lem[THEN iffD1])
  have unmap: "set_access a (?u + mt_page_size page) Unmapped
      (set_access a (?u + mt_page_size page) ReadWrite m) = m" if "map_addr = Some a" for a
    using assms(6)[OF that] by (auto simp: set_access_def fun_eq_iff)
  show ?thesis
  proof (cases "rc = MT_OK")
    case True
    with assms(1,2) obtain a where a: "map_addr = Some a" "mprotect_ok" "MT_MIN_STACK_SIZE \<le> requested"
      by (auto simp: mt_stack_alloc_def Let_def split: if_splits option.splits)
    then have "mapping st = Some a \<and> usable st = Some (a + nat page) \<and> usable_size st = ?u \<and>
        mapping_size st = ?u + mt_page_size page \<and>
        calls = [SysAcquire (Mapping a (?u + mt_page_size page)), SysProtect a (mt_page_size page)]"
      using assms(1,2) pg by (auto simp: mt_stack_alloc_def Let_def split: if_splits)
    then show ?thesis using True a up tot pg by (auto simp: set_access_def)
  next
    case False
    then show ?thesis using assms(1,2) unmap
      by (auto simp: mt_stack_alloc_def Let_def split: if_splits option.splits)
  qed
qed

theorem mt_stack_alloc_bounds_witness:
  "let calls = \<lambda>ok. snd (snd (mt_stack_alloc 20000 4096 (Some 65536) ok)) in
   usable_size (fst (snd (mt_stack_alloc 20000 4096 (Some 65536) True))) = 20480 \<and>
   access_after (\<lambda>_. Unmapped) (calls True) 69631 = NoAccess \<and>
   access_after (\<lambda>_. Unmapped) (calls True) 69632 = ReadWrite \<and>
   access_after (\<lambda>_. Unmapped) (calls False) = (\<lambda>_. Unmapped)"
proof -
  let ?r = "\<lambda>ok. mt_stack_alloc 20000 4096 (Some 65536) ok"
  have u: "mt_round_up 20000 4096 = 20480" by code_simp
  then have t: "fst (?r True) = MT_OK" "usable_size (fst (snd (?r True))) = 20480" "mapping (fst (snd (?r True))) = Some 65536"
    "fst (?r False) \<noteq> MT_OK"
    by (simp_all add: mt_stack_alloc_def mt_page_size_def)
  have e: "?r ok = (fst (?r ok), fst (snd (?r ok)), snd (snd (?r ok)))" for ok by simp
  note p = mt_stack_alloc_bounds[OF e, of "\<lambda>_. Unmapped"]
  show ?thesis using p[of True "[]"] p[of False "[]"] t by (auto simp: Let_def)
qed

end
