(* ===== verification/MT_Status.thy ===== *)
theory MT_Status
  imports MT_Types
begin

text \<open>
  \<^verbatim>\<open>src/status.c\<close>: the numeric values of the status codes and the strings the library returns
  for codes and for task statuses, and the error number each thread keeps. A C caller may pass any
  integer, so the two functions that print are defined on integers, with their default branches.
\<close>

fun rc_code :: "mt_rc \<Rightarrow> int" where
  "rc_code MT_OK = 0"
| "rc_code MT_ERR = -1"
| "rc_code MT_ERR_INVALID = -2"
| "rc_code MT_ERR_NOMEM = -3"
| "rc_code MT_ERR_STATE = -4"
| "rc_code MT_ERR_CLOSED = -5"
| "rc_code MT_ERR_CANCELLED = -6"
| "rc_code MT_ERR_WOULD_BLOCK = -7"
| "rc_code MT_ERR_TIMEOUT = -8"
| "rc_code MT_ERR_IO = -9"
| "rc_code MT_ERR_BACKEND = -10"
| "rc_code MT_ERR_ADDRINFO = -11"
| "rc_code MT_ERR_UNSUPPORTED = -12"

fun status_code :: "mt_task_status \<Rightarrow> int" where
  "status_code MT_TASK_STATUS_READY = 0"
| "status_code MT_TASK_STATUS_RUNNING = 1"
| "status_code MT_TASK_STATUS_SLEEPING = 2"
| "status_code MT_TASK_STATUS_WAITING_CHAN = 3"
| "status_code MT_TASK_STATUS_WAITING_JOIN = 4"
| "status_code MT_TASK_STATUS_DONE = 5"
| "status_code MT_TASK_STATUS_CANCELLED = 6"
| "status_code MT_TASK_STATUS_WAITING_SELECT = 7"
| "status_code MT_TASK_STATUS_WAITING_FD = 8"

definition mt_strerror :: "int \<Rightarrow> string" where
  "mt_strerror rc =
     (if rc = rc_code MT_OK then ''ok''
      else if rc = rc_code MT_ERR then ''microthread error''
      else if rc = rc_code MT_ERR_INVALID then ''invalid argument''
      else if rc = rc_code MT_ERR_NOMEM then ''out of memory''
      else if rc = rc_code MT_ERR_STATE then ''invalid runtime state''
      else if rc = rc_code MT_ERR_CLOSED then ''closed''
      else if rc = rc_code MT_ERR_CANCELLED then ''cancelled''
      else if rc = rc_code MT_ERR_WOULD_BLOCK then ''operation would block''
      else if rc = rc_code MT_ERR_TIMEOUT then ''operation timed out''
      else if rc = rc_code MT_ERR_IO then ''i/o error''
      else if rc = rc_code MT_ERR_BACKEND then ''i/o backend error''
      else if rc = rc_code MT_ERR_ADDRINFO then ''address resolution error''
      else if rc = rc_code MT_ERR_UNSUPPORTED then ''operation unsupported on this platform''
      else ''unknown microthread error'')"

definition mt_task_status_name :: "int \<Rightarrow> string" where
  "mt_task_status_name st =
     (if st = status_code MT_TASK_STATUS_READY then ''ready''
      else if st = status_code MT_TASK_STATUS_RUNNING then ''running''
      else if st = status_code MT_TASK_STATUS_SLEEPING then ''sleeping''
      else if st = status_code MT_TASK_STATUS_WAITING_CHAN then ''waiting_chan''
      else if st = status_code MT_TASK_STATUS_WAITING_JOIN then ''waiting_join''
      else if st = status_code MT_TASK_STATUS_DONE then ''done''
      else if st = status_code MT_TASK_STATUS_CANCELLED then ''cancelled''
      else if st = status_code MT_TASK_STATUS_WAITING_SELECT then ''waiting_select''
      else if st = status_code MT_TASK_STATUS_WAITING_FD then ''waiting_fd''
      else ''unknown'')"

text \<open>The thread-local error number, for every thread.\<close>

type_synonym os_errors = "nat \<Rightarrow> int"

definition mt_set_last_os_error :: "nat \<Rightarrow> int \<Rightarrow> os_errors \<Rightarrow> os_errors" where
  "mt_set_last_os_error thread err m = m(thread := err)"

definition mt_last_os_error :: "nat \<Rightarrow> os_errors \<Rightarrow> int" where
  "mt_last_os_error thread m = m thread"

lemma rc_code_bounds: "-12 \<le> rc_code rc" "rc_code rc \<le> 0"
  by (cases rc; simp)+

lemma rc_code_neg_iff: "rc_code rc < 0 \<longleftrightarrow> rc \<noteq> MT_OK"
  by (cases rc) simp_all

text \<open>Every code prints as a string of its own: a printed status identifies the code.\<close>

lemma strerror_known: "mt_strerror (rc_code rc) \<noteq> ''unknown microthread error''"
  by (cases rc) (simp_all add: mt_strerror_def)

lemma strerror_unknown: "rc \<notin> range rc_code \<Longrightarrow> mt_strerror rc = ''unknown microthread error''"
  by (auto simp: mt_strerror_def simp del: rc_code.simps)

lemma strerror_inj_code: "mt_strerror (rc_code a) = mt_strerror (rc_code b) \<Longrightarrow> a = b"
  by (cases a; cases b; simp add: mt_strerror_def)

lemma status_name_inj_code:
  "mt_task_status_name (status_code a) = mt_task_status_name (status_code b) \<Longrightarrow> a = b"
  by (cases a; cases b; simp add: mt_task_status_name_def)

lemma status_name_known: "mt_task_status_name (status_code a) \<noteq> ''unknown''"
  by (cases a) (simp_all add: mt_task_status_name_def)

lemma status_name_unknown: "st \<notin> range status_code \<Longrightarrow> mt_task_status_name st = ''unknown''"
  by (auto simp: mt_task_status_name_def simp del: status_code.simps)

lemma rc_code_nonpos: "rc_code rc \<le> 0"
  by (cases rc) simp_all

text \<open>Each thread reads back its own error number.\<close>

lemma last_os_error_own:
  "mt_last_os_error t (mt_set_last_os_error u err m) = (if t = u then err else mt_last_os_error t m)"
  by (simp add: mt_last_os_error_def mt_set_last_os_error_def)

end
