(* ===== verification/Task.thy ===== *)
theory Task
  imports Channel Stack MT_Status
begin

text \<open>
  \<^verbatim>\<open>src/join.c\<close> and \<^verbatim>\<open>src/task.c\<close>: creation and destruction of tasks, handles, joining and
  cooperative cancellation. It also has \<^verbatim>\<open>mt_chan_remove_waiter\<close> of \<^verbatim>\<open>src/scheduler.c\<close>, which
  only cancellation uses.
\<close>

section \<open>Handles (join.c)\<close>

definition mt_status_from_task :: "mt_task \<Rightarrow> mt_task_status" where
  "mt_status_from_task k =
     (case state k of
        MT_TASK_READY \<Rightarrow> MT_TASK_STATUS_READY
      | MT_TASK_RUNNING \<Rightarrow> MT_TASK_STATUS_RUNNING
      | MT_TASK_SLEEPING \<Rightarrow> MT_TASK_STATUS_SLEEPING
      | MT_TASK_WAITING_CHAN \<Rightarrow> MT_TASK_STATUS_WAITING_CHAN
      | MT_TASK_WAITING_SELECT \<Rightarrow> MT_TASK_STATUS_WAITING_SELECT
      | MT_TASK_WAITING_FD \<Rightarrow> MT_TASK_STATUS_WAITING_FD
      | MT_TASK_WAITING_JOIN \<Rightarrow> MT_TASK_STATUS_WAITING_JOIN
      | MT_TASK_DEAD \<Rightarrow> MT_TASK_STATUS_DONE)"

text \<open>A freed handle leaves the registry; nothing else of it is read again.\<close>

definition mt_handle_free_if_possible :: "hptr \<Rightarrow> mt_state \<Rightarrow> mt_state" where
  "mt_handle_free_if_possible h s =
     (if \<not> released (handle_mem s h) \<or> h_task (handle_mem s h) \<noteq> None \<or>
         join_waiters (handle_mem s h) \<noteq> 0
      then s else mt_handle_unregister h s)"

definition mt_join_waiter_ready :: "tptr \<Rightarrow> mt_rc \<Rightarrow> mt_state \<Rightarrow> mt_state" where
  "mt_join_waiter_ready t result s = mt_task_complete_join_wait t result s"

lemma join_ready_handle_mem [simp]: "handle_mem (mt_join_waiter_ready t r s) = handle_mem s"
  by (simp add: mt_join_waiter_ready_def mt_task_complete_join_wait_def mark_ready_eq
      dec_join_waiting_eq Let_def)

lemma join_pop_shorter:
  "join_pop h s = (Some t, s') \<Longrightarrow> length (join_q (handle_mem s' h)) < length (join_q (handle_mem s h))"
  by (cases "join_q (handle_mem s h)") (auto simp: join_pop_def)

function wake_joiners :: "hptr \<Rightarrow> mt_state \<Rightarrow> mt_state" where
  "wake_joiners h s =
     (case join_pop h s of
        (None, s) \<Rightarrow> s
      | (Some t, s) \<Rightarrow> wake_joiners h (mt_join_waiter_ready t (h_join_result (handle_mem s h)) s))"
  by pat_completeness auto
termination
  by (relation "measure (\<lambda>(h, s). length (join_q (handle_mem s h)))")
    (auto intro: join_pop_shorter dest: sym)

declare wake_joiners.simps [simp del]

definition mt_handle_complete :: "hptr \<Rightarrow> bool \<Rightarrow> mt_state \<Rightarrow> mt_state" where
  "mt_handle_complete h cancelled s =
     (if completed (handle_mem s h) then s
      else let s = upd_handle h (\<lambda>k. k\<lparr>completed := True, h_task := None,
                     h_status := (if cancelled then MT_TASK_STATUS_CANCELLED else MT_TASK_STATUS_DONE),
                     h_join_result := (if cancelled then MT_ERR_CANCELLED else MT_OK)\<rparr>) s;
               s = wake_joiners h s
           in mt_handle_free_if_possible h s)"

definition mt_handle_remove_joiner :: "hptr option \<Rightarrow> tptr \<Rightarrow> mt_state \<Rightarrow> bool \<times> mt_state" where
  "mt_handle_remove_joiner h t s =
     (case h of
        None \<Rightarrow> (False, s)
      | Some h \<Rightarrow>
          let (removed, s) = join_remove h t s
          in if removed
             then (True, upd_task t (\<lambda>k. k\<lparr>join_waiting_on := None\<rparr>) (dec_join_waiting s))
             else (False, s))"

section \<open>Destruction and creation (task.c)\<close>

text \<open>\<^verbatim>\<open>mt_stack_free(&task->stack)\<close>.\<close>

definition free_task_stack :: "tptr \<Rightarrow> mt_state \<Rightarrow> mt_state" where
  "free_task_stack t s =
     upd_task t (\<lambda>k. k\<lparr>stack := snd (mt_stack_free (stack (task_mem s t)))\<rparr>)
       (sys_do (fst (mt_stack_free (stack (task_mem s t)))) s)"

definition mt_task_destroy :: "tptr \<Rightarrow> mt_state \<Rightarrow> mt_state" where
  "mt_task_destroy t s =
     (let s = mt_select_free_task_waiters t s;
          s = (case fd_waiter (task_mem s t) of
                 None \<Rightarrow> s
               | Some w \<Rightarrow>
                   upd_task t (\<lambda>k. k\<lparr>fd_waiter := None, fd_in_timer := False\<rparr>)
                     (mt_fd_free_waiter w (snd (mt_fd_waiter_remove w s))));
          s = mt_task_unregister t s
      in free_task_stack t s)"

text \<open>What the environment decides during a creation.\<close>

record create_env =
  alloc_handle :: "hptr option"
  alloc_task :: "tptr option"
  sys_page :: int
  alloc_stack :: "nat option"
  guard_ok :: bool
  make_ctx_ok :: bool

text \<open>\<^verbatim>\<open>handle->released = 1; mt_handle_free_if_possible(handle)\<close> on the error paths.\<close>

definition drop_handle :: "hptr option \<Rightarrow> mt_state \<Rightarrow> mt_state" where
  "drop_handle h s =
     (case h of
        None \<Rightarrow> s
      | Some h \<Rightarrow>
          mt_handle_free_if_possible h
            (upd_handle h (\<lambda>k. k\<lparr>h_task := None, released := True\<rparr>) s))"

text \<open>The result is the C \<^verbatim>\<open>int\<close>: a negative status or the task's identifier.\<close>

definition mt_create_task_internal ::
  "nat option \<Rightarrow> nat \<Rightarrow> u64 \<Rightarrow> bool \<Rightarrow> create_env \<Rightarrow> mt_state \<Rightarrow> int \<times> hptr option \<times> mt_state" where
  "mt_create_task_internal fn arg stack_size want_handle env s =
     (if fn = None then (rc_code MT_ERR_INVALID, None, s)
      else if want_handle \<and> alloc_handle env = None then (rc_code MT_ERR_NOMEM, None, s)
      else let h = (if want_handle then alloc_handle env else None);
               s = (case h of
                      None \<Rightarrow> s
                    | Some h \<Rightarrow> mt_handle_register h (upd_handle h (\<lambda>_. zero_handle) s))
           in case alloc_task env of
                None \<Rightarrow> (rc_code MT_ERR_NOMEM, None, drop_handle h s)
              | Some t \<Rightarrow>
                  let effective = (if stack_size \<noteq> 0 then stack_size else default_stack_size s);
                      (rc, st, calls) =
                        mt_stack_alloc effective (sys_page env) (alloc_stack env) (guard_ok env);
                      s = sys_do calls s
                  in if rc \<noteq> MT_OK then (rc_code rc, None, drop_handle h s)
                     else let new_id = next_id s;
                              s = s\<lparr>next_id := next_id s + 1\<rparr>;
                              s = upd_task t (\<lambda>_. zero_task\<lparr>task_id := new_id, task_fn := the fn,
                                    task_arg := arg, stack := st, state := MT_TASK_READY,
                                    handle := h\<rparr>) s;
                              s = (case h of
                                     None \<Rightarrow> s
                                   | Some h \<Rightarrow> upd_handle h (\<lambda>k. k\<lparr>h_task := Some t\<rparr>) s)
                          in if \<not> make_ctx_ok env
                             then (rc_code MT_ERR, None, drop_handle h (free_task_stack t s))
                             else let s = mt_runq_push t s;
                                      s = mt_task_register t s;
                                      s = s\<lparr>live_count := live_count s + 1\<rparr>
                                  in (sint new_id, h, s))"

definition mt_go :: "nat option \<Rightarrow> nat \<Rightarrow> init_env \<Rightarrow> create_env \<Rightarrow> mt_state \<Rightarrow> int \<times> mt_state" where
  "mt_go fn arg ienv env s =
     (let (ok, s) = ensure_init ienv s
      in if \<not> ok then (rc_code MT_ERR, s)
         else let (rc, h, s) = mt_create_task_internal fn arg 0 False env s in (rc, s))"

definition mt_go_with_stack ::
  "nat option \<Rightarrow> nat \<Rightarrow> u64 \<Rightarrow> init_env \<Rightarrow> create_env \<Rightarrow> mt_state \<Rightarrow> int \<times> mt_state" where
  "mt_go_with_stack fn arg stack_size ienv env s =
     (let (ok, s) = ensure_init ienv s
      in if \<not> ok then (rc_code MT_ERR, s)
         else let (rc, h, s) = mt_create_task_internal fn arg stack_size False env s in (rc, s))"

definition mt_go_handle_with_stack ::
  "nat option \<Rightarrow> nat \<Rightarrow> u64 \<Rightarrow> init_env \<Rightarrow> create_env \<Rightarrow> mt_state \<Rightarrow> hptr option \<times> mt_state" where
  "mt_go_handle_with_stack fn arg stack_size ienv env s =
     (let (ok, s) = ensure_init ienv s
      in if \<not> ok then (None, s)
         else let (rc, h, s) = mt_create_task_internal fn arg stack_size True env s
              in if rc < 0 then (None, s) else (h, s))"

definition mt_go_handle ::
  "nat option \<Rightarrow> nat \<Rightarrow> init_env \<Rightarrow> create_env \<Rightarrow> mt_state \<Rightarrow> hptr option \<times> mt_state" where
  "mt_go_handle fn arg ienv env s =
     (let (ok, s) = ensure_init ienv s
      in if \<not> ok then (None, s)
         else let (rc, h, s) = mt_create_task_internal fn arg 0 True env s
              in if rc < 0 then (None, s) else (h, s))"

text \<open>The end of \<^verbatim>\<open>mt_task_entry\<close>, after the task's function has returned.\<close>

definition mt_task_entry_finish :: "tptr \<Rightarrow> mt_state \<Rightarrow> mt_state" where
  "mt_task_entry_finish t s = mt_task_mark_dead t s"

section \<open>Join\<close>

definition mt_join :: "tptr option \<Rightarrow> hptr option \<Rightarrow> mt_state \<Rightarrow> outcome \<times> mt_state" where
  "mt_join cur h s =
     (case h of
        None \<Rightarrow> (Return MT_ERR_INVALID, s)
      | Some h \<Rightarrow>
          if completed (handle_mem s h) then (Return (h_join_result (handle_mem s h)), s)
          else case cur of
                 None \<Rightarrow> (Return MT_ERR_STATE, s)
               | Some t \<Rightarrow>
                   if h_task (handle_mem s h) = Some t then (Return MT_ERR_STATE, s)
                   else (Park, join_push h t (mt_task_block_on_join t h s)))"

section \<open>Cancellation\<close>

definition mt_task_cancelled :: "tptr option \<Rightarrow> mt_state \<Rightarrow> bool" where
  "mt_task_cancelled cur s =
     (case cur of
        None \<Rightarrow> False
      | Some t \<Rightarrow>
          (case handle (task_mem s t) of
             None \<Rightarrow> False
           | Some h \<Rightarrow> cancel_requested (handle_mem s h)))"

definition mt_chan_remove_waiter :: "tptr \<Rightarrow> mt_state \<Rightarrow> bool \<times> mt_state" where
  "mt_chan_remove_waiter t s =
     (case chan_wait_ch (task_mem s t) of
        None \<Rightarrow> (False, s)
      | Some c \<Rightarrow>
          let (removed, s) =
                (case chan_wait_kind (task_mem s t) of
                   MT_CHAN_WAIT_SEND \<Rightarrow> chan_send_remove c t s
                 | MT_CHAN_WAIT_RECV \<Rightarrow> chan_recv_remove c t s
                 | MT_CHAN_WAIT_NONE \<Rightarrow> (False, s));
              s = (if removed then dec_channel_waiting s else s)
          in (removed, mt_task_clear_channel_wait t s))"

definition mt_task_wake_for_cancel :: "tptr option \<Rightarrow> mt_state \<Rightarrow> mt_state" where
  "mt_task_wake_for_cancel task s =
     (case task of
        None \<Rightarrow> s
      | Some t \<Rightarrow>
          (case state (task_mem s t) of
             MT_TASK_READY \<Rightarrow>
               let (removed, s) = mt_runq_remove t s
               in if removed
                  then let s = mt_task_mark_dead t s;
                           s = s\<lparr>live_count := live_count s - 1\<rparr>;
                           s = s\<lparr>completed_count := completed_count s + 1\<rparr>;
                           s = (case handle (task_mem s t) of
                                  None \<Rightarrow> s
                                | Some h \<Rightarrow> mt_handle_complete h True s)
                       in mt_task_destroy t s
                  else s
           | MT_TASK_SLEEPING \<Rightarrow>
               let (removed, s) = mt_timer_remove t s
               in if removed then mt_task_mark_ready t s else s
           | MT_TASK_WAITING_CHAN \<Rightarrow>
               let (removed, s) = mt_chan_remove_waiter t s
               in if removed then mt_task_complete_channel_wait t MT_ERR_CANCELLED s else s
           | MT_TASK_WAITING_SELECT \<Rightarrow>
               mt_select_unpark_task t MT_ERR_CANCELLED (select_index (task_mem s t)) s
           | MT_TASK_WAITING_FD \<Rightarrow>
               (case fd_waiter (task_mem s t) of
                  None \<Rightarrow> s
                | Some w \<Rightarrow> mt_fd_ready_waiter w MT_ERR_CANCELLED 0 s)
           | MT_TASK_WAITING_JOIN \<Rightarrow>
               let (removed, s) = mt_handle_remove_joiner (join_waiting_on (task_mem s t)) t s
               in if removed then mt_task_complete_join_wait t MT_ERR_CANCELLED s else s
           | MT_TASK_RUNNING \<Rightarrow> s
           | MT_TASK_DEAD \<Rightarrow> s))"

definition mt_task_cancel :: "hptr option \<Rightarrow> mt_state \<Rightarrow> mt_rc \<times> mt_state" where
  "mt_task_cancel h s =
     (case h of
        None \<Rightarrow> (MT_ERR_INVALID, s)
      | Some h \<Rightarrow>
          let s = upd_handle h (\<lambda>k. k\<lparr>cancel_requested := True\<rparr>) s
          in if completed (handle_mem s h) then (MT_OK, s)
             else let s = upd_handle h (\<lambda>k. k\<lparr>h_status := MT_TASK_STATUS_CANCELLED\<rparr>) s
                  in (MT_OK, mt_task_wake_for_cancel (h_task (handle_mem s h)) s))"

section \<open>Status and release\<close>

definition mt_task_status ::
  "hptr option \<Rightarrow> bool \<Rightarrow> mt_state \<Rightarrow> mt_rc \<times> mt_task_status option" where
  "mt_task_status h has_out s =
     (case h of
        None \<Rightarrow> (MT_ERR_INVALID, None)
      | Some h \<Rightarrow>
          if \<not> has_out then (MT_ERR_INVALID, None)
          else if completed (handle_mem s h) then (MT_OK, Some (h_status (handle_mem s h)))
          else if cancel_requested (handle_mem s h) then (MT_OK, Some MT_TASK_STATUS_CANCELLED)
          else case h_task (handle_mem s h) of
                 Some t \<Rightarrow> (MT_OK, Some (mt_status_from_task (task_mem s t)))
               | None \<Rightarrow> (MT_OK, Some (h_status (handle_mem s h))))"

definition mt_task_handle_release :: "hptr option \<Rightarrow> mt_state \<Rightarrow> mt_state" where
  "mt_task_handle_release h s =
     (case h of
        None \<Rightarrow> s
      | Some h \<Rightarrow> mt_handle_free_if_possible h (upd_handle h (\<lambda>k. k\<lparr>released := True\<rparr>) s))"

end
