(* ===== verification/Poll_Backend.thy ===== *)
theory Poll_Backend
  imports Fd_Wait
begin

text \<open>
  \<^verbatim>\<open>src/io_backend_poll.c\<close>: the portable backend. One \<^verbatim>\<open>poll\<close> call watches the wake pipe and every
  active waiter; the results are delivered entry by entry.

  \<open>revents\<close> lists what \<^verbatim>\<open>poll\<close> stored in the entries, in order; entries beyond its end are zero, and
  the empty list is the outcome of an error or a timeout. \<^verbatim>\<open>alloc_ok\<close> says whether the array of
  entries could be allocated.
\<close>

unbundle bit_operations_syntax

abbreviation POLLIN :: i32 where "POLLIN \<equiv> 1"
abbreviation POLLOUT :: i32 where "POLLOUT \<equiv> 4"
abbreviation POLLERR :: i32 where "POLLERR \<equiv> 8"
abbreviation POLLHUP :: i32 where "POLLHUP \<equiv> 16"
abbreviation POLLNVAL :: i32 where "POLLNVAL \<equiv> 32"

section \<open>Event masks\<close>

definition mt_fd_events_to_poll :: "i32 \<Rightarrow> i32" where
  "mt_fd_events_to_poll events =
     (let p = (if events AND MT_FD_READ \<noteq> 0 then POLLIN else 0)
      in if events AND MT_FD_WRITE \<noteq> 0 then p OR POLLOUT else p)"

definition mt_poll_revents_to_fd_events :: "i32 \<Rightarrow> i32" where
  "mt_poll_revents_to_fd_events revents =
     (let e = (if revents AND (POLLIN OR POLLHUP OR POLLERR) \<noteq> 0 then MT_FD_READ else 0)
      in if revents AND (POLLOUT OR POLLHUP OR POLLERR) \<noteq> 0 then e OR MT_FD_WRITE else e)"

section \<open>Waiting\<close>

text \<open>The descriptors of the array, the wake pipe first.\<close>

definition poll_fds :: "mt_state \<Rightarrow> int list" where
  "poll_fds s = io_wake_read_fd s #
     map (\<lambda>w. fw_fd (fw_mem s w)) (filter (\<lambda>w. fw_state (fw_mem s w) = MT_FD_WAITER_ACTIVE) (fd_waiters s))"

text \<open>
  The loop for an invalid descriptor. Each round takes one waiter out of the active ones, so the
  number of waiters bounds the rounds (\<open>wake_invalid_loop_returns\<close> in the theorems on descriptors).
\<close>

primrec wake_invalid :: "nat \<Rightarrow> int \<Rightarrow> bool \<Rightarrow> mt_state \<Rightarrow> mt_state" where
  "wake_invalid 0 fd gen_ok s = s"
| "wake_invalid (Suc n) fd gen_ok s =
     (case mt_fd_find_waiter fd (MT_FD_READ OR MT_FD_WRITE) gen_ok s of
        (None, s) \<Rightarrow> s
      | (Some w, s) \<Rightarrow> wake_invalid n fd gen_ok (mt_fd_ready_waiter w MT_ERR_INVALID 0 s))"

definition poll_entry :: "int \<Rightarrow> i32 \<Rightarrow> bool \<Rightarrow> mt_state \<Rightarrow> mt_state" where
  "poll_entry fd revents gen_ok s =
     (if revents = 0 then s
      else if fd = io_wake_read_fd s then s
      else if revents AND POLLNVAL \<noteq> 0 then wake_invalid (length (fd_waiters s)) fd gen_ok s
      else let ready_events = mt_poll_revents_to_fd_events revents
           in case mt_fd_find_waiter fd ready_events gen_ok s of
                (None, s) \<Rightarrow> s
              | (Some w, s) \<Rightarrow>
                  let ready = ready_events AND fw_events (fw_mem s w);
                      ready = (if ready = 0 \<and> revents AND (POLLERR OR POLLHUP) \<noteq> 0
                               then fw_events (fw_mem s w) else ready)
                  in mt_fd_ready_waiter w MT_OK ready s)"

fun poll_entries :: "(int \<times> i32) list \<Rightarrow> bool \<Rightarrow> mt_state \<Rightarrow> mt_state" where
  "poll_entries [] gen_ok s = s"
| "poll_entries ((fd, revents) # es) gen_ok s = poll_entries es gen_ok (poll_entry fd revents gen_ok s)"

definition mt_poll_backend_wait_locked :: "bool \<Rightarrow> i32 list \<Rightarrow> bool \<Rightarrow> mt_state \<Rightarrow> mt_state" where
  "mt_poll_backend_wait_locked alloc_ok revents gen_ok s =
     (if \<not> alloc_ok then s else poll_entries (zip (poll_fds s) revents) gen_ok s)"

end
