(* ===== verification/Kqueue_Backend.thy ===== *)
theory Kqueue_Backend
  imports Fd_Wait
begin

text \<open>
  \<^verbatim>\<open>src/io_backend_kqueue.c\<close>: the event loop of the kqueue backend. \<^verbatim>\<open>kevent\<close> reports read and write
  readiness as separate events, so each event is delivered to one waiter; the registration of
  interest is in the theory on descriptor waits.

  An event is the descriptor, the filter and the flags that \<^verbatim>\<open>kevent\<close> filled in. The list is empty
  on error or timeout; the calls interrupted by a signal are repeated by the code and have no effect.
\<close>

unbundle bit_operations_syntax

text \<open>The time limit passed to \<^verbatim>\<open>kevent\<close>, as seconds and nanoseconds; \<open>None\<close> waits for ever.\<close>

definition kqueue_timespec :: "int \<Rightarrow> (int \<times> int) option" where
  "kqueue_timespec timeout_ms =
     (if timeout_ms \<ge> 0 then Some (timeout_ms div 1000, (timeout_ms mod 1000) * 1000000) else None)"

definition kqueue_ready_events :: "kfilter \<Rightarrow> i32 \<Rightarrow> i32" where
  "kqueue_ready_events filt flags =
     (let ready_events = (case filt of EVFILT_READ \<Rightarrow> MT_FD_READ | EVFILT_WRITE \<Rightarrow> MT_FD_WRITE
                          | EVFILT_OTHER \<Rightarrow> 0)
      in if flags AND (EV_EOF OR EV_ERROR) \<noteq> 0 then MT_FD_READ OR MT_FD_WRITE else ready_events)"

definition kqueue_event :: "int \<times> kfilter \<times> i32 \<Rightarrow> bool \<Rightarrow> mt_state \<Rightarrow> mt_state" where
  "kqueue_event e alloc_ok s =
     (case e of (fd, filt, flags) \<Rightarrow>
        if fd = io_wake_read_fd s then s
        else let ready_events = kqueue_ready_events filt flags
             in case mt_fd_find_waiter fd ready_events alloc_ok s of
                  (None, s) \<Rightarrow> s
                | (Some w, s) \<Rightarrow>
                    let ready = ready_events AND fw_events (fw_mem s w);
                        ready = (if ready = 0 then fw_events (fw_mem s w) else ready)
                    in mt_fd_ready_waiter w MT_OK ready s)"

primrec mt_kqueue_backend_wait_locked :: "(int \<times> kfilter \<times> i32) list \<Rightarrow> bool \<Rightarrow> mt_state \<Rightarrow> mt_state" where
  "mt_kqueue_backend_wait_locked [] alloc_ok s = s"
| "mt_kqueue_backend_wait_locked (e # es) alloc_ok s =
     mt_kqueue_backend_wait_locked es alloc_ok (kqueue_event e alloc_ok s)"

text \<open>The two fields never denote more time than was asked for, and lose nothing of it.\<close>

lemma kqueue_timespec_exact:
  assumes "kqueue_timespec timeout_ms = Some (sec, nsec)"
  shows "sec * 1000000000 + nsec = timeout_ms * 1000000" and "0 \<le> nsec" and "nsec < 1000000000"
proof -
  have t: "sec = timeout_ms div 1000" "nsec = (timeout_ms mod 1000) * 1000000"
    using assms by (auto simp: kqueue_timespec_def split: if_splits)
  then show "sec * 1000000000 + nsec = timeout_ms * 1000000"
    using div_mult_mod_eq[of timeout_ms 1000] by linarith
  show "0 \<le> nsec" "nsec < 1000000000" using t(2) by simp_all
qed

end
