(* ===== verification/Scheduler.thy ===== *)
theory Scheduler
  imports Select Task Poll_Backend Kqueue_Backend
begin

text \<open>
  The event side of the epoll backend (\<^verbatim>\<open>src/io_backend_epoll.c\<close>, \<^verbatim>\<open>src/io_backend.c\<close>) and
  \<^verbatim>\<open>src/scheduler.c\<close>: the worker loop, the work done when a task switches back, yielding and
  sleeping.

  The loop body is one definition, \<open>mt_worker_iter\<close>; what the worker does next is its result. The
  events that \<^verbatim>\<open>epoll_wait\<close> delivers and the clock readings are arguments. \<^verbatim>\<open>epoll_wait\<close> runs with
  the mutex released, so the composition below is the run in which no other worker comes between.
\<close>

section \<open>Delivering epoll events\<close>

text \<open>\<^verbatim>\<open>remaining & ~wready\<close> clears at least one bit, so the inner loop ends.\<close>

lemma and_not_less: "remaining AND e \<noteq> 0 \<Longrightarrow> unat (remaining AND NOT (remaining AND e)) < unat (remaining :: i32)"
proof -
  assume e: "remaining AND e \<noteq> 0"
  have "remaining AND NOT (remaining AND e) \<le> remaining" by (rule word_and_le2)
  moreover have "remaining AND NOT (remaining AND e) \<noteq> remaining"
  proof
    assume eq: "remaining AND NOT (remaining AND e) = remaining"
    have "remaining AND e = (remaining AND NOT (remaining AND e)) AND e" by (simp only: eq)
    also have "\<dots> = 0" by (intro bit_word_eqI) (auto simp: bit_simps)
    finally show False using e by simp
  qed
  ultimately show ?thesis by (simp add: word_less_nat_alt[symmetric])
qed

lemma find_waiter_in_event:
  "find_waiter_in fd ready_events alloc_ok ws s = (Some w, s') \<Longrightarrow>
     ready_events AND fw_events (fw_mem s' w) \<noteq> 0"
proof (induction fd ready_events alloc_ok ws s rule: find_waiter_in.induct)
  case (2 fd ready_events alloc_ok w' ws s)
  have m: "fw_mem (snd (mt_fd_generation_current fd alloc_ok s)) = fw_mem s"
    by (simp add: mt_fd_generation_current_def split: option.split)
  from 2 m show ?case
    by (auto simp: Let_def and.commute split: if_splits prod.splits)
qed simp

lemma find_waiter_event:
  "mt_fd_find_waiter fd r alloc_ok s = (Some w, s') \<Longrightarrow> r AND fw_events (fw_mem s' w) \<noteq> 0"
  by (auto simp: mt_fd_find_waiter_def dest: find_waiter_in_event)

text \<open>
  The inner loop for one event. \<^verbatim>\<open>mt_fd_find_waiter\<close> returns a waiter that has one of the
  remaining events, so the branch for an empty intersection is dead code.
\<close>

definition waiter_ready :: "i32 \<Rightarrow> i32 \<Rightarrow> i32 \<Rightarrow> i32" where
  "waiter_ready raw remaining events =
     (let wready = remaining AND events
      in if wready = 0 \<and> raw AND (EPOLLERR OR EPOLLHUP) \<noteq> 0 then events else wready)"

lemma waiter_ready_less:
  "remaining AND events \<noteq> 0 \<Longrightarrow>
    unat (remaining AND NOT (waiter_ready raw remaining events)) < unat remaining"
  using and_not_less[of remaining events] by (simp add: waiter_ready_def Let_def)

function deliver_event :: "int \<Rightarrow> i32 \<Rightarrow> i32 \<Rightarrow> bool \<Rightarrow> mt_state \<Rightarrow> mt_state" where
  "deliver_event fd raw remaining alloc_ok s =
     (if remaining = 0 then s
      else case mt_fd_find_waiter fd remaining alloc_ok s of
             (None, s) \<Rightarrow> s
           | (Some w, s) \<Rightarrow>
               deliver_event fd raw
                 (remaining AND NOT (waiter_ready raw remaining (fw_events (fw_mem s w)))) alloc_ok
                 (mt_fd_ready_waiter w MT_OK (waiter_ready raw remaining (fw_events (fw_mem s w))) s))"
  by pat_completeness auto
termination
  by (relation "measure (\<lambda>(_, _, remaining, _, _). unat remaining)")
    (auto intro!: waiter_ready_less dest!: sym[of "(_, _)"] dest: find_waiter_event)

declare deliver_event.simps [simp del]

abbreviation MT_IO_WAKE_SENTINEL :: int where "MT_IO_WAKE_SENTINEL \<equiv> - 1"

text \<open>
  \<^verbatim>\<open>mt_epoll_backend_wait_locked\<close>: \<open>events\<close> is what \<^verbatim>\<open>epoll_wait\<close> filled in, empty on error or
  timeout. Draining the wake pipe changes nothing of the state.
\<close>

primrec mt_epoll_backend_wait_locked :: "(int \<times> i32) list \<Rightarrow> bool \<Rightarrow> mt_state \<Rightarrow> mt_state" where
  "mt_epoll_backend_wait_locked [] alloc_ok s = s"
| "mt_epoll_backend_wait_locked (e # es) alloc_ok s =
     mt_epoll_backend_wait_locked es alloc_ok
       (if fst e = MT_IO_WAKE_SENTINEL then s
        else deliver_event (fst e) (snd e) (mt_epoll_events_to_fd_events (snd e)) alloc_ok s)"

text \<open>
  What the system reported, for any of the backends: the descriptor, the filter (of kqueue only) and
  the mask or flags. \<^verbatim>\<open>poll\<close> fills in the masks of its own array.
\<close>

type_synonym io_event = "int \<times> kfilter \<times> i32"

definition mt_backend_fd_waiters_locked :: "io_event list \<Rightarrow> bool \<Rightarrow> mt_state \<Rightarrow> mt_state" where
  "mt_backend_fd_waiters_locked events alloc_ok s =
     (if io_backend_kind s = MT_IO_BACKEND_POLL
      then mt_poll_backend_wait_locked alloc_ok (map (snd \<circ> snd) events) alloc_ok s
      else if io_backend_kind s = MT_IO_BACKEND_EPOLL
      then mt_epoll_backend_wait_locked (map (\<lambda>(fd, _, mask). (fd, mask)) events) alloc_ok s
      else if io_backend_kind s = MT_IO_BACKEND_KQUEUE
      then mt_kqueue_backend_wait_locked events alloc_ok s
      else s)"

definition mt_poll_fd_waiters_with_timeout :: "io_event list \<Rightarrow> bool \<Rightarrow> mt_state \<Rightarrow> mt_state" where
  "mt_poll_fd_waiters_with_timeout events alloc_ok s =
     (if fd_waiting_count s = 0 \<and> io_wake_read_fd s < 0 then s
      else if io_polling s then s
      else let s = s\<lparr>io_polling := True\<rparr>;
               s = mt_backend_fd_waiters_locked events alloc_ok s;
               s = s\<lparr>io_polling := False\<rparr>
           in mt_notify_all s)"

definition mt_poll_fd_waiters_once :: "io_event list \<Rightarrow> bool \<Rightarrow> mt_state \<Rightarrow> mt_state" where
  "mt_poll_fd_waiters_once events alloc_ok s =
     (if fd_waiting_count s > 0 then mt_poll_fd_waiters_with_timeout events alloc_ok s else s)"

section \<open>After a task switched back\<close>

definition set_handle_status :: "tptr \<Rightarrow> mt_task_status \<Rightarrow> mt_state \<Rightarrow> mt_state" where
  "set_handle_status t st s =
     (case handle (task_mem s t) of
        None \<Rightarrow> s
      | Some h \<Rightarrow>
          if completed (handle_mem s h) then s
          else upd_handle h (\<lambda>k. k\<lparr>h_status :=
                 (if cancel_requested k then MT_TASK_STATUS_CANCELLED else st)\<rparr>) s)"

definition mt_task_after_switch :: "tptr \<Rightarrow> mt_state \<Rightarrow> mt_state" where
  "mt_task_after_switch t s =
     (let s = s\<lparr>current := None, running_tasks := running_tasks s - 1\<rparr>
      in case state (task_mem s t) of
           MT_TASK_READY \<Rightarrow> mt_runq_push t (set_handle_status t MT_TASK_STATUS_READY s)
         | MT_TASK_SLEEPING \<Rightarrow> set_handle_status t MT_TASK_STATUS_SLEEPING s
         | MT_TASK_WAITING_CHAN \<Rightarrow> set_handle_status t MT_TASK_STATUS_WAITING_CHAN s
         | MT_TASK_WAITING_SELECT \<Rightarrow> set_handle_status t MT_TASK_STATUS_WAITING_SELECT s
         | MT_TASK_WAITING_FD \<Rightarrow> set_handle_status t MT_TASK_STATUS_WAITING_FD s
         | MT_TASK_WAITING_JOIN \<Rightarrow> set_handle_status t MT_TASK_STATUS_WAITING_JOIN s
         | MT_TASK_DEAD \<Rightarrow>
             let s = s\<lparr>live_count := live_count s - 1\<rparr>;
                 s = s\<lparr>completed_count := completed_count s + 1\<rparr>;
                 s = (case handle (task_mem s t) of
                        None \<Rightarrow> s
                      | Some h \<Rightarrow> mt_handle_complete h (cancel_requested (handle_mem s h)) s)
             in mt_task_destroy t s
         | MT_TASK_RUNNING \<Rightarrow>
             mt_notify_all (s\<lparr>run_result := MT_ERR_STATE, stopping := True\<rparr>))"

section \<open>The worker loop\<close>

text \<open>What the loop does after one pass: leave, start over, run a task, or wait first.\<close>

datatype worker_action =
    Exit
  | Run tptr
  | PollFds nat
  | WaitCond
  | WaitTimer u64
  | Again

definition stop_with :: "mt_rc \<Rightarrow> mt_state \<Rightarrow> mt_state" where
  "stop_with rc s = mt_notify_all (s\<lparr>run_result := rc, stopping := True\<rparr>)"

text \<open>The task the worker switches to.\<close>

definition mt_worker_dispatch :: "tptr \<Rightarrow> mt_state \<Rightarrow> mt_state" where
  "mt_worker_dispatch t s =
     (let s = s\<lparr>current := Some t, running_tasks := running_tasks s + 1\<rparr>;
          s = mt_task_mark_running t s
      in set_handle_status t MT_TASK_STATUS_RUNNING s)"

definition poll_timeout :: "tptr option \<Rightarrow> u64 \<Rightarrow> mt_state \<Rightarrow> nat" where
  "poll_timeout next_timer now s =
     (case next_timer of
        None \<Rightarrow> 10
      | Some t \<Rightarrow>
          if wake_ns (task_mem s t) \<le> now then 0
          else let delay_ns = wake_ns (task_mem s t) - now;
                   delay_ms = (delay_ns + MT_NS_PER_MS - 1) div MT_NS_PER_MS
               in if delay_ms < 10 then unat delay_ms else 10)"

text \<open>The part of the body for an empty run queue.\<close>

definition mt_worker_idle :: "bool \<Rightarrow> u64 \<Rightarrow> mt_state \<Rightarrow> worker_action \<times> mt_state" where
  "mt_worker_idle sleep_for_timers now s =
     (if stopping s then (Exit, s)
      else if live_count s = 0 then (Exit, mt_notify_all (s\<lparr>stopping := True\<rparr>))
      else if fd_waiting_count s > 0 then (PollFds (poll_timeout (mt_timer_peek s) now s), s)
      else case mt_timer_peek s of
             None \<Rightarrow>
               if running_tasks s = 0 \<and>
                  (channel_waiting_count s > 0 \<or> join_waiting_count s > 0 \<or> fd_waiting_count s > 0)
               then (Exit, stop_with MT_ERR_STATE s)
               else (WaitCond, s)
           | Some t \<Rightarrow>
               if wake_ns (task_mem s t) > now
               then if \<not> sleep_for_timers then (Exit, stop_with MT_ERR_STATE s)
                    else (WaitTimer (wake_ns (task_mem s t) - now), s)
               else (Again, s))"

definition mt_worker_iter ::
  "bool \<Rightarrow> u64 \<Rightarrow> io_event list \<Rightarrow> bool \<Rightarrow> u64 \<Rightarrow> mt_state \<Rightarrow> worker_action \<times> mt_state" where
  "mt_worker_iter sleep_for_timers now events alloc_ok now_idle s =
     (if stopping s \<and> (run_result s \<noteq> MT_ERR_CANCELLED \<or> runq s = []) then (Exit, s)
      else let s = (if \<not> stopping s
                    then mt_poll_fd_waiters_once events alloc_ok (mt_wake_expired_timers now s)
                    else s);
               (task, s) = mt_runq_pop s
           in case task of
                None \<Rightarrow> mt_worker_idle sleep_for_timers now_idle s
              | Some t \<Rightarrow> (Run t, mt_worker_dispatch t s))"

definition mt_worker_enter :: "mt_state \<Rightarrow> mt_state" where
  "mt_worker_enter s = s\<lparr>active_workers := active_workers s + 1\<rparr>"

definition mt_worker_exit :: "mt_state \<Rightarrow> mt_state" where
  "mt_worker_exit s = s\<lparr>active_workers := active_workers s - 1\<rparr>"

text \<open>
  The absolute time at which \<^verbatim>\<open>mt_cond_timedwait_ns\<close> stops waiting, as seconds and nanoseconds; \<open>now\<close> is
  the reading of \<^verbatim>\<open>CLOCK_REALTIME\<close>.
\<close>

definition mt_cond_timedwait_ns :: "int \<times> u64 \<Rightarrow> u64 \<Rightarrow> int \<times> u64" where
  "mt_cond_timedwait_ns now delay_ns =
     (let nsec = snd now + delay_ns mod 1000000000;
          sec = fst now + uint (delay_ns div 1000000000)
      in if nsec \<ge> 1000000000 then (sec + 1, nsec - 1000000000) else (sec, nsec))"

text \<open>The carry is right: the time is normalised and exactly the delay after \<open>now\<close>.\<close>

lemma cond_timedwait_exact:
  assumes now: "uint (snd now) < 1000000000" and r: "mt_cond_timedwait_ns now delay = (sec, nsec)"
  shows "uint nsec < 1000000000"
    and "sec * 1000000000 + uint nsec = fst now * 1000000000 + uint (snd now) + uint delay"
proof -
  let ?d = "delay div 1000000000" and ?m = "delay mod 1000000000"
  have d: "uint ?d * 1000000000 + uint ?m = uint delay" by (simp add: uint_div uint_mod)
  have m: "uint ?m < 1000000000" by (simp add: uint_mod)
  have "uint (snd now) + uint ?m < 2000000000" using now m by linarith
  then have s: "uint (snd now + ?m) = uint (snd now) + uint ?m" by (subst uint_add_lem[THEN iffD1]) simp_all
  have eq: "sec = fst now + uint ?d + (if 1000000000 \<le> snd now + ?m then 1 else 0)"
    "uint nsec = uint (snd now) + uint ?m - (if 1000000000 \<le> snd now + ?m then 1000000000 else 0)"
    using r s by (auto simp: mt_cond_timedwait_ns_def Let_def uint_sub_if' word_le_def split: if_splits)
  have le: "1000000000 \<le> snd now + ?m \<longleftrightarrow> 1000000000 \<le> uint (snd now) + uint ?m"
    using s by (simp add: word_le_def)
  show "uint nsec < 1000000000" using eq(2) le now m by (auto split: if_splits)
  show "sec * 1000000000 + uint nsec = fst now * 1000000000 + uint (snd now) + uint delay"
    using eq d by (auto split: if_splits)
qed

section \<open>Running\<close>

text \<open>The critical sections of \<^verbatim>\<open>mt_run_internal\<close> before and after the worker loop.\<close>

definition mt_run_begin ::
  "tptr option \<Rightarrow> nat \<Rightarrow> init_env \<Rightarrow> mt_state \<Rightarrow> mt_rc option \<times> mt_state" where
  "mt_run_begin cur workers env s =
     (let (ok, s) = ensure_init env s
      in if \<not> ok then (Some MT_ERR, s)
         else if cur \<noteq> None then (Some MT_ERR_STATE, s)
         else if running s then (Some MT_ERR_STATE, s)
         else (None, s\<lparr>running := True, stopping := False, run_result := MT_OK,
                       worker_count := workers\<rparr>))"

definition mt_run_end :: "mt_state \<Rightarrow> mt_rc \<times> mt_state" where
  "mt_run_end s =
     (run_result s, s\<lparr>worker_threads := 0, running := False, stopping := False\<rparr>)"

text \<open>The number of threads besides the caller, set when their array has been allocated.\<close>

definition mt_run_threads :: "nat \<Rightarrow> mt_state \<Rightarrow> mt_state" where
  "mt_run_threads workers s = s\<lparr>worker_threads := workers - 1\<rparr>"

text \<open>\<^verbatim>\<open>mt_worker_thread_main\<close> when the scheduler context of the thread cannot be set up; otherwise
  it runs the loop.\<close>

definition mt_worker_thread_main_failed :: "mt_state \<Rightarrow> mt_state" where
  "mt_worker_thread_main_failed s = stop_with MT_ERR s"

text \<open>\<^verbatim>\<open>mt_run_internal\<close> when the threads could not be created: \<^verbatim>\<open>calloc\<close> or \<^verbatim>\<open>pthread_create\<close>
  failed, and the threads already started have been joined.\<close>

definition mt_run_no_memory :: "mt_state \<Rightarrow> mt_rc \<times> mt_state" where
  "mt_run_no_memory s = (MT_ERR_NOMEM, s\<lparr>running := False\<rparr>)"

definition mt_run_thread_failed :: "mt_state \<Rightarrow> mt_rc \<times> mt_state" where
  "mt_run_thread_failed s =
     (let s = stop_with MT_ERR s
      in (MT_ERR, s\<lparr>worker_threads := 0, running := False\<rparr>))"

text \<open>The guards of \<^verbatim>\<open>mt_runtime_start\<close>, which then does what \<open>mt_run_begin\<close> starts.\<close>

definition mt_runtime_start ::
  "tptr option \<Rightarrow> nat \<Rightarrow> init_env \<Rightarrow> mt_state \<Rightarrow> mt_rc option \<times> mt_state" where
  "mt_runtime_start cur workers env s =
     (if workers = 0 then (Some MT_ERR_INVALID, s)
      else let (ok, s) = ensure_init env s
           in if \<not> ok then (Some MT_ERR, s)
              else if cur \<noteq> None then (Some MT_ERR_STATE, s)
              else if running s then (Some MT_ERR_STATE, s)
              else mt_run_begin cur workers env s)"

definition mt_runtime_workers :: "mt_state \<Rightarrow> int" where
  "mt_runtime_workers s =
     (if \<not> initialized s then 0
      else let n = (if running s then worker_count s else 0)
           in if n > 2147483647 then 2147483647 else int n)"

section \<open>Yield and sleep\<close>

text \<open>Both end in the switch to the scheduler; \<open>False\<close> when the call returns at once instead.\<close>

definition mt_yield :: "tptr option \<Rightarrow> mt_state \<Rightarrow> bool \<times> mt_state" where
  "mt_yield cur s =
     (case cur of
        None \<Rightarrow> (False, s)
      | Some t \<Rightarrow> (True, upd_task t (\<lambda>k. k\<lparr>state := MT_TASK_READY\<rparr>) s))"

definition mt_sleep_ms :: "tptr option \<Rightarrow> u64 \<Rightarrow> u64 \<Rightarrow> bool \<Rightarrow> mt_state \<Rightarrow> bool \<times> mt_state" where
  "mt_sleep_ms cur ms now_ns timer_ok s =
     (case cur of
        None \<Rightarrow> (False, s)
      | Some t \<Rightarrow>
          if ms = 0 then mt_yield cur s
          else let (rc, s) = mt_timer_push t (deadline_after now_ns ms) timer_ok s
               in if rc \<noteq> MT_OK then (False, s) else (True, s))"

end
