(* ===== verification/Io.thy ===== *)
theory Io
  imports Scheduler
begin

text \<open>
  \<^verbatim>\<open>src/io.c\<close>: descriptors and sockets. System calls are arguments: what \<^verbatim>\<open>fcntl\<close>, \<^verbatim>\<open>poll\<close>, \<^verbatim>\<open>read\<close>,
  \<^verbatim>\<open>write\<close>, \<^verbatim>\<open>accept\<close> and \<^verbatim>\<open>close\<close> returned. A retry after \<^verbatim>\<open>EINTR\<close> inside \<^verbatim>\<open>mt_fd_wait\<close> is not
  visible: the argument is the final outcome of \<^verbatim>\<open>poll\<close>. The thread-local \<^verbatim>\<open>last_os_error\<close> is not
  modelled.

  \<^verbatim>\<open>mt_fd_wait\<close> is two critical sections with the park between them, \<open>mt_fd_wait_begin\<close> and
  \<open>mt_fd_wait_end\<close>; \<^verbatim>\<open>mt_fd_close\<close> likewise, around the system call. The unsupported Windows
  variants are left out.
\<close>

unbundle bit_operations_syntax

datatype errno = EBADF | EINTR | EAGAIN | ERRNO_OTHER

abbreviation O_NONBLOCK :: int where "O_NONBLOCK \<equiv> 2048"

section \<open>Helpers\<close>

definition mt_fd_validate_events :: "i32 \<Rightarrow> bool" where
  "mt_fd_validate_events events \<longleftrightarrow> events \<noteq> 0 \<and> events AND NOT (MT_FD_READ OR MT_FD_WRITE) = 0"

definition mt_deadline_from_timeout :: "u64 \<Rightarrow> u64 \<Rightarrow> u64" where
  "mt_deadline_from_timeout now_ns tmo_ms =
     (let timeout_ns = (if tmo_ms > UINT64_MAX div MT_NS_PER_MS then UINT64_MAX
                        else tmo_ms * MT_NS_PER_MS)
      in if UINT64_MAX - now_ns < timeout_ns then UINT64_MAX else now_ns + timeout_ns)"

definition mt_timeout_left_ms :: "u64 \<Rightarrow> u64 \<Rightarrow> u64" where
  "mt_timeout_left_ms deadline_ns now_ns =
     (if deadline_ns \<le> now_ns then 0
      else let left_ns = deadline_ns - now_ns
           in (left_ns + MT_NS_PER_MS - 1) div MT_NS_PER_MS)"

definition mt_io_error_from_errno :: "bool \<Rightarrow> errno \<Rightarrow> mt_rc" where
  "mt_io_error_from_errno invalid_if_ebadf err =
     (if invalid_if_ebadf \<and> err = EBADF then MT_ERR_INVALID else MT_ERR_IO)"

section \<open>Flags, adoption and release\<close>

text \<open>What the two \<^verbatim>\<open>fcntl\<close> calls return: the flags or an error, and an error of \<^verbatim>\<open>F_SETFL\<close> if any.\<close>

record fcntl_env =
  getfl :: "errno + int"
  setfl_err :: "errno option"

text \<open>The second component of the results is the argument of the \<^verbatim>\<open>F_SETFL\<close> call, if it was made.\<close>

definition make_nonblocking :: "fcntl_env \<Rightarrow> (mt_rc + int) \<times> int option" where
  "make_nonblocking env =
     (case getfl env of
        Inl e \<Rightarrow> (Inl (mt_io_error_from_errno True e), None)
      | Inr flags \<Rightarrow>
          if flags AND O_NONBLOCK \<noteq> 0 then (Inr flags, None)
          else (case setfl_err env of
                  Some e \<Rightarrow> (Inl (mt_io_error_from_errno True e), Some (flags OR O_NONBLOCK))
                | None \<Rightarrow> (Inr flags, Some (flags OR O_NONBLOCK))))"

definition mt_fd_set_nonblocking :: "int \<Rightarrow> fcntl_env \<Rightarrow> mt_rc \<times> int option" where
  "mt_fd_set_nonblocking fd env =
     (if fd < 0 then (MT_ERR_INVALID, None)
      else case make_nonblocking env of
             (Inl rc, c) \<Rightarrow> (rc, c)
           | (Inr flags, c) \<Rightarrow> (MT_OK, c))"

definition mt_fd_adopt ::
  "int \<Rightarrow> fcntl_env \<Rightarrow> bool \<Rightarrow> mt_state \<Rightarrow> mt_rc \<times> int option \<times> mt_state" where
  "mt_fd_adopt fd env alloc_ok s =
     (if fd < 0 then (MT_ERR_INVALID, None, s)
      else case make_nonblocking env of
             (Inl rc, c) \<Rightarrow> (rc, c, s)
           | (Inr flags, c) \<Rightarrow>
               if mt_fd_is_closing fd s then (MT_ERR_CLOSED, c, s)
               else let (gen, s) = mt_fd_generation_current fd alloc_ok s
                    in if gen = 0 then (MT_ERR_NOMEM, c, s)
                       else (MT_OK, c,
                             (case mt_fd_generation_find fd s of
                                None \<Rightarrow> s
                              | Some g \<Rightarrow>
                                  if fg_adopted g then s
                                  else s\<lparr>fd_generations := gen_update fd
                                         (\<lambda>g. g\<lparr>fg_adopted := True, fg_original_flags := flags\<rparr>)
                                         (fd_generations s)\<rparr>)))"

definition mt_fd_release :: "int \<Rightarrow> errno option \<Rightarrow> mt_state \<Rightarrow> mt_rc \<times> int option \<times> mt_state" where
  "mt_fd_release fd err s =
     (if fd < 0 then (MT_ERR_INVALID, None, s)
      else if mt_fd_is_closing fd s \<or> mt_fd_waiter_conflicts fd (MT_FD_READ OR MT_FD_WRITE) s
      then (MT_ERR_STATE, None, s)
      else let restore_flags = (case mt_fd_generation_find fd s of
                 None \<Rightarrow> - 1
               | Some g \<Rightarrow> if fg_adopted g then fg_original_flags g else - 1);
               (_, s) = mt_fd_generation_remove fd s
           in if restore_flags \<ge> 0
              then (case err of
                      Some e \<Rightarrow> (mt_io_error_from_errno True e, Some restore_flags, s)
                    | None \<Rightarrow> (MT_OK, Some restore_flags, s))
              else (MT_OK, None, s))"

definition mt_io_backend_name :: "mt_state \<Rightarrow> string" where
  "mt_io_backend_name s = (if \<not> initialized s then ''none'' else mt_io_backend_name_locked s)"

section \<open>Waiting for a descriptor\<close>

datatype poll_outcome = PollError errno | PollReady i32 | PollNone

record wait_env =
  w_poll :: poll_outcome
  w_alloc :: "fptr option"
  w_gen_ok :: bool
  w_ctl :: ctl_result
  w_now :: u64
  w_timer_ok :: bool

text \<open>A returned status with the events stored through \<^verbatim>\<open>ready_events\<close>, or the waiter to park with.\<close>

datatype wait_outcome = WaitReturn mt_rc i32 | WaitPark fptr

text \<open>The part of the call before the waiter is allocated; \<open>None\<close> when it has to park.\<close>

definition fd_wait_now :: "int \<Rightarrow> i32 \<Rightarrow> u64 \<Rightarrow> poll_outcome \<Rightarrow> mt_state \<Rightarrow> (mt_rc \<times> i32) option" where
  "fd_wait_now fd events tmo_ms p s =
     (if mt_fd_is_closing fd s then Some (MT_ERR_CLOSED, 0)
      else if mt_fd_waiter_conflicts fd events s then Some (MT_ERR_STATE, 0)
      else case p of
             PollError e \<Rightarrow> Some (mt_io_error_from_errno True e, 0)
           | PollReady revents \<Rightarrow>
               let ready = mt_poll_revents_to_fd_events revents AND events
               in if revents AND POLLNVAL \<noteq> 0 then Some (MT_ERR_INVALID, ready)
                  else if ready = 0 \<and> revents AND (POLLERR OR POLLHUP) \<noteq> 0 then Some (MT_OK, events)
                  else Some (MT_OK, ready)
           | PollNone \<Rightarrow> if tmo_ms = 0 then Some (MT_ERR_TIMEOUT, 0) else None)"

definition fd_wait_register ::
  "tptr \<Rightarrow> fptr \<Rightarrow> int \<Rightarrow> i32 \<Rightarrow> bool \<Rightarrow> mt_state \<Rightarrow> mt_state" where
  "fd_wait_register t w fd events gen_ok s =
     (let s = upd_fw w (\<lambda>_. zero_fw\<lparr>fw_task := Some t, fw_fd := fd, fw_events := events\<rparr>) s;
          (gen, s) = mt_fd_generation_current fd gen_ok s;
          s = upd_fw w (\<lambda>k. k\<lparr>fw_generation := gen\<rparr>) s
      in upd_task t (\<lambda>k. k\<lparr>fd_waiter := Some w, fd_result := MT_OK, fd_ready_events := 0,
           fd_in_timer := False\<rparr>) s)"

definition mt_fd_wait_begin ::
  "tptr option \<Rightarrow> int \<Rightarrow> i32 \<Rightarrow> u64 \<Rightarrow> bool \<Rightarrow> wait_env \<Rightarrow> mt_state \<Rightarrow> wait_outcome \<times> mt_state" where
  "mt_fd_wait_begin cur fd events tmo_ms has_out env s =
     (if fd < 0 \<or> \<not> mt_fd_validate_events events \<or> \<not> has_out then (WaitReturn MT_ERR_INVALID 0, s)
      else case cur of
             None \<Rightarrow> (WaitReturn MT_ERR_STATE 0, s)
           | Some t \<Rightarrow>
               (case fd_wait_now fd events tmo_ms (w_poll env) s of
                  Some (rc, ready) \<Rightarrow> (WaitReturn rc ready, s)
                | None \<Rightarrow>
                    (case w_alloc env of
                       None \<Rightarrow> (WaitReturn MT_ERR_NOMEM 0, s)
                     | Some w \<Rightarrow>
                         let s = fd_wait_register t w fd events (w_gen_ok env) s;
                             (add_rc, s) = mt_fd_waiter_add w (w_ctl env) s
                         in if add_rc \<noteq> MT_OK
                            then (WaitReturn add_rc 0,
                                  mt_fd_free_waiter w (upd_task t (\<lambda>k. k\<lparr>fd_waiter := None\<rparr>) s))
                            else let (rc, s) = mt_timer_push_state t
                                       (mt_deadline_from_timeout (w_now env) tmo_ms)
                                       MT_TASK_WAITING_FD (w_timer_ok env) s
                                 in if rc \<noteq> MT_OK
                                    then (WaitReturn MT_ERR_NOMEM 0,
                                          mt_fd_free_waiter w (upd_task t (\<lambda>k. k\<lparr>fd_waiter := None\<rparr>)
                                            (snd (mt_fd_waiter_remove w s))))
                                    else (WaitPark w, upd_task t (\<lambda>k. k\<lparr>fd_in_timer := True\<rparr>) s))))"

definition mt_fd_wait_end :: "tptr \<Rightarrow> fptr \<Rightarrow> mt_state \<Rightarrow> (mt_rc \<times> i32) \<times> mt_state" where
  "mt_fd_wait_end t w s =
     (let rc = fd_result (task_mem s t);
          ready = (if rc = MT_OK then fd_ready_events (task_mem s t) else 0);
          s = (if fd_waiter (task_mem s t) = Some w
               then upd_task t (\<lambda>k. k\<lparr>fd_waiter := None\<rparr>) s else s)
      in ((rc, ready), mt_fd_free_waiter w s))"

definition mt_fd_wait_read :: "tptr option \<Rightarrow> int \<Rightarrow> u64 \<Rightarrow> wait_env \<Rightarrow> mt_state \<Rightarrow> wait_outcome \<times> mt_state" where
  "mt_fd_wait_read cur fd tmo_ms env s = mt_fd_wait_begin cur fd MT_FD_READ tmo_ms True env s"

definition mt_fd_wait_write :: "tptr option \<Rightarrow> int \<Rightarrow> u64 \<Rightarrow> wait_env \<Rightarrow> mt_state \<Rightarrow> wait_outcome \<times> mt_state" where
  "mt_fd_wait_write cur fd tmo_ms env s = mt_fd_wait_begin cur fd MT_FD_WRITE tmo_ms True env s"

section \<open>Close\<close>

definition mt_fd_close_begin :: "int \<Rightarrow> bool \<Rightarrow> bool \<Rightarrow> mt_state \<Rightarrow> mt_rc option \<times> mt_state" where
  "mt_fd_close_begin fd alloc_ok bump_ok s =
     (if fd < 0 then (Some MT_ERR_INVALID, s)
      else if mt_fd_is_closing fd s then (Some MT_ERR_STATE, s)
      else let (rc, s) = mt_fd_set_closing fd True alloc_ok s
           in if rc \<noteq> MT_OK then (Some MT_ERR_NOMEM, s)
              else (None, mt_fd_wake_for_close fd bump_ok s))"

definition mt_fd_close_end :: "int \<Rightarrow> errno option \<Rightarrow> bool \<Rightarrow> mt_state \<Rightarrow> mt_rc \<times> mt_state" where
  "mt_fd_close_end fd err alloc_ok s =
     ((case err of None \<Rightarrow> MT_OK | Some e \<Rightarrow> mt_io_error_from_errno True e),
      snd (mt_fd_set_closing fd False alloc_ok s))"

definition mt_net_close_begin :: "int \<Rightarrow> bool \<Rightarrow> bool \<Rightarrow> mt_state \<Rightarrow> mt_rc option \<times> mt_state" where
  "mt_net_close_begin fd alloc_ok bump_ok s = mt_fd_close_begin fd alloc_ok bump_ok s"

definition mt_net_close_end :: "int \<Rightarrow> errno option \<Rightarrow> bool \<Rightarrow> mt_state \<Rightarrow> mt_rc \<times> mt_state" where
  "mt_net_close_end fd err alloc_ok s = mt_fd_close_end fd err alloc_ok s"

section \<open>Reading and writing\<close>

text \<open>
  One round of a loop: what the system call returned, the clock when the time left is computed, and
  what \<^verbatim>\<open>mt_fd_wait_read\<close> or \<^verbatim>\<open>mt_fd_wait_write\<close> answers when given that time. The loops consume a list of rounds; \<open>None\<close>
  means the call is still running when the list ends.
\<close>

datatype io_result = IoCount nat | IoErrno errno

record io_round =
  io_res :: io_result
  io_now :: u64
  io_wait :: "u64 \<Rightarrow> mt_rc"

definition round_wait :: "u64 \<Rightarrow> io_round \<Rightarrow> mt_rc" where
  "round_wait deadline_ns x = io_wait x (mt_timeout_left_ms deadline_ns (io_now x))"

fun fd_read_loop :: "u64 \<Rightarrow> io_round list \<Rightarrow> int option" where
  "fd_read_loop deadline_ns [] = None"
| "fd_read_loop deadline_ns (x # xs) =
     (case io_res x of
        IoCount n \<Rightarrow> Some (int n)
      | IoErrno e \<Rightarrow>
          if e = EINTR then fd_read_loop deadline_ns xs
          else if e \<noteq> EAGAIN then Some (rc_code (mt_io_error_from_errno True e))
          else if round_wait deadline_ns x \<noteq> MT_OK then Some (rc_code (round_wait deadline_ns x))
          else fd_read_loop deadline_ns xs)"

text \<open>\<open>has_buf\<close> is false for a null buffer.\<close>

definition mt_fd_read ::
  "int \<Rightarrow> bool \<Rightarrow> nat \<Rightarrow> u64 \<Rightarrow> fcntl_env \<Rightarrow> bool \<Rightarrow> u64 \<Rightarrow> io_round list \<Rightarrow> mt_state \<Rightarrow>
     int option \<times> mt_state" where
  "mt_fd_read fd has_buf len tmo_ms env alloc_ok now xs s =
     (if fd < 0 \<or> (\<not> has_buf \<and> len > 0) then (Some (rc_code MT_ERR_INVALID), s)
      else if len = 0 then (Some 0, s)
      else let (rc, _, s) = mt_fd_adopt fd env alloc_ok s
           in if rc \<noteq> MT_OK then (Some (rc_code rc), s) else (fd_read_loop (mt_deadline_from_timeout now tmo_ms) xs, s))"

text \<open>The write loop also returns the bytes the system has accepted, in order.\<close>

fun fd_write_loop :: "u64 \<Rightarrow> byte list \<Rightarrow> nat \<Rightarrow> io_round list \<Rightarrow> byte list \<Rightarrow> int option \<times> byte list" where
  "fd_write_loop deadline_ns buf sent xs out =
     (if sent \<ge> length buf then (Some (int sent), out)
      else case xs of
             [] \<Rightarrow> (None, out)
           | x # xs \<Rightarrow>
               (case io_res x of
                  IoCount n \<Rightarrow> fd_write_loop deadline_ns buf (sent + n) xs (out @ take n (drop sent buf))
                | IoErrno e \<Rightarrow>
                    if e = EINTR then fd_write_loop deadline_ns buf sent xs out
                    else if e \<noteq> EAGAIN
                    then (Some (if sent > 0 then int sent else rc_code (mt_io_error_from_errno True e)), out)
                    else if round_wait deadline_ns x \<noteq> MT_OK
                    then (Some (if sent > 0 then int sent else rc_code (round_wait deadline_ns x)), out)
                    else fd_write_loop deadline_ns buf sent xs out))"

declare fd_write_loop.simps [simp del]

definition mt_fd_write ::
  "int \<Rightarrow> bool \<Rightarrow> byte list \<Rightarrow> u64 \<Rightarrow> fcntl_env \<Rightarrow> bool \<Rightarrow> u64 \<Rightarrow> io_round list \<Rightarrow> mt_state \<Rightarrow>
     (int option \<times> byte list) \<times> mt_state" where
  "mt_fd_write fd has_buf buf tmo_ms env alloc_ok now xs s =
     (if fd < 0 \<or> (\<not> has_buf \<and> buf \<noteq> []) then ((Some (rc_code MT_ERR_INVALID), []), s)
      else if buf = [] then ((Some 0, []), s)
      else let (rc, _, s) = mt_fd_adopt fd env alloc_ok s
           in if rc \<noteq> MT_OK then ((Some (rc_code rc), []), s) else (fd_write_loop (mt_deadline_from_timeout now tmo_ms) buf 0 xs [], s))"

section \<open>Sockets\<close>

text \<open>One address of the list \<^verbatim>\<open>getaddrinfo\<close> returned, with the outcomes of the calls made for it.\<close>

record listen_try =
  sock :: int
  bind_ok :: bool
  listen_ok :: bool
  sock_fcntl :: fcntl_env
  sock_alloc :: bool

text \<open>The result has the descriptor or \<open>None\<close>, and the descriptors that were closed again.\<close>

fun listen_loop :: "listen_try list \<Rightarrow> int list \<Rightarrow> mt_state \<Rightarrow> int option \<times> int list \<times> mt_state" where
  "listen_loop [] closed s = (None, closed, s)"
| "listen_loop (a # as) closed s =
     (if sock a < 0 then listen_loop as closed s
      else if bind_ok a \<and> listen_ok a
      then let (rc, _, s) = mt_fd_adopt (sock a) (sock_fcntl a) (sock_alloc a) s
           in if rc = MT_OK then (Some (sock a), closed, s)
              else listen_loop as (closed @ [sock a]) s
      else listen_loop as (closed @ [sock a]) s)"

definition mt_net_listen_tcp ::
  "bool \<Rightarrow> int \<Rightarrow> listen_try list option \<Rightarrow> mt_state \<Rightarrow> int \<times> int list \<times> mt_state" where
  "mt_net_listen_tcp has_port backlog addrs s =
     (if \<not> has_port \<or> backlog < 0 then (rc_code MT_ERR_INVALID, [], s)
      else case addrs of
             None \<Rightarrow> (rc_code MT_ERR_ADDRINFO, [], s)
           | Some as \<Rightarrow>
               let (r, closed, s) = listen_loop as [] s
               in ((case r of Some fd \<Rightarrow> fd | None \<Rightarrow> rc_code MT_ERR_IO), closed, s))"

text \<open>A round of the accept loop: a descriptor with what adopting it needs, or an error as above.\<close>

datatype accept_result = Accepted int fcntl_env bool | AcceptErr errno

record accept_round =
  acc_res :: accept_result
  acc_now :: u64
  acc_wait :: "u64 \<Rightarrow> mt_rc"

text \<open>The result has the value returned, and the descriptors that were closed again.\<close>

fun accept_loop :: "u64 \<Rightarrow> accept_round list \<Rightarrow> mt_state \<Rightarrow> (int option \<times> int list) \<times> mt_state" where
  "accept_loop deadline_ns [] s = ((None, []), s)"
| "accept_loop deadline_ns (x # xs) s =
     (case acc_res x of
        Accepted fd env alloc_ok \<Rightarrow>
          (let (rc, _, s) = mt_fd_adopt fd env alloc_ok s
           in if rc \<noteq> MT_OK then ((Some (rc_code MT_ERR_IO), [fd]), s) else ((Some fd, []), s))
      | AcceptErr e \<Rightarrow>
          if e = EINTR then accept_loop deadline_ns xs s
          else if e \<noteq> EAGAIN then ((Some (rc_code (mt_io_error_from_errno True e)), []), s)
          else let wait = acc_wait x (mt_timeout_left_ms deadline_ns (acc_now x))
               in if wait \<noteq> MT_OK then ((Some (rc_code wait), []), s)
                  else accept_loop deadline_ns xs s)"

definition mt_net_accept ::
  "int \<Rightarrow> u64 \<Rightarrow> fcntl_env \<Rightarrow> bool \<Rightarrow> u64 \<Rightarrow> accept_round list \<Rightarrow> mt_state \<Rightarrow>
     (int option \<times> int list) \<times> mt_state" where
  "mt_net_accept listen_fd tmo_ms env alloc_ok now xs s =
     (if listen_fd < 0 then ((Some (rc_code MT_ERR_INVALID), []), s)
      else let (rc, _, s) = mt_fd_adopt listen_fd env alloc_ok s
           in if rc \<noteq> MT_OK then ((Some (rc_code rc), []), s)
              else accept_loop (mt_deadline_from_timeout now tmo_ms) xs s)"

definition mt_net_read ::
  "int \<Rightarrow> bool \<Rightarrow> nat \<Rightarrow> u64 \<Rightarrow> fcntl_env \<Rightarrow> bool \<Rightarrow> u64 \<Rightarrow> io_round list \<Rightarrow> mt_state \<Rightarrow>
     int option \<times> mt_state" where
  "mt_net_read = mt_fd_read"

text \<open>The same loop as \<^verbatim>\<open>mt_fd_write\<close>, with \<^verbatim>\<open>send\<close> in place of \<^verbatim>\<open>write\<close>.\<close>

definition mt_net_write ::
  "int \<Rightarrow> bool \<Rightarrow> byte list \<Rightarrow> u64 \<Rightarrow> fcntl_env \<Rightarrow> bool \<Rightarrow> u64 \<Rightarrow> io_round list \<Rightarrow> mt_state \<Rightarrow>
     (int option \<times> byte list) \<times> mt_state" where
  "mt_net_write fd has_buf buf tmo_ms env alloc_ok now xs s =
     (if fd < 0 \<or> (\<not> has_buf \<and> buf \<noteq> []) then ((Some (rc_code MT_ERR_INVALID), []), s)
      else if buf = [] then ((Some 0, []), s)
      else let (rc, _, s) = mt_fd_adopt fd env alloc_ok s
           in if rc \<noteq> MT_OK then ((Some (rc_code rc), []), s) else (fd_write_loop (mt_deadline_from_timeout now tmo_ms) buf 0 xs [], s))"

end
