(* ===== verification/Lifecycle.thy ===== *)
theory Lifecycle
  imports Scheduler
begin

text \<open>
  \<^verbatim>\<open>mt_shutdown\<close> (\<^verbatim>\<open>src/runtime_lifecycle.c\<close>): while the scheduler runs it only asks it to stop;
  otherwise it tears the runtime down.
\<close>

section \<open>Operations\<close>

definition reset_channel :: "mt_chan \<Rightarrow> mt_chan" where
  "reset_channel ch = ch\<lparr>ch_closed := True, send_q := [], recv_q := [], send_waiters := 0,
     recv_waiters := 0, select_send_q := [], select_recv_q := [], select_send_waiters := 0,
     select_recv_waiters := 0\<rparr>"

definition reset_handle :: "mt_task_handle \<Rightarrow> mt_task_handle" where
  "reset_handle h = h\<lparr>cancel_requested := True, completed := True,
     h_status := MT_TASK_STATUS_CANCELLED, h_join_result := MT_ERR_CANCELLED, h_task := None,
     join_q := [], join_waiters := 0\<rparr>"

primrec reset_channels :: "cptr list \<Rightarrow> mt_state \<Rightarrow> mt_state" where
  "reset_channels [] s = s"
| "reset_channels (c # cs) s = reset_channels cs (upd_chan c reset_channel s)"

primrec reset_handles :: "hptr list \<Rightarrow> mt_state \<Rightarrow> mt_state" where
  "reset_handles [] s = s"
| "reset_handles (h # hs) s = reset_handles hs (upd_handle h reset_handle s)"

definition shutdown_task :: "tptr \<Rightarrow> mt_state \<Rightarrow> mt_state" where
  "shutdown_task t s =
     (let s = mt_select_free_task_waiters t s;
          s = (case fd_waiter (task_mem s t) of
                 None \<Rightarrow> s
               | Some w \<Rightarrow> upd_task t (\<lambda>k. k\<lparr>fd_waiter := None\<rparr>)
                              (mt_fd_free_waiter w (snd (mt_fd_waiter_remove w s))));
          s = s\<lparr>live_count := live_count s - 1\<rparr>
      in mt_task_destroy t s)"

lemma free_task_waiters_all_tasks [simp]:
  "all_tasks (mt_select_free_task_waiters t s) = all_tasks s"
  using free_waiters_shape[of "select_waiters (task_mem s t)" s]
  by (auto simp: mt_select_free_task_waiters_def)

lemma backend_remove_all_tasks [simp]: "all_tasks (mt_io_backend_remove w s) = all_tasks s"
  by (simp add: backend_remove_defs Let_def)

lemma deactivate_all_tasks [simp]: "all_tasks (snd (mt_fd_waiter_deactivate w b s)) = all_tasks s"
  by (simp add: mt_fd_waiter_deactivate_def Let_def mt_fd_waiter_set_state_def
      mt_fd_waiter_unlink_def)

lemma all_tasks_destroy [simp]: "all_tasks (mt_task_destroy t s) = remove1 t (all_tasks s)"
  by (simp add: mt_task_destroy_def free_task_stack_def Let_def mt_fd_free_waiter_def mt_fd_waiter_remove_def
      split: option.split)

lemma all_tasks_shutdown_task [simp]: "all_tasks (shutdown_task t s) = remove1 t (all_tasks s)"
  by (simp add: shutdown_task_def Let_def mt_fd_free_waiter_def mt_fd_waiter_remove_def
      split: option.split)

function shutdown_tasks :: "mt_state \<Rightarrow> mt_state" where
  "shutdown_tasks s =
     (case all_tasks s of [] \<Rightarrow> s | t # _ \<Rightarrow> shutdown_tasks (shutdown_task t s))"
  by pat_completeness auto
termination
  by (relation "measure (\<lambda>s. length (all_tasks s))") auto

declare shutdown_tasks.simps [simp del]

definition mt_shutdown :: "tptr option \<Rightarrow> mt_state \<Rightarrow> mt_state" where
  "mt_shutdown cur s =
     (if cur \<noteq> None then s
      else if \<not> initialized s then s
      else if running s
      then mt_notify_all (mt_fd_wake_all MT_ERR_CANCELLED
             (s\<lparr>stopping := True, run_result := MT_ERR_CANCELLED\<rparr>))
      else let s = reset_channels (channels s) s;
               s = reset_handles (handles s) s;
               s = shutdown_tasks s;
               s = s\<lparr>runq := [], runnable_count := 0, timers := (timers s)\<lparr>items := [], cap := 0\<rparr>,
                     channel_waiting_count := 0, join_waiting_count := 0, fd_waiting_count := 0\<rparr>;
               s = mt_io_backend_shutdown s;
               s = sys_do [SysRelease SchedulerContext, SysRelease RuntimeCond, SysRelease RuntimeMutex] s
           in clear_runtime s)"

end
