(* ===== verification/Invariant.thy ===== *)
theory Invariant
  imports Lifecycle
begin

text \<open>
  The runtime invariant: every live task sits in exactly the queue its state calls for, and every
  queue holds only such tasks. \<open>wf X s\<close> exempts the tasks in \<open>X\<close>, which are in no queue: the tasks
  an operation has taken out of one queue and not yet put into another. Between operations the
  exempt set is empty, and a running task can be exempted at will.
\<close>

section \<open>Definition\<close>

definition live :: "tptr set \<Rightarrow> mt_state \<Rightarrow> tptr \<Rightarrow> bool" where
  "live X s t \<longleftrightarrow> t \<in> set (all_tasks s) \<and> t \<notin> X"

definition timed :: "mt_task \<Rightarrow> bool" where
  "timed k \<longleftrightarrow> state k = MT_TASK_SLEEPING \<or> (state k = MT_TASK_WAITING_SELECT \<and> select_in_timer k) \<or>
     (state k = MT_TASK_WAITING_FD \<and> fd_in_timer k)"

definition waits_send :: "cptr \<Rightarrow> mt_task \<Rightarrow> bool" where
  "waits_send c k \<longleftrightarrow> state k = MT_TASK_WAITING_CHAN \<and> chan_wait_ch k = Some c \<and>
     chan_wait_kind k = MT_CHAN_WAIT_SEND"

definition waits_recv :: "cptr \<Rightarrow> mt_task \<Rightarrow> bool" where
  "waits_recv c k \<longleftrightarrow> state k = MT_TASK_WAITING_CHAN \<and> chan_wait_ch k = Some c \<and>
     chan_wait_kind k = MT_CHAN_WAIT_RECV"

definition waits_join :: "hptr \<Rightarrow> mt_task \<Rightarrow> bool" where
  "waits_join h k \<longleftrightarrow> state k = MT_TASK_WAITING_JOIN \<and> join_waiting_on k = Some h"

definition wf_runq :: "tptr set \<Rightarrow> mt_state \<Rightarrow> bool" where
  "wf_runq X s \<longleftrightarrow> runq_rep s (runq s) \<and>
     (\<forall>t. t \<in> set (runq s) \<longleftrightarrow> live X s t \<and> state (task_mem s t) = MT_TASK_READY)"

definition wf_timers :: "tptr set \<Rightarrow> mt_state \<Rightarrow> bool" where
  "wf_timers X s \<longleftrightarrow> timers_ok s \<and>
     (\<forall>t. t \<in> set (items (timers s)) \<longleftrightarrow> live X s t \<and> timed (task_mem s t))"

definition wf_send :: "tptr set \<Rightarrow> mt_state \<Rightarrow> bool" where
  "wf_send X s \<longleftrightarrow> (\<forall>c. waitq_rep (send_q (chan_mem s c), send_waiters (chan_mem s c))
       (send_q (chan_mem s c)) \<and>
     (\<forall>t. t \<in> set (send_q (chan_mem s c)) \<longleftrightarrow> live X s t \<and> waits_send c (task_mem s t)))"

definition wf_recv :: "tptr set \<Rightarrow> mt_state \<Rightarrow> bool" where
  "wf_recv X s \<longleftrightarrow> (\<forall>c. waitq_rep (recv_q (chan_mem s c), recv_waiters (chan_mem s c))
       (recv_q (chan_mem s c)) \<and>
     (\<forall>t. t \<in> set (recv_q (chan_mem s c)) \<longleftrightarrow> live X s t \<and> waits_recv c (task_mem s t)))"

text \<open>An address that is not a registered channel has nobody waiting.\<close>

definition wf_chans :: "mt_state \<Rightarrow> bool" where
  "wf_chans s \<longleftrightarrow> distinct (channels s) \<and>
     (\<forall>c. c \<notin> set (channels s) \<longrightarrow> send_q (chan_mem s c) = [] \<and> recv_q (chan_mem s c) = [] \<and>
        select_send_q (chan_mem s c) = [] \<and> select_recv_q (chan_mem s c) = [])"

definition wf_joins :: "tptr set \<Rightarrow> mt_state \<Rightarrow> bool" where
  "wf_joins X s \<longleftrightarrow> (\<forall>h. waitq_rep (join_q (handle_mem s h), join_waiters (handle_mem s h))
       (join_q (handle_mem s h)) \<and>
     (\<forall>t. t \<in> set (join_q (handle_mem s h)) \<longleftrightarrow> live X s t \<and> waits_join h (task_mem s t)))"

definition wf_select :: "tptr set \<Rightarrow> mt_state \<Rightarrow> bool" where
  "wf_select X s \<longleftrightarrow> select_ok s \<and>
     (\<forall>w. sw_active (sw_mem s w) \<longrightarrow> sw_task (sw_mem s w) \<noteq> None) \<and>
     (\<forall>w t. sw_active (sw_mem s w) \<and> sw_task (sw_mem s w) = Some t \<longrightarrow>
        t \<in> set (all_tasks s) \<and> w \<in> set (select_waiters (task_mem s t))) \<and>
     (\<forall>t \<in> set (all_tasks s). \<forall>w \<in> set (select_waiters (task_mem s t)).
        sw_active (sw_mem s w) \<and> sw_task (sw_mem s w) = Some t) \<and>
     (\<forall>t. live X s t \<and> state (task_mem s t) \<noteq> MT_TASK_WAITING_SELECT \<longrightarrow>
        select_waiters (task_mem s t) = [])"

definition wf_fds :: "tptr set \<Rightarrow> mt_state \<Rightarrow> bool" where
  "wf_fds X s \<longleftrightarrow> distinct (fd_waiters s) \<and>
     fd_waiting_count s = length (filter (\<lambda>w. mt_fd_waiter_is_active (fw_mem s w)) (fd_waiters s)) \<and>
     (\<forall>w \<in> set (fd_waiters s). fw_task (fw_mem s w) \<noteq> None \<and>
        mt_fd_waiter_reserves_conflict (fw_mem s w)) \<and>
     (\<forall>w \<in> set (fd_waiters s). \<forall>t. fw_task (fw_mem s w) = Some t \<longrightarrow>
        t \<in> set (all_tasks s) \<and> fd_waiter (task_mem s t) = Some w \<and>
        (t \<in> X \<or> (mt_fd_waiter_is_active (fw_mem s w) \<longleftrightarrow> state (task_mem s t) = MT_TASK_WAITING_FD))) \<and>
     (\<forall>t \<in> set (all_tasks s). \<forall>w. fd_waiter (task_mem s t) = Some w \<longrightarrow>
        w \<in> set (fd_waiters s) \<and> fw_task (fw_mem s w) = Some t) \<and>
     (\<forall>t. live X s t \<and> state (task_mem s t) = MT_TASK_WAITING_FD \<longrightarrow> fd_waiter (task_mem s t) \<noteq> None)"

definition wf_handles :: "mt_state \<Rightarrow> bool" where
  "wf_handles s \<longleftrightarrow> distinct (handles s) \<and>
     (\<forall>t \<in> set (all_tasks s). state (task_mem s t) \<noteq> MT_TASK_DEAD \<longrightarrow>
        (\<forall>h. handle (task_mem s t) = Some h \<longrightarrow>
           h \<in> set (handles s) \<and> h_task (handle_mem s h) = Some t)) \<and>
     (\<forall>h \<in> set (handles s). \<forall>t. h_task (handle_mem s h) = Some t \<longrightarrow>
        t \<in> set (all_tasks s) \<and> handle (task_mem s t) = Some h \<and> \<not> completed (handle_mem s h)) \<and>
     (\<forall>h. join_q (handle_mem s h) \<noteq> [] \<longrightarrow>
        h \<in> set (handles s) \<and> \<not> completed (handle_mem s h))"

text \<open>
  A waiting task names what it waits for, so that it is in a queue: nobody waits in vain. A dead
  task stays registered only until the operation that retires it has destroyed it.
\<close>

definition parked_ok :: "mt_task \<Rightarrow> bool" where
  "parked_ok k \<longleftrightarrow>
     (state k = MT_TASK_WAITING_CHAN \<longrightarrow> chan_wait_ch k \<noteq> None \<and> chan_wait_kind k \<noteq> MT_CHAN_WAIT_NONE) \<and>
     (state k = MT_TASK_WAITING_JOIN \<longrightarrow> join_waiting_on k \<noteq> None) \<and>
     (state k = MT_TASK_WAITING_SELECT \<longrightarrow> select_waiters k \<noteq> [] \<or> select_in_timer k)"

definition wf_live :: "tptr set \<Rightarrow> mt_state \<Rightarrow> bool" where
  "wf_live X s \<longleftrightarrow> distinct (all_tasks s) \<and>
     live_count s = length (filter (\<lambda>t. state (task_mem s t) \<noteq> MT_TASK_DEAD) (all_tasks s)) \<and>
     (\<forall>t. live X s t \<longrightarrow> state (task_mem s t) \<noteq> MT_TASK_DEAD \<and> parked_ok (task_mem s t))"

definition wf :: "tptr set \<Rightarrow> mt_state \<Rightarrow> bool" where
  "wf X s \<longleftrightarrow> wf_runq X s \<and> wf_timers X s \<and> wf_send X s \<and> wf_recv X s \<and> wf_chans s \<and>
     wf_joins X s \<and> wf_select X s \<and> wf_fds X s \<and> wf_handles s \<and> wf_live X s"

lemmas wf_parts = wf_runq_def wf_timers_def wf_send_def wf_recv_def wf_chans_def wf_joins_def
  wf_select_def wf_fds_def wf_handles_def wf_live_def
lemmas wf_waits = timed_def waits_send_def waits_recv_def waits_join_def

lemma parked_ok_simps [simp]:
  "state k = MT_TASK_READY \<Longrightarrow> parked_ok k" "state k = MT_TASK_RUNNING \<Longrightarrow> parked_ok k"
  "state k = MT_TASK_SLEEPING \<Longrightarrow> parked_ok k" "state k = MT_TASK_WAITING_FD \<Longrightarrow> parked_ok k"
  "state k = MT_TASK_DEAD \<Longrightarrow> parked_ok k"
  by (simp_all add: parked_ok_def)

lemma wfI:
  "wf_runq X s \<Longrightarrow> wf_timers X s \<Longrightarrow> wf_send X s \<Longrightarrow> wf_recv X s \<Longrightarrow> wf_chans s \<Longrightarrow> wf_joins X s \<Longrightarrow>
    wf_select X s \<Longrightarrow> wf_fds X s \<Longrightarrow> wf_handles s \<Longrightarrow> wf_live X s \<Longrightarrow> wf X s"
  by (simp add: wf_def)

lemma wfD:
  assumes "wf X s"
  shows "wf_runq X s" "wf_timers X s" "wf_send X s" "wf_recv X s" "wf_chans s" "wf_joins X s"
    "wf_select X s" "wf_fds X s" "wf_handles s" "wf_live X s"
  using assms by (simp_all add: wf_def)

section \<open>Fields the invariant does not read\<close>

text \<open>Two states that agree on what the invariant reads satisfy it together.\<close>

lemma select_ok_cong:
  "chan_mem s' = chan_mem s \<Longrightarrow> sw_mem s' = sw_mem s \<Longrightarrow> select_ok s' = select_ok s"
  by (simp add: select_ok_def select_chan_ok_def linked_send_def linked_recv_def)

lemma wf_cong:
  assumes "runq s' = runq s" "runnable_count s' = runnable_count s" "all_tasks s' = all_tasks s"
    "task_mem s' = task_mem s" "timers s' = timers s" "chan_mem s' = chan_mem s"
    "channels s' = channels s" "handle_mem s' = handle_mem s" "handles s' = handles s"
    "sw_mem s' = sw_mem s" "fw_mem s' = fw_mem s" "fd_waiters s' = fd_waiters s"
    "fd_waiting_count s' = fd_waiting_count s" "live_count s' = live_count s"
  shows "wf X s' = wf X s"
proof -
  have "timers_ok s' = timers_ok s" using assms by (intro timers_ok_cong) simp_all
  moreover have "select_ok s' = select_ok s" using assms by (intro select_ok_cong)
  ultimately show ?thesis
    using assms by (simp add: wf_def wf_parts live_def runq_rep_def)
qed

lemma wf_irrelevant [simp]:
  "wf X (s\<lparr>user_mem := um\<rparr>) = wf X s"
  "wf X (s\<lparr>channel_waiting_count := n\<rparr>) = wf X s"
  "wf X (s\<lparr>join_waiting_count := n\<rparr>) = wf X s"
  "wf X (s\<lparr>current := cu\<rparr>) = wf X s"
  "wf X (s\<lparr>running_tasks := n\<rparr>) = wf X s"
  "wf X (s\<lparr>completed_count := n\<rparr>) = wf X s"
  "wf X (s\<lparr>run_result := rc\<rparr>) = wf X s"
  "wf X (s\<lparr>stopping := b\<rparr>) = wf X s"
  "wf X (s\<lparr>running := b\<rparr>) = wf X s"
  "wf X (s\<lparr>worker_count := n\<rparr>) = wf X s"
  "wf X (s\<lparr>worker_threads := n\<rparr>) = wf X s"
  "wf X (s\<lparr>active_workers := n\<rparr>) = wf X s"
  "wf X (s\<lparr>next_id := i\<rparr>) = wf X s"
  "wf X (s\<lparr>io_polling := b\<rparr>) = wf X s"
  "wf X (s\<lparr>backend_calls := cs\<rparr>) = wf X s"
  "wf X (s\<lparr>sys_calls := ds\<rparr>) = wf X s"
  "wf X (s\<lparr>fd_generations := gs\<rparr>) = wf X s"
  "wf X (mt_notify_one s) = wf X s"
  "wf X (mt_notify_all s) = wf X s"
  by (rule wf_cong; simp)+

text \<open>
  The descriptor part when only tasks change: a task outside the new exempt set either kept its
  relation to its waiter, or does not wait for a descriptor and has no active waiter.
\<close>

lemma wf_fds_step:
  assumes "wf_fds X s"
    and "fd_waiters s' = fd_waiters s" "fw_mem s' = fw_mem s" "fd_waiting_count s' = fd_waiting_count s"
    and "all_tasks s' = all_tasks s"
    and fw: "\<And>u. fd_waiter (task_mem s' u) = fd_waiter (task_mem s u)"
    and st: "\<And>u. u \<in> set (all_tasks s) \<Longrightarrow> u \<notin> X' \<Longrightarrow>
      u \<notin> X \<and> (state (task_mem s' u) = MT_TASK_WAITING_FD \<longleftrightarrow> state (task_mem s u) = MT_TASK_WAITING_FD) \<or>
      state (task_mem s' u) \<noteq> MT_TASK_WAITING_FD \<and>
        (\<forall>w. fd_waiter (task_mem s u) = Some w \<longrightarrow> \<not> mt_fd_waiter_is_active (fw_mem s w)) \<or>
      state (task_mem s' u) = MT_TASK_WAITING_FD \<and>
        (\<exists>w. fd_waiter (task_mem s u) = Some w \<and> mt_fd_waiter_is_active (fw_mem s w))"
  shows "wf_fds X' s'"
  unfolding wf_fds_def assms(2-5) fw live_def
proof (intro conjI ballI allI impI)
  note W = assms(1)[unfolded wf_fds_def live_def]
  show "distinct (fd_waiters s)" "fd_waiting_count s =
      length (filter (\<lambda>w. mt_fd_waiter_is_active (fw_mem s w)) (fd_waiters s))"
    using W by blast+
  fix w assume w: "w \<in> set (fd_waiters s)"
  then show "fw_task (fw_mem s w) \<noteq> None" "mt_fd_waiter_reserves_conflict (fw_mem s w)"
    using W by blast+
  fix t assume t: "fw_task (fw_mem s w) = Some t"
  show a: "t \<in> set (all_tasks s)" and fdw: "fd_waiter (task_mem s t) = Some w" using W w t by blast+
  show "t \<in> X' \<or> mt_fd_waiter_is_active (fw_mem s w) =
      (state (task_mem s' t) = MT_TASK_WAITING_FD)"
    using st[OF a] W w t fdw by (metis option.inject)
next
  fix t w assume "t \<in> set (all_tasks s)" "fd_waiter (task_mem s t) = Some w"
  then show "w \<in> set (fd_waiters s)" "fw_task (fw_mem s w) = Some t"
    using assms(1)[unfolded wf_fds_def] by blast+
next
  fix t assume "(t \<in> set (all_tasks s) \<and> t \<notin> X') \<and> state (task_mem s' t) = MT_TASK_WAITING_FD"
  then show "fd_waiter (task_mem s t) \<noteq> None"
    using st[of t] assms(1)[unfolded wf_fds_def live_def] by (metis option.discI)
qed

lemma wf_select_step:
  assumes "wf_select X s" and "select_ok s'" and "sw_mem s' = sw_mem s"
    and "all_tasks s' = all_tasks s"
    and sw: "\<And>u. select_waiters (task_mem s' u) = select_waiters (task_mem s u)"
    and st: "\<And>u. u \<in> set (all_tasks s) \<Longrightarrow> u \<notin> X' \<Longrightarrow>
      u \<notin> X \<and> (state (task_mem s' u) = MT_TASK_WAITING_SELECT \<longleftrightarrow>
                state (task_mem s u) = MT_TASK_WAITING_SELECT) \<or>
      state (task_mem s' u) = MT_TASK_WAITING_SELECT \<or> select_waiters (task_mem s u) = []"
  shows "wf_select X' s'"
  unfolding wf_select_def assms(3,4) sw live_def
  using assms(1)[unfolded wf_select_def live_def] assms(2) st by blast

lemma wf_handles_step:
  assumes "wf_handles s" and "handles s' = handles s" "handle_mem s' = handle_mem s"
    and "all_tasks s' = all_tasks s"
    and h: "\<And>u. handle (task_mem s' u) = handle (task_mem s u)"
    and st: "\<And>u. u \<in> set (all_tasks s) \<Longrightarrow> state (task_mem s' u) \<noteq> MT_TASK_DEAD \<Longrightarrow>
      state (task_mem s u) \<noteq> MT_TASK_DEAD"
  shows "wf_handles s'"
  unfolding wf_handles_def assms(2-4) h using assms(1)[unfolded wf_handles_def] st by blast

lemma wf_chans_step:
  "wf_chans s \<Longrightarrow> channels s' = channels s \<Longrightarrow> chan_mem s' = chan_mem s \<Longrightarrow> wf_chans s'"
  by (simp add: wf_chans_def)

lemma wf_live_step:
  assumes "wf_live X s" and "all_tasks s' = all_tasks s" and "live_count s' = live_count s"
    and st: "\<And>u. u \<in> set (all_tasks s) \<Longrightarrow>
      (state (task_mem s' u) = MT_TASK_DEAD) = (state (task_mem s u) = MT_TASK_DEAD)"
    and ex: "\<And>u. u \<in> set (all_tasks s) \<Longrightarrow> u \<notin> X' \<Longrightarrow>
      u \<notin> X \<and> parked_ok (task_mem s' u) = parked_ok (task_mem s u) \<or>
      state (task_mem s u) \<noteq> MT_TASK_DEAD \<and> parked_ok (task_mem s' u)"
  shows "wf_live X' s'"
proof -
  have "filter (\<lambda>t. state (task_mem s' t) \<noteq> MT_TASK_DEAD) (all_tasks s) =
      filter (\<lambda>t. state (task_mem s t) \<noteq> MT_TASK_DEAD) (all_tasks s)"
    by (rule filter_cong) (simp_all add: st)
  then show ?thesis
    using assms(1) ex st unfolding wf_live_def assms(2,3) live_def by metis
qed

section \<open>Moves of one task\<close>

text \<open>An exempt task that can be put back into a queue.\<close>

definition detached :: "tptr set \<Rightarrow> mt_state \<Rightarrow> tptr \<Rightarrow> bool" where
  "detached X s t \<longleftrightarrow> t \<in> X \<and> t \<in> set (all_tasks s) \<and> select_waiters (task_mem s t) = [] \<and>
     state (task_mem s t) \<noteq> MT_TASK_DEAD \<and>
     (\<forall>w. fd_waiter (task_mem s t) = Some w \<longrightarrow> \<not> mt_fd_waiter_is_active (fw_mem s w))"

lemma no_active_fd:
  assumes "wf X s" "live X s t" "state (task_mem s t) \<noteq> MT_TASK_WAITING_FD"
    "fd_waiter (task_mem s t) = Some w"
  shows "\<not> mt_fd_waiter_is_active (fw_mem s w)"
  using wfD(8)[OF assms(1), unfolded wf_fds_def] assms(2-4) by (metis live_def)

lemma no_waiters:
  "wf X s \<Longrightarrow> live X s t \<Longrightarrow> state (task_mem s t) \<noteq> MT_TASK_WAITING_SELECT \<Longrightarrow>
    select_waiters (task_mem s t) = []"
  using wfD(7) by (simp add: wf_select_def)

lemma detachedI:
  assumes "wf X s" "live X s t" "state (task_mem s t) \<noteq> MT_TASK_WAITING_FD"
    "state (task_mem s t) \<noteq> MT_TASK_WAITING_SELECT" "state (task_mem s t) \<noteq> MT_TASK_DEAD"
    "all_tasks s' = all_tasks s" "task_mem s' = task_mem s" "fw_mem s' = fw_mem s"
  shows "detached (insert t X) s' t"
  using assms no_active_fd[OF assms(1-3)] no_waiters[OF assms(1,2,4)]
  by (simp add: detached_def live_def)

lemma detached_upd_task:
  "detached X s t \<Longrightarrow> fd_waiter (f (task_mem s t)) = fd_waiter (task_mem s t) \<Longrightarrow>
   select_waiters (f (task_mem s t)) = select_waiters (task_mem s t) \<Longrightarrow>
   state (f (task_mem s t)) \<noteq> MT_TASK_DEAD \<Longrightarrow> detached X (upd_task t f s) t"
  by (simp add: detached_def)

lemma detached_cong:
  "all_tasks s' = all_tasks s \<Longrightarrow> task_mem s' t = task_mem s t \<Longrightarrow> fw_mem s' = fw_mem s \<Longrightarrow>
    detached X s' t = detached X s t"
  by (simp add: detached_def)

subsection \<open>A running task, and writes to an exempt task\<close>

lemma wf_detach:
  assumes "wf X s" and "state (task_mem s t) \<noteq> MT_TASK_READY" and "\<not> timed (task_mem s t)"
    and "state (task_mem s t) \<noteq> MT_TASK_WAITING_CHAN" and "state (task_mem s t) \<noteq> MT_TASK_WAITING_JOIN"
  shows "wf (insert t X) s"
proof (rule wfI)
  note w = wfD[OF assms(1)]
  have neq: "\<not> waits_send c (task_mem s t)" "\<not> waits_recv c (task_mem s t)"
    "\<not> waits_join h (task_mem s t)" for c h using assms(4,5) by (auto simp: wf_waits)
  have l: "live (insert t X) s u \<longleftrightarrow> live X s u \<and> u \<noteq> t" for u by (auto simp: live_def)
  show "wf_runq (insert t X) s" using w(1) assms(2) unfolding wf_runq_def l by auto
  show "wf_timers (insert t X) s" using w(2) assms(3) unfolding wf_timers_def l by auto
  show "wf_send (insert t X) s" using w(3) neq(1) unfolding wf_send_def l by auto
  show "wf_recv (insert t X) s" using w(4) neq(2) unfolding wf_recv_def l by auto
  show "wf_joins (insert t X) s" using w(6) neq(3) unfolding wf_joins_def l by auto
  have "select_ok s" using w(7) by (simp add: wf_select_def)
  then show "wf_select (insert t X) s" by (rule wf_select_step[OF w(7)]) simp_all
  show "wf_fds (insert t X) s" by (rule wf_fds_step[OF w(8)]) simp_all
  show "wf_live (insert t X) s" by (rule wf_live_step[OF w(10)]) simp_all
qed (use wfD[OF assms(1)] in simp_all)

lemma wf_upd_task:
  assumes "wf X s" and "t \<in> X"
    and "handle (f (task_mem s t)) = handle (task_mem s t)"
    and "fd_waiter (f (task_mem s t)) = fd_waiter (task_mem s t)"
    and "select_waiters (f (task_mem s t)) = select_waiters (task_mem s t)"
    and "state (f (task_mem s t)) = MT_TASK_DEAD \<longleftrightarrow> state (task_mem s t) = MT_TASK_DEAD"
  shows "wf X (upd_task t f s)"
proof (rule wfI)
  note w = wfD[OF assms(1)]
  let ?s = "upd_task t f s"
  have l: "live X ?s u = live X s u" for u by (simp add: live_def)
  have x: "\<not> live X s t" using assms(2) by (simp add: live_def)
  have tm: "t \<notin> set (items (timers s))" using x w(2) by (simp add: wf_timers_def)
  have tk: "timers_ok ?s = timers_ok s"
    by (rule timers_ok_cong) (use tm in \<open>auto simp: timer_key_def\<close>)
  show "wf_runq X ?s" using w(1) x unfolding wf_runq_def l by (simp add: runq_rep_def)
  show "wf_timers X ?s" using w(2) x unfolding wf_timers_def l tk by simp
  show "wf_send X ?s" using w(3) x unfolding wf_send_def l by simp
  show "wf_recv X ?s" using w(4) x unfolding wf_recv_def l by simp
  show "wf_joins X ?s" using w(6) x unfolding wf_joins_def l by simp
  have "select_ok ?s" using w(7) by (simp add: wf_select_def)
  then show "wf_select X ?s" by (rule wf_select_step[OF w(7)]) (use assms(2,5) in auto)
  show "wf_fds X ?s" by (rule wf_fds_step[OF w(8)]) (use assms(2,4) in auto)
  show "wf_handles ?s" by (rule wf_handles_step[OF w(9)]) (use assms(3,6) in \<open>auto split: if_splits\<close>)
  show "wf_chans ?s" by (rule wf_chans_step[OF w(5)]) simp_all
  show "wf_live X ?s" by (rule wf_live_step[OF w(10)]) (use assms(2,6) in auto)
qed

subsection \<open>Run queue\<close>

lemma wf_runq_pop:
  assumes "wf X s" and "mt_runq_pop s = (Some t, s')"
  shows "wf (insert t X) s'" "live X s t" "state (task_mem s t) = MT_TASK_READY"
    "select_waiters (task_mem s t) = []" "task_mem s' = task_mem s" "all_tasks s' = all_tasks s"
proof -
  note w = wfD[OF assms(1)]
  from assms(2) obtain ts where q: "runq s = t # ts"
    and s': "s' = s\<lparr>runq := ts, runnable_count := runnable_count s - 1\<rparr>"
    by (auto simp: mt_runq_pop_def split: list.splits)
  show t: "live X s t" and st: "state (task_mem s t) = MT_TASK_READY"
    using w(1) q unfolding wf_runq_def by (metis list.set_intros(1))+
  then show "select_waiters (task_mem s t) = []" using w(7) by (simp add: wf_select_def)
  show "task_mem s' = task_mem s" "all_tasks s' = all_tasks s" by (simp_all add: s')
  have neq: "\<not> timed (task_mem s t)" "\<not> waits_send c (task_mem s t)" "\<not> waits_recv c (task_mem s t)"
    "\<not> waits_join h (task_mem s t)" for c h using st by (auto simp: wf_waits)
  have l: "live (insert t X) s' u \<longleftrightarrow> live X s u \<and> u \<noteq> t" for u by (auto simp: live_def s')
  have tk: "timers_ok s' = timers_ok s" by (rule timers_ok_cong) (simp_all add: s')
  show "wf (insert t X) s'"
  proof (rule wfI)
    show "wf_runq (insert t X) s'"
      using w(1) q unfolding wf_runq_def l by (auto simp: runq_rep_def s')
    show "wf_timers (insert t X) s'" using w(2) neq unfolding wf_timers_def l tk by (auto simp: s')
    show "wf_send (insert t X) s'" using w(3) neq unfolding wf_send_def l by (auto simp: s')
    show "wf_recv (insert t X) s'" using w(4) neq unfolding wf_recv_def l by (auto simp: s')
    show "wf_joins (insert t X) s'" using w(6) neq unfolding wf_joins_def l by (auto simp: s')
    have "select_ok s' = select_ok s" by (rule select_ok_cong) (simp_all add: s')
    then have "select_ok s'" using w(7) by (simp add: wf_select_def)
    then show "wf_select (insert t X) s'" by (rule wf_select_step[OF w(7)]) (simp_all add: s')
    show "wf_fds (insert t X) s'" by (rule wf_fds_step[OF w(8)]) (simp_all add: s')
    show "wf_handles s'" by (rule wf_handles_step[OF w(9)]) (simp_all add: s')
    show "wf_chans s'" by (rule wf_chans_step[OF w(5)]) (simp_all add: s')
    show "wf_live (insert t X) s'" by (rule wf_live_step[OF w(10)]) (simp_all add: s')
  qed
qed

lemma wf_mark_ready:
  assumes "wf X s" and "detached X s t"
  shows "wf (X - {t}) (mt_task_mark_ready t s)"
proof -
  note dt = assms(2)[unfolded detached_def]
  have sw0: "select_waiters (task_mem s t) = []"
    and fd0: "\<forall>w. fd_waiter (task_mem s t) = Some w \<longrightarrow> \<not> mt_fd_waiter_is_active (fw_mem s w)"
    and st0: "state (task_mem s t) \<noteq> MT_TASK_DEAD" using dt by blast+
  let ?m = "(task_mem s)(t := (task_mem s t)\<lparr>state := MT_TASK_READY\<rparr>)"
  let ?s = "s\<lparr>task_mem := ?m, runq := runq s @ [t], runnable_count := runnable_count s + 1\<rparr>"
  note w = wfD[OF assms(1)]
  have l: "live (X - {t}) ?s u \<longleftrightarrow> live X s u \<or> u = t" for u using dt by (auto simp: live_def)
  have x: "\<not> live X s t" using dt by (simp add: live_def)
  have neq: "\<not> timed (?m t)" "\<not> waits_send c (?m t)" "\<not> waits_recv c (?m t)" "\<not> waits_join h (?m t)"
    for c h by (auto simp: wf_waits)
  have tk: "timers_ok ?s = timers_ok s"
    by (rule timers_ok_cong) (auto simp: timer_key_def)
  have "wf (X - {t}) ?s"
  proof (rule wfI)
    have "t \<notin> set (runq s)" using w(1) x by (simp add: wf_runq_def)
    then show "wf_runq (X - {t}) ?s"
      using w(1) x unfolding wf_runq_def l by (auto simp: runq_rep_def)
    show "wf_timers (X - {t}) ?s" using w(2) x neq unfolding wf_timers_def l tk by (auto split: if_splits)
    show "wf_send (X - {t}) ?s" using w(3) x neq unfolding wf_send_def l by (auto split: if_splits)
    show "wf_recv (X - {t}) ?s" using w(4) x neq unfolding wf_recv_def l by (auto split: if_splits)
    show "wf_joins (X - {t}) ?s" using w(6) x neq unfolding wf_joins_def l by (auto split: if_splits)
    have "select_ok ?s = select_ok s" by (rule select_ok_cong) simp_all
    then have "select_ok ?s" using w(7) by (simp add: wf_select_def)
    then show "wf_select (X - {t}) ?s" by (rule wf_select_step[OF w(7)]) (use sw0 in auto)
    show "wf_fds (X - {t}) ?s" by (rule wf_fds_step[OF w(8)]) (use fd0 in auto)
    show "wf_handles ?s" by (rule wf_handles_step[OF w(9)]) (use st0 in \<open>auto split: if_splits\<close>)
    show "wf_chans ?s" by (rule wf_chans_step[OF w(5)]) simp_all
    show "wf_live (X - {t}) ?s" by (rule wf_live_step[OF w(10)]) (use st0 in auto)
  qed
  then show ?thesis by (simp add: mark_ready_eq)
qed

subsection \<open>Channel queues\<close>

lemma select_ok_chan_cong:
  assumes "sw_mem s' = sw_mem s"
    and "\<And>c. select_send_q (chan_mem s' c) = select_send_q (chan_mem s c)"
    and "\<And>c. select_recv_q (chan_mem s' c) = select_recv_q (chan_mem s c)"
    and "\<And>c. select_send_waiters (chan_mem s' c) = select_send_waiters (chan_mem s c)"
    and "\<And>c. select_recv_waiters (chan_mem s' c) = select_recv_waiters (chan_mem s c)"
  shows "select_ok s' = select_ok s"
  unfolding select_ok_def select_chan_ok_def linked_send_def linked_recv_def assms by simp

text \<open>Writing the ring buffer of a channel, or closing it.\<close>

lemma wf_upd_chan:
  assumes "wf X s"
    and "\<And>ch. send_q (f ch) = send_q ch \<and> recv_q (f ch) = recv_q ch \<and>
      send_waiters (f ch) = send_waiters ch \<and> recv_waiters (f ch) = recv_waiters ch"
    and "\<And>ch. select_send_q (f ch) = select_send_q ch \<and> select_recv_q (f ch) = select_recv_q ch \<and>
      select_send_waiters (f ch) = select_send_waiters ch \<and>
      select_recv_waiters (f ch) = select_recv_waiters ch"
  shows "wf X (upd_chan c f s)"
proof (rule wfI)
  note w = wfD[OF assms(1)]
  let ?s = "upd_chan c f s"
  have l: "live X ?s u = live X s u" for u by (simp add: live_def)
  have tk: "timers_ok ?s = timers_ok s" by (rule timers_ok_cong) simp_all
  have q: "send_q (chan_mem ?s d) = send_q (chan_mem s d)" "recv_q (chan_mem ?s d) = recv_q (chan_mem s d)"
    "send_waiters (chan_mem ?s d) = send_waiters (chan_mem s d)"
    "recv_waiters (chan_mem ?s d) = recv_waiters (chan_mem s d)"
    "select_send_q (chan_mem ?s d) = select_send_q (chan_mem s d)"
    "select_recv_q (chan_mem ?s d) = select_recv_q (chan_mem s d)" for d using assms(2,3) by auto
  show "wf_runq X ?s" using w(1) unfolding wf_runq_def l by (simp add: runq_rep_def)
  show "wf_timers X ?s" using w(2) unfolding wf_timers_def l tk by simp
  show "wf_send X ?s" using w(3) unfolding wf_send_def l q by simp
  show "wf_recv X ?s" using w(4) unfolding wf_recv_def l q by simp
  show "wf_chans ?s" using w(5) unfolding wf_chans_def q by simp
  show "wf_joins X ?s" using w(6) unfolding wf_joins_def l by simp
  have "select_ok ?s = select_ok s" by (rule select_ok_chan_cong) (use assms(3) in auto)
  then have "select_ok ?s" using w(7) by (simp add: wf_select_def)
  then show "wf_select X ?s" by (rule wf_select_step[OF w(7)]) simp_all
  show "wf_fds X ?s" by (rule wf_fds_step[OF w(8)]) simp_all
  show "wf_handles ?s" by (rule wf_handles_step[OF w(9)]) simp_all
  show "wf_live X ?s" by (rule wf_live_step[OF w(10)]) simp_all
qed

text \<open>Taking a task out of a channel queue, from the front or from the middle.\<close>

lemma wf_chan_unlink_send:
  assumes "wf X s" and "t \<in> set (send_q (chan_mem s c))"
  shows "wf (insert t X) (upd_chan c (\<lambda>ch. ch\<lparr>send_q := remove1 t (send_q (chan_mem s c)),
    send_waiters := send_waiters (chan_mem s c) - 1\<rparr>) s)" (is "wf _ ?s")
    and "live X s t" "waits_send c (task_mem s t)" "select_waiters (task_mem s t) = []"
proof -
  note w = wfD[OF assms(1)]
  show t: "live X s t" "waits_send c (task_mem s t)" using w(3) assms(2) by (auto simp: wf_send_def)
  have "state (task_mem s t) \<noteq> MT_TASK_WAITING_SELECT" using t(2) by (simp add: waits_send_def)
  then show "select_waiters (task_mem s t) = []" using w(7) t(1) by (simp add: wf_select_def)
  have neq: "state (task_mem s t) \<noteq> MT_TASK_READY" "\<not> timed (task_mem s t)"
    "\<not> waits_recv d (task_mem s t)" "\<not> waits_join h (task_mem s t)"
    "waits_send d (task_mem s t) \<longleftrightarrow> d = c" for d h using t(2) by (auto simp: wf_waits)
  have l: "live (insert t X) ?s u \<longleftrightarrow> live X s u \<and> u \<noteq> t" for u by (auto simp: live_def)
  have tk: "timers_ok ?s = timers_ok s" by (rule timers_ok_cong) simp_all
  have d: "distinct (send_q (chan_mem s c))" "send_waiters (chan_mem s c) = length (send_q (chan_mem s c))"
    using w(3) by (auto simp: wf_send_def)
  show "wf (insert t X) ?s"
  proof (rule wfI)
    show "wf_runq (insert t X) ?s" using w(1) neq unfolding wf_runq_def l by (auto simp: runq_rep_def)
    show "wf_timers (insert t X) ?s" using w(2) neq unfolding wf_timers_def l tk by auto
    show "wf_send (insert t X) ?s"
      using w(3) neq(5) d assms(2) unfolding wf_send_def l
      by (auto simp: length_remove1_mem distinct_remove1 split: if_splits)
    show "wf_recv (insert t X) ?s" using w(4) neq unfolding wf_recv_def l by auto
    have "c \<in> set (channels s)" using w(5) assms(2) by (auto simp: wf_chans_def)
    then show "wf_chans ?s" using w(5) by (auto simp: wf_chans_def)
    show "wf_joins (insert t X) ?s" using w(6) neq unfolding wf_joins_def l by auto
    have "select_ok ?s = select_ok s" by (rule select_ok_chan_cong) auto
    then have "select_ok ?s" using w(7) by (simp add: wf_select_def)
    then show "wf_select (insert t X) ?s" by (rule wf_select_step[OF w(7)]) simp_all
    show "wf_fds (insert t X) ?s" by (rule wf_fds_step[OF w(8)]) simp_all
    show "wf_handles ?s" by (rule wf_handles_step[OF w(9)]) simp_all
    show "wf_live (insert t X) ?s" by (rule wf_live_step[OF w(10)]) simp_all
  qed
qed

lemma wf_chan_unlink_recv:
  assumes "wf X s" and "t \<in> set (recv_q (chan_mem s c))"
  shows "wf (insert t X) (upd_chan c (\<lambda>ch. ch\<lparr>recv_q := remove1 t (recv_q (chan_mem s c)),
    recv_waiters := recv_waiters (chan_mem s c) - 1\<rparr>) s)" (is "wf _ ?s")
    and "live X s t" "waits_recv c (task_mem s t)" "select_waiters (task_mem s t) = []"
proof -
  note w = wfD[OF assms(1)]
  show t: "live X s t" "waits_recv c (task_mem s t)" using w(4) assms(2) by (auto simp: wf_recv_def)
  have "state (task_mem s t) \<noteq> MT_TASK_WAITING_SELECT" using t(2) by (simp add: waits_recv_def)
  then show "select_waiters (task_mem s t) = []" using w(7) t(1) by (simp add: wf_select_def)
  have neq: "state (task_mem s t) \<noteq> MT_TASK_READY" "\<not> timed (task_mem s t)"
    "\<not> waits_send d (task_mem s t)" "\<not> waits_join h (task_mem s t)"
    "waits_recv d (task_mem s t) \<longleftrightarrow> d = c" for d h using t(2) by (auto simp: wf_waits)
  have l: "live (insert t X) ?s u \<longleftrightarrow> live X s u \<and> u \<noteq> t" for u by (auto simp: live_def)
  have tk: "timers_ok ?s = timers_ok s" by (rule timers_ok_cong) simp_all
  have d: "distinct (recv_q (chan_mem s c))" "recv_waiters (chan_mem s c) = length (recv_q (chan_mem s c))"
    using w(4) by (auto simp: wf_recv_def)
  show "wf (insert t X) ?s"
  proof (rule wfI)
    show "wf_runq (insert t X) ?s" using w(1) neq unfolding wf_runq_def l by (auto simp: runq_rep_def)
    show "wf_timers (insert t X) ?s" using w(2) neq unfolding wf_timers_def l tk by auto
    show "wf_recv (insert t X) ?s"
      using w(4) neq(5) d assms(2) unfolding wf_recv_def l
      by (auto simp: length_remove1_mem distinct_remove1 split: if_splits)
    show "wf_send (insert t X) ?s" using w(3) neq unfolding wf_send_def l by auto
    have "c \<in> set (channels s)" using w(5) assms(2) by (auto simp: wf_chans_def)
    then show "wf_chans ?s" using w(5) by (auto simp: wf_chans_def)
    show "wf_joins (insert t X) ?s" using w(6) neq unfolding wf_joins_def l by auto
    have "select_ok ?s = select_ok s" by (rule select_ok_chan_cong) auto
    then have "select_ok ?s" using w(7) by (simp add: wf_select_def)
    then show "wf_select (insert t X) ?s" by (rule wf_select_step[OF w(7)]) simp_all
    show "wf_fds (insert t X) ?s" by (rule wf_fds_step[OF w(8)]) simp_all
    show "wf_handles ?s" by (rule wf_handles_step[OF w(9)]) simp_all
    show "wf_live (insert t X) ?s" by (rule wf_live_step[OF w(10)]) simp_all
  qed
qed

text \<open>Parking a task on a channel.\<close>

lemma wf_park_send:
  assumes "wf X s" and "detached X s t" and "c \<in> set (channels s)"
  shows "wf (X - {t}) (chan_send_push c t (mt_task_block_on_channel t c MT_CHAN_WAIT_SEND v s))"
proof -
  note dt = assms(2)[unfolded detached_def]
  have sw0: "select_waiters (task_mem s t) = []"
    and fd0: "\<forall>w. fd_waiter (task_mem s t) = Some w \<longrightarrow> \<not> mt_fd_waiter_is_active (fw_mem s w)"
    and st0: "state (task_mem s t) \<noteq> MT_TASK_DEAD" using dt by blast+
  note w = wfD[OF assms(1)]
  let ?k = "(task_mem s t)\<lparr>chan_wait_kind := MT_CHAN_WAIT_SEND, chan_wait_ch := Some c, chan_value := v,
    chan_result := MT_OK, state := MT_TASK_WAITING_CHAN\<rparr>"
  let ?s = "chan_send_push c t (mt_task_block_on_channel t c MT_CHAN_WAIT_SEND v s)"
  have m: "task_mem ?s = (task_mem s)(t := ?k)"
    "chan_mem ?s = (chan_mem s)(c := (chan_mem s c)\<lparr>send_q := send_q (chan_mem s c) @ [t],
      send_waiters := send_waiters (chan_mem s c) + 1\<rparr>)"
    by (simp_all add: chan_send_push_def mt_task_block_on_channel_def Let_def)
  have fr: "runq ?s = runq s" "runnable_count ?s = runnable_count s" "all_tasks ?s = all_tasks s"
    "timers ?s = timers s" "channels ?s = channels s" "handle_mem ?s = handle_mem s"
    "handles ?s = handles s" "sw_mem ?s = sw_mem s" "fw_mem ?s = fw_mem s" "fd_waiters ?s = fd_waiters s"
    "fd_waiting_count ?s = fd_waiting_count s" "live_count ?s = live_count s"
    by (simp_all add: chan_send_push_def mt_task_block_on_channel_def Let_def)
  have l: "live (X - {t}) ?s u \<longleftrightarrow> live X s u \<or> u = t" for u
    using dt by (auto simp: live_def fr)
  have x: "\<not> live X s t" using dt by (simp add: live_def)
  have neq: "state ?k \<noteq> MT_TASK_READY" "\<not> timed ?k" "\<not> waits_recv d ?k" "\<not> waits_join h ?k"
    "waits_send d ?k \<longleftrightarrow> d = c" for d h by (auto simp: wf_waits)
  have tk: "timers_ok ?s = timers_ok s" by (rule timers_ok_cong) (auto simp: timer_key_def m fr)
  have nq: "t \<notin> set (send_q (chan_mem s d))" for d using w(3) x by (simp add: wf_send_def)
  show ?thesis
  proof (rule wfI)
    show "wf_runq (X - {t}) ?s" using w(1) x neq unfolding wf_runq_def l
      by (auto simp: runq_rep_def m fr split: if_splits)
    show "wf_timers (X - {t}) ?s" using w(2) x neq unfolding wf_timers_def l tk
      by (auto simp: m fr split: if_splits)
    show "wf_send (X - {t}) ?s" using w(3) x neq(5) nq unfolding wf_send_def l
      by (auto simp: m fr split: if_splits)
    show "wf_recv (X - {t}) ?s" using w(4) x neq unfolding wf_recv_def l
      by (auto simp: m fr split: if_splits)
    show "wf_chans ?s" using w(5) assms(3) by (auto simp: wf_chans_def m fr)
    show "wf_joins (X - {t}) ?s" using w(6) x neq unfolding wf_joins_def l
      by (auto simp: m fr split: if_splits)
    have "select_ok ?s = select_ok s" by (rule select_ok_chan_cong) (auto simp: m fr)
    then have "select_ok ?s" using w(7) by (simp add: wf_select_def)
    then show "wf_select (X - {t}) ?s"
      by (rule wf_select_step[OF w(7)]) (use sw0 in \<open>auto simp: m fr\<close>)
    show "wf_fds (X - {t}) ?s" by (rule wf_fds_step[OF w(8)]) (use fd0 in \<open>auto simp: m fr\<close>)
    show "wf_handles ?s"
      by (rule wf_handles_step[OF w(9)]) (use st0 in \<open>auto simp: m fr split: if_splits\<close>)
    show "wf_live (X - {t}) ?s" by (rule wf_live_step[OF w(10)]) (use st0 in \<open>auto simp: m fr parked_ok_def\<close>)
  qed
qed

lemma wf_park_recv:
  assumes "wf X s" and "detached X s t" and "c \<in> set (channels s)"
  shows "wf (X - {t}) (chan_recv_push c t (mt_task_block_on_channel t c MT_CHAN_WAIT_RECV v s))"
proof -
  note dt = assms(2)[unfolded detached_def]
  have sw0: "select_waiters (task_mem s t) = []"
    and fd0: "\<forall>w. fd_waiter (task_mem s t) = Some w \<longrightarrow> \<not> mt_fd_waiter_is_active (fw_mem s w)"
    and st0: "state (task_mem s t) \<noteq> MT_TASK_DEAD" using dt by blast+
  note w = wfD[OF assms(1)]
  let ?k = "(task_mem s t)\<lparr>chan_wait_kind := MT_CHAN_WAIT_RECV, chan_wait_ch := Some c, chan_value := v,
    chan_result := MT_OK, state := MT_TASK_WAITING_CHAN\<rparr>"
  let ?s = "chan_recv_push c t (mt_task_block_on_channel t c MT_CHAN_WAIT_RECV v s)"
  have m: "task_mem ?s = (task_mem s)(t := ?k)"
    "chan_mem ?s = (chan_mem s)(c := (chan_mem s c)\<lparr>recv_q := recv_q (chan_mem s c) @ [t],
      recv_waiters := recv_waiters (chan_mem s c) + 1\<rparr>)"
    by (simp_all add: chan_recv_push_def mt_task_block_on_channel_def Let_def)
  have fr: "runq ?s = runq s" "runnable_count ?s = runnable_count s" "all_tasks ?s = all_tasks s"
    "timers ?s = timers s" "channels ?s = channels s" "handle_mem ?s = handle_mem s"
    "handles ?s = handles s" "sw_mem ?s = sw_mem s" "fw_mem ?s = fw_mem s" "fd_waiters ?s = fd_waiters s"
    "fd_waiting_count ?s = fd_waiting_count s" "live_count ?s = live_count s"
    by (simp_all add: chan_recv_push_def mt_task_block_on_channel_def Let_def)
  have l: "live (X - {t}) ?s u \<longleftrightarrow> live X s u \<or> u = t" for u
    using dt by (auto simp: live_def fr)
  have x: "\<not> live X s t" using dt by (simp add: live_def)
  have neq: "state ?k \<noteq> MT_TASK_READY" "\<not> timed ?k" "\<not> waits_send d ?k" "\<not> waits_join h ?k"
    "waits_recv d ?k \<longleftrightarrow> d = c" for d h by (auto simp: wf_waits)
  have tk: "timers_ok ?s = timers_ok s" by (rule timers_ok_cong) (auto simp: timer_key_def m fr)
  have nq: "t \<notin> set (recv_q (chan_mem s d))" for d using w(4) x by (simp add: wf_recv_def)
  show ?thesis
  proof (rule wfI)
    show "wf_runq (X - {t}) ?s" using w(1) x neq unfolding wf_runq_def l
      by (auto simp: runq_rep_def m fr split: if_splits)
    show "wf_timers (X - {t}) ?s" using w(2) x neq unfolding wf_timers_def l tk
      by (auto simp: m fr split: if_splits)
    show "wf_recv (X - {t}) ?s" using w(4) x neq(5) nq unfolding wf_recv_def l
      by (auto simp: m fr split: if_splits)
    show "wf_send (X - {t}) ?s" using w(3) x neq unfolding wf_send_def l
      by (auto simp: m fr split: if_splits)
    show "wf_chans ?s" using w(5) assms(3) by (auto simp: wf_chans_def m fr)
    show "wf_joins (X - {t}) ?s" using w(6) x neq unfolding wf_joins_def l
      by (auto simp: m fr split: if_splits)
    have "select_ok ?s = select_ok s" by (rule select_ok_chan_cong) (auto simp: m fr)
    then have "select_ok ?s" using w(7) by (simp add: wf_select_def)
    then show "wf_select (X - {t}) ?s"
      by (rule wf_select_step[OF w(7)]) (use sw0 in \<open>auto simp: m fr\<close>)
    show "wf_fds (X - {t}) ?s" by (rule wf_fds_step[OF w(8)]) (use fd0 in \<open>auto simp: m fr\<close>)
    show "wf_handles ?s"
      by (rule wf_handles_step[OF w(9)]) (use st0 in \<open>auto simp: m fr split: if_splits\<close>)
    show "wf_live (X - {t}) ?s" by (rule wf_live_step[OF w(10)]) (use st0 in \<open>auto simp: m fr parked_ok_def\<close>)
  qed
qed

lemma wf_send_pop:
  assumes "wf X s" and "chan_send_pop c s = (Some t, s')"
  shows "wf (insert t X) s'" "detached (insert t X) s' t" "c \<in> set (channels s)" "t \<notin> X"
    "all_tasks s' = all_tasks s" "channels s' = channels s"
proof -
  note w = wfD[OF assms(1)]
  obtain q where q: "send_q (chan_mem s c) = t # q"
    using assms(2) by (cases "send_q (chan_mem s c)") (auto simp: chan_send_pop_def)
  have n: "0 < send_waiters (chan_mem s c)" using w(3) q by (auto simp: wf_send_def)
  have s': "s' = upd_chan c (\<lambda>ch. ch\<lparr>send_q := remove1 t (send_q (chan_mem s c)),
      send_waiters := send_waiters (chan_mem s c) - 1\<rparr>) s"
    using assms(2) q n by (simp add: chan_send_pop_def)
  have m: "t \<in> set (send_q (chan_mem s c))" using q by simp
  note u = wf_chan_unlink_send[OF assms(1) m]
  show "wf (insert t X) s'" using u(1) by (simp add: s')
  show "detached (insert t X) s' t"
    by (rule detachedI[OF assms(1) u(2)]) (use u(3) in \<open>auto simp: waits_send_def s'\<close>)
  show "c \<in> set (channels s)" using w(5) q by (auto simp: wf_chans_def)
  show "t \<notin> X" using u(2) by (simp add: live_def)
  show "all_tasks s' = all_tasks s" "channels s' = channels s" by (simp_all add: s')
qed

lemma wf_recv_pop:
  assumes "wf X s" and "chan_recv_pop c s = (Some t, s')"
  shows "wf (insert t X) s'" "detached (insert t X) s' t" "c \<in> set (channels s)" "t \<notin> X"
    "all_tasks s' = all_tasks s" "channels s' = channels s"
proof -
  note w = wfD[OF assms(1)]
  obtain q where q: "recv_q (chan_mem s c) = t # q"
    using assms(2) by (cases "recv_q (chan_mem s c)") (auto simp: chan_recv_pop_def)
  have n: "0 < recv_waiters (chan_mem s c)" using w(4) q by (auto simp: wf_recv_def)
  have s': "s' = upd_chan c (\<lambda>ch. ch\<lparr>recv_q := remove1 t (recv_q (chan_mem s c)),
      recv_waiters := recv_waiters (chan_mem s c) - 1\<rparr>) s"
    using assms(2) q n by (simp add: chan_recv_pop_def)
  have m: "t \<in> set (recv_q (chan_mem s c))" using q by simp
  note u = wf_chan_unlink_recv[OF assms(1) m]
  show "wf (insert t X) s'" using u(1) by (simp add: s')
  show "detached (insert t X) s' t"
    by (rule detachedI[OF assms(1) u(2)]) (use u(3) in \<open>auto simp: waits_recv_def s'\<close>)
  show "c \<in> set (channels s)" using w(5) q by (auto simp: wf_chans_def)
  show "t \<notin> X" using u(2) by (simp add: live_def)
  show "all_tasks s' = all_tasks s" "channels s' = channels s" by (simp_all add: s')
qed

lemma wf_complete_channel_wait:
  assumes "wf X s" and "detached X s t"
  shows "wf (X - {t}) (mt_task_complete_channel_wait t r s)"
proof -
  let ?f = "\<lambda>k :: mt_task. k\<lparr>chan_result := r, chan_wait_kind := MT_CHAN_WAIT_NONE, chan_wait_ch := None,
    chan_value := None\<rparr>"
  have "wf X (upd_task t ?f s)" using assms by (intro wf_upd_task) (auto simp: detached_def)
  then have "wf X (dec_channel_waiting (upd_task t ?f s))" by (simp add: dec_channel_waiting_eq)
  moreover have "detached X (dec_channel_waiting (upd_task t ?f s)) t"
    using assms(2) by (simp add: detached_def dec_channel_waiting_eq)
  ultimately show ?thesis
    by (simp add: mt_task_complete_channel_wait_def Let_def wf_mark_ready)
qed

end
