(* ===== verification/Invariant_Moves.thy ===== *)
theory Invariant_Moves
  imports Invariant
begin

text \<open>
  The remaining moves of a task between queues: joins, timers, selects, descriptor waits, and the
  birth and death of tasks. Each lemma says what the move does to the exempt set of the invariant.
\<close>

section \<open>Joins\<close>

lemma wf_handles_join:
  assumes "wf_handles s" and "handles s' = handles s" and "all_tasks s' = all_tasks s"
    and h: "\<And>u. handle (task_mem s' u) = handle (task_mem s u)"
    and st: "\<And>u. u \<in> set (all_tasks s) \<Longrightarrow> state (task_mem s' u) \<noteq> MT_TASK_DEAD \<Longrightarrow>
      state (task_mem s u) \<noteq> MT_TASK_DEAD"
    and ht: "\<And>k. h_task (handle_mem s' k) = h_task (handle_mem s k)"
      "\<And>k. completed (handle_mem s' k) = completed (handle_mem s k)"
    and jq: "\<And>k. join_q (handle_mem s' k) \<noteq> [] \<Longrightarrow> join_q (handle_mem s k) = [] \<Longrightarrow>
      k \<in> set (handles s) \<and> \<not> completed (handle_mem s k)"
  shows "wf_handles s'"
  unfolding wf_handles_def assms(2,3) h ht using assms(1)[unfolded wf_handles_def] st jq by blast

lemma wf_join_unlink:
  assumes "wf X s" and "t \<in> set (join_q (handle_mem s h))"
  shows "wf (insert t X) (upd_handle h (\<lambda>k. k\<lparr>join_q := remove1 t (join_q (handle_mem s h)),
    join_waiters := join_waiters (handle_mem s h) - 1\<rparr>) s)" (is "wf _ ?s")
    and "live X s t" "waits_join h (task_mem s t)"
proof -
  note w = wfD[OF assms(1)]
  show t: "live X s t" "waits_join h (task_mem s t)" using w(6) assms(2) by (auto simp: wf_joins_def)
  have neq: "state (task_mem s t) \<noteq> MT_TASK_READY" "\<not> timed (task_mem s t)"
    "\<not> waits_recv d (task_mem s t)" "\<not> waits_send d (task_mem s t)"
    "waits_join k (task_mem s t) \<longleftrightarrow> k = h" for d k using t(2) by (auto simp: wf_waits)
  have l: "live (insert t X) ?s u \<longleftrightarrow> live X s u \<and> u \<noteq> t" for u by (auto simp: live_def)
  have tk: "timers_ok ?s = timers_ok s" by (rule timers_ok_cong) simp_all
  have d: "distinct (join_q (handle_mem s h))" "join_waiters (handle_mem s h) = length (join_q (handle_mem s h))"
    using w(6) by (auto simp: wf_joins_def)
  show "wf (insert t X) ?s"
  proof (rule wfI)
    show "wf_runq (insert t X) ?s" using w(1) neq unfolding wf_runq_def l by (auto simp: runq_rep_def)
    show "wf_timers (insert t X) ?s" using w(2) neq unfolding wf_timers_def l tk by auto
    show "wf_send (insert t X) ?s" using w(3) neq unfolding wf_send_def l by auto
    show "wf_recv (insert t X) ?s" using w(4) neq unfolding wf_recv_def l by auto
    show "wf_joins (insert t X) ?s"
      using w(6) neq(5) d assms(2) unfolding wf_joins_def l
      by (auto simp: length_remove1_mem distinct_remove1 split: if_splits)
    have "select_ok ?s = select_ok s" by (rule select_ok_cong) simp_all
    then have "select_ok ?s" using w(7) by (simp add: wf_select_def)
    then show "wf_select (insert t X) ?s" by (rule wf_select_step[OF w(7)]) simp_all
    show "wf_fds (insert t X) ?s" by (rule wf_fds_step[OF w(8)]) simp_all
    show "wf_chans ?s" by (rule wf_chans_step[OF w(5)]) simp_all
    show "wf_handles ?s"
      by (rule wf_handles_join[OF w(9)]) (use assms(2) in \<open>auto split: if_splits\<close>)
    show "wf_live (insert t X) ?s" by (rule wf_live_step[OF w(10)]) simp_all
  qed
qed

lemma wf_join_pop:
  assumes "wf X s" and "join_pop h s = (Some t, s')"
  shows "wf (insert t X) s'" "detached (insert t X) s' t" "t \<notin> X"
    "all_tasks s' = all_tasks s" "handles s' = handles s"
proof -
  note w = wfD[OF assms(1)]
  obtain q where q: "join_q (handle_mem s h) = t # q"
    using assms(2) by (cases "join_q (handle_mem s h)") (auto simp: join_pop_def)
  have n: "0 < join_waiters (handle_mem s h)" using w(6) q by (auto simp: wf_joins_def)
  have s': "s' = upd_handle h (\<lambda>k. k\<lparr>join_q := remove1 t (join_q (handle_mem s h)),
      join_waiters := join_waiters (handle_mem s h) - 1\<rparr>) s"
    using assms(2) q n by (simp add: join_pop_def)
  have m: "t \<in> set (join_q (handle_mem s h))" using q by simp
  note u = wf_join_unlink[OF assms(1) m]
  show "wf (insert t X) s'" using u(1) by (simp add: s')
  show "detached (insert t X) s' t"
    by (rule detachedI[OF assms(1) u(2)]) (use u(3) in \<open>auto simp: waits_join_def s'\<close>)
  show "t \<notin> X" using u(2) by (simp add: live_def)
  show "all_tasks s' = all_tasks s" "handles s' = handles s" by (simp_all add: s')
qed

lemma wf_complete_join_wait:
  assumes "wf X s" and "detached X s t"
  shows "wf (X - {t}) (mt_task_complete_join_wait t r s)"
proof -
  let ?f = "\<lambda>k :: mt_task. k\<lparr>join_result := r, join_waiting_on := None\<rparr>"
  have "wf X (upd_task t ?f s)" using assms by (intro wf_upd_task) (auto simp: detached_def)
  then have "wf X (dec_join_waiting (upd_task t ?f s))" by (simp add: dec_join_waiting_eq)
  moreover have "detached X (dec_join_waiting (upd_task t ?f s)) t"
    using assms(2) by (simp add: detached_def dec_join_waiting_eq)
  ultimately show ?thesis by (simp add: mt_task_complete_join_wait_def Let_def wf_mark_ready)
qed

lemma wf_park_join:
  assumes "wf X s" and "detached X s t" and "h \<in> set (handles s)" and "\<not> completed (handle_mem s h)"
  shows "wf (X - {t}) (join_push h t (mt_task_block_on_join t h s))"
proof -
  note dt = assms(2)[unfolded detached_def]
  have sw0: "select_waiters (task_mem s t) = []"
    and fd0: "\<forall>w. fd_waiter (task_mem s t) = Some w \<longrightarrow> \<not> mt_fd_waiter_is_active (fw_mem s w)"
    and st0: "state (task_mem s t) \<noteq> MT_TASK_DEAD" using dt by blast+
  note w = wfD[OF assms(1)]
  let ?k = "(task_mem s t)\<lparr>join_waiting_on := Some h, join_result := MT_OK, state := MT_TASK_WAITING_JOIN\<rparr>"
  let ?s = "join_push h t (mt_task_block_on_join t h s)"
  have m: "task_mem ?s = (task_mem s)(t := ?k)"
    "handle_mem ?s = (handle_mem s)(h := (handle_mem s h)\<lparr>join_q := join_q (handle_mem s h) @ [t],
      join_waiters := join_waiters (handle_mem s h) + 1\<rparr>)"
    by (simp_all add: join_push_def mt_task_block_on_join_def Let_def)
  have fr: "runq ?s = runq s" "runnable_count ?s = runnable_count s" "all_tasks ?s = all_tasks s"
    "timers ?s = timers s" "channels ?s = channels s" "chan_mem ?s = chan_mem s"
    "handles ?s = handles s" "sw_mem ?s = sw_mem s" "fw_mem ?s = fw_mem s" "fd_waiters ?s = fd_waiters s"
    "fd_waiting_count ?s = fd_waiting_count s" "live_count ?s = live_count s"
    by (simp_all add: join_push_def mt_task_block_on_join_def Let_def)
  have l: "live (X - {t}) ?s u \<longleftrightarrow> live X s u \<or> u = t" for u using dt by (auto simp: live_def fr)
  have x: "\<not> live X s t" using dt by (simp add: live_def)
  have neq: "state ?k \<noteq> MT_TASK_READY" "\<not> timed ?k" "\<not> waits_recv d ?k" "\<not> waits_send d ?k"
    "waits_join k ?k \<longleftrightarrow> k = h" for d k by (auto simp: wf_waits)
  have tk: "timers_ok ?s = timers_ok s" by (rule timers_ok_cong) (auto simp: timer_key_def m fr)
  have nq: "t \<notin> set (join_q (handle_mem s k))" for k using w(6) x by (simp add: wf_joins_def)
  show ?thesis
  proof (rule wfI)
    show "wf_runq (X - {t}) ?s" using w(1) x neq unfolding wf_runq_def l
      by (auto simp: runq_rep_def m fr split: if_splits)
    show "wf_timers (X - {t}) ?s" using w(2) x neq unfolding wf_timers_def l tk
      by (auto simp: m fr split: if_splits)
    show "wf_send (X - {t}) ?s" using w(3) x neq unfolding wf_send_def l
      by (auto simp: m fr split: if_splits)
    show "wf_recv (X - {t}) ?s" using w(4) x neq unfolding wf_recv_def l
      by (auto simp: m fr split: if_splits)
    show "wf_chans ?s" by (rule wf_chans_step[OF w(5)]) (simp_all add: fr)
    show "wf_joins (X - {t}) ?s" using w(6) x neq(5) nq unfolding wf_joins_def l
      by (auto simp: m fr split: if_splits)
    have "select_ok ?s = select_ok s" by (rule select_ok_cong) (auto simp: fr)
    then have "select_ok ?s" using w(7) by (simp add: wf_select_def)
    then show "wf_select (X - {t}) ?s"
      by (rule wf_select_step[OF w(7)]) (use sw0 in \<open>auto simp: m fr\<close>)
    show "wf_fds (X - {t}) ?s" by (rule wf_fds_step[OF w(8)]) (use fd0 in \<open>auto simp: m fr\<close>)
    show "wf_handles ?s"
      by (rule wf_handles_join[OF w(9)])
        (use st0 assms(3,4) in \<open>auto simp: m fr split: if_splits\<close>)
    show "wf_live (X - {t}) ?s" by (rule wf_live_step[OF w(10)]) (use st0 in \<open>auto simp: m fr parked_ok_def\<close>)
  qed
qed

section \<open>Timers\<close>

text \<open>A task leaves the heap, by a pop or a removal.\<close>

lemma wf_timers_drop:
  assumes "wf X s" and st: "state (task_mem s t) \<noteq> MT_TASK_READY"
    "state (task_mem s t) \<noteq> MT_TASK_WAITING_CHAN" "state (task_mem s t) \<noteq> MT_TASK_WAITING_JOIN"
    and s': "s' = s\<lparr>timers := hp, task_mem := (task_mem s)(t := (task_mem s t)\<lparr>wake_ns := n\<rparr>)\<rparr>"
    and ok: "timers_ok s'" and it: "set (items hp) = set (items (timers s)) - {t}"
  shows "wf (insert t X) s'"
proof (rule wfI)
  note w = wfD[OF assms(1)]
  have l: "live (insert t X) s' u \<longleftrightarrow> live X s u \<and> u \<noteq> t" for u by (auto simp: live_def s')
  have neq: "\<not> waits_send c (task_mem s t)" "\<not> waits_recv c (task_mem s t)"
    "\<not> waits_join h (task_mem s t)" for c h using st by (auto simp: wf_waits)
  show "wf_runq (insert t X) s'" using w(1) st(1) unfolding wf_runq_def l by (auto simp: runq_rep_def s')
  show "wf_timers (insert t X) s'" using w(2) ok it unfolding wf_timers_def l by (auto simp: s')
  show "wf_send (insert t X) s'" using w(3) neq(1) unfolding wf_send_def l by (auto simp: s')
  show "wf_recv (insert t X) s'" using w(4) neq(2) unfolding wf_recv_def l by (auto simp: s')
  show "wf_joins (insert t X) s'" using w(6) neq(3) unfolding wf_joins_def l by (auto simp: s')
  have "select_ok s' = select_ok s" by (rule select_ok_cong) (simp_all add: s')
  then have "select_ok s'" using w(7) by (simp add: wf_select_def)
  then show "wf_select (insert t X) s'" by (rule wf_select_step[OF w(7)]) (auto simp: s')
  show "wf_fds (insert t X) s'" by (rule wf_fds_step[OF w(8)]) (auto simp: s')
  show "wf_chans s'" by (rule wf_chans_step[OF w(5)]) (auto simp: s')
  show "wf_handles s'" by (rule wf_handles_step[OF w(9)]) (auto simp: s' split: if_splits)
  show "wf_live (insert t X) s'" by (rule wf_live_step[OF w(10)]) (auto simp: s')
qed

lemma wf_timer_pop:
  assumes "wf X s" and "mt_timer_pop s = (Some t, s')"
  shows "wf (insert t X) s'" "live X s t" "timed (task_mem s t)"
    "task_mem s' = (task_mem s)(t := (task_mem s t)\<lparr>wake_ns := 0\<rparr>)"
    "all_tasks s' = all_tasks s" "fw_mem s' = fw_mem s" "channels s' = channels s" "handles s' = handles s"
proof -
  note w = wfD[OF assms(1)]
  have tok: "timers_ok s" using w(2) by (simp add: wf_timers_def)
  note pop = timer_pop_Some[OF assms(2) tok]
  have s': "s' = s\<lparr>timers := timers s', task_mem := (task_mem s)(t := (task_mem s t)\<lparr>wake_ns := 0\<rparr>)\<rparr>"
    using pop(4) by (simp add: upd_task_def)
  have it: "set (items (timers s)) = insert t (set (items (timers s')))"
    using arg_cong[OF pop(2), of set_mset] by simp
  then show t: "live X s t" "timed (task_mem s t)" using w(2) by (auto simp: wf_timers_def)
  show m: "task_mem s' = (task_mem s)(t := (task_mem s t)\<lparr>wake_ns := 0\<rparr>)"
    "all_tasks s' = all_tasks s" "fw_mem s' = fw_mem s" "channels s' = channels s" "handles s' = handles s"
    by (subst s', simp)+
  show "wf (insert t X) s'"
    by (rule wf_timers_drop[OF assms(1) _ _ _ s' pop(1)])
      (use t(2) it pop(5) in \<open>auto simp: timed_def\<close>)
qed

lemma wf_timer_remove:
  assumes "wf X s" and "state (task_mem s t) \<noteq> MT_TASK_READY"
    "state (task_mem s t) \<noteq> MT_TASK_WAITING_CHAN" "state (task_mem s t) \<noteq> MT_TASK_WAITING_JOIN"
  shows "wf (insert t X) (snd (mt_timer_remove t s))"
proof -
  have tok: "timers_ok s" using wfD(2)[OF assms(1)] by (simp add: wf_timers_def)
  have eq: "snd (mt_timer_remove t s) = s\<lparr>timers := timers_without t s,
      task_mem := (task_mem s)(t := (task_mem s t)\<lparr>wake_ns :=
        if t \<in> set (items (timers s)) then 0 else wake_ns (task_mem s t)\<rparr>)\<rparr>"
    by (simp add: timer_remove_eq)
  show ?thesis
    by (rule wf_timers_drop[OF assms eq timers_ok_remove[OF tok] timers_without_set[OF tok]])
qed

text \<open>
  A task enters the heap. The caller may set its flags after the push (\<open>f\<close>), and must leave it in a
  state that waits for the timer.
\<close>

lemma wf_timer_attach:
  assumes "wf X s" and "t \<in> X" and "t \<in> set (all_tasks s)" and "state (task_mem s t) \<noteq> MT_TASK_DEAD"
    and push: "mt_timer_push_state t d st a s = (MT_OK, s1)"
    and f: "wake_ns (f (task_mem s1 t)) = wake_ns (task_mem s1 t)"
      "timer_seq (f (task_mem s1 t)) = timer_seq (task_mem s1 t)"
      "handle (f (task_mem s1 t)) = handle (task_mem s1 t)"
      "fd_waiter (f (task_mem s1 t)) = fd_waiter (task_mem s1 t)"
      "select_waiters (f (task_mem s1 t)) = select_waiters (task_mem s1 t)"
    and tim: "timed (f (task_mem s1 t))"
    and sel: "state (f (task_mem s1 t)) = MT_TASK_WAITING_SELECT \<or> select_waiters (task_mem s t) = []"
    and fd: "\<forall>w. fd_waiter (task_mem s t) = Some w \<longrightarrow>
      (mt_fd_waiter_is_active (fw_mem s w) \<longleftrightarrow> state (f (task_mem s1 t)) = MT_TASK_WAITING_FD)"
      "state (f (task_mem s1 t)) = MT_TASK_WAITING_FD \<longrightarrow> fd_waiter (task_mem s t) \<noteq> None"
  shows "wf (X - {t}) (upd_task t f s1)" (is "wf _ ?s")
proof -
  note w = wfD[OF assms(1)]
  have tok: "timers_ok s" using w(2) by (simp add: wf_timers_def)
  have x: "\<not> live X s t" using assms(2) by (simp add: live_def)
  have nt: "t \<notin> set (items (timers s))" using w(2) x by (simp add: wf_timers_def)
  note po = timer_push_ok[OF push tok nt]
  obtain c where s1: "s1 = mt_notify_all (s\<lparr>task_mem := timer_pushed t d st s,
      timers := (timers s)\<lparr>cap := c, next_seq := next_seq (timers s) + 1,
        items := heap_push (mt_timer_less (timer_pushed t d st s)) (items (timers s)) t\<rparr>\<rparr>)"
    using timer_push_eq[OF push] by blast
  define k1 where "k1 = (task_mem s t)\<lparr>wake_ns := d, timer_seq := next_seq (timers s), state := st\<rparr>"
  have m: "task_mem s1 = (task_mem s)(t := k1)" by (simp add: po(3) timer_pushed_def k1_def)
  let ?k = "f k1"
  have k1: "task_mem s1 t = k1" by (simp add: m)
  note f = f[unfolded k1] and tim = tim[unfolded k1] and sel = sel[unfolded k1] and fd = fd[unfolded k1]
  have keep: "handle ?k = handle (task_mem s t)" "fd_waiter ?k = fd_waiter (task_mem s t)"
    "select_waiters ?k = select_waiters (task_mem s t)"
    using f by (simp_all add: k1_def)
  have fr: "runq s1 = runq s" "runnable_count s1 = runnable_count s" "all_tasks s1 = all_tasks s"
    "channels s1 = channels s" "chan_mem s1 = chan_mem s" "handle_mem s1 = handle_mem s"
    "handles s1 = handles s" "sw_mem s1 = sw_mem s" "fw_mem s1 = fw_mem s" "fd_waiters s1 = fd_waiters s"
    "fd_waiting_count s1 = fd_waiting_count s" "live_count s1 = live_count s"
    by (simp_all add: s1)
  have it: "set (items (timers ?s)) = insert t (set (items (timers s)))"
    using arg_cong[OF po(2), of set_mset] by simp
  have l: "live (X - {t}) ?s u \<longleftrightarrow> live X s u \<or> u = t" for u
    using assms(2,3) by (auto simp: live_def fr)
  have neq: "state ?k \<noteq> MT_TASK_READY" "state ?k \<noteq> MT_TASK_DEAD" "\<not> waits_send e ?k"
    "\<not> waits_recv e ?k" "\<not> waits_join h ?k" for e h
    using tim by (auto simp: wf_waits)
  have pk: "parked_ok ?k" using tim by (auto simp: timed_def parked_ok_def)
  show ?thesis
  proof (rule wfI)
    show "wf_runq (X - {t}) ?s" using w(1) x neq(1) unfolding wf_runq_def l
      by (auto simp: runq_rep_def m fr split: if_splits)
    have "timers_ok ?s = timers_ok s1" by (rule timers_ok_cong) (auto simp: timer_key_def k1 f)
    then show "wf_timers (X - {t}) ?s" using w(2) x tim po(1) unfolding wf_timers_def l it
      by (auto simp: m split: if_splits)
    show "wf_send (X - {t}) ?s" using w(3) x neq(3) unfolding wf_send_def l
      by (auto simp: m fr split: if_splits)
    show "wf_recv (X - {t}) ?s" using w(4) x neq(4) unfolding wf_recv_def l
      by (auto simp: m fr split: if_splits)
    show "wf_joins (X - {t}) ?s" using w(6) x neq(5) unfolding wf_joins_def l
      by (auto simp: m fr split: if_splits)
    show "wf_chans ?s" by (rule wf_chans_step[OF w(5)]) (simp_all add: fr)
    have "select_ok ?s = select_ok s" by (rule select_ok_cong) (auto simp: fr)
    then have "select_ok ?s" using w(7) by (simp add: wf_select_def)
    then show "wf_select (X - {t}) ?s"
      by (rule wf_select_step[OF w(7)]) (use sel keep(3) in \<open>auto simp: m fr\<close>)
    show "wf_fds (X - {t}) ?s"
    proof (rule wf_fds_step[OF w(8)])
      fix u assume u: "u \<in> set (all_tasks s)" "u \<notin> X - {t}"
      show "u \<notin> X \<and> (state (task_mem ?s u) = MT_TASK_WAITING_FD) = (state (task_mem s u) = MT_TASK_WAITING_FD) \<or>
        state (task_mem ?s u) \<noteq> MT_TASK_WAITING_FD \<and>
          (\<forall>w. fd_waiter (task_mem s u) = Some w \<longrightarrow> \<not> mt_fd_waiter_is_active (fw_mem s w)) \<or>
        state (task_mem ?s u) = MT_TASK_WAITING_FD \<and>
          (\<exists>w. fd_waiter (task_mem s u) = Some w \<and> mt_fd_waiter_is_active (fw_mem s w))"
      proof (cases "u = t")
        case True
        then show ?thesis using fd by (simp add: m) blast
      qed (use u in \<open>simp add: m\<close>)
    qed (use keep(2) in \<open>auto simp: m fr\<close>)
    show "wf_handles ?s"
      by (rule wf_handles_step[OF w(9)]) (use assms(4) keep(1) in \<open>auto simp: m fr split: if_splits\<close>)
    show "wf_live (X - {t}) ?s"
      by (rule wf_live_step[OF w(10)]) (use assms(4) neq(2) pk in \<open>auto simp: m fr\<close>)
  qed
qed

section \<open>Selects\<close>

lemma wf_selectD:
  assumes "wf_select X s"
  shows "select_ok s"
    and "sw_active (sw_mem s w) \<Longrightarrow> sw_task (sw_mem s w) \<noteq> None"
    and "sw_active (sw_mem s w) \<Longrightarrow> sw_task (sw_mem s w) = Some t \<Longrightarrow>
      t \<in> set (all_tasks s) \<and> w \<in> set (select_waiters (task_mem s t))"
    and "t \<in> set (all_tasks s) \<Longrightarrow> w \<in> set (select_waiters (task_mem s t)) \<Longrightarrow>
      sw_active (sw_mem s w) \<and> sw_task (sw_mem s w) = Some t"
    and "live X s t \<Longrightarrow> state (task_mem s t) \<noteq> MT_TASK_WAITING_SELECT \<Longrightarrow>
      select_waiters (task_mem s t) = []"
  using assms unfolding wf_select_def by blast+

text \<open>Dropping the registrations of an exempt task.\<close>

lemma wf_select_dropped:
  assumes W: "wf_select X s" and t: "t \<in> X"
    and s': "sw_mem s' = deactivate_all (set (select_waiters (task_mem s t))) (sw_mem s)"
      "select_ok s'" "all_tasks s' = all_tasks s"
      "\<And>u. u \<noteq> t \<Longrightarrow> select_waiters (task_mem s' u) = select_waiters (task_mem s u)"
      "select_waiters (task_mem s' t) = []"
    and st: "\<And>u. u \<noteq> t \<Longrightarrow> state (task_mem s' u) = state (task_mem s u)"
    and X': "X - {t} \<subseteq> X'"
    and ta: "t \<in> set (all_tasks s)"
  shows "wf_select X' s'"
proof -
  let ?V = "set (select_waiters (task_mem s t))"
  have own: "sw_task (sw_mem s w) = Some t" if "w \<in> ?V" for w
    using wf_selectD(4)[OF W ta that] by simp
  have act: "sw_active (sw_mem s' w) \<longleftrightarrow> sw_active (sw_mem s w) \<and> w \<notin> ?V" for w
    by (simp add: s'(1) deactivate_all_def)
  have tsk: "sw_task (sw_mem s' w) = sw_task (sw_mem s w)" for w
    by (simp add: s'(1) deactivate_all_def)
  have ne: "u \<noteq> t" if "sw_active (sw_mem s' w)" "sw_task (sw_mem s w) = Some u" for w u
    using wf_selectD(3)[OF W, of w u] that unfolding act by blast
  show ?thesis
    unfolding wf_select_def live_def s'(3) tsk
  proof (intro conjI allI impI ballI)
    show "select_ok s'" by (rule s'(2))
  next
    fix w assume "sw_active (sw_mem s' w)"
    then show "sw_task (sw_mem s w) \<noteq> None" using wf_selectD(2)[OF W] unfolding act by blast
  next
    fix w u assume a: "sw_active (sw_mem s' w) \<and> sw_task (sw_mem s w) = Some u"
    then have "u \<noteq> t" using ne by blast
    then have "select_waiters (task_mem s' u) = select_waiters (task_mem s u)" by (rule s'(4))
    with a show "u \<in> set (all_tasks s)" "w \<in> set (select_waiters (task_mem s' u))"
      using wf_selectD(3)[OF W, of w u] unfolding act by auto
  next
    fix u w assume u: "u \<in> set (all_tasks s)" "w \<in> set (select_waiters (task_mem s' u))"
    then have ut: "u \<noteq> t" using s'(5) by auto
    with u have w: "w \<in> set (select_waiters (task_mem s u))" using s'(4) by simp
    then have o: "sw_active (sw_mem s w)" "sw_task (sw_mem s w) = Some u"
      using wf_selectD(4)[OF W u(1) w] by auto
    then show "sw_active (sw_mem s' w)" "sw_task (sw_mem s w) = Some u"
      using own[of w] ut unfolding act by auto
  next
    fix u assume u: "(u \<in> set (all_tasks s) \<and> u \<notin> X') \<and> state (task_mem s' u) \<noteq> MT_TASK_WAITING_SELECT"
    show "select_waiters (task_mem s' u) = []"
    proof (cases "u = t")
      case False
      then have "u \<notin> X" using u X' by blast
      moreover have "state (task_mem s u) \<noteq> MT_TASK_WAITING_SELECT" using u st[OF False] by simp
      ultimately have "select_waiters (task_mem s u) = []"
        using wf_selectD(5)[OF W, of u] u unfolding live_def by blast
      then show ?thesis by (simp add: s'(4)[OF False])
    qed (simp add: s'(5))
  qed
qed

text \<open>The channel queues of tasks do not change when registrations are dropped.\<close>

lemma wf_free_task_waiters:
  assumes "wf X s" and "t \<in> X" and "t \<in> set (all_tasks s)"
  shows "wf X (mt_select_free_task_waiters t s)" (is "wf X ?s")
proof -
  note w = wfD[OF assms(1)]
  have sok: "select_ok s" using w(7) by (simp add: wf_select_def)
  note eq = free_task_waiters_eq[OF sok, of t]
  let ?V = "set (select_waiters (task_mem s t))"
  let ?k = "(task_mem s t)\<lparr>select_waiters := [], select_waiter_count := 0\<rparr>"
  have l: "live X ?s u = live X s u" for u by (simp add: live_def eq)
  have tk: "timers_ok ?s = timers_ok s" by (rule timers_ok_cong) (auto simp: eq timer_key_def)
  have k: "state ?k = state (task_mem s t)" "timed ?k = timed (task_mem s t)"
    "waits_send c ?k = waits_send c (task_mem s t)" "waits_recv c ?k = waits_recv c (task_mem s t)"
    "waits_join h ?k = waits_join h (task_mem s t)" for c h by (simp_all add: wf_waits)
  have m: "P (task_mem ?s u) = P (task_mem s u)" if "P ?k = P (task_mem s t)" for P :: "mt_task \<Rightarrow> bool" and u
    using that by (simp add: eq)
  show ?thesis
  proof (rule wfI)
    show "wf_runq X ?s" using w(1) unfolding wf_runq_def l runq_rep_def by (simp add: eq k)
    show "wf_timers X ?s" using w(2) unfolding wf_timers_def l tk m[of timed, OF k(2)] by (simp add: eq)
    show "wf_send X ?s" using w(3) unfolding wf_send_def l m[of "waits_send c" for c, OF k(3)] by (simp add: eq)
    show "wf_recv X ?s" using w(4) unfolding wf_recv_def l m[of "waits_recv c" for c, OF k(4)] by (simp add: eq)
    show "wf_chans ?s" using w(5) by (simp add: wf_chans_def eq)
    show "wf_joins X ?s" using w(6) unfolding wf_joins_def l m[of "waits_join h" for h, OF k(5)] by (simp add: eq)
    have "select_ok (s\<lparr>chan_mem := drop_waiters ?V \<circ> chan_mem s, sw_mem := deactivate_all ?V (sw_mem s)\<rparr>)"
      by (rule select_ok_dropped[OF sok refl])
    moreover have "select_ok ?s = select_ok (s\<lparr>chan_mem := drop_waiters ?V \<circ> chan_mem s,
        sw_mem := deactivate_all ?V (sw_mem s)\<rparr>)" by (rule select_ok_cong) (simp_all add: eq)
    ultimately have "select_ok ?s" by simp
    then show "wf_select X ?s"
      by (rule wf_select_dropped[OF w(7) assms(2), rotated]) (use assms in \<open>auto simp: eq\<close>)
    show "wf_fds X ?s" by (rule wf_fds_step[OF w(8)]) (auto simp: eq)
    show "wf_handles ?s" by (rule wf_handles_step[OF w(9)]) (auto simp: eq split: if_splits)
    show "wf_live X ?s" by (rule wf_live_step[OF w(10)]) (use assms(2) in \<open>auto simp: eq\<close>)
  qed
qed

text \<open>A wake-up of a parked select is: drop the registrations, then make the task runnable.\<close>

lemma select_woken_eq:
  assumes "select_ok s"
  shows "select_woken t s = mt_task_mark_ready t (mt_select_free_task_waiters t
    (upd_task t (\<lambda>k. k\<lparr>select_in_timer := False, select_counted_waiting := False\<rparr>)
      (s\<lparr>channel_waiting_count := channel_waiting_count s -
        (if select_counted_waiting (task_mem s t) then 1 else 0)\<rparr>)))"
proof -
  let ?s = "upd_task t (\<lambda>k. k\<lparr>select_in_timer := False, select_counted_waiting := False\<rparr>)
      (s\<lparr>channel_waiting_count := channel_waiting_count s -
        (if select_counted_waiting (task_mem s t) then 1 else 0)\<rparr>)"
  have "select_ok ?s = select_ok s" by (rule select_ok_cong) simp_all
  with assms have "select_ok ?s" by simp
  note free = free_task_waiters_eq[OF this, of t]
  show ?thesis
    unfolding select_woken_def mark_ready_eq free
    by (rule arg_cong[of _ _ mt_notify_one], rule mt_state.equality) (simp_all add: task_eq)
qed

lemma wf_select_woken:
  assumes "wf X s" and "t \<in> X" and "t \<in> set (all_tasks s)" and "state (task_mem s t) \<noteq> MT_TASK_DEAD"
    and "\<forall>w. fd_waiter (task_mem s t) = Some w \<longrightarrow> \<not> mt_fd_waiter_is_active (fw_mem s w)"
  shows "wf (X - {t}) (select_woken t s)"
proof -
  have sok: "select_ok s" using wf_selectD(1)[OF wfD(7)[OF assms(1)]] .
  let ?s1 = "upd_task t (\<lambda>k. k\<lparr>select_in_timer := False, select_counted_waiting := False\<rparr>)
      (s\<lparr>channel_waiting_count := channel_waiting_count s -
        (if select_counted_waiting (task_mem s t) then 1 else 0)\<rparr>)"
  have w1: "wf X ?s1" by (rule wf_upd_task) (use assms in simp_all)
  then have w2: "wf X (mt_select_free_task_waiters t ?s1)"
    by (rule wf_free_task_waiters) (use assms in simp_all)
  have "select_ok ?s1" using wf_selectD(1)[OF wfD(7)[OF w1]] .
  note free = free_task_waiters_eq[OF this, of t]
  have "detached X (mt_select_free_task_waiters t ?s1) t"
    unfolding detached_def free using assms by simp
  with w2 show ?thesis unfolding select_woken_eq[OF sok] by (rule wf_mark_ready)
qed

lemma wf_unpark:
  assumes "wf X s" and "live X s t" and "state (task_mem s t) = MT_TASK_WAITING_SELECT"
  shows "wf X (mt_select_unpark_task t r i s)"
proof -
  have sok: "select_ok s" using wf_selectD(1)[OF wfD(7)[OF assms(1)]] .
  let ?u = "select_unqueued t s"
  have w1: "wf (insert t X) ?u"
  proof (cases "select_in_timer (task_mem s t)")
    case True
    then show ?thesis using wf_timer_remove[OF assms(1), of t] assms(3)
      by (simp add: select_unqueued_def)
  next
    case False
    then show ?thesis using wf_detach[OF assms(1), of t] assms(3)
      by (simp add: select_unqueued_def timed_def)
  qed
  have u: "state (task_mem ?u t) = MT_TASK_WAITING_SELECT" "all_tasks ?u = all_tasks s"
    "fw_mem ?u = fw_mem s" "fd_waiter (task_mem ?u t) = fd_waiter (task_mem s t)"
    using assms(3) by (simp_all add: select_unqueued_def timer_remove_eq)
  let ?s1 = "upd_task t (\<lambda>k. k\<lparr>select_result := r, select_index := i\<rparr>) ?u"
  have w2: "wf (insert t X) ?s1" by (rule wf_upd_task[OF w1]) simp_all
  have t: "t \<in> set (all_tasks s)" "t \<notin> X" using assms(2) by (simp_all add: live_def)
  have "wf (insert t X - {t}) (select_woken t ?s1)"
    by (rule wf_select_woken[OF w2]) (use u t no_active_fd[OF assms(1,2)] assms(3) in simp_all)
  then show ?thesis using t by (simp add: unpark_eq[OF sok])
qed

lemma wf_select_timeout:
  assumes "wf X s" and "t \<in> X" and "t \<in> set (all_tasks s)" and "state (task_mem s t) \<noteq> MT_TASK_DEAD"
    and "\<forall>w. fd_waiter (task_mem s t) = Some w \<longrightarrow> \<not> mt_fd_waiter_is_active (fw_mem s w)"
  shows "wf (X - {t}) (mt_select_timeout_ready t s)"
proof -
  have sok: "select_ok s" using wf_selectD(1)[OF wfD(7)[OF assms(1)]] .
  have "wf X (upd_task t (\<lambda>k. k\<lparr>select_result := MT_OK\<rparr>) s)"
    by (rule wf_upd_task[OF assms(1,2)]) simp_all
  then show ?thesis
    unfolding timeout_ready_eq[OF sok] by (rule wf_select_woken) (use assms in simp_all)
qed

text \<open>
  A channel operation takes a registration from the queue, moves the value (\<open>g\<close>, \<open>um\<close>) and
  completes the registration: together, the wake-up of its owner.
\<close>

lemma timers_without_cong:
  "task_mem s' = task_mem s \<Longrightarrow> timers s' = timers s \<Longrightarrow> timers_without t s' = timers_without t s"
  by (simp add: timers_without_def mt_timer_remove_def split: option.split)

lemma complete_popped:
  assumes wf: "wf X s" and w: "sw_active (sw_mem s w)" "sw_task (sw_mem s w) = Some t"
    and g: "\<And>W ch. drop_waiters W (g ch) = g (drop_waiters W ch)"
      "\<And>ch. select_send_q (g ch) = select_send_q ch" "\<And>ch. select_recv_q (g ch) = select_recv_q ch"
      "\<And>ch. select_send_waiters (g ch) = select_send_waiters ch"
      "\<And>ch. select_recv_waiters (g ch) = select_recv_waiters ch"
    and s1: "s1 = s\<lparr>chan_mem := drop_waiters {w} \<circ> chan_mem s, sw_mem := deactivate_all {w} (sw_mem s)\<rparr>"
  shows "mt_select_complete_waiter w r (upd_chan c g (s1\<lparr>user_mem := um\<rparr>)) =
    mt_select_unpark_task t r (sw_index (sw_mem s w)) (upd_chan c g (s\<lparr>user_mem := um\<rparr>))"
proof -
  note ws = wfD(7)[OF wf]
  let ?V = "set (select_waiters (task_mem s t))"
  have wV: "w \<in> ?V" using wf_selectD(3)[OF ws w] by blast
  let ?a = "upd_sw w (\<lambda>k. k\<lparr>sw_active := False\<rparr>) (upd_chan c g (s1\<lparr>user_mem := um\<rparr>))"
  let ?b = "upd_chan c g (s\<lparr>user_mem := um\<rparr>)"
  have d: "deactivate_all {w} (sw_mem s) w = (sw_mem s w)\<lparr>sw_active := False\<rparr>"
    by (simp add: deactivate_all_def)
  have dd: "(deactivate_all {w} (sw_mem s))(w := (deactivate_all {w} (sw_mem s) w)\<lparr>sw_active := False\<rparr>) =
      deactivate_all {w} (sw_mem s)" by (rule ext) (simp add: deactivate_all_def)
  have "select_ok s1" using select_ok_dropped[OF wf_selectD(1)[OF ws] s1] .
  moreover have "select_ok ?a = select_ok s1"
    by (rule select_ok_chan_cong) (auto simp: g s1 dd)
  ultimately have a: "select_ok ?a" by simp
  have "select_ok ?b = select_ok s" by (rule select_ok_chan_cong) (auto simp: g)
  then have b: "select_ok ?b" using wf_selectD(1)[OF ws] by simp
  have ins: "insert w ?V = ?V" using wV by blast
  have cm: "drop_waiters ?V \<circ> (drop_waiters {w} \<circ> chan_mem s)(c := g (drop_waiters {w} (chan_mem s c))) =
      drop_waiters ?V \<circ> (chan_mem s)(c := g (chan_mem s c))"
    by (rule ext) (simp add: g(1)[symmetric] drop_waiters_twice ins)
  have sm: "deactivate_all ?V (deactivate_all {w} (sw_mem s)) = deactivate_all ?V (sw_mem s)"
    by (simp add: deactivate_all_twice ins)
  have tm: "task_mem ?a = task_mem ?b" "timers ?a = timers ?b" by (simp_all add: s1)
  have tw: "timers_without t ?a = timers_without t ?b" by (rule timers_without_cong[OF tm])
  have "mt_select_complete_waiter w r (upd_chan c g (s1\<lparr>user_mem := um\<rparr>)) =
      mt_select_unpark_task t r (sw_index (sw_mem s w)) ?a"
    using w by (simp add: mt_select_complete_waiter_def s1 deactivate_all_def)
  also have "\<dots> = mt_select_unpark_task t r (sw_index (sw_mem s w)) ?b"
    unfolding unpark_eq[OF a] unpark_eq[OF b] select_woken_def select_unqueued_def
    by (rule arg_cong[of _ _ mt_notify_one], rule mt_state.equality)
      (simp_all add: timer_remove_eq tw, simp_all add: s1 dd sm cm)
  finally show ?thesis .
qed

end
