(* ===== verification/Invariant_Fds.thy ===== *)
theory Invariant_Fds
  imports Invariant_Moves
begin

text \<open>The invariant under descriptor waits, and under the birth and death of tasks.\<close>

section \<open>Deactivating a waiter\<close>

lemma backend_remove_fields [simp]:
  "fw_mem (mt_io_backend_remove w s) = fw_mem s"
  "fd_waiters (mt_io_backend_remove w s) = fd_waiters s"
  "fd_waiting_count (mt_io_backend_remove w s) = fd_waiting_count s"
  "chan_mem (mt_io_backend_remove w s) = chan_mem s"
  "channels (mt_io_backend_remove w s) = channels s"
  "handle_mem (mt_io_backend_remove w s) = handle_mem s"
  "handles (mt_io_backend_remove w s) = handles s"
  "sw_mem (mt_io_backend_remove w s) = sw_mem s"
  "runnable_count (mt_io_backend_remove w s) = runnable_count s"
  "live_count (mt_io_backend_remove w s) = live_count s"
  by (simp_all add: backend_remove_defs Let_def)

text \<open>What deactivation does to the fields the invariant reads.\<close>

lemma deactivate_fields:
  "fw_mem (snd (mt_fd_waiter_deactivate w b s)) = (fw_mem s)(w := (fw_mem s w)\<lparr>fw_state :=
     (if b then MT_FD_WAITER_READY_RESERVED else MT_FD_WAITER_REMOVED)\<rparr>)"
  "fd_waiters (snd (mt_fd_waiter_deactivate w b s)) = (if b then fd_waiters s else remove1 w (fd_waiters s))"
  "fd_waiting_count (snd (mt_fd_waiter_deactivate w b s)) =
     fd_waiting_count s - (if mt_fd_waiter_is_active (fw_mem s w) then 1 else 0)"
  by (auto simp: mt_fd_waiter_deactivate_def Let_def mt_fd_waiter_set_state_def mt_fd_waiter_unlink_def)

lemma deactivate_others [simp]:
  "chan_mem (snd (mt_fd_waiter_deactivate w b s)) = chan_mem s"
  "channels (snd (mt_fd_waiter_deactivate w b s)) = channels s"
  "handle_mem (snd (mt_fd_waiter_deactivate w b s)) = handle_mem s"
  "handles (snd (mt_fd_waiter_deactivate w b s)) = handles s"
  "sw_mem (snd (mt_fd_waiter_deactivate w b s)) = sw_mem s"
  "runnable_count (snd (mt_fd_waiter_deactivate w b s)) = runnable_count s"
  "live_count (snd (mt_fd_waiter_deactivate w b s)) = live_count s"
  by (simp_all add: mt_fd_waiter_deactivate_def Let_def mt_fd_waiter_set_state_def
      mt_fd_waiter_unlink_def)

text \<open>The parts of the invariant that do not mention descriptors.\<close>

lemma wf_fd_only:
  assumes "wf X s" and "wf_fds X s'"
    and "runq s' = runq s" "runnable_count s' = runnable_count s" "all_tasks s' = all_tasks s"
      "task_mem s' = task_mem s" "timers s' = timers s" "chan_mem s' = chan_mem s"
      "channels s' = channels s" "handle_mem s' = handle_mem s" "handles s' = handles s"
      "sw_mem s' = sw_mem s" "live_count s' = live_count s"
  shows "wf X s'"
proof (rule wfI)
  note w = wfD[OF assms(1)] and eq = assms(3-13)
  have tk: "timers_ok s' = timers_ok s" by (rule timers_ok_cong) (simp_all add: eq)
  have sk: "select_ok s' = select_ok s" by (rule select_ok_cong) (simp_all add: eq)
  show "wf_runq X s'" using w(1) unfolding wf_runq_def live_def runq_rep_def eq .
  show "wf_timers X s'" using w(2) unfolding wf_timers_def live_def tk eq .
  show "wf_send X s'" using w(3) unfolding wf_send_def live_def eq .
  show "wf_recv X s'" using w(4) unfolding wf_recv_def live_def eq .
  show "wf_chans s'" using w(5) unfolding wf_chans_def eq .
  show "wf_joins X s'" using w(6) unfolding wf_joins_def live_def eq .
  show "wf_select X s'" using w(7) unfolding wf_select_def live_def sk eq .
  show "wf_handles s'" using w(9) unfolding wf_handles_def eq .
  show "wf_live X s'" using w(10) unfolding wf_live_def live_def eq .
qed (rule assms(2))

lemma filter_deactivated:
  assumes "distinct ws" and "w \<in> set ws" and "\<And>v. Q v \<longleftrightarrow> P v \<and> v \<noteq> w"
  shows "length (filter Q ws) = length (filter P ws) - (if P w then 1 else 0)"
proof -
  have "filter Q ws = removeAll w (filter P ws)"
    by (auto simp: removeAll_filter_not_eq assms(3) intro!: filter_cong)
  also have "\<dots> = remove1 w (filter P ws)" using assms(1) by (simp add: distinct_remove1_removeAll)
  finally show ?thesis using assms(2) by (simp add: length_remove1)
qed

lemma wf_fdsD:
  assumes "wf_fds X s"
  shows "distinct (fd_waiters s)"
    and "fd_waiting_count s = length (filter (\<lambda>w. mt_fd_waiter_is_active (fw_mem s w)) (fd_waiters s))"
    and "w \<in> set (fd_waiters s) \<Longrightarrow> fw_task (fw_mem s w) \<noteq> None"
    and "w \<in> set (fd_waiters s) \<Longrightarrow> mt_fd_waiter_reserves_conflict (fw_mem s w)"
    and "w \<in> set (fd_waiters s) \<Longrightarrow> fw_task (fw_mem s w) = Some t \<Longrightarrow>
      t \<in> set (all_tasks s) \<and> fd_waiter (task_mem s t) = Some w \<and>
        (t \<in> X \<or> (mt_fd_waiter_is_active (fw_mem s w) \<longleftrightarrow> state (task_mem s t) = MT_TASK_WAITING_FD))"
    and "t \<in> set (all_tasks s) \<Longrightarrow> fd_waiter (task_mem s t) = Some w \<Longrightarrow>
      w \<in> set (fd_waiters s) \<and> fw_task (fw_mem s w) = Some t"
    and "live X s t \<Longrightarrow> state (task_mem s t) = MT_TASK_WAITING_FD \<Longrightarrow> fd_waiter (task_mem s t) \<noteq> None"
  using assms unfolding wf_fds_def by blast+

lemma wf_fd_reserve:
  assumes "wf X s" and "t \<in> X" and "t \<in> set (all_tasks s)" and "fd_waiter (task_mem s t) = Some w"
  shows "wf X (snd (mt_fd_waiter_deactivate w True s))" (is "wf X ?s")
proof (rule wf_fd_only[OF assms(1)])
  note f = wfD(8)[OF assms(1)]
  have w: "w \<in> set (fd_waiters s)" "fw_task (fw_mem s w) = Some t"
    using wf_fdsD(6)[OF f assms(3,4)] by auto
  have act: "mt_fd_waiter_is_active (fw_mem ?s v) \<longleftrightarrow> mt_fd_waiter_is_active (fw_mem s v) \<and> v \<noteq> w" for v
    by (simp add: deactivate_fields mt_fd_waiter_is_active_def)
  have tsk: "fw_task (fw_mem ?s v) = fw_task (fw_mem s v)" for v by (simp add: deactivate_fields)
  have res: "mt_fd_waiter_reserves_conflict (fw_mem ?s v)" if "v \<in> set (fd_waiters s)" for v
    using wf_fdsD(4)[OF f that] by (simp add: deactivate_fields mt_fd_waiter_reserves_conflict_def)
  have fw: "fd_waiters ?s = fd_waiters s" by (simp add: deactivate_fields)
  show "wf_fds X ?s"
    unfolding wf_fds_def fw tsk deactivate_frame deactivate_all_tasks live_def
  proof (intro conjI ballI allI impI)
    show "distinct (fd_waiters s)" by (rule wf_fdsD(1)[OF f])
    show "fd_waiting_count ?s = length (filter (\<lambda>w. mt_fd_waiter_is_active (fw_mem ?s w)) (fd_waiters s))"
      using filter_deactivated[OF wf_fdsD(1)[OF f] w(1) act] wf_fdsD(2)[OF f]
      by (simp add: deactivate_fields(3))
  next
    fix v assume v: "v \<in> set (fd_waiters s)"
    show "fw_task (fw_mem s v) \<noteq> None" by (rule wf_fdsD(3)[OF f v])
    show "mt_fd_waiter_reserves_conflict (fw_mem ?s v)" by (rule res[OF v])
    fix u assume u: "fw_task (fw_mem s v) = Some u"
    note uu = wf_fdsD(5)[OF f v u]
    show "u \<in> set (all_tasks s)" "fd_waiter (task_mem s u) = Some v" using uu by auto
    show "u \<in> X \<or> mt_fd_waiter_is_active (fw_mem ?s v) = (state (task_mem s u) = MT_TASK_WAITING_FD)"
      using uu act[of v] u w(2) assms(2) by auto
  next
    fix u v assume "u \<in> set (all_tasks s)" "fd_waiter (task_mem s u) = Some v"
    then show "v \<in> set (fd_waiters s)" "fw_task (fw_mem s v) = Some u" using wf_fdsD(6)[OF f] by blast+
  next
    fix u assume "(u \<in> set (all_tasks s) \<and> u \<notin> X) \<and> state (task_mem s u) = MT_TASK_WAITING_FD"
    then show "fd_waiter (task_mem s u) \<noteq> None" using wf_fdsD(7)[OF f] by (simp add: live_def)
  qed
qed simp_all

section \<open>Waking a descriptor waiter\<close>

text \<open>Deactivation and the removal of the timer touch different fields, so their order is free.\<close>

lemma deactivate_frames [simp]:
  "initialized (snd (mt_fd_waiter_deactivate w b s)) = initialized s"
  "running (snd (mt_fd_waiter_deactivate w b s)) = running s"
  "stopping (snd (mt_fd_waiter_deactivate w b s)) = stopping s"
  by (simp_all add: mt_fd_waiter_deactivate_def Let_def mt_fd_waiter_set_state_def mt_fd_waiter_unlink_def
      backend_remove_defs)

definition set_timer :: "mt_timer_heap \<Rightarrow> (tptr \<Rightarrow> mt_task) \<Rightarrow> mt_state \<Rightarrow> mt_state" where
  "set_timer hp m s = s\<lparr>timers := hp, task_mem := m\<rparr>"

lemma backend_remove_set_timer:
  "mt_io_backend_remove w (set_timer hp m s) = set_timer hp m (mt_io_backend_remove w s)"
  by (simp add: set_timer_def backend_remove_defs
      mt_fd_active_events_for_fd_def Let_def)

lemma upd_fw_set_timer: "upd_fw w f (set_timer hp m s) = set_timer hp m (upd_fw w f s)"
  by (simp add: set_timer_def upd_fw_def)

lemma notify_all_set_timer: "mt_notify_all (set_timer hp m s) = set_timer hp m (mt_notify_all s)"
  by (simp add: set_timer_def mt_notify_all_def mt_io_backend_wake_def)

lemma fields_set_timer [simp]:
  "fw_mem (set_timer hp m s) = fw_mem s" "fd_waiting_count (set_timer hp m s) = fd_waiting_count s"
  "fd_waiters (set_timer hp m s) = fd_waiters s"
  "(set_timer hp m s)\<lparr>fd_waiting_count := n\<rparr> = set_timer hp m (s\<lparr>fd_waiting_count := n\<rparr>)"
  "(set_timer hp m s)\<lparr>fd_waiters := ws\<rparr> = set_timer hp m (s\<lparr>fd_waiters := ws\<rparr>)"
  by (simp_all add: set_timer_def)

lemma deactivate_set_timer:
  "snd (mt_fd_waiter_deactivate w b (set_timer hp m s)) =
     set_timer hp m (snd (mt_fd_waiter_deactivate w b s))"
  by (simp add: mt_fd_waiter_deactivate_def Let_def mt_fd_waiter_set_state_def mt_fd_waiter_unlink_def
      upd_fw_set_timer backend_remove_set_timer notify_all_set_timer)

lemma deactivate_timer_remove:
  "snd (mt_timer_remove t (snd (mt_fd_waiter_deactivate w b s))) =
     snd (mt_fd_waiter_deactivate w b (snd (mt_timer_remove t s)))"
proof -
  let ?d = "snd (mt_fd_waiter_deactivate w b s)"
  have tw: "timers_without t ?d = timers_without t s" by (rule timers_without_cong) simp_all
  have r: "snd (mt_timer_remove t s') = set_timer (timers_without t s')
      ((task_mem s')(t := (task_mem s' t)\<lparr>wake_ns :=
        if t \<in> set (items (timers s')) then 0 else wake_ns (task_mem s' t)\<rparr>)) s'" for s'
    by (simp add: timer_remove_eq set_timer_def)
  show ?thesis unfolding r deactivate_set_timer tw by simp
qed

lemma timer_remove_state [simp]: "state (task_mem (snd (mt_timer_remove t s)) t) = state (task_mem s t)"
  by (simp add: timer_remove_eq)

lemma upd_task_twice: "upd_task t f (upd_task t g s) = upd_task t (\<lambda>k. f (g k)) s"
  by (simp add: upd_task_def)

lemma wf_fd_ready:
  assumes wf: "wf X s" and w: "w \<in> set (fd_waiters s)" "fw_task (fw_mem s w) = Some t"
    and t: "t \<notin> X" "state (task_mem s t) = MT_TASK_WAITING_FD"
  shows "wf X (mt_fd_ready_waiter w r e s)"
proof -
  note f = wfD(8)[OF wf]
  have ta: "t \<in> set (all_tasks s)" and fw: "fd_waiter (task_mem s t) = Some w"
    using wf_fdsD(5)[OF f w] by auto
  let ?r = "if fd_in_timer (task_mem s t) then snd (mt_timer_remove t s) else s"
  have w1: "wf (insert t X) ?r"
  proof (cases "fd_in_timer (task_mem s t)")
    case True
    then show ?thesis using wf_timer_remove[OF wf, of t] t(2) by simp
  next
    case False
    then show ?thesis using wf_detach[OF wf, of t] t(2) by (simp add: timed_def)
  qed
  have rf: "all_tasks ?r = all_tasks s" "fd_waiter (task_mem ?r t) = Some w"
    "state (task_mem ?r t) = MT_TASK_WAITING_FD" "fd_in_timer (task_mem ?r t) = fd_in_timer (task_mem s t)"
    "select_waiters (task_mem ?r t) = select_waiters (task_mem s t)"
    using fw t(2) by (simp_all add: timer_remove_eq)
  let ?d = "snd (mt_fd_waiter_deactivate w True ?r)"
  have w2: "wf (insert t X) ?d" by (rule wf_fd_reserve[OF w1]) (use rf ta in simp_all)
  have sel: "select_waiters (task_mem s t) = []"
    using no_waiters[OF wf, of t] ta t by (simp add: live_def)
  let ?g = "\<lambda>k :: mt_task. k\<lparr>fd_in_timer := False, fd_result := r, fd_ready_events := e\<rparr>"
  have w3: "wf (insert t X) (upd_task t ?g ?d)" by (rule wf_upd_task[OF w2]) (use rf in simp_all)
  have dt: "detached (insert t X) (upd_task t ?g ?d) t"
    unfolding detached_def using rf sel ta by (simp add: deactivate_fields mt_fd_waiter_is_active_def)
  have "mt_fd_ready_waiter w r e s = mt_task_mark_ready t (upd_task t ?g ?d)"
  proof (cases "fd_in_timer (task_mem s t)")
    case True
    then show ?thesis
      using w(2) t(2) by (simp add: mt_fd_ready_waiter_def Let_def deactivate_timer_remove upd_task_twice)
  next
    case False
    then have "mt_fd_ready_waiter w r e s = mt_task_mark_ready t
        (upd_task t (\<lambda>k. k\<lparr>fd_result := r, fd_ready_events := e\<rparr>) ?d)"
      using w(2) t(2) by (simp add: mt_fd_ready_waiter_def Let_def)
    also have "\<dots> = mt_task_mark_ready t (upd_task t ?g ?d)"
      by (rule arg_cong[of _ _ "mt_task_mark_ready t"], rule mt_state.equality)
        (use False in \<open>simp_all add: task_eq\<close>)
    finally show ?thesis .
  qed
  moreover have "insert t X - {t} = X" using t(1) by simp
  ultimately show ?thesis using wf_mark_ready[OF w3 dt] by simp
qed

lemma wf_fd_timeout:
  assumes wf: "wf X s" and t: "t \<in> X" "t \<in> set (all_tasks s)" "state (task_mem s t) \<noteq> MT_TASK_DEAD"
    "select_waiters (task_mem s t) = []"
  shows "wf (X - {t}) (mt_fd_timeout_ready t s)"
proof -
  let ?s1 = "upd_task t (\<lambda>k. k\<lparr>fd_in_timer := False\<rparr>) s"
  have w1: "wf X ?s1" by (rule wf_upd_task[OF wf t(1)]) simp_all
  let ?s2 = "case fd_waiter (task_mem s t) of None \<Rightarrow> ?s1 | Some w \<Rightarrow> snd (mt_fd_waiter_deactivate w True ?s1)"
  have w2: "wf X ?s2"
    using w1 wf_fd_reserve[OF w1 t(1)] t(2) by (auto split: option.split)
  have m2: "task_mem ?s2 = task_mem ?s1" "all_tasks ?s2 = all_tasks s"
    by (simp_all split: option.split)
  let ?g = "\<lambda>k :: mt_task. k\<lparr>fd_result := MT_ERR_TIMEOUT, fd_ready_events := 0\<rparr>"
  have w3: "wf X (upd_task t ?g ?s2)" by (rule wf_upd_task[OF w2 t(1)]) (simp_all add: m2)
  have "detached X (upd_task t ?g ?s2) t"
    unfolding detached_def using t m2
    by (auto simp: deactivate_fields mt_fd_waiter_is_active_def)
  moreover have "mt_fd_timeout_ready t s = mt_task_mark_ready t (upd_task t ?g ?s2)"
    by (simp add: mt_fd_timeout_ready_def Let_def)
  ultimately show ?thesis using wf_mark_ready[OF w3] by simp
qed

end
