(* ===== verification/Invariant_Life.thy ===== *)
theory Invariant_Life
  imports Invariant_Fds
begin

text \<open>The invariant under the birth and death of tasks and of their handles.\<close>

section \<open>Dropping the descriptor waiter of an exempt task\<close>

lemma wf_fd_task:
  assumes "wf X s" and "t \<in> X" and "wf_fds X s'"
    and tm: "\<And>u. u \<noteq> t \<Longrightarrow> task_mem s' u = task_mem s u"
    and keep: "handle (task_mem s' t) = handle (task_mem s t)" "state (task_mem s' t) = state (task_mem s t)"
      "select_waiters (task_mem s' t) = select_waiters (task_mem s t)"
    and eq: "runq s' = runq s" "runnable_count s' = runnable_count s" "all_tasks s' = all_tasks s"
      "timers s' = timers s" "chan_mem s' = chan_mem s" "channels s' = channels s"
      "handle_mem s' = handle_mem s" "handles s' = handles s" "sw_mem s' = sw_mem s"
      "live_count s' = live_count s"
  shows "wf X s'"
proof (rule wfI)
  note w = wfD[OF assms(1)]
  have l: "live X s' u = live X s u" for u by (simp add: live_def eq)
  have x: "\<not> live X s t" using assms(2) by (simp add: live_def)
  have q: "live X s u \<and> P (task_mem s' u) \<longleftrightarrow> live X s u \<and> P (task_mem s u)" for u P
    using tm[of u] x by metis
  have f: "handle (task_mem s' u) = handle (task_mem s u)" "state (task_mem s' u) = state (task_mem s u)"
    "select_waiters (task_mem s' u) = select_waiters (task_mem s u)" for u
    using tm[of u] keep by (cases "u = t", simp_all)+
  have tt: "t \<notin> set (items (timers s))" using x w(2) by (simp add: wf_timers_def)
  have "task_mem s' u = task_mem s u" if "u \<in> set (items (timers s))" for u
    using tt tm that by metis
  then have tk: "timers_ok s' = timers_ok s"
    by (intro timers_ok_cong) (auto simp: eq timer_key_def)
  have sk: "select_ok s' = select_ok s" by (rule select_ok_cong) (simp_all add: eq)
  show "wf_runq X s'" using w(1) unfolding wf_runq_def l runq_rep_def eq f .
  show "wf_timers X s'" using w(2) unfolding wf_timers_def l tk eq q .
  show "wf_send X s'" using w(3) unfolding wf_send_def l eq q .
  show "wf_recv X s'" using w(4) unfolding wf_recv_def l eq q .
  show "wf_chans s'" using w(5) unfolding wf_chans_def eq .
  show "wf_joins X s'" using w(6) unfolding wf_joins_def l eq q .
  show "wf_select X s'" using w(7) unfolding wf_select_def l sk eq f .
  show "wf_handles s'" using w(9) unfolding wf_handles_def eq f .
  have "live X s u \<longrightarrow> P (task_mem s' u) \<longleftrightarrow> live X s u \<longrightarrow> P (task_mem s u)" for u P
    using tm[of u] x by metis
  then show "wf_live X s'" using w(10) unfolding wf_live_def l eq f by metis
qed (rule assms(3))

lemma wf_fds_dropped:
  assumes f: "wf_fds X s" and t: "t \<in> X" "t \<in> set (all_tasks s)" "fd_waiter (task_mem s t) = Some w"
    and s': "all_tasks s' = all_tasks s" "fd_waiters s' = remove1 w (fd_waiters s)"
      "fw_mem s' = (fw_mem s)(w := (fw_mem s w)\<lparr>fw_state := MT_FD_WAITER_REMOVED\<rparr>)"
      "fd_waiting_count s' = fd_waiting_count s - (if mt_fd_waiter_is_active (fw_mem s w) then 1 else 0)"
      "fd_waiter (task_mem s' t) = None"
    and tm: "\<And>u. u \<noteq> t \<Longrightarrow> task_mem s' u = task_mem s u"
  shows "wf_fds X s'"
proof -
  have w: "w \<in> set (fd_waiters s)" "fw_task (fw_mem s w) = Some t"
    using wf_fdsD(6)[OF f t(2,3)] by auto
  note d = wf_fdsD(1)[OF f]
  have act: "mt_fd_waiter_is_active (fw_mem s' v) \<longleftrightarrow> mt_fd_waiter_is_active (fw_mem s v) \<and> v \<noteq> w" for v
    by (simp add: s' mt_fd_waiter_is_active_def)
  have tsk: "fw_task (fw_mem s' v) = fw_task (fw_mem s v)" for v by (simp add: s')
  have mem: "v \<in> set (fd_waiters s') \<longleftrightarrow> v \<in> set (fd_waiters s) \<and> v \<noteq> w" for v
    using d by (auto simp: s')
  let ?a = "\<lambda>v. mt_fd_waiter_is_active (fw_mem s' v)"
  have "filter ?a (fd_waiters s') = filter ?a (fd_waiters s)"
    by (simp add: s'(2) filter_remove1 act remove1_idem)
  then have cnt: "fd_waiting_count s' = length (filter ?a (fd_waiters s'))"
    using filter_deactivated[OF d w(1) act] wf_fdsD(2)[OF f] by (simp add: s'(4))
  show ?thesis
    unfolding wf_fds_def tsk live_def s'(1)
  proof (intro conjI ballI allI impI)
    show "distinct (fd_waiters s')" using d by (simp add: s')
    show "fd_waiting_count s' = length (filter ?a (fd_waiters s'))" by (rule cnt)
  next
    fix v assume v': "v \<in> set (fd_waiters s')"
    then have v: "v \<in> set (fd_waiters s)" "v \<noteq> w" by (simp_all add: mem)
    show "fw_task (fw_mem s v) \<noteq> None" by (rule wf_fdsD(3)[OF f v(1)])
    show "mt_fd_waiter_reserves_conflict (fw_mem s' v)"
      using wf_fdsD(4)[OF f v(1)] v(2) by (simp add: s')
    fix u assume u: "fw_task (fw_mem s v) = Some u"
    note uu = wf_fdsD(5)[OF f v(1) u]
    have "u \<noteq> t" using uu t(3) v(2) by auto
    then show "u \<in> set (all_tasks s)" "fd_waiter (task_mem s' u) = Some v"
      "u \<in> X \<or> ?a v = (state (task_mem s' u) = MT_TASK_WAITING_FD)"
      using uu v(2) by (simp_all add: act tm)
  next
    fix u v assume u: "u \<in> set (all_tasks s)" "fd_waiter (task_mem s' u) = Some v"
    then have "u \<noteq> t" using s'(5) by auto
    then have "v \<in> set (fd_waiters s) \<and> fw_task (fw_mem s v) = Some u"
      using wf_fdsD(6)[OF f u(1)] u(2) by (simp add: tm)
    with \<open>u \<noteq> t\<close> w(2) show "v \<in> set (fd_waiters s')" "fw_task (fw_mem s v) = Some u"
      by (auto simp: mem)
  next
    fix u assume u: "(u \<in> set (all_tasks s) \<and> u \<notin> X) \<and> state (task_mem s' u) = MT_TASK_WAITING_FD"
    then have "u \<noteq> t" using t(1) by auto
    then show "fd_waiter (task_mem s' u) \<noteq> None"
      using wf_fdsD(7)[OF f, of u] u by (simp add: live_def tm)
  qed
qed

text \<open>The removal a dying task performs, twice: once explicitly and once when freeing.\<close>

lemma wf_fd_drop:
  assumes "wf X s" and "t \<in> X" and "t \<in> set (all_tasks s)" and "fd_waiter (task_mem s t) = Some w"
    and f: "fd_waiter (f (task_mem s t)) = None" "handle (f (task_mem s t)) = handle (task_mem s t)"
      "state (f (task_mem s t)) = state (task_mem s t)"
      "select_waiters (f (task_mem s t)) = select_waiters (task_mem s t)"
  shows "wf X (upd_task t f (mt_fd_free_waiter w (snd (mt_fd_waiter_remove w s))))" (is "wf X ?s")
proof -
  have d: "distinct (fd_waiters s)" by (rule wf_fdsD(1)[OF wfD(8)[OF assms(1)]])
  have "wf_fds X ?s"
    by (rule wf_fds_dropped[OF wfD(8)[OF assms(1)] assms(2-4)])
      (use f d in \<open>auto simp: mt_fd_free_waiter_def mt_fd_waiter_remove_def deactivate_fields
        remove1_idem mt_fd_waiter_is_active_def\<close>)
  then show ?thesis
    by (rule wf_fd_task[OF assms(1,2)])
      (use f in \<open>simp_all add: mt_fd_free_waiter_def mt_fd_waiter_remove_def\<close>)
qed

section \<open>Death\<close>

lemma wf_fds_tasks:
  assumes f: "wf_fds X s" and eq: "fd_waiters s' = fd_waiters s" "fw_mem s' = fw_mem s"
      "fd_waiting_count s' = fd_waiting_count s"
    and new: "\<And>u. u \<in> set (all_tasks s') \<Longrightarrow>
      u \<in> set (all_tasks s) \<and> fd_waiter (task_mem s' u) = fd_waiter (task_mem s u) \<and>
        state (task_mem s' u) = state (task_mem s u) \<and> (u \<in> X \<longrightarrow> u \<in> X') \<or>
      fd_waiter (task_mem s' u) = None \<and> state (task_mem s' u) \<noteq> MT_TASK_WAITING_FD"
    and old: "\<And>u. u \<in> set (all_tasks s) \<Longrightarrow> fd_waiter (task_mem s u) \<noteq> None \<Longrightarrow>
      u \<in> set (all_tasks s') \<and> fd_waiter (task_mem s' u) = fd_waiter (task_mem s u) \<and>
        state (task_mem s' u) = state (task_mem s u) \<and> (u \<in> X \<longrightarrow> u \<in> X')"
  shows "wf_fds X' s'"
  unfolding wf_fds_def eq live_def
proof (intro conjI ballI allI impI)
  show "distinct (fd_waiters s)" by (rule wf_fdsD(1)[OF f])
  show "fd_waiting_count s = length (filter (\<lambda>w. mt_fd_waiter_is_active (fw_mem s w)) (fd_waiters s))"
    by (rule wf_fdsD(2)[OF f])
next
  fix w assume w: "w \<in> set (fd_waiters s)"
  show "fw_task (fw_mem s w) \<noteq> None" by (rule wf_fdsD(3)[OF f w])
  show "mt_fd_waiter_reserves_conflict (fw_mem s w)" by (rule wf_fdsD(4)[OF f w])
  fix u assume "fw_task (fw_mem s w) = Some u"
  note u = wf_fdsD(5)[OF f w this]
  then show "u \<in> set (all_tasks s')" "fd_waiter (task_mem s' u) = Some w"
    "u \<in> X' \<or> mt_fd_waiter_is_active (fw_mem s w) = (state (task_mem s' u) = MT_TASK_WAITING_FD)"
    using old[of u] by auto
next
  fix u w assume u: "u \<in> set (all_tasks s')" "fd_waiter (task_mem s' u) = Some w"
  then have "u \<in> set (all_tasks s)" "fd_waiter (task_mem s u) = Some w" using new[of u] by auto
  then show "w \<in> set (fd_waiters s)" "fw_task (fw_mem s w) = Some u" using wf_fdsD(6)[OF f] by blast+
next
  fix u assume "(u \<in> set (all_tasks s') \<and> u \<notin> X') \<and> state (task_mem s' u) = MT_TASK_WAITING_FD"
  then show "fd_waiter (task_mem s' u) \<noteq> None"
    using new[of u] wf_fdsD(7)[OF f, of u] by (auto simp: live_def)
qed

lemma wf_select_tasks:
  assumes w: "wf_select X s" and eq: "sw_mem s' = sw_mem s" and ok: "select_ok s'"
    and new: "\<And>u. u \<in> set (all_tasks s') \<Longrightarrow>
      u \<in> set (all_tasks s) \<and> select_waiters (task_mem s' u) = select_waiters (task_mem s u) \<and>
        state (task_mem s' u) = state (task_mem s u) \<and> (u \<in> X \<longrightarrow> u \<in> X') \<or>
      select_waiters (task_mem s' u) = []"
    and old: "\<And>u. u \<in> set (all_tasks s) \<Longrightarrow> select_waiters (task_mem s u) \<noteq> [] \<Longrightarrow>
      u \<in> set (all_tasks s') \<and> select_waiters (task_mem s' u) = select_waiters (task_mem s u)"
  shows "wf_select X' s'"
  unfolding wf_select_def eq live_def
proof (intro conjI ballI allI impI)
  show "select_ok s'" by (rule ok)
next
  fix v assume "sw_active (sw_mem s v)"
  then show "sw_task (sw_mem s v) \<noteq> None" by (rule wf_selectD(2)[OF w])
next
  fix v u assume "sw_active (sw_mem s v) \<and> sw_task (sw_mem s v) = Some u"
  then have u: "u \<in> set (all_tasks s)" "v \<in> set (select_waiters (task_mem s u))"
    using wf_selectD(3)[OF w] by blast+
  then have "select_waiters (task_mem s u) \<noteq> []" by auto
  from old[OF u(1) this] u(2)
  show "u \<in> set (all_tasks s')" "v \<in> set (select_waiters (task_mem s' u))" by auto
next
  fix u v assume u: "u \<in> set (all_tasks s')" "v \<in> set (select_waiters (task_mem s' u))"
  then have "u \<in> set (all_tasks s)" "v \<in> set (select_waiters (task_mem s u))"
    using new[OF u(1)] by auto
  then show "sw_active (sw_mem s v)" "sw_task (sw_mem s v) = Some u" using wf_selectD(4)[OF w] by blast+
next
  fix u assume "(u \<in> set (all_tasks s') \<and> u \<notin> X') \<and> state (task_mem s' u) \<noteq> MT_TASK_WAITING_SELECT"
  then show "select_waiters (task_mem s' u) = []"
    using new[of u] wf_selectD(5)[OF w, of u] by (auto simp: live_def)
qed

lemma wf_handlesD:
  assumes "wf_handles s"
  shows "distinct (handles s)"
    and "t \<in> set (all_tasks s) \<Longrightarrow> state (task_mem s t) \<noteq> MT_TASK_DEAD \<Longrightarrow> handle (task_mem s t) = Some h \<Longrightarrow>
      h \<in> set (handles s) \<and> h_task (handle_mem s h) = Some t"
    and "h \<in> set (handles s) \<Longrightarrow> h_task (handle_mem s h) = Some t \<Longrightarrow>
      t \<in> set (all_tasks s) \<and> handle (task_mem s t) = Some h \<and> \<not> completed (handle_mem s h)"
    and "join_q (handle_mem s h) \<noteq> [] \<Longrightarrow> h \<in> set (handles s) \<and> \<not> completed (handle_mem s h)"
  using assms unfolding wf_handles_def by blast+

lemma wf_handlesI:
  assumes "distinct (handles s)"
    and "\<And>t h. t \<in> set (all_tasks s) \<Longrightarrow> state (task_mem s t) \<noteq> MT_TASK_DEAD \<Longrightarrow>
      handle (task_mem s t) = Some h \<Longrightarrow> h \<in> set (handles s) \<and> h_task (handle_mem s h) = Some t"
    and "\<And>h t. h \<in> set (handles s) \<Longrightarrow> h_task (handle_mem s h) = Some t \<Longrightarrow>
      t \<in> set (all_tasks s) \<and> handle (task_mem s t) = Some h \<and> \<not> completed (handle_mem s h)"
    and "\<And>h. join_q (handle_mem s h) \<noteq> [] \<Longrightarrow> h \<in> set (handles s) \<and> \<not> completed (handle_mem s h)"
  shows "wf_handles s"
  using assms unfolding wf_handles_def by blast

text \<open>Tasks come and go, handles stay.\<close>

lemma wf_handles_tasks:
  assumes w: "wf_handles s" and eq: "handles s' = handles s" "handle_mem s' = handle_mem s"
    and new: "\<And>u. u \<in> set (all_tasks s') \<Longrightarrow> state (task_mem s' u) \<noteq> MT_TASK_DEAD \<Longrightarrow>
      handle (task_mem s' u) \<noteq> None \<Longrightarrow> u \<in> set (all_tasks s) \<and>
        handle (task_mem s' u) = handle (task_mem s u) \<and> state (task_mem s u) \<noteq> MT_TASK_DEAD"
    and old: "\<And>h u. h \<in> set (handles s) \<Longrightarrow> h_task (handle_mem s h) = Some u \<Longrightarrow>
      u \<in> set (all_tasks s') \<and> handle (task_mem s' u) = handle (task_mem s u)"
  shows "wf_handles s'"
  unfolding wf_handles_def eq
proof (intro conjI ballI allI impI)
  show "distinct (handles s)" by (rule wf_handlesD(1)[OF w])
next
  fix u h assume "u \<in> set (all_tasks s')" "state (task_mem s' u) \<noteq> MT_TASK_DEAD" "handle (task_mem s' u) = Some h"
  then show "h \<in> set (handles s)" "h_task (handle_mem s h) = Some u"
    using new[of u] wf_handlesD(2)[OF w, of u h] by auto
next
  fix h u assume h: "h \<in> set (handles s)" "h_task (handle_mem s h) = Some u"
  show "u \<in> set (all_tasks s')" "handle (task_mem s' u) = Some h" "\<not> completed (handle_mem s h)"
    using old[OF h] wf_handlesD(3)[OF w h] by auto
next
  fix h assume "join_q (handle_mem s h) \<noteq> []"
  then show "h \<in> set (handles s)" "\<not> completed (handle_mem s h)" using wf_handlesD(4)[OF w] by blast+
qed

lemma wf_die:
  assumes "wf X s" and "t \<in> X" and "t \<in> set (all_tasks s)" and "state (task_mem s t) \<noteq> MT_TASK_DEAD"
  shows "wf X ((mt_task_mark_dead t s)\<lparr>live_count := live_count s - 1\<rparr>)"
proof -
  note w = wfD[OF assms(1)]
  define r where "r = (mt_task_mark_dead t s)\<lparr>live_count := live_count s - 1\<rparr>"
  have m: "task_mem r = (task_mem s)(t := (task_mem s t)\<lparr>state := MT_TASK_DEAD\<rparr>)"
    and fr: "runq r = runq s" "runnable_count r = runnable_count s" "all_tasks r = all_tasks s"
      "timers r = timers s" "channels r = channels s" "chan_mem r = chan_mem s"
      "handle_mem r = handle_mem s" "handles r = handles s" "sw_mem r = sw_mem s"
      "fw_mem r = fw_mem s" "fd_waiters r = fd_waiters s" "fd_waiting_count r = fd_waiting_count s"
    by (simp_all add: r_def mt_task_mark_dead_def)
  have lc: "live_count r = live_count s - 1" by (simp add: r_def)
  have l: "live X r u = live X s u" for u by (simp add: live_def fr)
  have x: "\<not> live X s t" using assms(2) by (simp add: live_def)
  have tt: "t \<notin> set (items (timers s))" using x w(2) by (simp add: wf_timers_def)
  have tk: "timers_ok r = timers_ok s"
    by (rule timers_ok_cong) (use tt in \<open>auto simp: m fr timer_key_def\<close>)
  have "wf X r"
  proof (rule wfI)
    show "wf_runq X r" using w(1) x unfolding wf_runq_def l by (auto simp: runq_rep_def m fr)
    show "wf_timers X r" using w(2) x unfolding wf_timers_def l tk by (auto simp: m fr)
    show "wf_send X r" using w(3) x unfolding wf_send_def l by (auto simp: m fr)
    show "wf_recv X r" using w(4) x unfolding wf_recv_def l by (auto simp: m fr)
    show "wf_joins X r" using w(6) x unfolding wf_joins_def l by (auto simp: m fr)
    show "wf_chans r" by (rule wf_chans_step[OF w(5)]) (simp_all add: fr)
    have "select_ok r = select_ok s" by (rule select_ok_cong) (simp_all add: fr)
    then have "select_ok r" using w(7) by (simp add: wf_select_def)
    then show "wf_select X r" by (rule wf_select_step[OF w(7)]) (use assms(2) in \<open>auto simp: m fr\<close>)
    show "wf_fds X r" by (rule wf_fds_step[OF w(8)]) (use assms(2) in \<open>auto simp: m fr\<close>)
    show "wf_handles r"
      by (rule wf_handles_step[OF w(9)]) (use assms(4) in \<open>auto simp: m fr split: if_splits\<close>)
    have d: "distinct (all_tasks s)" using w(10) by (simp add: wf_live_def)
    have "length (filter (\<lambda>u. state (task_mem r u) \<noteq> MT_TASK_DEAD) (all_tasks s)) =
        length (filter (\<lambda>u. state (task_mem s u) \<noteq> MT_TASK_DEAD) (all_tasks s)) -
          (if state (task_mem s t) \<noteq> MT_TASK_DEAD then 1 else 0)"
      by (rule filter_deactivated[OF d assms(3)]) (simp add: m)
    then show "wf_live X r"
      using w(10) assms(2,4) unfolding wf_live_def l by (auto simp: m fr lc live_def)
  qed
  then show ?thesis by (simp add: r_def)
qed

text \<open>A dead task with nothing attached leaves the registry, and its memory is then nobody's.\<close>

lemma wf_unregister:
  assumes "wf X s" and "t \<in> X" and "state (task_mem s t) = MT_TASK_DEAD"
    and "select_waiters (task_mem s t) = []" and "fd_waiter (task_mem s t) = None"
    and "\<forall>h \<in> set (handles s). h_task (handle_mem s h) \<noteq> Some t"
  shows "wf (X - {t}) (mt_task_unregister t s)" (is "wf _ ?s")
proof (rule wfI)
  note w = wfD[OF assms(1)]
  have d: "distinct (all_tasks s)" using w(10) by (simp add: wf_live_def)
  have al: "set (all_tasks ?s) = set (all_tasks s) - {t}" using d by simp
  have l: "live (X - {t}) ?s u = live X s u" for u using assms(2) d by (auto simp: live_def)
  have tk: "timers_ok ?s = timers_ok s" by (rule timers_ok_cong) simp_all
  have sk: "select_ok ?s = select_ok s" by (rule select_ok_cong) simp_all
  show "wf_runq (X - {t}) ?s" using w(1) unfolding wf_runq_def l by (simp add: runq_rep_def)
  show "wf_timers (X - {t}) ?s" using w(2) unfolding wf_timers_def l tk by simp
  show "wf_send (X - {t}) ?s" using w(3) unfolding wf_send_def l by simp
  show "wf_recv (X - {t}) ?s" using w(4) unfolding wf_recv_def l by simp
  show "wf_joins (X - {t}) ?s" using w(6) unfolding wf_joins_def l by simp
  show "wf_chans ?s" by (rule wf_chans_step[OF w(5)]) simp_all
  show "wf_select (X - {t}) ?s"
    by (rule wf_select_tasks[OF w(7)])
      (use wf_selectD(1)[OF w(7)] sk assms(4) d in \<open>auto split: if_splits\<close>)
  show "wf_fds (X - {t}) ?s"
    by (rule wf_fds_tasks[OF w(8)]) (use assms(5) d in \<open>auto split: if_splits\<close>)
  show "wf_handles ?s" by (rule wf_handles_tasks[OF w(9)]) (use assms(3,6) d wf_handlesD(3)[OF w(9)] in \<open>auto split: if_splits\<close>)
  have "length (filter P (remove1 t (all_tasks s))) = length (filter P (all_tasks s))"
    if "\<not> P t" for P using that by (simp add: filter_remove1 remove1_idem)
  then show "wf_live (X - {t}) ?s" using w(10) assms(3) unfolding wf_live_def l by simp
qed

lemma wf_upd_unregistered:
  assumes "wf X s" and "t \<notin> set (all_tasks s)"
  shows "wf X (upd_task t f s)" (is "wf X ?s")
proof (rule wfI)
  note w = wfD[OF assms(1)]
  have l: "live X ?s u = live X s u" for u by (simp add: live_def)
  have x: "\<not> live X s t" using assms(2) by (simp add: live_def)
  have tt: "t \<notin> set (items (timers s))" using x w(2) by (simp add: wf_timers_def)
  have tk: "timers_ok ?s = timers_ok s" by (rule timers_ok_cong) (use tt in \<open>auto simp: timer_key_def\<close>)
  have sk: "select_ok ?s = select_ok s" by (rule select_ok_cong) simp_all
  have m: "u \<in> set (all_tasks s) \<Longrightarrow> task_mem ?s u = task_mem s u" for u using assms(2) by auto
  show "wf_runq X ?s" using w(1) x unfolding wf_runq_def l by (auto simp: runq_rep_def)
  show "wf_timers X ?s" using w(2) x unfolding wf_timers_def l tk by auto
  show "wf_send X ?s" using w(3) x unfolding wf_send_def l by auto
  show "wf_recv X ?s" using w(4) x unfolding wf_recv_def l by auto
  show "wf_joins X ?s" using w(6) x unfolding wf_joins_def l by auto
  show "wf_chans ?s" by (rule wf_chans_step[OF w(5)]) simp_all
  show "wf_select X ?s"
    by (rule wf_select_tasks[OF w(7)]) (use wf_selectD(1)[OF w(7)] sk m in simp_all)
  show "wf_fds X ?s" by (rule wf_fds_tasks[OF w(8)]) (use m in simp_all)
  show "wf_handles ?s" by (rule wf_handles_tasks[OF w(9)]) (use m wf_handlesD(3)[OF w(9)] in auto)
  have "filter (\<lambda>u. state (task_mem ?s u) \<noteq> MT_TASK_DEAD) (all_tasks s) =
      filter (\<lambda>u. state (task_mem s u) \<noteq> MT_TASK_DEAD) (all_tasks s)"
    by (rule filter_cong) (use assms(2) in auto)
  then show "wf_live X ?s" using w(10) x unfolding wf_live_def l upd_task_frame by (metis m live_def)
qed

lemma wf_task_destroy:
  assumes wf: "wf X s" and t: "t \<in> X" "t \<in> set (all_tasks s)" "state (task_mem s t) = MT_TASK_DEAD"
    and h: "\<forall>h \<in> set (handles s). h_task (handle_mem s h) \<noteq> Some t"
  shows "wf (X - {t}) (mt_task_destroy t s)"
proof -
  have sok: "select_ok s" by (rule wf_selectD(1)[OF wfD(7)[OF wf]])
  note eq = free_task_waiters_eq[OF sok, of t]
  let ?a = "mt_select_free_task_waiters t s"
  have a: "wf X ?a" by (rule wf_free_task_waiters[OF wf t(1,2)])
  let ?f = "\<lambda>k :: mt_task. k\<lparr>fd_waiter := None, fd_in_timer := False\<rparr>"
  let ?b = "case fd_waiter (task_mem ?a t) of None \<Rightarrow> ?a | Some w \<Rightarrow>
    upd_task t ?f (mt_fd_free_waiter w (snd (mt_fd_waiter_remove w ?a)))"
  have b: "wf X ?b"
    using a wf_fd_drop[OF a t(1), of _ ?f] t(2) by (auto split: option.split)
  have at: "state (task_mem ?a t) = MT_TASK_DEAD" "select_waiters (task_mem ?a t) = []"
    "handles ?a = handles s" "handle_mem ?a = handle_mem s" using t(3) by (simp_all add: eq)
  have bt: "state (task_mem ?b t) = MT_TASK_DEAD" "select_waiters (task_mem ?b t) = []"
    "fd_waiter (task_mem ?b t) = None" "handles ?b = handles s" "handle_mem ?b = handle_mem s"
    using at by (simp_all add: mt_fd_free_waiter_def mt_fd_waiter_remove_def split: option.split)
  have "wf (X - {t}) (mt_task_unregister t ?b)"
    by (rule wf_unregister[OF b t(1) bt(1-3)]) (unfold bt, rule h)
  moreover have "t \<notin> set (all_tasks (mt_task_unregister t ?b))"
    using wfD(10)[OF b] by (simp add: wf_live_def)
  ultimately show ?thesis unfolding mt_task_destroy_def free_task_stack_def Let_def by (intro wf_upd_unregistered) simp_all
qed

section \<open>Handles\<close>

lemma wf_upd_handle:
  assumes "wf X s" and "wf_handles (upd_handle h f s)"
    and "join_q (f (handle_mem s h)) = join_q (handle_mem s h)"
      "join_waiters (f (handle_mem s h)) = join_waiters (handle_mem s h)"
  shows "wf X (upd_handle h f s)" (is "wf X ?s")
proof (rule wfI)
  note w = wfD[OF assms(1)]
  have l: "live X ?s u = live X s u" for u by (simp add: live_def)
  have tk: "timers_ok ?s = timers_ok s" by (rule timers_ok_cong) simp_all
  have sk: "select_ok ?s = select_ok s" by (rule select_ok_cong) simp_all
  have q: "join_q (handle_mem ?s k) = join_q (handle_mem s k)"
    "join_waiters (handle_mem ?s k) = join_waiters (handle_mem s k)" for k using assms(3,4) by auto
  show "wf_runq X ?s" using w(1) unfolding wf_runq_def l by (simp add: runq_rep_def)
  show "wf_timers X ?s" using w(2) unfolding wf_timers_def l tk by simp
  show "wf_send X ?s" using w(3) unfolding wf_send_def l by simp
  show "wf_recv X ?s" using w(4) unfolding wf_recv_def l by simp
  show "wf_joins X ?s" using w(6) unfolding wf_joins_def l q by simp
  show "wf_chans ?s" by (rule wf_chans_step[OF w(5)]) simp_all
  show "wf_select X ?s" by (rule wf_select_step[OF w(7)]) (use wf_selectD(1)[OF w(7)] sk in simp_all)
  show "wf_fds X ?s" by (rule wf_fds_step[OF w(8)]) simp_all
  show "wf_live X ?s" by (rule wf_live_step[OF w(10)]) simp_all
qed (rule assms(2))

text \<open>Fields of a handle the invariant does not read.\<close>

lemma wf_handle_flags:
  assumes "wf X s"
    and "\<And>k. join_q (f k) = join_q k \<and> join_waiters (f k) = join_waiters k \<and>
      h_task (f k) = h_task k \<and> completed (f k) = completed k"
  shows "wf X (upd_handle h f s)"
proof (rule wf_upd_handle[OF assms(1)])
  show "wf_handles (upd_handle h f s)"
    by (rule wf_handles_join[OF wfD(9)[OF assms(1)]]) (use assms(2) in \<open>auto split: if_splits\<close>)
qed (use assms(2) in simp_all)

lemma wf_set_handle_status:
  assumes "wf X s"
  shows "wf X (set_handle_status t st s)"
proof -
  have "wf X (upd_handle h (\<lambda>k. k\<lparr>h_status := (if cancel_requested k then MT_TASK_STATUS_CANCELLED else st)\<rparr>) s)"
    for h by (rule wf_handle_flags[OF assms]) simp
  then show ?thesis using assms by (simp add: set_handle_status_def split: option.split)
qed

text \<open>The handle of a dead task forgets it, and completes once nobody waits.\<close>

lemma wf_handle_forget:
  assumes "wf X s"
    and dead: "\<And>u. u \<in> set (all_tasks s) \<Longrightarrow> handle (task_mem s u) = Some h \<Longrightarrow> state (task_mem s u) = MT_TASK_DEAD"
    and f: "\<And>k. join_q (f k) = join_q k \<and> join_waiters (f k) = join_waiters k \<and>
      h_task (f k) = None \<and> completed (f k) = completed k"
  shows "wf X (upd_handle h f s)"
proof (rule wf_upd_handle[OF assms(1)])
  note w = wfD(9)[OF assms(1)]
  show "wf_handles (upd_handle h f s)"
  proof (rule wf_handlesI, goal_cases)
    case (2 t k)
    then show ?case using wf_handlesD(2)[OF w, of t k] dead[of t] by auto
  next
    case (3 k t)
    then show ?case using wf_handlesD(3)[OF w, of k t] f by (auto split: if_splits)
  next
    case (4 k)
    then show ?case using wf_handlesD(4)[OF w, of k] f by (auto split: if_splits)
  qed (simp add: wf_handlesD(1)[OF w])
qed (use f in simp_all)

lemma wf_handle_completed:
  assumes "wf X s" and "join_q (handle_mem s h) = []" and "h_task (handle_mem s h) = None"
  shows "wf X (upd_handle h (\<lambda>k. k\<lparr>completed := True\<rparr>) s)"
proof (rule wf_upd_handle[OF assms(1)])
  note w = wfD(9)[OF assms(1)]
  show "wf_handles (upd_handle h (\<lambda>k. k\<lparr>completed := True\<rparr>) s)"
  proof (rule wf_handlesI, goal_cases)
    case (2 t k)
    then show ?case using wf_handlesD(2)[OF w, of t k] by auto
  next
    case (3 k t)
    then show ?case using wf_handlesD(3)[OF w, of k t] assms(3) by (auto split: if_splits)
  next
    case (4 k)
    then show ?case using wf_handlesD(4)[OF w, of k] assms(2) by (auto split: if_splits)
  qed (simp add: wf_handlesD(1)[OF w])
qed simp_all

lemma wf_handle_free:
  assumes "wf X s"
  shows "wf X (mt_handle_free_if_possible h s)"
proof (cases "\<not> released (handle_mem s h) \<or> h_task (handle_mem s h) \<noteq> None \<or> join_waiters (handle_mem s h) \<noteq> 0")
  case False
  let ?s = "mt_handle_unregister h s"
  note w = wfD[OF assms(1)]
  have l: "live X ?s u = live X s u" for u by (simp add: live_def)
  have tk: "timers_ok ?s = timers_ok s" by (rule timers_ok_cong) simp_all
  have sk: "select_ok ?s = select_ok s" by (rule select_ok_cong) simp_all
  have jq: "join_q (handle_mem s h) = []" using w(6) False by (auto simp: wf_joins_def)
  have d: "distinct (handles s)" by (rule wf_handlesD(1)[OF w(9)])
  have "wf X ?s"
  proof (rule wfI)
    show "wf_runq X ?s" using w(1) unfolding wf_runq_def l by (simp add: runq_rep_def)
    show "wf_timers X ?s" using w(2) unfolding wf_timers_def l tk by simp
    show "wf_send X ?s" using w(3) unfolding wf_send_def l by simp
    show "wf_recv X ?s" using w(4) unfolding wf_recv_def l by simp
    show "wf_joins X ?s" using w(6) unfolding wf_joins_def l by simp
    show "wf_chans ?s" by (rule wf_chans_step[OF w(5)]) simp_all
    show "wf_select X ?s" by (rule wf_select_step[OF w(7)]) (use wf_selectD(1)[OF w(7)] sk in simp_all)
    show "wf_fds X ?s" by (rule wf_fds_step[OF w(8)]) simp_all
    show "wf_live X ?s" by (rule wf_live_step[OF w(10)]) simp_all
    show "wf_handles ?s"
    proof (rule wf_handlesI, goal_cases)
      case (2 t k)
      then have "k \<in> set (handles s) \<and> h_task (handle_mem s k) = Some t"
        using wf_handlesD(2)[OF w(9), of t k] by simp
      then show ?case using False d by auto
    next
      case (3 k t)
      then show ?case using wf_handlesD(3)[OF w(9), of k t] d by auto
    next
      case (4 k)
      then show ?case using wf_handlesD(4)[OF w(9), of k] jq d by auto
    qed (use d in simp)
  qed
  then show ?thesis using False by (simp add: mt_handle_free_if_possible_def)
qed (use assms in \<open>simp add: mt_handle_free_if_possible_def\<close>)

end
