(* ===== verification/Preserve_Task.thy ===== *)
theory Preserve_Task
  imports Invariant_Life
begin

text \<open>Tasks and handles: every operation of \<^verbatim>\<open>join.c\<close> and \<^verbatim>\<open>task.c\<close> keeps the invariant.\<close>

section \<open>Completing a handle\<close>

text \<open>
  The code sets \<^verbatim>\<open>completed\<close> before it wakes the joiners. Waking does not read the flag, so the two
  can be exchanged, and then the invariant holds at every point.
\<close>

lemma mt_handle_eq_iff:
  "(a :: mt_task_handle) = b \<longleftrightarrow> h_task a = h_task b \<and> h_status a = h_status b \<and>
     cancel_requested a = cancel_requested b \<and> completed a = completed b \<and> released a = released b \<and>
     h_join_result a = h_join_result b \<and> join_q a = join_q b \<and> join_waiters a = join_waiters b"
  by (cases a; cases b) simp

lemma upd_handle_cong:
  "f (handle_mem s h) = g (handle_mem s h) \<Longrightarrow> upd_handle h f s = upd_handle h g s"
  by (simp add: upd_handle_def)

lemma upd_handle_twice: "upd_handle h f (upd_handle h g s) = upd_handle h (\<lambda>k. f (g k)) s"
  by (simp add: upd_handle_def)

lemma join_ready_upd_handle:
  "mt_join_waiter_ready t r (upd_handle h f s) = upd_handle h f (mt_join_waiter_ready t r s)"
  by (simp add: mt_join_waiter_ready_def task_state_ops Let_def upd_defs)

lemma join_pop_completed:
  "join_pop h (upd_handle h (\<lambda>k. k\<lparr>completed := b\<rparr>) s) =
     (fst (join_pop h s), upd_handle h (\<lambda>k. k\<lparr>completed := b\<rparr>) (snd (join_pop h s)))"
proof -
  obtain t q n where p: "mt_chan_waitq_pop (join_q (handle_mem s h), join_waiters (handle_mem s h)) = (t, q, n)"
    by (rule prod_cases3)
  have "upd_handle h (\<lambda>k. k\<lparr>join_q := q, join_waiters := n\<rparr>) (upd_handle h (\<lambda>k. k\<lparr>completed := b\<rparr>) s) =
      upd_handle h (\<lambda>k. k\<lparr>completed := b\<rparr>) (upd_handle h (\<lambda>k. k\<lparr>join_q := q, join_waiters := n\<rparr>) s)"
    unfolding upd_handle_twice by (rule upd_handle_cong) (simp add: mt_handle_eq_iff)
  then show ?thesis unfolding join_pop_def Let_def p by (simp del: mt_chan_waitq_pop.simps add: p)
qed

lemma handle_self_update [simp]: "join_q k = [] \<Longrightarrow> k\<lparr>join_q := []\<rparr> = k"
  by (cases k) simp

lemma join_pop_Nil: "join_q (handle_mem s h) = [] \<Longrightarrow> join_pop h s = (None, s)"
  by (simp add: join_pop_def upd_handle_def)

lemma wake_joiners_completed:
  "wake_joiners h (upd_handle h (\<lambda>k. k\<lparr>completed := b\<rparr>) s) =
     upd_handle h (\<lambda>k. k\<lparr>completed := b\<rparr>) (wake_joiners h s)"
proof (induction h s rule: wake_joiners.induct)
  case (1 h s)
  show ?case
  proof (cases "join_pop h s")
    case (Pair p s')
    then show ?thesis
      using 1[OF Pair[symmetric]]
      by (subst (1 2) wake_joiners.simps)
        (simp add: join_pop_completed join_ready_upd_handle split: option.split)
  qed
qed

lemma wf_join_ready:
  "wf X s \<Longrightarrow> detached X s t \<Longrightarrow> wf (X - {t}) (mt_join_waiter_ready t r s)"
  unfolding mt_join_waiter_ready_def by (rule wf_complete_join_wait)

lemma join_ready_frame [simp]:
  "all_tasks (mt_join_waiter_ready t r s) = all_tasks s"
  "handles (mt_join_waiter_ready t r s) = handles s"
  "t \<noteq> u \<Longrightarrow> task_mem (mt_join_waiter_ready t r s) u = task_mem s u"
  by (simp_all add: mt_join_waiter_ready_def task_state_ops Let_def)

lemma wf_wake_joiners:
  "wf X s \<Longrightarrow> wf X (wake_joiners h s) \<and> join_q (handle_mem (wake_joiners h s) h) = [] \<and>
     all_tasks (wake_joiners h s) = all_tasks s \<and> handles (wake_joiners h s) = handles s \<and>
     (\<forall>k. h_task (handle_mem (wake_joiners h s) k) = h_task (handle_mem s k) \<and>
       completed (handle_mem (wake_joiners h s) k) = completed (handle_mem s k) \<and>
       released (handle_mem (wake_joiners h s) k) = released (handle_mem s k)) \<and>
     (\<forall>t \<in> X. task_mem (wake_joiners h s) t = task_mem s t)"
proof (induction h s rule: wake_joiners.induct)
  case (1 h s)
  show ?case
  proof (cases "join_q (handle_mem s h)")
    case Nil
    then have "wake_joiners h s = s" by (subst wake_joiners.simps) (simp add: join_pop_Nil)
    with 1(2) Nil show ?thesis by simp
  next
    case (Cons t q)
    then obtain s' where pop: "join_pop h s = (Some t, s')" by (simp add: join_pop_def)
    note p = wf_join_pop[OF 1(2) pop]
    have hm: "h_task (handle_mem s' k) = h_task (handle_mem s k)"
      "completed (handle_mem s' k) = completed (handle_mem s k)"
      "released (handle_mem s' k) = released (handle_mem s k)" and tm: "task_mem s' = task_mem s" for k
      using pop by (auto simp: join_pop_def Let_def split: prod.splits if_splits)
    let ?r = "mt_join_waiter_ready t (h_join_result (handle_mem s' h)) s'"
    have "wf X ?r" using wf_join_ready[OF p(1,2)] p(3) by simp
    note ih = 1(1)[OF pop[symmetric] refl this]
    have "wake_joiners h s = wake_joiners h ?r" using pop by (subst wake_joiners.simps) simp
    moreover have "\<forall>u \<in> X. task_mem ?r u = task_mem s u"
    proof
      fix u assume "u \<in> X"
      then have "t \<noteq> u" using p(3) by auto
      then show "task_mem ?r u = task_mem s u" by (simp add: tm)
    qed
    ultimately show ?thesis using ih hm p(4,5) by simp
  qed
qed

text \<open>The handle of a task that has just died.\<close>

lemma wf_handle_complete:
  assumes wf: "wf X s"
    and dead: "\<And>u. u \<in> set (all_tasks s) \<Longrightarrow> handle (task_mem s u) = Some h \<Longrightarrow> state (task_mem s u) = MT_TASK_DEAD"
    and nc: "\<not> completed (handle_mem s h)" and r: "r = mt_handle_complete h c s"
  shows "wf X r"
    and "all_tasks r = all_tasks s" and "\<And>t. t \<in> X \<Longrightarrow> task_mem r t = task_mem s t"
    and "set (handles r) \<subseteq> set (handles s)" and "h_task (handle_mem r h) = None"
    and "\<And>k. k \<noteq> h \<Longrightarrow> h_task (handle_mem r k) = h_task (handle_mem s k)"
proof -
  let ?f = "\<lambda>k :: mt_task_handle. k\<lparr>h_task := None,
    h_status := (if c then MT_TASK_STATUS_CANCELLED else MT_TASK_STATUS_DONE),
    h_join_result := (if c then MT_ERR_CANCELLED else MT_OK)\<rparr>"
  let ?a = "upd_handle h ?f s"
  have a: "wf X ?a" by (rule wf_handle_forget[OF wf]) (use dead in auto)
  note j = wf_wake_joiners[OF a, of h]
  let ?b = "upd_handle h (\<lambda>k. k\<lparr>completed := True\<rparr>) (wake_joiners h ?a)"
  have b: "wf X ?b" by (rule wf_handle_completed) (use j in simp_all)
  have "upd_handle h (\<lambda>k. k\<lparr>completed := True, h_task := None,
      h_status := (if c then MT_TASK_STATUS_CANCELLED else MT_TASK_STATUS_DONE),
      h_join_result := (if c then MT_ERR_CANCELLED else MT_OK)\<rparr>) s =
    upd_handle h (\<lambda>k. k\<lparr>completed := True\<rparr>) ?a"
    unfolding upd_handle_twice by (rule upd_handle_cong) (simp add: mt_handle_eq_iff)
  then have s: "r = mt_handle_free_if_possible h ?b"
    unfolding r mt_handle_complete_def Let_def using nc wake_joiners_completed[of h True ?a] by simp
  show "wf X r" unfolding s by (rule wf_handle_free[OF b])
  have fr: "all_tasks r = all_tasks ?b" "task_mem r = task_mem ?b" "handle_mem r = handle_mem ?b"
    "set (handles r) \<subseteq> set (handles ?b)"
    unfolding s mt_handle_free_if_possible_def by (simp_all add: set_remove1_subset)
  show "all_tasks r = all_tasks s" "\<And>t. t \<in> X \<Longrightarrow> task_mem r t = task_mem s t"
    "h_task (handle_mem r h) = None" "\<And>k. k \<noteq> h \<Longrightarrow> h_task (handle_mem r k) = h_task (handle_mem s k)"
    unfolding fr using j by simp_all
  show "set (handles r) \<subseteq> set (handles s)" using fr(4) j by simp
qed

text \<open>The end of a task: it dies, its handle completes, and it is destroyed.\<close>

lemma wf_retire:
  assumes wf: "wf X s" and t: "t \<in> X" "t \<in> set (all_tasks s)" "state (task_mem s t) \<noteq> MT_TASK_DEAD"
  shows "wf (X - {t}) (mt_task_destroy t (case handle (task_mem s t) of
     None \<Rightarrow> (mt_task_mark_dead t s)\<lparr>live_count := live_count s - 1, completed_count := n\<rparr>
   | Some h \<Rightarrow> mt_handle_complete h c
       ((mt_task_mark_dead t s)\<lparr>live_count := live_count s - 1, completed_count := n\<rparr>)))"
proof -
  define r where "r = (mt_task_mark_dead t s)\<lparr>live_count := live_count s - 1, completed_count := n\<rparr>"
  have "wf X ((mt_task_mark_dead t s)\<lparr>live_count := live_count s - 1\<rparr>)" by (rule wf_die[OF wf t])
  moreover have "r = ((mt_task_mark_dead t s)\<lparr>live_count := live_count s - 1\<rparr>)\<lparr>completed_count := n\<rparr>"
    by (simp add: r_def)
  ultimately have w: "wf X r" by simp
  have r: "all_tasks r = all_tasks s" "handles r = handles s" "handle_mem r = handle_mem s"
    "task_mem r = (task_mem s)(t := (task_mem s t)\<lparr>state := MT_TASK_DEAD\<rparr>)"
    by (simp_all add: r_def mt_task_mark_dead_def)
  note wh = wfD(9)[OF wf]
  show ?thesis
  proof (cases "handle (task_mem s t)")
    case None
    have "wf (X - {t}) (mt_task_destroy t r)"
      by (rule wf_task_destroy[OF w t(1)]) (use t r None wf_handlesD(3)[OF wh] in auto)
    with None show ?thesis by (simp add: r_def)
  next
    case (Some h)
    have h: "h_task (handle_mem s h) = Some t" "\<not> completed (handle_mem s h)"
      using wf_handlesD(2)[OF wh t(2,3) Some] wf_handlesD(3)[OF wh] by blast+
    have dead: "state (task_mem r u) = MT_TASK_DEAD" if "u \<in> set (all_tasks r)" "handle (task_mem r u) = Some h" for u
      using that wf_handlesD(2)[OF wh, of u h] h(1) by (auto simp: r split: if_splits)
    have nc: "\<not> completed (handle_mem r h)" using h(2) by (simp add: r)
    note c = wf_handle_complete[OF w dead nc refl, where c = c]
    have nt: "h_task (handle_mem (mt_handle_complete h c r) k) \<noteq> Some t"
      if "k \<in> set (handles (mt_handle_complete h c r))" for k
    proof (cases "k = h")
      case False
      then show ?thesis using c(4,6) wf_handlesD(3)[OF wh, of k t] that Some r by auto
    qed (use c(5) in simp)
    have "wf (X - {t}) (mt_task_destroy t (mt_handle_complete h c r))"
      by (rule wf_task_destroy[OF c(1) t(1)]) (use c(2,3) r t(1,2) nt in simp_all)
    with Some show ?thesis by (simp add: r_def)
  qed
qed

end
