(* ===== verification/Preserve_Create.thy ===== *)
theory Preserve_Create
  imports Preserve_Task
begin

text \<open>Initialisation and the creation of tasks establish and keep the invariant.\<close>

section \<open>An empty runtime\<close>

lemma wf_empty:
  assumes "fresh_runtime s"
    and "\<And>c. send_q (chan_mem s c) = [] \<and> recv_q (chan_mem s c) = [] \<and> select_send_q (chan_mem s c) = [] \<and>
      select_recv_q (chan_mem s c) = [] \<and> send_waiters (chan_mem s c) = 0 \<and> recv_waiters (chan_mem s c) = 0 \<and>
      select_send_waiters (chan_mem s c) = 0 \<and> select_recv_waiters (chan_mem s c) = 0"
    and "\<And>h. join_q (handle_mem s h) = [] \<and> join_waiters (handle_mem s h) = 0"
    and "\<And>w. \<not> sw_active (sw_mem s w)"
  shows "wf {} s"
proof -
  note f = assms(1)[unfolded fresh_runtime_def]
  have "select_ok s"
    using assms(2,4) by (simp add: select_ok_def select_chan_ok_def linked_send_def linked_recv_def)
  moreover have "timers_ok s" using f by (simp add: timers_ok_def is_heap_def)
  ultimately show ?thesis
    using f assms(2-4) by (simp add: wf_def wf_parts live_def runq_rep_def)
qed

text \<open>Conversely, the invariant of a runtime without tasks, channels and handles says its memory is quiet.\<close>

lemma wf_quiet:
  assumes wf: "wf {} s" and e: "all_tasks s = []" "channels s = []" "handles s = []"
  shows "send_q (chan_mem s c) = [] \<and> recv_q (chan_mem s c) = [] \<and> select_send_q (chan_mem s c) = [] \<and>
      select_recv_q (chan_mem s c) = [] \<and> send_waiters (chan_mem s c) = 0 \<and> recv_waiters (chan_mem s c) = 0 \<and>
      select_send_waiters (chan_mem s c) = 0 \<and> select_recv_waiters (chan_mem s c) = 0"
    and "join_q (handle_mem s h) = [] \<and> join_waiters (handle_mem s h) = 0"
    and "\<not> sw_active (sw_mem s w)"
proof -
  note w = wfD[OF wf]
  have q: "send_q (chan_mem s c) = []" "recv_q (chan_mem s c) = []" "select_send_q (chan_mem s c) = []"
    "select_recv_q (chan_mem s c) = []" using w(5) e(2) by (simp_all add: wf_chans_def)
  moreover have "send_waiters (chan_mem s c) = length (send_q (chan_mem s c))"
    "recv_waiters (chan_mem s c) = length (recv_q (chan_mem s c))"
    using w(3,4) by (simp_all add: wf_send_def wf_recv_def)
  moreover have "select_chan_ok s c" using wf_selectD(1)[OF w(7)] by (simp add: select_ok_def)
  then have "select_send_waiters (chan_mem s c) = length (select_send_q (chan_mem s c))"
    "select_recv_waiters (chan_mem s c) = length (select_recv_q (chan_mem s c))"
    by (simp_all add: select_chan_ok_def)
  ultimately show "send_q (chan_mem s c) = [] \<and> recv_q (chan_mem s c) = [] \<and> select_send_q (chan_mem s c) = [] \<and>
      select_recv_q (chan_mem s c) = [] \<and> send_waiters (chan_mem s c) = 0 \<and> recv_waiters (chan_mem s c) = 0 \<and>
      select_send_waiters (chan_mem s c) = 0 \<and> select_recv_waiters (chan_mem s c) = 0" by simp
  have "join_q (handle_mem s h) = []" using wf_handlesD(4)[OF w(9), of h] e(3) by auto
  moreover have "join_waiters (handle_mem s h) = length (join_q (handle_mem s h))"
    using w(6) by (simp add: wf_joins_def)
  ultimately show "join_q (handle_mem s h) = [] \<and> join_waiters (handle_mem s h) = 0" by simp
  show "\<not> sw_active (sw_mem s w)"
    using wf_selectD(2)[OF w(7), of w] wf_selectD(3)[OF w(7), of w] e(1) by auto
qed

section \<open>Initialisation\<close>

text \<open>
  The invariant between operations: an uninitialised runtime owns nothing.
\<close>

definition runtime_inv :: "mt_state \<Rightarrow> bool" where
  "runtime_inv s \<longleftrightarrow> wf {} s \<and>
     (\<not> initialized s \<longrightarrow> all_tasks s = [] \<and> channels s = [] \<and> handles s = [])"

lemma runtime_inv_zero: "runtime_inv zero_state"
proof -
  have "wf {} zero_state"
    by (rule wf_empty) (simp_all add: zero_state_def fresh_runtime_def zero_chan_def zero_handle_def zero_sw_def)
  then show ?thesis by (simp add: runtime_inv_def zero_state_def)
qed

lemma io_backend_init_objects:
  "mt_io_backend_init env s = (rc, s') \<Longrightarrow>
     chan_mem s' = chan_mem s \<and> handle_mem s' = handle_mem s \<and> sw_mem s' = sw_mem s"
  by (auto simp: backend_init_defs Let_def split: option.splits if_splits)

lemma io_backend_shutdown_objects [simp]:
  "chan_mem (mt_io_backend_shutdown s) = chan_mem s" "handle_mem (mt_io_backend_shutdown s) = handle_mem s"
  "sw_mem (mt_io_backend_shutdown s) = sw_mem s"
  by (simp_all add: backend_shutdown_defs Let_def)

lemma clear_runtime_objects [simp]:
  "chan_mem (clear_runtime s) = chan_mem s" "handle_mem (clear_runtime s) = handle_mem s"
  "sw_mem (clear_runtime s) = sw_mem s"
  by (cases s; simp add: clear_runtime_def mt_runtime.defs zero_state_def)+

lemma runtime_inv_init:
  assumes inv: "runtime_inv s" and init: "mt_init_with_options opts env s = (rc, s')"
  shows "runtime_inv s' \<and> all_tasks s' = all_tasks s \<and> channels s' = channels s \<and> handles s' = handles s"
proof (cases "initialized s \<or> s' = s")
  case True
  with inv init show ?thesis by (auto simp: mt_init_with_options_def)
next
  case False
  have e: "all_tasks s = []" "channels s = []" "handles s = []" and wf: "wf {} s"
    using inv False by (simp_all add: runtime_inv_def)
  let ?n = "case opts of None \<Rightarrow> 0 | Some n \<Rightarrow> n"
  let ?s = "(clear_runtime s)\<lparr>default_stack_size := (if ?n \<noteq> 0 then ?n else MT_DEFAULT_STACK_SIZE),
      io_backend_kind := MT_IO_BACKEND_NONE, io_backend_fd := - 1,
      io_wake_read_fd := - 1, io_wake_write_fd := - 1\<rparr>"
  let ?b = "?s\<lparr>sys_calls := sys_calls s @ [SysAcquire RuntimeMutex, SysAcquire RuntimeCond, SysAcquire SchedulerContext]\<rparr>"
  obtain rc1 s1 where io: "mt_io_backend_init env ?b = (rc1, s1)" by (cases "mt_io_backend_init env ?b")
  note fr = io_backend_init_frame[OF io] and ob = io_backend_init_objects[OF io]
  have sub: "\<not> (?n \<noteq> 0 \<and> ?n < MT_MIN_STACK_SIZE)"
    using init False by (auto simp: mt_init_with_options_def Let_def)
  have "(\<exists>cs. s' = ?s\<lparr>sys_calls := cs\<rparr>) \<or> (\<exists>cs. s' = mt_io_backend_shutdown (s1\<lparr>sys_calls := cs\<rparr>)) \<or>
      s' = s1\<lparr>initialized := True, next_id := 1, worker_count := 1, run_result := MT_OK\<rparr>"
    using init False io sub unfolding mt_init_with_options_def Let_def
    by (auto split: if_splits intro: exI[of _ "sys_calls s"])
  then have "fresh_runtime s' \<and> chan_mem s' = chan_mem s \<and> handle_mem s' = handle_mem s \<and> sw_mem s' = sw_mem s"
    using fr ob by (elim disjE exE) (simp_all add: io_backend_shutdown_closes(5))
  then have "fresh_runtime s'" "wf {} s'" using wf_quiet[OF wf e] by (auto intro!: wf_empty)
  then show ?thesis using e by (simp add: runtime_inv_def fresh_runtime_def)
qed

lemma runtime_inv_ensure_init:
  assumes "runtime_inv s" and "ensure_init env s = (ok, s')"
  shows "runtime_inv s'" and "ok \<Longrightarrow> initialized s'"
    and "all_tasks s' = all_tasks s" "channels s' = channels s" "handles s' = handles s"
proof -
  obtain rc r where i: "mt_init env s = (rc, r)" by (cases "mt_init env s")
  have "runtime_inv r \<and> all_tasks r = all_tasks s \<and> channels r = channels s \<and> handles r = handles s"
    using runtime_inv_init[OF assms(1)] i unfolding mt_init_def by blast
  then show "runtime_inv s'" "all_tasks s' = all_tasks s" "channels s' = channels s" "handles s' = handles s"
    using assms i by (auto simp: ensure_init_def split: if_splits)
  have "rc = MT_OK \<Longrightarrow> initialized r"
    using i by (auto simp: mt_init_def mt_init_with_options_def Let_def split: prod.splits if_splits)
  then show "ok \<Longrightarrow> initialized s'" using assms(2) i by (auto simp: ensure_init_def split: if_splits)
qed

section \<open>Birth\<close>

lemma wf_birth:
  assumes wf: "wf X s" and t: "t \<notin> set (all_tasks s)" "t \<notin> X"
    and k: "state k = MT_TASK_READY" "select_waiters k = []" "fd_waiter k = None"
    and m: "task_mem r = (task_mem s)(t := k)"
    and fr: "all_tasks r = t # all_tasks s" "runq r = runq s @ [t]" "runnable_count r = runnable_count s + 1"
      "live_count r = live_count s + 1" "timers r = timers s" "channels r = channels s"
      "chan_mem r = chan_mem s" "sw_mem r = sw_mem s" "fw_mem r = fw_mem s" "fd_waiters r = fd_waiters s"
      "fd_waiting_count r = fd_waiting_count s"
    and j: "\<And>h. join_q (handle_mem r h) = join_q (handle_mem s h) \<and>
      join_waiters (handle_mem r h) = join_waiters (handle_mem s h)"
    and h: "wf_handles r"
  shows "wf X r"
proof (rule wfI)
  note w = wfD[OF wf]
  have l: "live X r u \<longleftrightarrow> live X s u \<or> u = t" for u using t(2) by (auto simp: live_def fr)
  have x: "\<not> live X s t" using t(1) by (simp add: live_def)
  have neq: "\<not> timed k" "\<not> waits_send c k" "\<not> waits_recv c k" "\<not> waits_join g k" for c g
    using k(1) by (auto simp: wf_waits)
  have tt: "t \<notin> set (items (timers s))" "t \<notin> set (runq s)"
    using x w(1,2) by (simp_all add: wf_timers_def wf_runq_def)
  have tk: "timers_ok r = timers_ok s"
    by (rule timers_ok_cong) (use tt in \<open>auto simp: m fr timer_key_def\<close>)
  have sk: "select_ok r = select_ok s" by (rule select_ok_cong) (simp_all add: fr)
  show "wf_runq X r" using w(1) x k(1) tt(2) unfolding wf_runq_def l by (auto simp: runq_rep_def m fr)
  show "wf_timers X r" using w(2) x neq unfolding wf_timers_def l tk by (auto simp: m fr)
  show "wf_send X r" using w(3) x neq unfolding wf_send_def l by (auto simp: m fr)
  show "wf_recv X r" using w(4) x neq unfolding wf_recv_def l by (auto simp: m fr)
  show "wf_joins X r" using w(6) x neq j unfolding wf_joins_def l by (auto simp: m fr)
  show "wf_chans r" by (rule wf_chans_step[OF w(5)]) (simp_all add: fr)
  show "wf_select X r"
    by (rule wf_select_tasks[OF w(7)]) (use wf_selectD(1)[OF w(7)] sk t k in \<open>auto simp: m fr\<close>)
  show "wf_fds X r" by (rule wf_fds_tasks[OF w(8)]) (use t k in \<open>auto simp: m fr\<close>)
  show "wf_handles r" by (rule h)
  have "filter (\<lambda>u. state (task_mem r u) \<noteq> MT_TASK_DEAD) (all_tasks s) =
      filter (\<lambda>u. state (task_mem s u) \<noteq> MT_TASK_DEAD) (all_tasks s)"
    by (rule filter_cong) (use t(1) in \<open>auto simp: m\<close>)
  then show "wf_live X r" using w(10) x t(1) k(1) unfolding wf_live_def l by (auto simp: m fr)
qed

section \<open>Creation of a task\<close>

text \<open>What \<^verbatim>\<open>calloc\<close> guarantees: the objects it returns are not in use.\<close>

definition fresh_objects :: "create_env \<Rightarrow> mt_state \<Rightarrow> bool" where
  "fresh_objects env s \<longleftrightarrow>
     (case alloc_task env of None \<Rightarrow> True | Some t \<Rightarrow> t \<notin> set (all_tasks s)) \<and>
     (case alloc_handle env of None \<Rightarrow> True | Some h \<Rightarrow> h \<notin> set (handles s))"

lemma no_task_of_fresh_handle:
  assumes "wf X s" and "h \<notin> set (handles s)" and "u \<in> set (all_tasks s)" and "handle (task_mem s u) = Some h"
  shows "state (task_mem s u) = MT_TASK_DEAD"
  using wf_handlesD(2)[OF wfD(9)[OF assms(1)] assms(3)] assms(2,4) by blast

lemma wf_handle_register:
  assumes wf: "wf X s" and h: "h \<notin> set (handles s)" "h_task (handle_mem s h) = None"
  shows "wf X (mt_handle_register h s)" (is "wf X ?s")
proof (rule wfI)
  note w = wfD[OF wf]
  have fr: "live X ?s u = live X s u" "task_mem ?s = task_mem s" "chan_mem ?s = chan_mem s"
    "timers ?s = timers s" "runq ?s = runq s" "handle_mem ?s = handle_mem s" "all_tasks ?s = all_tasks s"
    "handles ?s = h # handles s" "channels ?s = channels s" "runnable_count ?s = runnable_count s"
    "sw_mem ?s = sw_mem s" "fw_mem ?s = fw_mem s" "fd_waiters ?s = fd_waiters s"
    "fd_waiting_count ?s = fd_waiting_count s" "live_count ?s = live_count s" for u
    by (simp_all add: mt_handle_register_def live_def)
  have tk: "timers_ok ?s = timers_ok s" by (rule timers_ok_cong) (simp_all add: fr)
  have sk: "select_ok ?s = select_ok s" by (rule select_ok_cong) (simp_all add: fr)
  show "wf_runq X ?s" using w(1) unfolding wf_runq_def fr runq_rep_def .
  show "wf_timers X ?s" using w(2) unfolding wf_timers_def fr tk .
  show "wf_send X ?s" using w(3) unfolding wf_send_def fr .
  show "wf_recv X ?s" using w(4) unfolding wf_recv_def fr .
  show "wf_joins X ?s" using w(6) unfolding wf_joins_def fr .
  show "wf_chans ?s" using w(5) unfolding wf_chans_def fr .
  show "wf_select X ?s" using w(7) unfolding wf_select_def fr sk .
  show "wf_fds X ?s" using w(8) unfolding wf_fds_def fr .
  show "wf_live X ?s" using w(10) unfolding wf_live_def fr .
  show "wf_handles ?s"
  proof (rule wf_handlesI, goal_cases)
    case 1
    then show ?case using wf_handlesD(1)[OF w(9)] h(1) by (simp add: fr)
  next
    case (2 t k)
    then show ?case using wf_handlesD(2)[OF w(9), of t k] by (simp add: fr)
  next
    case (3 k t)
    then show ?case using wf_handlesD(3)[OF w(9), of k t] h(2) by (auto simp: fr)
  next
    case (4 k)
    then show ?case using wf_handlesD(4)[OF w(9), of k] by (simp add: fr)
  qed
qed

lemma wf_handle_new:
  assumes wf: "wf X s" and h: "h \<notin> set (handles s)"
  shows "wf X (mt_handle_register h (upd_handle h (\<lambda>_. zero_handle) s))"
proof (rule wf_handle_register)
  have q: "join_q (handle_mem s h) = []" using wf_handlesD(4)[OF wfD(9)[OF wf], of h] h by auto
  moreover have "join_waiters (handle_mem s h) = length (join_q (handle_mem s h))"
    using wfD(6)[OF wf] by (simp add: wf_joins_def)
  ultimately have z: "join_q zero_handle = join_q (handle_mem s h)"
    "join_waiters zero_handle = join_waiters (handle_mem s h)" by (simp_all add: zero_handle_def)
  show "wf X (upd_handle h (\<lambda>_. zero_handle) s)"
  proof (rule wf_upd_handle[OF wf])
    note w = wfD(9)[OF wf]
    show "wf_handles (upd_handle h (\<lambda>_. zero_handle) s)"
    proof (rule wf_handlesI, goal_cases)
      case (2 t k)
      then show ?case using wf_handlesD(2)[OF w, of t k] h by auto
    next
      case (3 k t)
      then show ?case using wf_handlesD(3)[OF w, of k t] h by auto
    next
      case (4 k)
      then show ?case using wf_handlesD(4)[OF w, of k] q z by (auto split: if_splits)
    qed (simp add: wf_handlesD(1)[OF w])
  qed (use z in simp_all)
qed (use h in \<open>simp_all add: zero_handle_def\<close>)

lemma wf_drop_handle:
  assumes "wf X s"
    and "\<And>k u. h = Some k \<Longrightarrow> u \<in> set (all_tasks s) \<Longrightarrow> handle (task_mem s u) = Some k \<Longrightarrow>
      state (task_mem s u) = MT_TASK_DEAD"
  shows "wf X (drop_handle h s)"
proof (cases h)
  case (Some k)
  have "wf X (upd_handle k (\<lambda>r. r\<lparr>h_task := None, released := True\<rparr>) s)"
    by (rule wf_handle_forget[OF assms(1)]) (use assms(2) Some in auto)
  then show ?thesis using Some by (simp add: drop_handle_def wf_handle_free)
qed (use assms in \<open>simp add: drop_handle_def\<close>)

text \<open>The state with the new handle, if one was asked for.\<close>

definition with_handle :: "hptr option \<Rightarrow> mt_state \<Rightarrow> mt_state" where
  "with_handle h s = (case h of None \<Rightarrow> s
     | Some h \<Rightarrow> mt_handle_register h (upd_handle h (\<lambda>_. zero_handle) s))"

lemma with_handle_frame [simp]:
  "all_tasks (with_handle h s) = all_tasks s" "task_mem (with_handle h s) = task_mem s"
  "initialized (with_handle h s) = initialized s"
  by (simp_all add: with_handle_def mt_handle_register_def split: option.split)

lemma drop_handle_frame [simp]:
  "initialized (drop_handle h s) = initialized s"
  by (simp add: drop_handle_def mt_handle_free_if_possible_def split: option.split)

definition new_task :: "hptr option \<Rightarrow> tptr \<Rightarrow> mt_task \<Rightarrow> mt_state \<Rightarrow> mt_state" where
  "new_task h t k s = (case h of None \<Rightarrow> upd_task t (\<lambda>_. k) s
     | Some h \<Rightarrow> upd_handle h (\<lambda>r. r\<lparr>h_task := Some t\<rparr>) (upd_task t (\<lambda>_. k) s))"

lemma wf_with_handle:
  assumes "wf X s" and "\<And>k. h = Some k \<Longrightarrow> k \<notin> set (handles s)"
  shows "wf X (with_handle h s)"
  using assms wf_handle_new[OF assms(1)] by (simp add: with_handle_def split: option.split)

lemma wf_new_task_dropped:
  assumes wf: "wf X s" and t: "t \<notin> set (all_tasks s)"
    and h: "\<And>k u. h = Some k \<Longrightarrow> u \<in> set (all_tasks s) \<Longrightarrow> handle (task_mem s u) = Some k \<Longrightarrow>
      state (task_mem s u) = MT_TASK_DEAD"
  shows "wf X (drop_handle h (new_task h t k s))"
proof (cases h)
  case None
  then show ?thesis using wf_upd_unregistered[OF wf t] by (simp add: drop_handle_def new_task_def)
next
  case (Some g)
  have "wf X (drop_handle h (upd_task t (\<lambda>_. k) s))"
    by (rule wf_drop_handle[OF wf_upd_unregistered[OF wf t]]) (use h t in auto)
  moreover have "drop_handle h (new_task h t k s) = drop_handle h (upd_task t (\<lambda>_. k) s)"
    using Some by (simp add: drop_handle_def new_task_def upd_handle_twice)
  ultimately show ?thesis by simp
qed

lemma wf_new_task:
  assumes wf: "wf X s" and t: "t \<notin> set (all_tasks s)" "t \<notin> X"
    and k: "state k = MT_TASK_READY" "select_waiters k = []" "fd_waiter k = None" "handle k = h"
    and h: "\<And>g. h = Some g \<Longrightarrow> g \<in> set (handles s) \<and> handle_mem s g = zero_handle"
  shows "wf X ((mt_task_register t (mt_runq_push t (new_task h t k s)))\<lparr>live_count := live_count s + 1\<rparr>)"
proof -
  define r where "r = (mt_task_register t (mt_runq_push t (new_task h t k s)))\<lparr>live_count := live_count s + 1\<rparr>"
  have m: "task_mem r = (task_mem s)(t := k)"
    and hm: "handle_mem r = (case h of None \<Rightarrow> handle_mem s
      | Some g \<Rightarrow> (handle_mem s)(g := (handle_mem s g)\<lparr>h_task := Some t\<rparr>))"
    and fr: "all_tasks r = t # all_tasks s" "runq r = runq s @ [t]" "runnable_count r = runnable_count s + 1"
      "live_count r = live_count s + 1" "timers r = timers s" "channels r = channels s"
      "chan_mem r = chan_mem s" "sw_mem r = sw_mem s" "fw_mem r = fw_mem s" "fd_waiters r = fd_waiters s"
      "fd_waiting_count r = fd_waiting_count s" "handles r = handles s"
    by (simp_all add: r_def new_task_def split: option.split)
  note w = wfD(9)[OF wf]
  have "wf_handles r"
  proof (rule wf_handlesI, goal_cases)
    case 1
    then show ?case using wf_handlesD(1)[OF w] by (simp add: fr)
  next
    case (2 u g)
    show ?case
    proof (cases "u = t")
      case True
      then show ?thesis using 2 h[of g] k(4) by (simp add: m fr hm)
    next
      case False
      then have "g \<in> set (handles s) \<and> h_task (handle_mem s g) = Some u"
        using wf_handlesD(2)[OF w, of u g] 2 by (simp add: m fr)
      then show ?thesis using h[of g] by (auto simp: fr hm zero_handle_def split: option.split)
    qed
  next
    case (3 g u)
    show ?case
    proof (cases "h = Some g")
      case True
      then show ?thesis using 3 h[of g] k(4) by (simp add: m fr hm zero_handle_def)
    next
      case False
      then have "u \<in> set (all_tasks s) \<and> handle (task_mem s u) = Some g \<and> \<not> completed (handle_mem s g)"
        using wf_handlesD(3)[OF w, of g u] 3 by (auto simp: fr hm split: option.splits if_splits)
      then show ?thesis using False t(1) by (auto simp: m fr hm split: option.split)
    qed
  next
    case (4 g)
    then have "join_q (handle_mem s g) \<noteq> []" by (auto simp: hm split: option.splits if_splits)
    from wf_handlesD(4)[OF w this] show ?case by (auto simp: fr hm split: option.split)
  qed
  then have "wf X r"
    by (intro wf_birth[OF wf t k(1-3) m fr(1-11)]) (auto simp: hm split: option.split)
  then show ?thesis by (simp add: r_def)
qed

text \<open>A stack that is freed at once leaves a task without one.\<close>

lemma free_new_task_stack:
  "free_task_stack t (new_task g t k s) =
     new_task g t (k\<lparr>stack := zero_stack\<rparr>) (sys_do (fst (mt_stack_free (stack k))) s)"
  by (cases g) (simp_all add: free_task_stack_def new_task_def stack_free_zero upd_task_def upd_handle_def)

text \<open>The five ways a creation can end, as states; \<open>cs\<close> is what has been asked of the system.\<close>

lemma create_task_cases:
  assumes c: "mt_create_task_internal fn arg sz want env s = (rc, h, s')"
    and g_def: "g = (if want then alloc_handle env else None)"
  shows "\<exists>cs r. r = (with_handle g s)\<lparr>sys_calls := cs\<rparr> \<and> (s' = s \<or> s' = drop_handle g r \<or>
    (\<exists>t k. alloc_task env = Some t \<and> state k = MT_TASK_READY \<and> select_waiters k = [] \<and>
      fd_waiter k = None \<and> handle k = g \<and>
      (s' = drop_handle g (new_task g t k (r\<lparr>next_id := next_id r + 1\<rparr>)) \<or>
       s' = (mt_task_register t (mt_runq_push t (new_task g t k (r\<lparr>next_id := next_id r + 1\<rparr>))))
         \<lparr>live_count := live_count r + 1\<rparr>)))"
proof (cases "alloc_task env")
  case None
  have "with_handle g s = (with_handle g s)\<lparr>sys_calls := sys_calls (with_handle g s)\<rparr>" by simp
  moreover have "s' = s \<or> s' = drop_handle g (with_handle g s)"
    using None c unfolding mt_create_task_internal_def Let_def g_def[symmetric] with_handle_def[symmetric]
    by (auto split: if_splits)
  ultimately show ?thesis by metis
next
  case (Some t)
  obtain rc1 st cs where st: "mt_stack_alloc (if sz \<noteq> 0 then sz else default_stack_size (with_handle g s)) (sys_page env)
      (alloc_stack env) (guard_ok env) = (rc1, st, cs)" by (rule prod_cases3)
  let ?k = "zero_task\<lparr>task_id := next_id (with_handle g s), task_fn := the fn, task_arg := arg, stack := st,
    state := MT_TASK_READY, handle := g\<rparr>"
  let ?r = "\<lambda>cs. (with_handle g s)\<lparr>sys_calls := cs\<rparr>"
  let ?cs = "sys_calls (with_handle g s) @ cs" and ?ds = "fst (mt_stack_free st)"
  have lc: "live_count (mt_task_register t (mt_runq_push t (new_task g t ?k
      ((?r ?cs)\<lparr>next_id := next_id (?r ?cs) + 1\<rparr>)))) = live_count (?r ?cs)"
    by (simp add: new_task_def split: option.split)
  have k: "state k = MT_TASK_READY \<and> select_waiters k = [] \<and> fd_waiter k = None \<and> handle k = g"
    if "k = ?k \<or> k = ?k\<lparr>stack := zero_stack\<rparr>" for k using that by (auto simp: zero_task_def)
  have free: "free_task_stack t (new_task g t ?k ((?r ?cs)\<lparr>next_id := next_id (?r ?cs) + 1\<rparr>)) =
      new_task g t (?k\<lparr>stack := zero_stack\<rparr>) ((?r (?cs @ ?ds))\<lparr>next_id := next_id (?r (?cs @ ?ds)) + 1\<rparr>)"
    by (simp add: free_new_task_stack) (cases "with_handle g s"; simp)
  have "s' = s \<or> s' = drop_handle g (?r ?cs) \<or>
     s' = drop_handle g (free_task_stack t (new_task g t ?k ((?r ?cs)\<lparr>next_id := next_id (?r ?cs) + 1\<rparr>))) \<or>
     s' = (mt_task_register t (mt_runq_push t (new_task g t ?k ((?r ?cs)\<lparr>next_id := next_id (?r ?cs) + 1\<rparr>))))
       \<lparr>live_count := live_count (?r ?cs) + 1\<rparr>"
    using c Some st lc unfolding mt_create_task_internal_def Let_def g_def[symmetric]
      with_handle_def[symmetric] new_task_def[symmetric]
    by (auto simp del: with_handle_frame split: if_splits)
  then show ?thesis unfolding free using Some k by metis
qed

lemma wf_create_task:
  assumes wf: "wf {} s" and f: "fresh_objects env s"
    and c: "mt_create_task_internal fn arg sz want env s = (rc, h, s')"
  shows "wf {} s'" and "initialized s' = initialized s"
proof -
  define g where "g = (if want then alloc_handle env else None)"
  let ?s1 = "with_handle g s"
  have fh: "\<And>k. g = Some k \<Longrightarrow> k \<notin> set (handles s)"
    using f by (auto simp: fresh_objects_def g_def split: if_splits)
  have w1: "wf {} ?s1" by (rule wf_with_handle[OF wf fh])
  have dead: "\<And>k u. g = Some k \<Longrightarrow> u \<in> set (all_tasks s) \<Longrightarrow> handle (task_mem s u) = Some k \<Longrightarrow>
      state (task_mem s u) = MT_TASK_DEAD"
    using no_task_of_fresh_handle[OF wf fh] by blast
  have hz: "\<And>k. g = Some k \<Longrightarrow> k \<in> set (handles ?s1) \<and> handle_mem ?s1 k = zero_handle"
    by (simp add: with_handle_def mt_handle_register_def)
  obtain cs r where r: "r = ?s1\<lparr>sys_calls := cs\<rparr>"
    and cases: "s' = s \<or> s' = drop_handle g r \<or>
    (\<exists>t k. alloc_task env = Some t \<and> state k = MT_TASK_READY \<and> select_waiters k = [] \<and>
      fd_waiter k = None \<and> handle k = g \<and>
      (s' = drop_handle g (new_task g t k (r\<lparr>next_id := next_id r + 1\<rparr>)) \<or>
       s' = (mt_task_register t (mt_runq_push t (new_task g t k (r\<lparr>next_id := next_id r + 1\<rparr>))))
         \<lparr>live_count := live_count r + 1\<rparr>))" using create_task_cases[OF c g_def] by metis
  have d1: "wf {} (drop_handle g r)" unfolding r by (rule wf_drop_handle) (use w1 dead in simp_all)
  from cases show "wf {} s'"
  proof (elim disjE exE conjE)
    fix t and k :: mt_task
    assume a: "alloc_task env = Some t" and k: "state k = MT_TASK_READY" "select_waiters k = []"
      "fd_waiter k = None" "handle k = g"
    have t: "t \<notin> set (all_tasks s)" using f a by (simp add: fresh_objects_def)
    let ?s2 = "r\<lparr>next_id := next_id r + 1\<rparr>"
    have w2: "wf {} ?s2" using w1 by (simp add: r)
    {
      assume "s' = drop_handle g (new_task g t k ?s2)"
      moreover have "wf {} (drop_handle g (new_task g t k ?s2))"
        by (rule wf_new_task_dropped[OF w2]) (use t dead in \<open>simp_all add: r\<close>)
      ultimately show "wf {} s'" by simp
    next
      assume "s' = (mt_task_register t (mt_runq_push t (new_task g t k ?s2)))\<lparr>live_count := live_count r + 1\<rparr>"
      moreover have "wf {} ((mt_task_register t (mt_runq_push t (new_task g t k ?s2)))
          \<lparr>live_count := live_count ?s2 + 1\<rparr>)"
        by (rule wf_new_task[OF w2 _ _ k]) (use t hz in \<open>simp_all add: r\<close>)
      ultimately show "wf {} s'" by simp
    }
  qed (use wf d1 in simp_all)
  show "initialized s' = initialized s"
    using c unfolding mt_create_task_internal_def Let_def g_def[symmetric] with_handle_def[symmetric]
      new_task_def[symmetric]
    by (auto simp: new_task_def free_task_stack_def split: if_splits option.splits prod.splits)
qed

end
