(* ===== verification/Preserve_Switch.thy ===== *)
theory Preserve_Switch
  imports Preserve_Create
begin

text \<open>
  The calls of a running task that end in a context switch, together with the work the worker does
  when the task has switched back (the mutex is held across the switch), and the calls on handles.
\<close>

section \<open>The running task\<close>

definition is_running :: "mt_state \<Rightarrow> tptr \<Rightarrow> bool" where
  "is_running s t \<longleftrightarrow> t \<in> set (all_tasks s) \<and> state (task_mem s t) = MT_TASK_RUNNING"

lemma wf_running:
  assumes "wf X s" and "is_running s t" and "t \<notin> X"
  shows "wf (insert t X) s" and "detached (insert t X) s t"
proof -
  have r: "t \<in> set (all_tasks s)" "state (task_mem s t) = MT_TASK_RUNNING"
    using assms(2) by (simp_all add: is_running_def)
  show "wf (insert t X) s" by (rule wf_detach[OF assms(1)]) (simp_all add: r timed_def)
  show "detached (insert t X) s t"
    by (rule detachedI[OF assms(1)]) (simp_all add: r assms(3) live_def)
qed

lemma set_handle_status_frame [simp]:
  "task_mem (set_handle_status t st s) = task_mem s"
  "all_tasks (set_handle_status t st s) = all_tasks s"
  "initialized (set_handle_status t st s) = initialized s"
  "fw_mem (set_handle_status t st s) = fw_mem s"
  "channels (set_handle_status t st s) = channels s"
  "handles (set_handle_status t st s) = handles s"
  by (simp_all add: set_handle_status_def split: option.split)

lemma set_handle_status_upd_task:
  "handle (f (task_mem s t)) = handle (task_mem s t) \<Longrightarrow>
   set_handle_status t st (upd_task t f s) = upd_task t f (set_handle_status t st s)"
  by (simp add: set_handle_status_def upd_task_def upd_handle_def split: option.split)

section \<open>Switching back\<close>

lemma wf_after_switch_parked:
  assumes "wf X s" and "state (task_mem s t) \<noteq> MT_TASK_READY" and "state (task_mem s t) \<noteq> MT_TASK_DEAD"
  shows "wf X (mt_task_after_switch t s)"
  using assms(2,3)
  by (cases "state (task_mem s t)")
    (simp_all add: mt_task_after_switch_def wf_set_handle_status assms(1))

lemma wf_after_switch_ready:
  assumes "wf X s" and "detached X s t" and "s' = upd_task t (\<lambda>k. k\<lparr>state := MT_TASK_READY\<rparr>) s"
  shows "wf (X - {t}) (mt_task_after_switch t s')"
proof -
  let ?a = "set_handle_status t MT_TASK_STATUS_READY (s\<lparr>current := None, running_tasks := running_tasks s - 1\<rparr>)"
  have "wf X ?a" using assms(1) by (simp add: wf_set_handle_status)
  moreover have "detached X ?a t" using assms(2) by (simp add: detached_def)
  ultimately have "wf (X - {t}) (mt_task_mark_ready t ?a)" by (rule wf_mark_ready)
  moreover have eq: "s'\<lparr>current := None, running_tasks := running_tasks s' - 1\<rparr> =
      upd_task t (\<lambda>k. k\<lparr>state := MT_TASK_READY\<rparr>) (s\<lparr>current := None, running_tasks := running_tasks s - 1\<rparr>)"
    by (simp add: assms(3) upd_task_def)
  have "mt_task_after_switch t s' = mt_task_mark_ready t ?a"
    unfolding mt_task_after_switch_def Let_def eq mt_task_mark_ready_def
    by (simp add: set_handle_status_upd_task)
  ultimately show ?thesis by simp
qed

lemma wf_after_switch_dead:
  assumes "wf X s" and "detached X s t"
  shows "wf (X - {t}) (mt_task_after_switch t (mt_task_entry_finish t s))"
proof -
  let ?s = "s\<lparr>current := None, running_tasks := running_tasks s - 1\<rparr>"
  let ?d = "(mt_task_mark_dead t ?s)\<lparr>live_count := live_count s - 1, completed_count := completed_count s + 1\<rparr>"
  have t: "t \<in> X" "t \<in> set (all_tasks ?s)" "state (task_mem ?s t) \<noteq> MT_TASK_DEAD"
    using assms(2) by (simp_all add: detached_def)
  have w: "wf X ?s" using assms(1) by simp
  have fr: "live_count ?s = live_count s" "task_mem ?s = task_mem s" by simp_all
  have "wf (X - {t}) (mt_task_destroy t (case handle (task_mem s t) of None \<Rightarrow> ?d
      | Some h \<Rightarrow> mt_handle_complete h c ?d))" for c
    using wf_retire[OF w t, of "completed_count s + 1" c] unfolding fr .
  moreover have eq: "(mt_task_entry_finish t s)\<lparr>current := None,
      running_tasks := running_tasks (mt_task_entry_finish t s) - 1\<rparr> = mt_task_mark_dead t ?s"
    by (simp add: mt_task_entry_finish_def mt_task_mark_dead_def upd_task_def)
  have "\<exists>c. mt_task_after_switch t (mt_task_entry_finish t s) =
      mt_task_destroy t (case handle (task_mem s t) of None \<Rightarrow> ?d | Some h \<Rightarrow> mt_handle_complete h c ?d)"
    unfolding mt_task_after_switch_def Let_def eq
    by (cases "handle (task_mem s t)") (auto simp: mt_task_mark_dead_def)
  ultimately show ?thesis by metis
qed

section \<open>Yield and sleep\<close>

lemma wf_yield:
  assumes "wf {} s" and "is_running s t" and "mt_yield (Some t) s = (b, s')"
  shows "wf {} (mt_task_after_switch t s')"
  using wf_after_switch_ready[OF wf_running(1,2)[OF assms(1,2)]] assms(3) by (simp add: mt_yield_def)

lemma timer_push_failed:
  "mt_timer_push_state t d st a s = (rc, s') \<Longrightarrow> rc \<noteq> MT_OK \<Longrightarrow> s' = s \<and> rc = MT_ERR_NOMEM"
  by (auto simp: mt_timer_push_state_def mt_timer_reserve_def Let_def split: if_splits prod.splits)

lemma wf_sleep:
  assumes wf: "wf {} s" and run: "is_running s t" and sl: "mt_sleep_ms (Some t) ms now tok s = (b, s')"
  shows "wf {} (if b then mt_task_after_switch t s' else s')"
proof (cases "ms = 0")
  case True
  then have "b" "mt_yield (Some t) s = (b, s')" using sl by (simp_all add: mt_sleep_ms_def mt_yield_def)
  then show ?thesis using wf_yield[OF wf run] by simp
next
  case False
  obtain rc s1 where p: "mt_timer_push t (deadline_after now ms) tok s = (rc, s1)" by fastforce
  show ?thesis
  proof (cases "rc = MT_OK")
    case True
    note d = wf_running[OF wf run, simplified]
    have push: "mt_timer_push_state t (deadline_after now ms) MT_TASK_SLEEPING tok s = (MT_OK, s1)"
      using p True by (simp add: mt_timer_push_def)
    have st: "state (task_mem s1 t) = MT_TASK_SLEEPING"
      by (rule timer_push_eq[OF push]) (simp add: timer_pushed_def)
    have "t \<in> set (all_tasks s)" "state (task_mem s t) \<noteq> MT_TASK_DEAD" "select_waiters (task_mem s t) = []"
      "\<forall>w. fd_waiter (task_mem s t) = Some w \<longrightarrow> \<not> mt_fd_waiter_is_active (fw_mem s w)"
      using d(2) unfolding detached_def by blast+
    then have "wf ({t} - {t}) (upd_task t (\<lambda>k. k) s1)"
      by (intro wf_timer_attach[OF d(1) _ _ _ push]) (simp_all add: st timed_def)
    then have "wf {} s1" by (simp add: upd_task_def)
    then have "wf {} (mt_task_after_switch t s1)" by (rule wf_after_switch_parked) (simp_all add: st)
    moreover have "b" "s' = s1" using sl False p True by (simp_all add: mt_sleep_ms_def)
    ultimately show ?thesis by simp
  next
    case nok: False
    have "s1 = s" using p nok timer_push_failed by (simp add: mt_timer_push_def)
    moreover have "\<not> b" "s' = s1" using sl False p nok by (simp_all add: mt_sleep_ms_def)
    ultimately show ?thesis using wf by simp
  qed
qed

section \<open>Join\<close>

lemma wf_join:
  assumes wf: "wf {} s" and run: "is_running s t" and h: "h \<in> set (handles s)"
    and j: "mt_join (Some t) (Some h) s = (out, s')"
  shows "wf {} (if out = Park then mt_task_after_switch t s' else s')"
proof (cases "out = Park")
  case True
  then have nc: "\<not> completed (handle_mem s h)" and s': "s' = join_push h t (mt_task_block_on_join t h s)"
    using j by (auto simp: mt_join_def split: if_splits)
  note d = wf_running[OF wf run, simplified]
  have "wf {} s'" using wf_park_join[OF d h nc] by (simp add: s')
  then have "wf {} (mt_task_after_switch t s')"
    by (rule wf_after_switch_parked)
      (simp_all add: s' join_push_def mt_task_block_on_join_def Let_def)
  then show ?thesis using True by simp
next
  case False
  then show ?thesis using j wf by (auto simp: mt_join_def split: if_splits)
qed

section \<open>Calls on handles\<close>

lemma wf_handle_release: "wf X s \<Longrightarrow> wf X (mt_task_handle_release h s)"
  by (auto simp: mt_task_handle_release_def intro!: wf_handle_free wf_handle_flags split: option.split)

lemma wf_runq_remove:
  assumes "wf X s" and "mt_runq_remove t s = (True, s')"
  shows "wf (insert t X) s'" and "task_mem s' = task_mem s" and "all_tasks s' = all_tasks s"
    and "live_count s' = live_count s" and "completed_count s' = completed_count s"
    and "initialized s' = initialized s"
proof -
  note w = wfD[OF assms(1)]
  have q: "t \<in> set (runq s)" and s': "s' = s\<lparr>runq := remove1 t (runq s), runnable_count := runnable_count s - 1\<rparr>"
    using assms(2) by (auto simp: mt_runq_remove_def split: if_splits)
  show "task_mem s' = task_mem s" "all_tasks s' = all_tasks s" "live_count s' = live_count s"
    "completed_count s' = completed_count s" "initialized s' = initialized s" by (simp_all add: s')
  have st: "state (task_mem s t) = MT_TASK_READY" using w(1) q by (simp add: wf_runq_def)
  have neq: "\<not> timed (task_mem s t)" "\<not> waits_send c (task_mem s t)" "\<not> waits_recv c (task_mem s t)"
    "\<not> waits_join h (task_mem s t)" for c h using st by (auto simp: wf_waits)
  have l: "live (insert t X) s' u \<longleftrightarrow> live X s u \<and> u \<noteq> t" for u by (auto simp: live_def s')
  have tk: "timers_ok s' = timers_ok s" by (rule timers_ok_cong) (simp_all add: s')
  show "wf (insert t X) s'"
  proof (rule wfI)
    show "wf_runq (insert t X) s'" using w(1) q unfolding wf_runq_def l
      by (auto simp: runq_rep_def s' length_remove1)
    show "wf_timers (insert t X) s'" using w(2) neq unfolding wf_timers_def l tk by (auto simp: s')
    show "wf_send (insert t X) s'" using w(3) neq unfolding wf_send_def l by (auto simp: s')
    show "wf_recv (insert t X) s'" using w(4) neq unfolding wf_recv_def l by (auto simp: s')
    show "wf_joins (insert t X) s'" using w(6) neq unfolding wf_joins_def l by (auto simp: s')
    have "select_ok s' = select_ok s" by (rule select_ok_cong) (simp_all add: s')
    then have "select_ok s'" using w(7) by (simp add: wf_select_def)
    then show "wf_select (insert t X) s'" by (rule wf_select_step[OF w(7)]) (simp_all add: s')
    show "wf_fds (insert t X) s'" by (rule wf_fds_step[OF w(8)]) (simp_all add: s')
    show "wf_handles s'" by (rule wf_handles_step[OF w(9)]) (simp_all add: s')
    show "wf_chans s'" by (rule wf_chans_step[OF w(5)]) (simp_all add: s')
    show "wf_live (insert t X) s'" by (rule wf_live_step[OF w(10)]) (simp_all add: s')
  qed
qed

section \<open>Cancellation\<close>

lemma wf_cancel_ready:
  assumes wf: "wf {} s" and t: "t \<in> set (all_tasks s)" "state (task_mem s t) = MT_TASK_READY"
  shows "wf {} (mt_task_wake_for_cancel (Some t) s)"
proof -
  have "t \<in> set (runq s)" using wfD(1)[OF wf] t by (simp add: wf_runq_def live_def)
  then obtain s1 where r: "mt_runq_remove t s = (True, s1)" by (simp add: mt_runq_remove_def)
  note w = wf_runq_remove[OF wf r]
  have t1: "t \<in> set (all_tasks s1)" "state (task_mem s1 t) \<noteq> MT_TASK_DEAD" using t w(2,3) by simp_all
  have lc: "live_count (mt_task_mark_dead t s1) = live_count s1"
    "completed_count (mt_task_mark_dead t s1) = completed_count s1" by (simp_all add: mt_task_mark_dead_def)
  let ?d = "(mt_task_mark_dead t s1)\<lparr>live_count := live_count s1 - 1, completed_count := completed_count s1 + 1\<rparr>"
  have "handle (task_mem ?d t) = handle (task_mem s1 t)" by (simp add: mt_task_mark_dead_def)
  then have "mt_task_wake_for_cancel (Some t) s = mt_task_destroy t (case handle (task_mem s1 t) of
      None \<Rightarrow> ?d | Some h \<Rightarrow> mt_handle_complete h True ?d)"
    unfolding mt_task_wake_for_cancel_def using t(2) r lc
    by (cases "handle (task_mem s1 t)") (simp_all add: Let_def)
  then show ?thesis using wf_retire[OF w(1) _ t1, of "completed_count s1 + 1" True] by simp
qed

lemma wf_cancel_sleeping:
  assumes wf: "wf {} s" and t: "t \<in> set (all_tasks s)" "state (task_mem s t) = MT_TASK_SLEEPING"
  shows "wf {} (mt_task_wake_for_cancel (Some t) s)"
proof -
  have "t \<in> set (items (timers s))" using wfD(2)[OF wf] t by (simp add: wf_timers_def live_def timed_def)
  then have r: "fst (mt_timer_remove t s)" by (simp add: timer_remove_eq)
  let ?s = "snd (mt_timer_remove t s)"
  have "wf {t} ?s" using wf_timer_remove[OF wf, of t] t(2) by simp
  moreover have "detached {t} ?s t"
    using detachedI[OF wf, of t s] t by (simp add: live_def detached_def timer_remove_eq)
  ultimately have "wf ({t} - {t}) (mt_task_mark_ready t ?s)" by (rule wf_mark_ready)
  then show ?thesis using r t(2) by (simp add: mt_task_wake_for_cancel_def Let_def split_beta)
qed

lemma wf_cancel_unlinked:
  assumes wf: "wf {} s" and t: "live {} s t" "state (task_mem s t) = MT_TASK_WAITING_CHAN"
    and w1: "wf {t} s1" and s1: "task_mem s1 = task_mem s" "all_tasks s1 = all_tasks s" "fw_mem s1 = fw_mem s"
  shows "wf {} (mt_task_complete_channel_wait t r (mt_task_clear_channel_wait t (dec_channel_waiting s1)))"
proof -
  have "wf {t} (mt_task_clear_channel_wait t (dec_channel_waiting s1))"
    unfolding mt_task_clear_channel_wait_def
    by (rule wf_upd_task) (simp_all add: dec_channel_waiting_eq w1)
  moreover have "detached {t} (mt_task_clear_channel_wait t (dec_channel_waiting s1)) t"
    using detachedI[OF wf t(1), of s1] t(2) s1
    by (simp add: detached_def mt_task_clear_channel_wait_def dec_channel_waiting_eq)
  ultimately have "wf ({t} - {t}) (mt_task_complete_channel_wait t r
      (mt_task_clear_channel_wait t (dec_channel_waiting s1)))"
    by (rule wf_complete_channel_wait)
  then show ?thesis by simp
qed

lemma wf_cancel_chan:
  assumes wf: "wf {} s" and t: "t \<in> set (all_tasks s)" "state (task_mem s t) = MT_TASK_WAITING_CHAN"
  shows "wf {} (mt_task_wake_for_cancel (Some t) s)"
proof -
  have l: "live {} s t" using t(1) by (simp add: live_def)
  have "parked_ok (task_mem s t)" using wfD(10)[OF wf] l by (simp add: wf_live_def)
  then obtain c where c: "chan_wait_ch (task_mem s t) = Some c"
    and k: "chan_wait_kind (task_mem s t) \<noteq> MT_CHAN_WAIT_NONE" using t(2) by (auto simp: parked_ok_def)
  show ?thesis
  proof (cases "chan_wait_kind (task_mem s t)")
    case MT_CHAN_WAIT_SEND
    let ?s = "upd_chan c (\<lambda>ch. ch\<lparr>send_q := remove1 t (send_q (chan_mem s c)),
      send_waiters := send_waiters (chan_mem s c) - 1\<rparr>) s"
    have q: "t \<in> set (send_q (chan_mem s c))" using wfD(3)[OF wf] l t(2) c MT_CHAN_WAIT_SEND
      by (simp add: wf_send_def waits_send_def)
    then have "mt_chan_remove_waiter t s = (True, mt_task_clear_channel_wait t (dec_channel_waiting ?s))"
      using c MT_CHAN_WAIT_SEND by (simp add: mt_chan_remove_waiter_def chan_send_remove_def)
    then show ?thesis
      using t(2) wf_cancel_unlinked[OF wf l t(2) wf_chan_unlink_send(1)[OF wf q]]
      by (simp add: mt_task_wake_for_cancel_def)
  next
    case MT_CHAN_WAIT_RECV
    let ?s = "upd_chan c (\<lambda>ch. ch\<lparr>recv_q := remove1 t (recv_q (chan_mem s c)),
      recv_waiters := recv_waiters (chan_mem s c) - 1\<rparr>) s"
    have q: "t \<in> set (recv_q (chan_mem s c))" using wfD(4)[OF wf] l t(2) c MT_CHAN_WAIT_RECV
      by (simp add: wf_recv_def waits_recv_def)
    then have "mt_chan_remove_waiter t s = (True, mt_task_clear_channel_wait t (dec_channel_waiting ?s))"
      using c MT_CHAN_WAIT_RECV by (simp add: mt_chan_remove_waiter_def chan_recv_remove_def)
    then show ?thesis
      using t(2) wf_cancel_unlinked[OF wf l t(2) wf_chan_unlink_recv(1)[OF wf q]]
      by (simp add: mt_task_wake_for_cancel_def)
  qed (use k in simp)
qed

lemma wf_cancel_join:
  assumes wf: "wf {} s" and t: "t \<in> set (all_tasks s)" "state (task_mem s t) = MT_TASK_WAITING_JOIN"
  shows "wf {} (mt_task_wake_for_cancel (Some t) s)"
proof -
  have l: "live {} s t" using t(1) by (simp add: live_def)
  have "parked_ok (task_mem s t)" using wfD(10)[OF wf] l by (simp add: wf_live_def)
  then obtain h where h: "join_waiting_on (task_mem s t) = Some h" using t(2) by (auto simp: parked_ok_def)
  have q: "t \<in> set (join_q (handle_mem s h))" using wfD(6)[OF wf] l t(2) h
    by (simp add: wf_joins_def waits_join_def)
  let ?u = "upd_handle h (\<lambda>k. k\<lparr>join_q := remove1 t (join_q (handle_mem s h)),
    join_waiters := join_waiters (handle_mem s h) - 1\<rparr>) s"
  let ?s = "upd_task t (\<lambda>k. k\<lparr>join_waiting_on := None\<rparr>) (dec_join_waiting ?u)"
  have "wf {t} ?s"
    by (rule wf_upd_task) (simp_all add: dec_join_waiting_eq wf_join_unlink(1)[OF wf q, simplified])
  moreover have "detached {t} ?s t"
    using detachedI[OF wf l, of s] t(2) by (simp add: detached_def dec_join_waiting_eq)
  ultimately have "wf ({t} - {t}) (mt_task_complete_join_wait t MT_ERR_CANCELLED ?s)"
    by (rule wf_complete_join_wait)
  moreover have "mt_handle_remove_joiner (Some h) t s = (True, ?s)"
    using q by (simp add: mt_handle_remove_joiner_def join_remove_def)
  ultimately show ?thesis using t(2) h by (simp add: mt_task_wake_for_cancel_def)
qed

lemma wf_wake_for_cancel:
  assumes wf: "wf {} s" and t: "t \<in> set (all_tasks s)"
  shows "wf {} (mt_task_wake_for_cancel (Some t) s)"
proof (cases "state (task_mem s t)")
  case MT_TASK_WAITING_SELECT
  then show ?thesis using wf_unpark[OF wf, of t] t by (simp add: mt_task_wake_for_cancel_def live_def)
next
  case MT_TASK_WAITING_FD
  then obtain w where w: "fd_waiter (task_mem s t) = Some w"
    using wf_fdsD(7)[OF wfD(8)[OF wf], of t] t by (auto simp: live_def)
  then have "w \<in> set (fd_waiters s)" "fw_task (fw_mem s w) = Some t"
    using wf_fdsD(6)[OF wfD(8)[OF wf] t] by auto
  from wf_fd_ready[OF wf this _ MT_TASK_WAITING_FD] show ?thesis
    using MT_TASK_WAITING_FD w by (simp add: mt_task_wake_for_cancel_def)
qed (use wf t in \<open>simp_all add: wf_cancel_ready wf_cancel_sleeping wf_cancel_chan wf_cancel_join,
  simp_all add: mt_task_wake_for_cancel_def\<close>)

lemma wf_cancel:
  assumes wf: "wf {} s" and h: "h \<in> set (handles s)" and c: "mt_task_cancel (Some h) s = (rc, s')"
  shows "wf {} s'"
proof -
  let ?a = "upd_handle h (\<lambda>k. k\<lparr>cancel_requested := True\<rparr>) s"
  let ?b = "upd_handle h (\<lambda>k. k\<lparr>h_status := MT_TASK_STATUS_CANCELLED\<rparr>) ?a"
  have a: "wf {} ?a" by (rule wf_handle_flags[OF wf]) simp
  have b: "wf {} ?b" by (rule wf_handle_flags[OF a]) simp
  have "wf {} (mt_task_wake_for_cancel (h_task (handle_mem s h)) ?b)"
  proof (cases "h_task (handle_mem s h)")
    case (Some t)
    then have "t \<in> set (all_tasks ?b)" using wf_handlesD(3)[OF wfD(9)[OF wf] h] by simp
    then show ?thesis using wf_wake_for_cancel[OF b] Some by simp
  qed (use b in \<open>simp add: mt_task_wake_for_cancel_def\<close>)
  then show ?thesis using c a by (auto simp: mt_task_cancel_def Let_def split: if_splits)
qed

end
