(* ===== verification/Preserve_Channel.thy ===== *)
theory Preserve_Channel
  imports Preserve_Switch
begin

text \<open>Every channel operation keeps the invariant.\<close>

section \<open>Moving values\<close>

lemma wf_store_at [simp]: "wf X (store_at p bs s) = wf X s"
  by (simp add: store_at_def)

lemma store_at_frame [simp]:
  "task_mem (store_at p bs s) = task_mem s" "all_tasks (store_at p bs s) = all_tasks s"
  "fw_mem (store_at p bs s) = fw_mem s" "channels (store_at p bs s) = channels s"
  "chan_mem (store_at p bs s) = chan_mem s"
  by (simp_all add: store_at_def)

text \<open>A write to a channel that leaves its queues alone.\<close>

definition ring_only :: "(mt_chan \<Rightarrow> mt_chan) \<Rightarrow> bool" where
  "ring_only g \<longleftrightarrow> (\<forall>W ch. drop_waiters W (g ch) = g (drop_waiters W ch)) \<and>
     (\<forall>ch. send_q (g ch) = send_q ch \<and> recv_q (g ch) = recv_q ch \<and>
        send_waiters (g ch) = send_waiters ch \<and> recv_waiters (g ch) = recv_waiters ch) \<and>
     (\<forall>ch. select_send_q (g ch) = select_send_q ch \<and> select_recv_q (g ch) = select_recv_q ch \<and>
        select_send_waiters (g ch) = select_send_waiters ch \<and>
        select_recv_waiters (g ch) = select_recv_waiters ch)"

lemma ring_only_simps [simp]:
  "ring_only (\<lambda>ch. ch)" "ring_only (mt_chan_buffer_push bs)" "ring_only (\<lambda>ch. snd (mt_chan_buffer_pop ch))"
  "ring_only (\<lambda>ch. ch\<lparr>ch_closed := b\<rparr>)"
  by (auto simp: ring_only_def drop_waiters_def mt_chan_buffer_push_def mt_chan_buffer_pop_def)

lemma wf_ring_only: "wf X s \<Longrightarrow> ring_only g \<Longrightarrow> wf X (upd_chan c g s)"
  by (rule wf_upd_chan) (simp_all add: ring_only_def)

lemma wf_buffer_push: "wf X s \<Longrightarrow> wf X (buffer_push c bs s)"
  by (simp add: buffer_push_def wf_ring_only)

lemma buffer_pop_eq:
  "buffer_pop c out s = store_at out (fst (mt_chan_buffer_pop (chan_mem s c)))
     (upd_chan c (\<lambda>ch. snd (mt_chan_buffer_pop ch)) s)"
  by (simp add: buffer_pop_def upd_chan_def split_beta)

lemma wf_buffer_pop: "wf X s \<Longrightarrow> wf X (buffer_pop c out s)"
  by (simp add: buffer_pop_eq wf_ring_only)

section \<open>Waking a waiter of a channel\<close>

lemma wf_ready_waiter:
  assumes "wf X s" and "detached X s t"
  shows "wf (X - {t}) (mt_chan_ready_waiter t r s)"
  unfolding mt_chan_ready_waiter_def by (rule wf_complete_channel_wait[OF assms])

lemma wf_wake_sender:
  assumes "wf {} s" and "chan_send_pop c s = (Some t, s1)" and "ring_only g"
  shows "wf {} (mt_chan_ready_waiter t r (upd_chan d g (s1\<lparr>user_mem := um\<rparr>)))"
proof -
  note p = wf_send_pop[OF assms(1,2)]
  have "wf {t} (upd_chan d g (s1\<lparr>user_mem := um\<rparr>))" using wf_ring_only assms(3) p(1) by simp
  moreover have "detached {t} (upd_chan d g (s1\<lparr>user_mem := um\<rparr>)) t" using p(2) by (simp add: detached_def)
  ultimately show ?thesis using wf_ready_waiter by fastforce
qed

lemma wf_wake_receiver:
  assumes "wf {} s" and "chan_recv_pop c s = (Some t, s1)" and "ring_only g"
  shows "wf {} (mt_chan_ready_waiter t r (upd_chan d g (s1\<lparr>user_mem := um\<rparr>)))"
proof -
  note p = wf_recv_pop[OF assms(1,2)]
  have "wf {t} (upd_chan d g (s1\<lparr>user_mem := um\<rparr>))" using wf_ring_only assms(3) p(1) by simp
  moreover have "detached {t} (upd_chan d g (s1\<lparr>user_mem := um\<rparr>)) t" using p(2) by (simp add: detached_def)
  ultimately show ?thesis using wf_ready_waiter by fastforce
qed

text \<open>A select that a channel operation completes.\<close>

lemma wf_complete_popped:
  assumes wf: "wf {} s" and w: "sw_active (sw_mem s w)" and g: "ring_only g"
    and s1: "s1 = s\<lparr>chan_mem := drop_waiters {w} \<circ> chan_mem s, sw_mem := deactivate_all {w} (sw_mem s)\<rparr>"
  shows "wf {} (mt_select_complete_waiter w r (upd_chan d g (s1\<lparr>user_mem := um\<rparr>)))"
proof -
  note ws = wfD(7)[OF wf]
  obtain t where t: "sw_task (sw_mem s w) = Some t" using wf_selectD(2)[OF ws w] by blast
  have tt: "t \<in> set (all_tasks s)" "w \<in> set (select_waiters (task_mem s t))"
    using wf_selectD(3)[OF ws w t] by auto
  then have st: "state (task_mem s t) = MT_TASK_WAITING_SELECT"
    using wf_selectD(5)[OF ws, of t] by (cases "select_waiters (task_mem s t)") (auto simp: live_def)
  have "wf {} (mt_select_unpark_task t r (sw_index (sw_mem s w)) (upd_chan d g (s\<lparr>user_mem := um\<rparr>)))"
    by (rule wf_unpark[OF wf_ring_only]) (use wf g tt st in \<open>simp_all add: live_def\<close>)
  then show ?thesis
    using complete_popped[OF wf w t _ _ _ _ _ s1, of g] g by (simp add: ring_only_def)
qed

lemma select_pop_Some:
  "select_send_pop c s = (Some w, s1) \<Longrightarrow> \<exists>ws. select_send_q (chan_mem s c) = w # ws"
  "select_recv_pop c s = (Some w, s1) \<Longrightarrow> \<exists>ws. select_recv_q (chan_mem s c) = w # ws"
  by (cases "select_send_q (chan_mem s c)"; cases "select_recv_q (chan_mem s c)";
      auto simp: select_send_pop_def select_recv_pop_def)+

lemma select_pop_None:
  "select_send_pop c s = (None, s1) \<Longrightarrow> s1 = s" "select_recv_pop c s = (None, s1) \<Longrightarrow> s1 = s"
  "chan_send_pop c s = (None, s1) \<Longrightarrow> s1 = s" "chan_recv_pop c s = (None, s1) \<Longrightarrow> s1 = s"
  by (cases "select_send_q (chan_mem s c)"; cases "select_recv_q (chan_mem s c)";
      cases "send_q (chan_mem s c)"; cases "recv_q (chan_mem s c)";
      auto simp: select_send_pop_def select_recv_pop_def chan_send_pop_def chan_recv_pop_def upd_chan_def)+

lemma select_pop_popped:
  assumes wf: "wf {} s" and p: "select_send_pop c s = (Some w, s1) \<or> select_recv_pop c s = (Some w, s1)"
  shows "sw_active (sw_mem s w)"
    and "s1 = s\<lparr>chan_mem := drop_waiters {w} \<circ> chan_mem s, sw_mem := deactivate_all {w} (sw_mem s)\<rparr>"
proof -
  have ok: "select_ok s" by (rule wf_selectD(1)[OF wfD(7)[OF wf]])
  then have ch: "select_chan_ok s c" by (simp add: select_ok_def)
  from p have "sw_active (sw_mem s w) \<and>
    s1 = s\<lparr>chan_mem := drop_waiters {w} \<circ> chan_mem s, sw_mem := deactivate_all {w} (sw_mem s)\<rparr>"
  proof
    assume a: "select_send_pop c s = (Some w, s1)"
    then obtain ws where q: "select_send_q (chan_mem s c) = w # ws" using select_pop_Some(1) by blast
    then have "linked_send s c w" using ch unfolding select_chan_ok_def by (metis list.set_intros(1))
    then show ?thesis using select_send_pop_eq[OF ok q] a by (simp add: linked_send_def)
  next
    assume a: "select_recv_pop c s = (Some w, s1)"
    then obtain ws where q: "select_recv_q (chan_mem s c) = w # ws" using select_pop_Some(2) by blast
    then have "linked_recv s c w" using ch unfolding select_chan_ok_def by (metis list.set_intros(1))
    then show ?thesis using select_recv_pop_eq[OF ok q] a by (simp add: linked_recv_def)
  qed
  then show "sw_active (sw_mem s w)"
    "s1 = s\<lparr>chan_mem := drop_waiters {w} \<circ> chan_mem s, sw_mem := deactivate_all {w} (sw_mem s)\<rparr>" by auto
qed

lemma wf_wake_select:
  assumes "wf {} s" and "select_send_pop c s = (Some w, s1) \<or> select_recv_pop c s = (Some w, s1)"
    and "ring_only g"
  shows "wf {} (mt_select_complete_waiter w r (upd_chan d g (s1\<lparr>user_mem := um\<rparr>)))"
  by (rule wf_complete_popped[OF assms(1) select_pop_popped(1)[OF assms(1,2)] assms(3)
        select_pop_popped(2)[OF assms(1,2)]])

text \<open>The same with only one kind of write, or none.\<close>

lemma upd_chan_id [simp]: "upd_chan c (\<lambda>ch. ch) s = s"
  by (simp add: upd_chan_def)

lemmas wf_wake_rules =
  wf_wake_sender[where g = "\<lambda>ch. ch", simplified] wf_wake_receiver[where g = "\<lambda>ch. ch", simplified]
  wf_wake_select[where g = "\<lambda>ch. ch", simplified]

lemma wf_wake_store:
  "wf {} s \<Longrightarrow> chan_send_pop c s = (Some t, s1) \<Longrightarrow> wf {} (mt_chan_ready_waiter t r (store_at p bs s1))"
  "wf {} s \<Longrightarrow> chan_recv_pop c s = (Some t, s1) \<Longrightarrow> wf {} (mt_chan_ready_waiter t r (store_at p bs s1))"
  "wf {} s \<Longrightarrow> select_send_pop c s = (Some w, s1) \<Longrightarrow> wf {} (mt_select_complete_waiter w r (store_at p bs s1))"
  "wf {} s \<Longrightarrow> select_recv_pop c s = (Some w, s1) \<Longrightarrow> wf {} (mt_select_complete_waiter w r (store_at p bs s1))"
  using wf_wake_rules unfolding store_at_def by blast+

lemma wf_wake_plain:
  "wf {} s \<Longrightarrow> chan_send_pop c s = (Some t, s1) \<Longrightarrow> wf {} (mt_chan_ready_waiter t r s1)"
  "wf {} s \<Longrightarrow> chan_recv_pop c s = (Some t, s1) \<Longrightarrow> wf {} (mt_chan_ready_waiter t r s1)"
  "wf {} s \<Longrightarrow> select_send_pop c s = (Some w, s1) \<Longrightarrow> wf {} (mt_select_complete_waiter w r s1)"
  "wf {} s \<Longrightarrow> select_recv_pop c s = (Some w, s1) \<Longrightarrow> wf {} (mt_select_complete_waiter w r s1)"
  using wf_wake_rules(1)[of s c t s1 r "user_mem s1"] wf_wake_rules(2)[of s c t s1 r "user_mem s1"]
    wf_wake_rules(3)[of s c w s1 r "user_mem s1"] by simp_all

lemma wf_wake_push:
  "wf {} s \<Longrightarrow> chan_send_pop c s = (Some t, s1) \<Longrightarrow> wf {} (mt_chan_ready_waiter t r (buffer_push d bs s1))"
  "wf {} s \<Longrightarrow> select_send_pop c s = (Some w, s1) \<Longrightarrow> wf {} (mt_select_complete_waiter w r (buffer_push d bs s1))"
  using wf_wake_sender[of s c t s1 "mt_chan_buffer_push bs" r d "user_mem s1"]
    wf_wake_select[of s c w s1 "mt_chan_buffer_push bs" r d "user_mem s1"]
  by (simp_all add: buffer_push_def)

section \<open>Send and receive\<close>

lemma wf_fill_buffer:
  assumes wf: "wf {} s"
  shows "wf {} (mt_chan_fill_buffer_from_waiting_sender c s)"
proof -
  obtain o1 s1 where p1: "chan_send_pop c s = (o1, s1)" by fastforce
  obtain o2 s2 where p2: "select_send_pop c s = (o2, s2)" by fastforce
  have "o1 = None \<Longrightarrow> s1 = s" "o2 = None \<Longrightarrow> s2 = s" using p1 p2 select_pop_None by auto
  then show ?thesis
    using wf p1 p2 wf_wake_push[OF wf]
    by (auto simp: mt_chan_fill_buffer_from_waiting_sender_def split: option.split)
qed

lemma wf_send_now:
  assumes wf: "wf {} s" and r: "send_now c v s = (r, s')"
  shows "wf {} s'" and "r = None \<Longrightarrow> s' = s"
proof -
  obtain o1 s1 where p1: "chan_recv_pop c s = (o1, s1)" by fastforce
  obtain o2 s2 where p2: "select_recv_pop c s = (o2, s2)" by fastforce
  have n: "o1 = None \<Longrightarrow> s1 = s" "o2 = None \<Longrightarrow> s2 = s" using p1 p2 select_pop_None by auto
  show "wf {} s'"
    using wf p1 p2 n r wf_wake_store(2,4)[OF wf] wf_buffer_push[OF wf]
    by (auto simp: send_now_def split: option.splits if_splits)
  show "r = None \<Longrightarrow> s' = s"
    using p1 p2 n r by (auto simp: send_now_def split: option.splits if_splits)
qed

lemma wf_recv_now:
  assumes wf: "wf {} s" and r: "recv_now c v s = (r, s')"
  shows "wf {} s'" and "r = None \<Longrightarrow> s' = s"
proof -
  obtain o1 s1 where p1: "chan_send_pop c s = (o1, s1)" by fastforce
  obtain o2 s2 where p2: "select_send_pop c s = (o2, s2)" by fastforce
  have n: "o1 = None \<Longrightarrow> s1 = s" "o2 = None \<Longrightarrow> s2 = s" using p1 p2 select_pop_None by auto
  show "wf {} s'"
    using wf p1 p2 n r wf_wake_store(1,3)[OF wf] wf_wake_plain(1,3)[OF wf]
      wf_fill_buffer[OF wf_buffer_pop[OF wf]]
    by (auto simp: recv_now_def split: option.splits if_splits)
  show "r = None \<Longrightarrow> s' = s"
    using p1 p2 n r by (auto simp: recv_now_def split: option.splits if_splits)
qed

lemma wf_try_send: "wf {} s \<Longrightarrow> mt_chan_try_send ch v s = (rc, s') \<Longrightarrow> wf {} s'"
  using wf_send_now(1) by (auto simp: mt_chan_try_send_def split: option.splits if_splits prod.splits)

lemma wf_try_recv: "wf {} s \<Longrightarrow> mt_chan_try_recv ch v s = (rc, s') \<Longrightarrow> wf {} s'"
  using wf_recv_now(1) by (auto simp: mt_chan_try_recv_def split: option.splits if_splits prod.splits)

lemma wf_park_chan_switch:
  assumes wf: "wf {} s" and run: "is_running s t" and c: "c \<in> set (channels s)"
  shows "wf {} (mt_task_after_switch t (chan_send_push c t (mt_task_block_on_channel t c MT_CHAN_WAIT_SEND v s)))"
    and "wf {} (mt_task_after_switch t (chan_recv_push c t (mt_task_block_on_channel t c MT_CHAN_WAIT_RECV v s)))"
proof -
  note d = wf_running[OF wf run, simplified]
  have "wf {} (chan_send_push c t (mt_task_block_on_channel t c MT_CHAN_WAIT_SEND v s))"
    "wf {} (chan_recv_push c t (mt_task_block_on_channel t c MT_CHAN_WAIT_RECV v s))"
    using wf_park_send[OF d c] wf_park_recv[OF d c] by simp_all
  from this(1)[THEN wf_after_switch_parked, of t] this(2)[THEN wf_after_switch_parked, of t]
  show "wf {} (mt_task_after_switch t (chan_send_push c t (mt_task_block_on_channel t c MT_CHAN_WAIT_SEND v s)))"
    "wf {} (mt_task_after_switch t (chan_recv_push c t (mt_task_block_on_channel t c MT_CHAN_WAIT_RECV v s)))"
    by (simp_all add: chan_send_push_def chan_recv_push_def mt_task_block_on_channel_def Let_def)
qed

lemma wf_send:
  assumes wf: "wf {} s" and run: "\<And>t. cur = Some t \<Longrightarrow> is_running s t" and c: "c \<in> set (channels s)"
    and r: "mt_chan_send cur (Some c) v s = (out, s')"
  shows "wf {} (if out = Park then mt_task_after_switch (the cur) s' else s')"
proof -
  obtain r1 s1 where p: "send_now c v s = (r1, s1)" by fastforce
  note n = wf_send_now[OF wf p]
  show ?thesis
    using r p n wf wf_park_chan_switch(1)[OF wf run c]
    by (auto simp: mt_chan_send_def split: option.splits if_splits)
qed

lemma wf_recv:
  assumes wf: "wf {} s" and run: "\<And>t. cur = Some t \<Longrightarrow> is_running s t" and c: "c \<in> set (channels s)"
    and r: "mt_chan_recv cur (Some c) v s = (out, s')"
  shows "wf {} (if out = Park then mt_task_after_switch (the cur) s' else s')"
proof -
  obtain r1 s1 where p: "recv_now c v s = (r1, s1)" by fastforce
  note n = wf_recv_now[OF wf p]
  show ?thesis
    using r p n wf wf_park_chan_switch(2)[OF wf run c]
    by (auto simp: mt_chan_recv_def split: option.splits if_splits)
qed

section \<open>Close\<close>

lemma wf_wake_closed_senders: "wf {} s \<Longrightarrow> wf {} (wake_closed_senders c s)"
proof (induction c s rule: wake_closed_senders.induct)
  case (1 c s)
  obtain p s1 where pop: "chan_send_pop c s = (p, s1)" by fastforce
  show ?case
  proof (cases p)
    case None
    then show ?thesis using 1(2) pop select_pop_None(3) by (subst wake_closed_senders.simps) auto
  next
    case (Some t)
    then show ?thesis using 1(1)[OF pop[symmetric] Some] wf_wake_plain(1)[OF 1(2)] pop
      by (subst wake_closed_senders.simps) simp
  qed
qed

lemma wf_wake_closed_receivers: "wf {} s \<Longrightarrow> wf {} (wake_closed_receivers c s)"
proof (induction c s rule: wake_closed_receivers.induct)
  case (1 c s)
  obtain p s1 where pop: "chan_recv_pop c s = (p, s1)" by fastforce
  show ?case
  proof (cases p)
    case None
    then show ?thesis using 1(2) pop select_pop_None(4) by (subst wake_closed_receivers.simps) auto
  next
    case (Some t)
    then show ?thesis using 1(1)[OF pop[symmetric] Some] wf_wake_plain(2)[OF 1(2)] pop
      by (subst wake_closed_receivers.simps) simp
  qed
qed

lemma wf_wake_closed_select_senders: "wf {} s \<Longrightarrow> wf {} (wake_closed_select_senders c s)"
proof (induction c s rule: wake_closed_select_senders.induct)
  case (1 c s)
  obtain p s1 where pop: "select_send_pop c s = (p, s1)" by fastforce
  show ?case
  proof (cases p)
    case None
    then show ?thesis using 1(2) pop select_pop_None(1) by (subst wake_closed_select_senders.simps) auto
  next
    case (Some t)
    then show ?thesis using 1(1)[OF pop[symmetric] Some] wf_wake_plain(3)[OF 1(2)] pop
      by (subst wake_closed_select_senders.simps) simp
  qed
qed

lemma wf_wake_closed_select_receivers: "wf {} s \<Longrightarrow> wf {} (wake_closed_select_receivers c s)"
proof (induction c s rule: wake_closed_select_receivers.induct)
  case (1 c s)
  obtain p s1 where pop: "select_recv_pop c s = (p, s1)" by fastforce
  show ?case
  proof (cases p)
    case None
    then show ?thesis using 1(2) pop select_pop_None(2) by (subst wake_closed_select_receivers.simps) auto
  next
    case (Some t)
    then show ?thesis using 1(1)[OF pop[symmetric] Some] wf_wake_plain(4)[OF 1(2)] pop
      by (subst wake_closed_select_receivers.simps) simp
  qed
qed

lemma wf_wake_closed_waiters: "wf {} s \<Longrightarrow> wf {} (mt_chan_wake_closed_waiters c s)"
  unfolding mt_chan_wake_closed_waiters_def
  by (intro wf_wake_closed_select_receivers wf_wake_closed_select_senders wf_wake_closed_receivers
      wf_wake_closed_senders)

lemma wf_close: "wf {} s \<Longrightarrow> mt_chan_close ch s = (rc, s') \<Longrightarrow> wf {} s'"
  using wf_wake_closed_waiters[OF wf_ring_only]
  by (auto simp: mt_chan_close_def split: option.splits if_splits)

subsection \<open>A closed channel has no waiters left\<close>

lemma free_waiters_plain:
  "send_q (chan_mem (free_waiters ws s) c) = send_q (chan_mem s c)"
  "recv_q (chan_mem (free_waiters ws s) c) = recv_q (chan_mem s c)"
  by (induction ws arbitrary: s)
    (auto simp: mt_select_remove_waiter_from_channel_def select_send_remove_def select_recv_remove_def
      split: option.split)

lemma complete_waiter_plain:
  "send_q (chan_mem (mt_select_complete_waiter w r s) c) = send_q (chan_mem s c)"
  "recv_q (chan_mem (mt_select_complete_waiter w r s) c) = recv_q (chan_mem s c)"
proof (atomize (full), cases "sw_task (sw_mem s w)")
  case (Some t)
  let ?s = "upd_sw w (\<lambda>k. k\<lparr>sw_active := False\<rparr>) s"
  obtain ws s' where "chan_mem s' = chan_mem ?s" "chan_mem (mt_select_complete_waiter w r s) =
      chan_mem (free_waiters ws s')"
    using chan_mem_unpark[of ?s t r "sw_index (sw_mem s w)"] Some by (auto simp: mt_select_complete_waiter_def)
  then show "send_q (chan_mem (mt_select_complete_waiter w r s) c) = send_q (chan_mem s c) \<and>
    recv_q (chan_mem (mt_select_complete_waiter w r s) c) = recv_q (chan_mem s c)"
    by (simp add: free_waiters_plain)
qed (simp add: mt_select_complete_waiter_def)

lemma select_pop_plain:
  "select_send_pop c s = (p, s1) \<Longrightarrow> send_q (chan_mem s1 d) = send_q (chan_mem s d) \<and>
     recv_q (chan_mem s1 d) = recv_q (chan_mem s d) \<and> select_recv_q (chan_mem s1 d) = select_recv_q (chan_mem s d)"
  "select_recv_pop c s = (p, s1) \<Longrightarrow> send_q (chan_mem s1 d) = send_q (chan_mem s d) \<and>
     recv_q (chan_mem s1 d) = recv_q (chan_mem s d) \<and> select_send_q (chan_mem s1 d) = select_send_q (chan_mem s d)"
  by (auto simp: select_send_pop_def select_recv_pop_def Let_def split: prod.splits)

lemma wake_closed_select_senders_empty:
  "select_send_q (chan_mem (wake_closed_select_senders c s) c) = [] \<and>
   length (select_recv_q (chan_mem (wake_closed_select_senders c s) d)) \<le> length (select_recv_q (chan_mem s d)) \<and>
   send_q (chan_mem (wake_closed_select_senders c s) d) = send_q (chan_mem s d) \<and>
   recv_q (chan_mem (wake_closed_select_senders c s) d) = recv_q (chan_mem s d)"
proof (induction c s rule: wake_closed_select_senders.induct)
  case (1 c s)
  obtain p s1 where pop: "select_send_pop c s = (p, s1)" by fastforce
  show ?case
  proof (cases p)
    case None
    moreover have "select_send_q (chan_mem s c) = []"
      using pop None by (cases "select_send_q (chan_mem s c)") (auto simp: select_send_pop_def)
    ultimately show ?thesis using pop select_pop_None(1) by (subst (1 2 3 4) wake_closed_select_senders.simps) auto
  next
    case (Some w)
    have "wake_closed_select_senders c s = wake_closed_select_senders c (mt_select_complete_waiter w MT_ERR_CLOSED s1)"
      using pop Some by (subst wake_closed_select_senders.simps) simp
    then show ?thesis
      using 1[OF pop[symmetric] Some] select_pop_plain(1)[OF pop] complete_waiter_plain
        complete_waiter_shorter(2)[of w MT_ERR_CLOSED s1 d] by simp
  qed
qed

lemma wake_closed_select_receivers_empty:
  "select_recv_q (chan_mem (wake_closed_select_receivers c s) c) = [] \<and>
   length (select_send_q (chan_mem (wake_closed_select_receivers c s) d)) \<le> length (select_send_q (chan_mem s d)) \<and>
   send_q (chan_mem (wake_closed_select_receivers c s) d) = send_q (chan_mem s d) \<and>
   recv_q (chan_mem (wake_closed_select_receivers c s) d) = recv_q (chan_mem s d)"
proof (induction c s rule: wake_closed_select_receivers.induct)
  case (1 c s)
  obtain p s1 where pop: "select_recv_pop c s = (p, s1)" by fastforce
  show ?case
  proof (cases p)
    case None
    moreover have "select_recv_q (chan_mem s c) = []"
      using pop None by (cases "select_recv_q (chan_mem s c)") (auto simp: select_recv_pop_def)
    ultimately show ?thesis using pop select_pop_None(2) by (subst (1 2 3 4) wake_closed_select_receivers.simps) auto
  next
    case (Some w)
    have "wake_closed_select_receivers c s = wake_closed_select_receivers c (mt_select_complete_waiter w MT_ERR_CLOSED s1)"
      using pop Some by (subst wake_closed_select_receivers.simps) simp
    then show ?thesis
      using 1[OF pop[symmetric] Some] select_pop_plain(2)[OF pop] complete_waiter_plain
        complete_waiter_shorter(1)[of w MT_ERR_CLOSED s1 d] by simp
  qed
qed

lemma wake_closed_senders_empty:
  "send_q (chan_mem (wake_closed_senders c s) c) = [] \<and>
     recv_q (chan_mem (wake_closed_senders c s) c) = recv_q (chan_mem s c)"
proof (induction c s rule: wake_closed_senders.induct)
  case (1 c s)
  show ?case
  proof (cases "send_q (chan_mem s c)")
    case Nil
    then show ?thesis by (subst (1 2) wake_closed_senders.simps) (simp add: pop_Nil_eq)
  next
    case (Cons t q)
    then obtain s1 where pop: "chan_send_pop c s = (Some t, s1)" by (simp add: chan_send_pop_def)
    moreover have "recv_q (chan_mem s1 c) = recv_q (chan_mem s c)" using pop by (auto simp: chan_send_pop_def Let_def split: prod.splits)
    ultimately show ?thesis using 1[OF pop[symmetric] refl] by (subst (1 2) wake_closed_senders.simps) simp
  qed
qed

lemma wake_closed_receivers_empty:
  "recv_q (chan_mem (wake_closed_receivers c s) c) = [] \<and>
     send_q (chan_mem (wake_closed_receivers c s) c) = send_q (chan_mem s c)"
proof (induction c s rule: wake_closed_receivers.induct)
  case (1 c s)
  show ?case
  proof (cases "recv_q (chan_mem s c)")
    case Nil
    then show ?thesis by (subst (1 2) wake_closed_receivers.simps) (simp add: pop_Nil_eq)
  next
    case (Cons t q)
    then obtain s1 where pop: "chan_recv_pop c s = (Some t, s1)" by (simp add: chan_recv_pop_def)
    moreover have "send_q (chan_mem s1 c) = send_q (chan_mem s c)" using pop by (auto simp: chan_recv_pop_def Let_def split: prod.splits)
    ultimately show ?thesis using 1[OF pop[symmetric] refl] by (subst (1 2) wake_closed_receivers.simps) simp
  qed
qed

lemma wake_closed_waiters_empty:
  assumes "s' = mt_chan_wake_closed_waiters c s"
  shows "send_q (chan_mem s' c) = []" "recv_q (chan_mem s' c) = []" "select_send_q (chan_mem s' c) = []"
    "select_recv_q (chan_mem s' c) = []"
  using wake_closed_senders_empty[of c s] wake_closed_receivers_empty[of c "wake_closed_senders c s"]
    wake_closed_select_senders_empty[of c "wake_closed_receivers c (wake_closed_senders c s)" c]
    wake_closed_select_receivers_empty[of c
      "wake_closed_select_senders c (wake_closed_receivers c (wake_closed_senders c s))" c]
  by (simp_all add: assms mt_chan_wake_closed_waiters_def)

section \<open>Create and destroy\<close>

definition no_waiting :: "mt_chan \<Rightarrow> bool" where
  "no_waiting ch \<longleftrightarrow> send_q ch = [] \<and> recv_q ch = [] \<and> select_send_q ch = [] \<and> select_recv_q ch = []"

lemma wf_chan_counts:
  assumes "wf X s"
  shows "send_waiters (chan_mem s c) = length (send_q (chan_mem s c))"
    "recv_waiters (chan_mem s c) = length (recv_q (chan_mem s c))"
    "select_send_waiters (chan_mem s c) = length (select_send_q (chan_mem s c))"
    "select_recv_waiters (chan_mem s c) = length (select_recv_q (chan_mem s c))"
proof -
  note w = wfD[OF assms]
  show "send_waiters (chan_mem s c) = length (send_q (chan_mem s c))"
    "recv_waiters (chan_mem s c) = length (recv_q (chan_mem s c))"
    using w(3,4) by (simp_all add: wf_send_def wf_recv_def)
  have "select_chan_ok s c" using wf_selectD(1)[OF w(7)] by (simp add: select_ok_def)
  then show "select_send_waiters (chan_mem s c) = length (select_send_q (chan_mem s c))"
    "select_recv_waiters (chan_mem s c) = length (select_recv_q (chan_mem s c))"
    by (simp_all add: select_chan_ok_def)
qed

lemma wf_replace_chan:
  assumes wf: "wf X s" and c: "no_waiting (chan_mem s c)" "no_waiting k"
    and n: "send_waiters k = 0" "recv_waiters k = 0" "select_send_waiters k = 0" "select_recv_waiters k = 0"
    and cs: "distinct cs" "\<And>d. d \<notin> set cs \<Longrightarrow> d \<notin> set (channels s) \<or> d = c"
  shows "wf X (s\<lparr>channels := cs, chan_mem := (chan_mem s)(c := k)\<rparr>)" (is "wf X ?s")
proof (rule wfI)
  note w = wfD[OF wf]
  have e: "send_q (chan_mem s c) = []" "recv_q (chan_mem s c) = []" "select_send_q (chan_mem s c) = []"
    "select_recv_q (chan_mem s c) = []" and k: "send_q k = []" "recv_q k = []" "select_send_q k = []"
    "select_recv_q k = []" using c by (simp_all add: no_waiting_def)
  have q: "send_q (chan_mem ?s d) = send_q (chan_mem s d)" "recv_q (chan_mem ?s d) = recv_q (chan_mem s d)"
    "send_waiters (chan_mem ?s d) = send_waiters (chan_mem s d)"
    "recv_waiters (chan_mem ?s d) = recv_waiters (chan_mem s d)"
    "select_send_q (chan_mem ?s d) = select_send_q (chan_mem s d)"
    "select_recv_q (chan_mem ?s d) = select_recv_q (chan_mem s d)"
    "select_send_waiters (chan_mem ?s d) = select_send_waiters (chan_mem s d)"
    "select_recv_waiters (chan_mem ?s d) = select_recv_waiters (chan_mem s d)" for d
    using e k n wf_chan_counts[OF wf, of c] by simp_all
  have l: "live X ?s u = live X s u" for u by (simp add: live_def)
  have tk: "timers_ok ?s = timers_ok s" by (rule timers_ok_cong) simp_all
  have sk: "select_ok ?s = select_ok s" by (rule select_ok_chan_cong) (use q in simp_all)
  show "wf_runq X ?s" using w(1) unfolding wf_runq_def l by (simp add: runq_rep_def)
  show "wf_timers X ?s" using w(2) unfolding wf_timers_def l tk by simp
  show "wf_send X ?s" using w(3) unfolding wf_send_def l q by simp
  show "wf_recv X ?s" using w(4) unfolding wf_recv_def l q by simp
  show "wf_chans ?s" using w(5) cs e unfolding wf_chans_def q by fastforce
  show "wf_joins X ?s" using w(6) unfolding wf_joins_def l by simp
  show "wf_select X ?s" by (rule wf_select_step[OF w(7)]) (use wf_selectD(1)[OF w(7)] sk in simp_all)
  show "wf_fds X ?s" by (rule wf_fds_step[OF w(8)]) simp_all
  show "wf_handles ?s" by (rule wf_handles_step[OF w(9)]) simp_all
  show "wf_live X ?s" by (rule wf_live_step[OF w(10)]) simp_all
qed

lemma inv_chan_create:
  assumes inv: "runtime_inv s" and f: "\<And>c. new_ch = Some c \<Longrightarrow> c \<notin> set (channels s)"
    and r: "mt_chan_create es n env new_ch buf_ok junk s = (out, s')"
  shows "runtime_inv s'"
proof -
  obtain ok s1 where i: "ensure_init env s = (ok, s1)" by fastforce
  note e = runtime_inv_ensure_init[OF inv i]
  show ?thesis
  proof (cases "s' = s \<or> s' = s1")
    case True
    then show ?thesis using inv e by auto
  next
    case False
    then obtain c where c: "new_ch = Some c" "ok" and s': "s' = mt_chan_register c
        (upd_chan c (\<lambda>_. zero_chan\<lparr>elem_size := es, capacity := n, ch_buffer := map junk [0 ..< es * n]\<rparr>) s1)"
      using r i by (auto simp: mt_chan_create_def Let_def split: if_splits option.splits)
    have w1: "wf {} s1" using e(1) by (simp add: runtime_inv_def)
    have nc: "c \<notin> set (channels s1)" using f[OF c(1)] e(4) by simp
    have "no_waiting (chan_mem s1 c)" using wfD(5)[OF w1] nc by (simp add: wf_chans_def no_waiting_def)
    moreover have "distinct (channels s1)" using wfD(5)[OF w1] by (simp add: wf_chans_def)
    ultimately have "wf {} (s1\<lparr>channels := c # channels s1, chan_mem := (chan_mem s1)(c :=
        zero_chan\<lparr>elem_size := es, capacity := n, ch_buffer := map junk [0 ..< es * n]\<rparr>)\<rparr>)"
      using nc by (intro wf_replace_chan[OF w1]) (auto simp: no_waiting_def zero_chan_def)
    moreover have "s' = s1\<lparr>channels := c # channels s1, chan_mem := (chan_mem s1)(c :=
        zero_chan\<lparr>elem_size := es, capacity := n, ch_buffer := map junk [0 ..< es * n]\<rparr>)\<rparr>"
      by (simp add: s' mt_chan_register_def upd_chan_def)
    ultimately have "wf {} s'" by simp
    moreover have "initialized s'" using e(2) c(2) by (simp add: s' mt_chan_register_def)
    ultimately show ?thesis by (simp add: runtime_inv_def)
  qed
qed

lemma wf_destroy:
  assumes wf: "wf {} s" and r: "mt_chan_destroy (Some c) s = (rc, s')"
  shows "wf {} s'"
proof (cases "s' = s")
  case False
  let ?w = "select_send_waiters (chan_mem s c) \<noteq> 0 \<or> select_recv_waiters (chan_mem s c) \<noteq> 0"
  let ?s1 = "if ?w then mt_chan_wake_closed_waiters c (upd_chan c (\<lambda>k. k\<lparr>ch_closed := True\<rparr>) s) else s"
  have z: "send_waiters (chan_mem s c) = 0" "recv_waiters (chan_mem s c) = 0"
    and s': "s' = upd_chan c (\<lambda>_. zero_chan) (mt_chan_unregister c ?s1)"
    using r False by (auto simp: mt_chan_destroy_def Let_def split: if_splits)
  have w1: "wf {} ?s1" using wf by (simp add: wf_wake_closed_waiters wf_ring_only)
  have "no_waiting (chan_mem ?s1 c)"
    using z wf_chan_counts[OF wf, of c] wake_closed_waiters_empty[OF refl] by (auto simp: no_waiting_def)
  moreover have d: "distinct (channels ?s1)" using wfD(5)[OF w1] by (simp add: wf_chans_def)
  ultimately have "wf {} (?s1\<lparr>channels := remove1 c (channels ?s1), chan_mem := (chan_mem ?s1)(c := zero_chan)\<rparr>)"
    by (intro wf_replace_chan[OF w1]) (auto simp: no_waiting_def zero_chan_def)
  then show ?thesis by (simp add: s' mt_chan_unregister_def upd_chan_def)
qed (use wf in simp)

end
