(* ===== verification/Preserve_Select.thy ===== *)
theory Preserve_Select
  imports Preserve_Channel
begin

text \<open>Parking in a select keeps the invariant.\<close>

section \<open>Putting an exempt task back without a queue\<close>

lemma wf_attach:
  assumes wf: "wf X s" and t: "t \<in> X" "t \<in> set (all_tasks s)"
    and st: "state (task_mem s t) \<noteq> MT_TASK_READY" "state (task_mem s t) \<noteq> MT_TASK_DEAD"
      "\<not> timed (task_mem s t)" "state (task_mem s t) \<noteq> MT_TASK_WAITING_CHAN"
      "state (task_mem s t) \<noteq> MT_TASK_WAITING_JOIN" "parked_ok (task_mem s t)"
      "state (task_mem s t) = MT_TASK_WAITING_SELECT \<or> select_waiters (task_mem s t) = []"
    and fd: "state (task_mem s t) = MT_TASK_WAITING_FD \<longleftrightarrow>
      (\<exists>w. fd_waiter (task_mem s t) = Some w \<and> mt_fd_waiter_is_active (fw_mem s w))"
  shows "wf (X - {t}) s"
proof (rule wfI)
  note w = wfD[OF wf]
  have l: "live (X - {t}) s u \<longleftrightarrow> live X s u \<or> u = t" for u using t by (auto simp: live_def)
  have x: "\<not> live X s t" using t by (simp add: live_def)
  have neq: "\<not> waits_send c (task_mem s t)" "\<not> waits_recv c (task_mem s t)"
    "\<not> waits_join h (task_mem s t)" for c h using st(4,5) by (auto simp: wf_waits)
  show "wf_runq (X - {t}) s" using w(1) x st(1) unfolding wf_runq_def l by auto
  show "wf_timers (X - {t}) s" using w(2) x st(3) unfolding wf_timers_def l by auto
  show "wf_send (X - {t}) s" using w(3) x neq unfolding wf_send_def l by auto
  show "wf_recv (X - {t}) s" using w(4) x neq unfolding wf_recv_def l by auto
  show "wf_joins (X - {t}) s" using w(6) x neq unfolding wf_joins_def l by auto
  show "wf_chans s" "wf_handles s" by (rule w)+
  show "wf_select (X - {t}) s"
    by (rule wf_select_step[OF w(7) wf_selectD(1)[OF w(7)]]) (use st(7) in auto)
  show "wf_fds (X - {t}) s" by (rule wf_fds_step[OF w(8)]) (use fd in auto)
  show "wf_live (X - {t}) s" by (rule wf_live_step[OF w(10)]) (use st(2,6) in auto)
qed

section \<open>Registering a case\<close>

lemma wf_select_task:
  assumes "wf X s" and "t \<in> X" and "wf_select X s'" and "wf_chans s'"
    and tm: "\<And>u. u \<noteq> t \<Longrightarrow> task_mem s' u = task_mem s u"
    and keep: "handle (task_mem s' t) = handle (task_mem s t)" "state (task_mem s' t) = state (task_mem s t)"
      "fd_waiter (task_mem s' t) = fd_waiter (task_mem s t)"
    and q: "\<And>c. send_q (chan_mem s' c) = send_q (chan_mem s c)" "\<And>c. recv_q (chan_mem s' c) = recv_q (chan_mem s c)"
      "\<And>c. send_waiters (chan_mem s' c) = send_waiters (chan_mem s c)"
      "\<And>c. recv_waiters (chan_mem s' c) = recv_waiters (chan_mem s c)"
    and eq: "runq s' = runq s" "runnable_count s' = runnable_count s" "all_tasks s' = all_tasks s"
      "timers s' = timers s" "handle_mem s' = handle_mem s" "handles s' = handles s"
      "live_count s' = live_count s" "fd_waiters s' = fd_waiters s" "fw_mem s' = fw_mem s"
      "fd_waiting_count s' = fd_waiting_count s"
  shows "wf X s'"
proof (rule wfI)
  note w = wfD[OF assms(1)]
  have l: "live X s' u = live X s u" for u by (simp add: live_def eq)
  have x: "\<not> live X s t" using assms(2) by (simp add: live_def)
  have p: "live X s u \<and> P (task_mem s' u) \<longleftrightarrow> live X s u \<and> P (task_mem s u)" for u P
    using tm[of u] x by metis
  have f: "handle (task_mem s' u) = handle (task_mem s u)" "state (task_mem s' u) = state (task_mem s u)"
    "fd_waiter (task_mem s' u) = fd_waiter (task_mem s u)" for u
    using tm[of u] keep by (cases "u = t", simp_all)+
  have "t \<notin> set (items (timers s))" using x w(2) by (simp add: wf_timers_def)
  then have "task_mem s' u = task_mem s u" if "u \<in> set (items (timers s))" for u using tm that by metis
  then have tk: "timers_ok s' = timers_ok s" by (intro timers_ok_cong) (auto simp: eq timer_key_def)
  show "wf_runq X s'" using w(1) unfolding wf_runq_def l runq_rep_def eq f .
  show "wf_timers X s'" using w(2) unfolding wf_timers_def l tk eq p .
  show "wf_send X s'" using w(3) unfolding wf_send_def l q p .
  show "wf_recv X s'" using w(4) unfolding wf_recv_def l q p .
  show "wf_joins X s'" using w(6) unfolding wf_joins_def l eq p .
  show "wf_fds X s'" by (rule wf_fds_step[OF w(8)]) (simp_all add: eq f)
  show "wf_handles s'" using w(9) unfolding wf_handles_def eq f .
  have "u \<notin> X \<Longrightarrow> task_mem s' u = task_mem s u" for u using tm[of u] assms(2) by metis
  then show "wf_live X s'" by (intro wf_live_step[OF w(10)]) (simp_all add: eq f)
qed (rule assms(3,4))+

definition new_sw :: "tptr \<Rightarrow> mt_select_case \<Rightarrow> nat \<Rightarrow> mt_select_waiter" where
  "new_sw t k i = zero_sw\<lparr>sw_task := Some t, sw_ch := sc_ch k, sw_op := sc_op k,
     sw_value := sc_value k, sw_index := i, sw_active := True\<rparr>"

lemma register_case_fields:
  assumes "s' = register_case t k i w s" and "sc_ch k = Some c"
  shows "sw_mem s' = (sw_mem s)(w := new_sw t k i)"
    and "task_mem s' = (task_mem s)(t := (task_mem s t)\<lparr>select_waiters := w # select_waiters (task_mem s t),
           select_waiter_count := select_waiter_count (task_mem s t) + 1\<rparr>)"
    and "chan_mem s' = (chan_mem s)(c := if sc_op k = MT_SELECT_SEND
           then (chan_mem s c)\<lparr>select_send_q := select_send_q (chan_mem s c) @ [w],
                  select_send_waiters := select_send_waiters (chan_mem s c) + 1\<rparr>
           else (chan_mem s c)\<lparr>select_recv_q := select_recv_q (chan_mem s c) @ [w],
                  select_recv_waiters := select_recv_waiters (chan_mem s c) + 1\<rparr>)"
    and "runq s' = runq s" "runnable_count s' = runnable_count s" "all_tasks s' = all_tasks s"
      "timers s' = timers s" "handle_mem s' = handle_mem s" "handles s' = handles s"
      "live_count s' = live_count s" "fd_waiters s' = fd_waiters s" "fw_mem s' = fw_mem s"
      "fd_waiting_count s' = fd_waiting_count s" "channels s' = channels s" "initialized s' = initialized s"
  by (simp_all add: assms register_case_def Let_def select_send_push_def select_recv_push_def
      set_active_def new_sw_def)

lemma select_ok_register:
  assumes ok: "select_ok s" and w: "\<not> sw_active (sw_mem s w)" and k: "sc_ch k = Some c" "is_chan_case k"
    and s': "s' = register_case t k i w s"
  shows "select_ok s'"
proof -
  note f = register_case_fields[OF s' k(1)]
  have ls: "linked_send s' d v \<longleftrightarrow> (if v = w then d = c \<and> sc_op k = MT_SELECT_SEND else linked_send s d v)"
    and lr: "linked_recv s' d v \<longleftrightarrow> (if v = w then d = c \<and> sc_op k = MT_SELECT_RECV else linked_recv s d v)"
    for d v using k by (auto simp: linked_send_def linked_recv_def f new_sw_def)
  have op: "sc_op k = MT_SELECT_SEND \<or> sc_op k = MT_SELECT_RECV" using k(2) by (auto simp: is_chan_case_def)
  have nl: "\<not> linked_send s d w" "\<not> linked_recv s d w" for d using w by (simp_all add: linked_send_def linked_recv_def)
  have "select_chan_ok s' d" for d
  proof -
    have ch: "select_chan_ok s d" using ok by (simp add: select_ok_def)
    then have nq: "w \<notin> set (select_send_q (chan_mem s d))" "w \<notin> set (select_recv_q (chan_mem s d))"
      using nl by (simp_all add: select_chan_ok_def)
    show ?thesis using ch nq nl op unfolding select_chan_ok_def ls lr by (auto simp: f)
  qed
  moreover have "\<exists>d. linked_send s' d v \<or> linked_recv s' d v" if "sw_active (sw_mem s' v)" for v
    using that ok op unfolding select_ok_def ls lr by (auto simp: f split: if_splits)
  ultimately show ?thesis by (simp add: select_ok_def)
qed

lemma wf_register_case:
  assumes wf: "wf X s" and t: "t \<in> X" "t \<in> set (all_tasks s)" and w: "\<not> sw_active (sw_mem s w)"
    and k: "sc_ch k = Some c" "is_chan_case k" "c \<in> set (channels s)"
  shows "wf X (register_case t k i w s)"
proof -
  define s' where s': "s' = register_case t k i w s"
  note f = register_case_fields[OF s' k(1)] and ws = wfD(7)[OF wf]
  have nw: "w \<notin> set (select_waiters (task_mem s u))" if "u \<in> set (all_tasks s)" for u
    using wf_selectD(4)[OF ws that, of w] w by blast
  have "wf_select X s'"
    unfolding wf_select_def live_def f(6)
  proof (intro conjI allI impI ballI)
    show "select_ok s'" by (rule select_ok_register[OF wf_selectD(1)[OF ws] w k(1,2) s'])
  next
    fix v assume "sw_active (sw_mem s' v)"
    then show "sw_task (sw_mem s' v) \<noteq> None"
      using wf_selectD(2)[OF ws, of v] by (auto simp: f new_sw_def split: if_splits)
  next
    fix v u assume a: "sw_active (sw_mem s' v) \<and> sw_task (sw_mem s' v) = Some u"
    show "u \<in> set (all_tasks s)" "v \<in> set (select_waiters (task_mem s' u))"
      using a wf_selectD(3)[OF ws, of v u] t(2) by (auto simp: f new_sw_def split: if_splits)
  next
    fix u v assume a: "u \<in> set (all_tasks s)" "v \<in> set (select_waiters (task_mem s' u))"
    show "sw_active (sw_mem s' v)" "sw_task (sw_mem s' v) = Some u"
      using a wf_selectD(4)[OF ws, of u v] nw by (auto simp: f new_sw_def split: if_splits)
  next
    fix u assume "(u \<in> set (all_tasks s) \<and> u \<notin> X) \<and> state (task_mem s' u) \<noteq> MT_TASK_WAITING_SELECT"
    then show "select_waiters (task_mem s' u) = []"
      using wf_selectD(5)[OF ws, of u] t(1) by (auto simp: f live_def split: if_splits)
  qed
  moreover have "wf_chans s'" using wfD(5)[OF wf] k(3) by (auto simp: wf_chans_def f)
  ultimately have "wf X s'" by (rule wf_select_task[OF wf t(1)]) (simp_all add: f)
  then show ?thesis by (simp add: s')
qed

section \<open>Registering all cases\<close>

text \<open>What \<^verbatim>\<open>mt_alloc_select_waiter\<close> guarantees: different objects, none of them in use.\<close>

definition fresh_waiters :: "wptr option list \<Rightarrow> mt_state \<Rightarrow> bool" where
  "fresh_waiters allocs s \<longleftrightarrow> distinct (filter (\<lambda>a. a \<noteq> None) allocs) \<and>
     list_all (\<lambda>a. case a of None \<Rightarrow> True | Some w \<Rightarrow> \<not> sw_active (sw_mem s w)) allocs"

text \<open>The cases name channels that exist.\<close>

definition known_channels :: "mt_select_case list \<Rightarrow> mt_state \<Rightarrow> bool" where
  "known_channels cases s \<longleftrightarrow>
     list_all (\<lambda>k. is_chan_case k \<longrightarrow> (case sc_ch k of None \<Rightarrow> False | Some c \<Rightarrow> c \<in> set (channels s))) cases"

lemma fresh_waiters_register:
  assumes "fresh_waiters (Some w # allocs) s" and "s' = register_case t k i w s" and "sc_ch k = Some c"
  shows "\<not> sw_active (sw_mem s w)" and "fresh_waiters allocs s'"
proof -
  show "\<not> sw_active (sw_mem s w)" using assms(1) by (simp add: fresh_waiters_def)
  have "Some w \<notin> set allocs" using assms(1) by (simp add: fresh_waiters_def)
  then show "fresh_waiters allocs s'"
    using assms(1) unfolding fresh_waiters_def register_case_fields(1)[OF assms(2,3)]
    by (auto simp: list_all_iff split: option.splits)
qed

lemma wf_register_cases:
  assumes "wf X s" and "t \<in> X" and "t \<in> set (all_tasks s)" and "fresh_waiters allocs s"
    and "known_channels cases s" and "register_cases t cases i allocs s = (ok, s')"
  shows "wf X s' \<and> all_tasks s' = all_tasks s \<and> fw_mem s' = fw_mem s \<and> initialized s' = initialized s \<and>
     (\<exists>ws n. task_mem s' t = (task_mem s t)\<lparr>select_waiters := ws, select_waiter_count := n\<rparr> \<and>
        (select_waiters (task_mem s t) \<noteq> [] \<longrightarrow> ws \<noteq> []) \<and>
        (ok \<and> list_ex is_chan_case cases \<longrightarrow> ws \<noteq> []))"
  using assms
proof (induction cases arbitrary: i allocs s)
  case Nil
  then show ?case by (auto intro!: exI[of _ "select_waiters (task_mem s t)"]
        exI[of _ "select_waiter_count (task_mem s t)"])
next
  case (Cons k ks)
  show ?case
  proof (cases "is_chan_case k")
    case False
    then have "register_cases t ks (i + 1) allocs s = (ok, s')" "known_channels ks s"
      using Cons.prems(5,6) by (simp_all add: known_channels_def)
    from Cons.IH[OF Cons.prems(1-4) this(2,1)] False show ?thesis by simp
  next
    case True
    then obtain c where c: "sc_ch k = Some c" "c \<in> set (channels s)"
      using Cons.prems(5) by (auto simp: known_channels_def split: option.splits)
    show ?thesis
    proof (cases "\<exists>w as. allocs = Some w # as")
      case False
      then have "ok = False" "s' = s" using Cons.prems(6) True by (auto split: list.splits option.splits)
      then show ?thesis using Cons.prems(1) by (auto intro!: exI[of _ "select_waiters (task_mem s t)"]
        exI[of _ "select_waiter_count (task_mem s t)"])
    next
      case w: True
      then obtain w as where al: "allocs = Some w # as" by blast
      define s1 where s1: "s1 = register_case t k i w s"
      note f = register_case_fields[OF s1 c(1)]
      note fw = fresh_waiters_register[OF Cons.prems(4)[unfolded al] s1 c(1)]
      have w1: "wf X s1" unfolding s1 by (rule wf_register_case[OF Cons.prems(1-3) fw(1) c(1) True c(2)])
      have "known_channels ks s1" using Cons.prems(5) unfolding known_channels_def f(14) by simp
      moreover have "register_cases t ks (i + 1) as s1 = (ok, s')" using Cons.prems(6) True al s1 by simp
      moreover have "t \<in> set (all_tasks s1)" using Cons.prems(3) by (simp add: f)
      ultimately have ih: "wf X s' \<and> all_tasks s' = all_tasks s1 \<and> fw_mem s' = fw_mem s1 \<and>
         initialized s' = initialized s1 \<and>
         (\<exists>ws n. task_mem s' t = (task_mem s1 t)\<lparr>select_waiters := ws, select_waiter_count := n\<rparr> \<and>
            (select_waiters (task_mem s1 t) \<noteq> [] \<longrightarrow> ws \<noteq> []) \<and>
            (ok \<and> list_ex is_chan_case ks \<longrightarrow> ws \<noteq> []))"
        using Cons.IH[OF w1 Cons.prems(2) _ fw(2)] by blast
      then obtain ws n where ws: "task_mem s' t = (task_mem s1 t)\<lparr>select_waiters := ws, select_waiter_count := n\<rparr>"
        "ws \<noteq> []" by (auto simp: f)
      then have "task_mem s' t = (task_mem s t)\<lparr>select_waiters := ws, select_waiter_count := n\<rparr>"
        by (simp add: f)
      with ws(2) ih show ?thesis by (auto simp: f)
    qed
  qed
qed

section \<open>Parking\<close>

lemma block_on_select_eq:
  "\<exists>n. mt_task_block_on_select t (upd_task t g s) =
     (upd_task t (\<lambda>k. (g k)\<lparr>state := MT_TASK_WAITING_SELECT, select_counted_waiting := True\<rparr>) s)
       \<lparr>channel_waiting_count := n\<rparr>"
proof (cases "select_counted_waiting (g (task_mem s t))")
  case True
  have "mt_task_block_on_select t (upd_task t g s) = upd_task t (\<lambda>k. (g k)\<lparr>state := MT_TASK_WAITING_SELECT\<rparr>) s"
    using True by (simp add: mt_task_block_on_select_def Let_def upd_task_twice)
  also have "\<dots> = (upd_task t (\<lambda>k. (g k)\<lparr>state := MT_TASK_WAITING_SELECT, select_counted_waiting := True\<rparr>) s)
       \<lparr>channel_waiting_count := channel_waiting_count s\<rparr>"
    by (rule mt_state.equality) (simp_all add: True task_eq)
  finally show ?thesis by blast
next
  case False
  then have "mt_task_block_on_select t (upd_task t g s) =
     (upd_task t (\<lambda>k. (g k)\<lparr>state := MT_TASK_WAITING_SELECT, select_counted_waiting := True\<rparr>) s)
       \<lparr>channel_waiting_count := channel_waiting_count s + 1\<rparr>"
    by (simp add: mt_task_block_on_select_def Let_def upd_task_def)
  then show ?thesis by blast
qed

lemma wf_block_untimed:
  assumes wf: "wf X s" and t: "t \<in> X" "t \<in> set (all_tasks s)" "state (task_mem s t) \<noteq> MT_TASK_DEAD"
    and sel: "select_waiters (task_mem s t) \<noteq> []" "\<not> select_in_timer (task_mem s t)"
    and fd: "\<forall>w. fd_waiter (task_mem s t) = Some w \<longrightarrow> \<not> mt_fd_waiter_is_active (fw_mem s w)"
  shows "wf (X - {t}) (mt_task_block_on_select t s)"
proof -
  obtain n where n: "mt_task_block_on_select t s =
     (upd_task t (\<lambda>k. k\<lparr>state := MT_TASK_WAITING_SELECT, select_counted_waiting := True\<rparr>) s)
       \<lparr>channel_waiting_count := n\<rparr>"
    using block_on_select_eq[of t "\<lambda>k. k" s] by (auto simp: upd_task_def)
  have "wf X (upd_task t (\<lambda>k. k\<lparr>state := MT_TASK_WAITING_SELECT, select_counted_waiting := True\<rparr>) s)"
    by (rule wf_upd_task[OF wf t(1)]) (use t(3) in simp_all)
  then have "wf (X - {t}) (upd_task t (\<lambda>k. k\<lparr>state := MT_TASK_WAITING_SELECT, select_counted_waiting := True\<rparr>) s)"
    by (rule wf_attach) (use t sel fd in \<open>simp_all add: timed_def parked_ok_def\<close>)
  then show ?thesis by (simp add: n)
qed

lemma wf_block_timed:
  assumes wf: "wf X s" and t: "t \<in> X" "t \<in> set (all_tasks s)" "state (task_mem s t) \<noteq> MT_TASK_DEAD"
    and push: "mt_timer_push_state t d MT_TASK_WAITING_SELECT a s = (MT_OK, s1)"
    and fd: "\<forall>w. fd_waiter (task_mem s t) = Some w \<longrightarrow> \<not> mt_fd_waiter_is_active (fw_mem s w)"
  shows "wf (X - {t}) (mt_task_block_on_select t (upd_task t (\<lambda>k. k\<lparr>select_in_timer := True\<rparr>) s1))"
proof -
  obtain n where n: "mt_task_block_on_select t (upd_task t (\<lambda>k. k\<lparr>select_in_timer := True\<rparr>) s1) =
     (upd_task t (\<lambda>k. k\<lparr>select_in_timer := True, state := MT_TASK_WAITING_SELECT,
        select_counted_waiting := True\<rparr>) s1)\<lparr>channel_waiting_count := n\<rparr>"
    using block_on_select_eq[of t "\<lambda>k. k\<lparr>select_in_timer := True\<rparr>" s1] by blast
  have "wf (X - {t}) (upd_task t (\<lambda>k. k\<lparr>select_in_timer := True, state := MT_TASK_WAITING_SELECT,
      select_counted_waiting := True\<rparr>) s1)"
    by (rule wf_timer_attach[OF wf t push]) (use fd in \<open>simp_all add: timed_def\<close>)
  then show ?thesis by (simp add: n)
qed

lemma select_validate_chan:
  "select_validate ks i p = Some q \<Longrightarrow> channel_cases p < channel_cases q \<Longrightarrow> list_ex is_chan_case ks"
  by (induction ks i p rule: select_validate.induct)
    (auto simp: is_chan_case_def split: mt_select_op.splits if_splits)

lemma wf_select_park:
  assumes wf: "wf {} s" and run: "is_running s t" and v: "select_validate cases 0 empty_plan = Some p"
    and f: "fresh_waiters allocs s" and c: "known_channels cases s"
    and r: "mt_select_park (Some t) cases p allocs now tok s = (out, s')"
  shows "wf {} (if out = SelectPark then mt_task_after_switch t s' else s')"
proof (cases "channel_cases p = 0 \<and> timeout_index p = None")
  case True
  then show ?thesis using r wf by (auto simp: mt_select_park_def)
next
  case some: False
  note d = wf_running[OF wf run, simplified]
  let ?f = "\<lambda>r :: mt_task. r\<lparr>select_waiters := [], select_waiter_count := 0, select_result := MT_OK,
    select_index := (case timeout_index p of Some i \<Rightarrow> i | None \<Rightarrow> 0), select_in_timer := False,
    select_counted_waiting := False\<rparr>"
  let ?s0 = "upd_task t ?f s"
  have sel: "select_waiters (task_mem s t) = []" and ta: "t \<in> set (all_tasks s)"
    and fd: "\<forall>w. fd_waiter (task_mem s t) = Some w \<longrightarrow> \<not> mt_fd_waiter_is_active (fw_mem s w)"
    using d(2) unfolding detached_def by blast+
  have st: "state (task_mem s t) = MT_TASK_RUNNING" using run by (simp add: is_running_def)
  have w0: "wf {t} ?s0" by (rule wf_upd_task[OF d(1)]) (simp_all add: sel)
  obtain ok s1 where reg: "register_cases t cases 0 allocs ?s0 = (ok, s1)" by fastforce
  have fr0: "fresh_waiters allocs ?s0" "known_channels cases ?s0"
    using f c unfolding fresh_waiters_def known_channels_def upd_task_frame .
  note reg1 = wf_register_cases[OF w0 _ _ fr0 reg, simplified, OF ta]
  then obtain ws n where w1: "wf {t} s1" "all_tasks s1 = all_tasks s" "fw_mem s1 = fw_mem s"
    and k1: "task_mem s1 t = (?f (task_mem s t))\<lparr>select_waiters := ws, select_waiter_count := n\<rparr>"
    and ws: "ok \<Longrightarrow> list_ex is_chan_case cases \<Longrightarrow> ws \<noteq> []" by auto
  have fails: "wf {} (mt_select_free_task_waiters t q)"
    if "wf {t} q" "task_mem q t = x" "state x = MT_TASK_RUNNING" "all_tasks q = all_tasks s" "fw_mem q = fw_mem s"
      "fd_waiter x = fd_waiter (task_mem s t)" for q x
  proof -
    have "wf {t} (mt_select_free_task_waiters t q)" using wf_free_task_waiters[OF that(1)] ta that(4) by simp
    note eq = free_task_waiters_eq[OF wf_selectD(1)[OF wfD(7)[OF that(1)]], of t]
    have "wf ({t} - {t}) (mt_select_free_task_waiters t q)"
      by (rule wf_attach[OF \<open>wf {t} (mt_select_free_task_waiters t q)\<close>])
        (use that ta fd in \<open>simp_all add: eq timed_def\<close>)
    then show ?thesis by simp
  qed
  show ?thesis
  proof (cases ok)
    case False
    then have "out \<noteq> SelectPark" "s' = mt_select_free_task_waiters t s1"
      using r some reg by (auto simp: mt_select_park_def)
    then show ?thesis using fails[OF w1(1) k1 _ w1(2,3)] st by simp
  next
    case True
    show ?thesis
    proof (cases "timeout_index p")
      case None
      have "list_ex is_chan_case cases"
        using select_validate_chan[OF v] some None by (simp add: empty_plan_def)
      then have "ws \<noteq> []" using ws True by simp
      then have "wf ({t} - {t}) (mt_task_block_on_select t s1)"
        by (intro wf_block_untimed[OF w1(1)]) (use ta w1 k1 st fd in simp_all)
      moreover have "out = SelectPark" "s' = mt_task_block_on_select t s1"
        using r some reg True None by (auto simp: mt_select_park_def)
      ultimately show ?thesis
        by (simp add: wf_after_switch_parked mt_task_block_on_select_def Let_def)
    next
      case (Some i)
      let ?s2 = "upd_task t (\<lambda>r. r\<lparr>select_index := i\<rparr>) s1"
      have w2: "wf {t} ?s2" by (rule wf_upd_task[OF w1(1)]) simp_all
      obtain rc s3 where push: "mt_timer_push_state t (deadline_after now (timeout_ms p))
          MT_TASK_WAITING_SELECT tok ?s2 = (rc, s3)" by fastforce
      show ?thesis
      proof (cases "rc = MT_OK")
        case True
        let ?e = "mt_task_block_on_select t (upd_task t (\<lambda>r. r\<lparr>select_in_timer := True\<rparr>) s3)"
        have "wf ({t} - {t}) ?e"
          by (rule wf_block_timed[OF w2]) (use push True ta w1 k1 st fd in simp_all)
        moreover have "out = SelectPark" "s' = ?e"
          using r some reg \<open>ok\<close> Some push True by (auto simp: mt_select_park_def)
        ultimately show ?thesis
          by (simp add: wf_after_switch_parked mt_task_block_on_select_def Let_def)
      next
        case False
        then have "s3 = ?s2" using timer_push_failed[OF push] by simp
        moreover have "out \<noteq> SelectPark" "s' = mt_select_free_task_waiters t s3"
          using r some reg \<open>ok\<close> Some push False by (auto simp: mt_select_park_def)
        ultimately show ?thesis
          using fails[OF w2 refl] w1 k1 st by simp
      qed
    qed
  qed
qed

section \<open>The whole call\<close>

lemma wf_select_try_case:
  assumes "wf {} s" and "mt_select_try_case k s = (rc, s')"
  shows "wf {} s'"
proof (cases "sc_op k")
  case MT_SELECT_RECV
  then show ?thesis using assms(2) wf_try_recv[OF assms(1)] by (simp add: mt_select_try_case_def)
next
  case MT_SELECT_SEND
  then show ?thesis using assms(2) wf_try_send[OF assms(1)] by (simp add: mt_select_try_case_def)
qed (use assms in \<open>simp_all add: mt_select_try_case_def\<close>)

text \<open>A case that would block leaves everything as it was.\<close>

lemma send_now_not_would_block: "send_now c v s = (Some rc, s') \<Longrightarrow> rc \<noteq> MT_ERR_WOULD_BLOCK"
  by (auto simp: send_now_def split: if_splits option.splits prod.splits)

lemma recv_now_not_would_block: "recv_now c v s = (Some rc, s') \<Longrightarrow> rc \<noteq> MT_ERR_WOULD_BLOCK"
  by (auto simp: recv_now_def split: if_splits option.splits prod.splits)

lemma try_would_block:
  assumes "wf {} s"
  shows "mt_chan_try_send ch v s = (MT_ERR_WOULD_BLOCK, s') \<Longrightarrow> s' = s"
    and "mt_chan_try_recv ch v s = (MT_ERR_WOULD_BLOCK, s') \<Longrightarrow> s' = s"
proof -
  have "s' = s" if "mt_chan_try_send (Some c) (Some u) s = (MT_ERR_WOULD_BLOCK, s')" for c u
  proof (cases "send_now c (Some u) s")
    case (Pair r s1)
    with that show ?thesis using wf_send_now(2)[OF assms Pair] send_now_not_would_block[of c "Some u" s]
      by (cases r) (auto simp: mt_chan_try_send_def)
  qed
  then show "mt_chan_try_send ch v s = (MT_ERR_WOULD_BLOCK, s') \<Longrightarrow> s' = s"
    by (cases ch; cases v) (simp_all, simp_all add: mt_chan_try_send_def)
  have "s' = s" if "mt_chan_try_recv (Some c) (Some u) s = (MT_ERR_WOULD_BLOCK, s')" for c u
  proof (cases "recv_now c (Some u) s")
    case (Pair r s1)
    with that show ?thesis using wf_recv_now(2)[OF assms Pair] recv_now_not_would_block[of c "Some u" s]
      by (cases r) (auto simp: mt_chan_try_recv_def)
  qed
  then show "mt_chan_try_recv ch v s = (MT_ERR_WOULD_BLOCK, s') \<Longrightarrow> s' = s"
    by (cases ch; cases v) (simp_all, simp_all add: mt_chan_try_recv_def)
qed

lemma try_case_would_block:
  assumes "wf {} s" and "mt_select_try_case k s = (MT_ERR_WOULD_BLOCK, s')"
  shows "s' = s"
proof (cases "sc_op k")
  case MT_SELECT_RECV
  then show ?thesis using assms(2) try_would_block(2)[OF assms(1)] by (simp add: mt_select_try_case_def)
next
  case MT_SELECT_SEND
  then show ?thesis using assms(2) try_would_block(1)[OF assms(1)] by (simp add: mt_select_try_case_def)
qed (use assms in \<open>simp_all add: mt_select_try_case_def\<close>)

lemma wf_select_try:
  "wf {} s \<Longrightarrow> select_try cases i s = (r, s') \<Longrightarrow> wf {} s' \<and> (r = None \<longrightarrow> s' = s)"
proof (induction cases arbitrary: i)
  case (Cons k ks)
  show ?case
  proof (cases "is_chan_case k")
    case True
    obtain rc s1 where t: "mt_select_try_case k s = (rc, s1)" by fastforce
    show ?thesis
    proof (cases "rc = MT_ERR_WOULD_BLOCK")
      case wb: True
      then have "s1 = s" using try_case_would_block[OF Cons.prems(1)] t by simp
      then have "select_try ks (i + 1) s = (r, s')" using Cons.prems(2) t True wb by simp
      then show ?thesis by (rule Cons.IH[OF Cons.prems(1)])
    next
      case False
      then show ?thesis using Cons.prems t True wf_select_try_case[OF Cons.prems(1) t] by auto
    qed
  next
    case False
    then have "select_try ks (i + 1) s = (r, s')" using Cons.prems(2) by simp
    then show ?thesis by (rule Cons.IH[OF Cons.prems(1)])
  qed
qed simp

lemma wf_mt_select:
  assumes wf: "wf {} s" and run: "\<And>t. cur = Some t \<Longrightarrow> is_running s t"
    and f: "fresh_waiters allocs s" and c: "known_channels cases s"
    and r: "mt_select cur cases ix allocs now tok s = (out, s')"
  shows "wf {} (if out = SelectPark then mt_task_after_switch (the cur) s' else s')"
proof (cases "cases = [] \<or> \<not> ix \<or> select_validate cases 0 empty_plan = None")
  case True
  then have "mt_select cur cases ix allocs now tok s = (Selected MT_ERR_INVALID None, s)"
    by (auto simp: mt_select_def)
  then show ?thesis using wf r by auto
next
  case False
  then obtain p where p: "select_validate cases 0 empty_plan = Some p" by auto
  obtain o1 s1 where t: "select_try cases 0 s = (o1, s1)" by fastforce
  note w1 = wf_select_try[OF wf t]
  show ?thesis
  proof (cases "o1 = None \<and> default_index p = None \<and> \<not> (timeout_index p \<noteq> None \<and> timeout_ms p = 0) \<and> cur \<noteq> None")
    case True
    then obtain t where "cur = Some t" "mt_select_park (Some t) cases p allocs now tok s = (out, s')"
      using r p False t w1 by (auto simp: mt_select_def)
    then show ?thesis using wf_select_park[OF wf run p f c] by auto
  next
    case nopark: False
    then have "out \<noteq> SelectPark \<and> s' = s1"
      using r p False t by (auto simp: mt_select_def mt_select_park_def split: option.splits if_splits prod.splits)
    then show ?thesis using w1 by simp
  qed
qed

end
