(* ===== verification/Preserve_Sched.thy ===== *)
theory Preserve_Sched
  imports Preserve_Select
begin

text \<open>The scheduler: timers, descriptor events, the worker loop and shutdown keep the invariant.\<close>

section \<open>Expired timers\<close>

lemma wf_wake_timer:
  assumes wf: "wf X s" and pop: "mt_timer_pop s = (Some t, s')"
  shows "wf X (wake_timer t s')"
proof -
  note p = wf_timer_pop[OF wf pop]
  have t: "t \<in> set (all_tasks s')" "t \<notin> X" using p(2,5) by (simp_all add: live_def)
  have k: "task_mem s' t = (task_mem s t)\<lparr>wake_ns := 0\<rparr>" using p(4) by simp
  have st: "state (task_mem s' t) = state (task_mem s t)" "fd_waiter (task_mem s' t) = fd_waiter (task_mem s t)"
    "select_waiters (task_mem s' t) = select_waiters (task_mem s t)" by (simp_all add: k)
  have fd: "\<forall>w. fd_waiter (task_mem s' t) = Some w \<longrightarrow> \<not> mt_fd_waiter_is_active (fw_mem s' w)"
    if "state (task_mem s t) \<noteq> MT_TASK_WAITING_FD"
    using no_active_fd[OF wf p(2) that] st(2) p(6) by simp
  have sel: "select_waiters (task_mem s' t) = []" if "state (task_mem s t) \<noteq> MT_TASK_WAITING_SELECT"
    using no_waiters[OF wf p(2) that] st(3) by simp
  have nd: "state (task_mem s' t) \<noteq> MT_TASK_DEAD" using p(3) st(1) by (auto simp: timed_def)
  have ins: "insert t X - {t} = X" using t(2) by simp
  consider "state (task_mem s t) = MT_TASK_WAITING_SELECT" | "state (task_mem s t) = MT_TASK_WAITING_FD"
    | "state (task_mem s t) = MT_TASK_SLEEPING" using p(3) by (auto simp: timed_def)
  then show ?thesis
  proof cases
    case 1
    then have "wf (insert t X - {t}) (mt_select_timeout_ready t s')"
      by (intro wf_select_timeout[OF p(1)]) (use t nd fd in simp_all)
    then show ?thesis using 1 st(1) ins by (simp add: wake_timer_def)
  next
    case 2
    then have "wf (insert t X - {t}) (mt_fd_timeout_ready t s')"
      by (intro wf_fd_timeout[OF p(1)]) (use t nd sel in simp_all)
    then show ?thesis using 2 st(1) ins by (simp add: wake_timer_def)
  next
    case 3
    then have "detached (insert t X) s' t" using t nd sel fd by (simp add: detached_def)
    from wf_mark_ready[OF p(1) this] show ?thesis using 3 st(1) ins by (simp add: wake_timer_def)
  qed
qed

lemma wf_wake_expired: "wf X s \<Longrightarrow> wf X (mt_wake_expired_timers now s)"
proof (induction now s rule: mt_wake_expired_timers.induct)
  case (1 now s)
  show ?case
  proof (cases "mt_timer_peek s")
    case None
    then show ?thesis using 1(2) by (subst mt_wake_expired_timers.simps) simp
  next
    case (Some t)
    show ?thesis
    proof (cases "wake_ns (task_mem s t) > now")
      case True
      then show ?thesis using 1(2) Some by (subst mt_wake_expired_timers.simps) simp
    next
      case False
      obtain p s' where pop: "mt_timer_pop s = (p, s')" by fastforce
      show ?thesis
      proof (cases p)
        case None
        then show ?thesis using 1(2) Some False pop by (subst mt_wake_expired_timers.simps) simp
      next
        case (Some u)
        have "wf X (wake_timer u s')" using wf_wake_timer[OF 1(2)] pop Some by simp
        from 1(1)[OF \<open>mt_timer_peek s = Some t\<close> False pop[symmetric] Some this]
        show ?thesis using \<open>mt_timer_peek s = Some t\<close> False pop Some
          by (subst mt_wake_expired_timers.simps) simp
      qed
    qed
  qed
qed

section \<open>Descriptor events\<close>

lemma wf_ready_active:
  assumes wf: "wf {} s" and w: "w \<in> set (fd_waiters s)" "mt_fd_waiter_is_active (fw_mem s w)"
  shows "wf {} (mt_fd_ready_waiter w r e s)"
proof -
  note f = wfD(8)[OF wf]
  obtain t where t: "fw_task (fw_mem s w) = Some t" using wf_fdsD(3)[OF f w(1)] by blast
  have "state (task_mem s t) = MT_TASK_WAITING_FD" using wf_fdsD(5)[OF f w(1) t] w(2) by simp
  then show ?thesis using wf_fd_ready[OF wf w(1) t] by simp
qed

lemma fd_waiters_timer_remove [simp]: "fd_waiters (snd (mt_timer_remove t s)) = fd_waiters s"
  by (simp add: timer_remove_eq)

lemma fd_waiters_ready [simp]: "fd_waiters (mt_fd_ready_waiter w r e s) = fd_waiters s"
  by (simp add: mt_fd_ready_waiter_def Let_def deactivate_fields mark_ready_eq split: option.split)

lemma wf_generation_current:
  assumes "mt_fd_generation_current fd a s = (g, s')"
  shows "wf X s' = wf X s" "fd_waiters s' = fd_waiters s" "fw_mem s' = fw_mem s"
  using assms by (auto simp: mt_fd_generation_current_def split: option.splits if_splits)

lemma wf_find_waiter_in:
  "wf {} s \<Longrightarrow> set ws \<subseteq> set (fd_waiters s) \<Longrightarrow> find_waiter_in fd re a ws s = (r, s') \<Longrightarrow>
     wf {} s' \<and> fd_waiters s' = fd_waiters s \<and>
     (\<forall>w. r = Some w \<longrightarrow> w \<in> set (fd_waiters s') \<and> mt_fd_waiter_is_active (fw_mem s' w))"
proof (induction fd re a ws s rule: find_waiter_in.induct)
  case (2 fd re a w ws s)
  show ?case
  proof (cases "mt_fd_waiter_is_active (fw_mem s w) \<and> fw_fd (fw_mem s w) = fd \<and> fw_events (fw_mem s w) AND re \<noteq> 0")
    case True
    obtain g s1 where g: "mt_fd_generation_current fd a s = (g, s1)" by fastforce
    note c = wf_generation_current[OF g]
    have w: "w \<in> set (fd_waiters s1)" "mt_fd_waiter_is_active (fw_mem s1 w)" "wf {} s1"
      using 2(2,3) True c by simp_all
    then show ?thesis using 2(4) True g c wf_ready_active[OF w(3,1,2)] by (auto split: if_splits)
  next
    case False
    then show ?thesis using 2 by auto
  qed
qed simp

lemma wf_deliver_event: "wf {} s \<Longrightarrow> wf {} (deliver_event fd raw rem a s)"
proof (induction fd raw rem a s rule: deliver_event.induct)
  case (1 fd raw rem a s)
  show ?case
  proof (cases "rem = 0")
    case True
    then show ?thesis using 1(2) by (subst deliver_event.simps) simp
  next
    case False
    obtain r s' where f: "mt_fd_find_waiter fd rem a s = (r, s')" by fastforce
    note w = wf_find_waiter_in[OF 1(2) subset_refl f[unfolded mt_fd_find_waiter_def]]
    show ?thesis
    proof (cases r)
      case None
      then show ?thesis using False f w by (subst deliver_event.simps) simp
    next
      case (Some v)
      then have "wf {} (mt_fd_ready_waiter v MT_OK (waiter_ready raw rem (fw_events (fw_mem s' v))) s')"
        using w by (intro wf_ready_active) auto
      from 1(1)[OF False f[symmetric] Some this] show ?thesis
        using False f Some by (subst deliver_event.simps) simp
    qed
  qed
qed

lemma wf_epoll_wait: "wf {} s \<Longrightarrow> wf {} (mt_epoll_backend_wait_locked es a s)"
  by (induction es arbitrary: s) (simp_all add: wf_deliver_event)

text \<open>The poll backend. Waking a waiter lowers the count of active ones, so the fuel is enough.\<close>

lemma wf_find_waiter:
  assumes "wf {} s" and "mt_fd_find_waiter fd re a s = (r, s')"
  shows "wf {} s'" and "fd_waiters s' = fd_waiters s"
    and "r = Some w \<Longrightarrow> w \<in> set (fd_waiters s') \<and> mt_fd_waiter_is_active (fw_mem s' w)"
  using wf_find_waiter_in[OF assms(1) subset_refl assms(2)[unfolded mt_fd_find_waiter_def]] by auto

lemma wf_wake_invalid: "wf {} s \<Longrightarrow> wf {} (wake_invalid n fd a s)"
proof (induction n arbitrary: s)
  case (Suc n)
  obtain r s' where f: "mt_fd_find_waiter fd (MT_FD_READ OR MT_FD_WRITE) a s = (r, s')" by fastforce
  show ?case
    using Suc.IH wf_ready_active wf_find_waiter[OF Suc.prems f] f by (cases r) auto
qed simp

lemma fd_waiting_count_ready:
  assumes "wf {} s" and "w \<in> set (fd_waiters s)" and "mt_fd_waiter_is_active (fw_mem s w)"
  shows "fd_waiting_count (mt_fd_ready_waiter w r e s) = fd_waiting_count s - 1"
proof -
  obtain t where "fw_task (fw_mem s w) = Some t" using wf_fdsD(3)[OF wfD(8)[OF assms(1)] assms(2)] by blast
  then show ?thesis using assms(3)
    by (simp add: mt_fd_ready_waiter_def Let_def mark_ready_eq timer_remove_eq deactivate_fields(3))
qed

lemma find_waiter_count:
  "find_waiter_in fd re a ws s = (Some w, s') \<Longrightarrow> fd_waiting_count s' = fd_waiting_count s"
  by (induction fd re a ws s rule: find_waiter_in.induct)
    (auto simp: mt_fd_generation_current_def split: if_splits option.splits)

lemma wf_poll_entry: "wf {} s \<Longrightarrow> wf {} (poll_entry fd revents a s)"
proof -
  assume wf: "wf {} s"
  obtain r s' where f: "mt_fd_find_waiter fd (mt_poll_revents_to_fd_events revents) a s = (r, s')" by fastforce
  then show ?thesis
    using wf wf_find_waiter[OF wf f] by (cases r) (auto simp: poll_entry_def Let_def wf_wake_invalid wf_ready_active)
qed

lemma wf_poll_entries: "wf {} s \<Longrightarrow> wf {} (poll_entries es a s)"
  by (induction es a s rule: poll_entries.induct) (simp_all add: wf_poll_entry)

text \<open>The kqueue backend.\<close>

lemma wf_kqueue_event: "wf {} s \<Longrightarrow> wf {} (kqueue_event e a s)"
proof -
  assume wf: "wf {} s"
  obtain fd filt flags where e: "e = (fd, filt, flags)" by (rule prod_cases3)
  obtain r s' where f: "mt_fd_find_waiter fd (kqueue_ready_events filt flags) a s = (r, s')" by fastforce
  then show ?thesis using wf e wf_find_waiter[OF wf f]
    by (cases r) (auto simp: kqueue_event_def Let_def wf_ready_active)
qed

lemma wf_kqueue_wait: "wf {} s \<Longrightarrow> wf {} (mt_kqueue_backend_wait_locked es a s)"
  by (induction es arbitrary: s) (simp_all add: wf_kqueue_event)

lemma wf_poll_once: "wf {} s \<Longrightarrow> wf {} (mt_poll_fd_waiters_once es a s)"
  by (simp add: mt_poll_fd_waiters_once_def mt_poll_fd_waiters_with_timeout_def Let_def wf_epoll_wait wf_kqueue_wait
      mt_backend_fd_waiters_locked_def mt_poll_backend_wait_locked_def wf_poll_entries)

lemma wf_wake_all_in:
  "wf {} s \<Longrightarrow> set ws \<subseteq> set (fd_waiters s) \<Longrightarrow> wf {} (wake_all_in r ws s)"
  by (induction ws arbitrary: s) (simp_all add: wf_ready_active)

lemma wf_wake_fd_in:
  "wf {} s \<Longrightarrow> set ws \<subseteq> set (fd_waiters s) \<Longrightarrow> wf {} (wake_fd_in fd ws s)"
  by (induction ws arbitrary: s) (simp_all add: wf_ready_active)

lemma wf_wake_for_close: "wf {} s \<Longrightarrow> wf {} (mt_fd_wake_for_close fd a s)"
proof -
  assume "wf {} s"
  then have "wf {} (mt_fd_generation_bump fd a s)" by (simp add: mt_fd_generation_bump_def split: option.split)
  then show ?thesis by (simp add: mt_fd_wake_for_close_def Let_def wf_wake_fd_in)
qed

section \<open>The worker loop\<close>

lemma wf_dispatch:
  assumes wf: "wf {} s" and pop: "mt_runq_pop s = (Some t, s')"
  shows "wf {} (mt_worker_dispatch t s')" and "is_running (mt_worker_dispatch t s') t"
proof -
  note p = wf_runq_pop[OF wf pop]
  have fw: "fw_mem s' = fw_mem s" using pop by (auto simp: mt_runq_pop_def split: list.splits)
  let ?s = "mt_task_mark_running t (s'\<lparr>current := Some t, running_tasks := running_tasks s' + 1\<rparr>)"
  have "wf {t} ?s" unfolding mt_task_mark_running_def
    by (rule wf_upd_task) (use p in simp_all)
  then have "wf ({t} - {t}) ?s"
    by (rule wf_attach)
      (use p fw no_active_fd[OF wf p(2)] in \<open>simp_all add: mt_task_mark_running_def timed_def live_def\<close>)
  then show "wf {} (mt_worker_dispatch t s')"
    by (simp add: mt_worker_dispatch_def Let_def wf_set_handle_status)
  show "is_running (mt_worker_dispatch t s') t"
    using p by (simp add: mt_worker_dispatch_def Let_def is_running_def mt_task_mark_running_def live_def)
qed

lemma wf_worker_idle: "wf X s \<Longrightarrow> mt_worker_idle b now s = (act, s') \<Longrightarrow> wf X s'"
  by (auto simp: mt_worker_idle_def stop_with_def split: if_splits option.splits)

lemma wf_worker_iter:
  assumes wf: "wf {} s" and r: "mt_worker_iter b now es a now' s = (act, s')"
  shows "wf {} s'" and "act = Run t \<Longrightarrow> is_running s' t"
proof -
  let ?s1 = "if \<not> stopping s then mt_poll_fd_waiters_once es a (mt_wake_expired_timers now s) else s"
  have w1: "wf {} ?s1" using wf by (simp add: wf_poll_once wf_wake_expired)
  obtain p s2 where pop: "mt_runq_pop ?s1 = (p, s2)" by fastforce
  have "wf {} s' \<and> (act = Run t \<longrightarrow> is_running s' t)"
  proof (cases "stopping s \<and> (run_result s \<noteq> MT_ERR_CANCELLED \<or> runq s = [])")
    case True
    then show ?thesis using wf r by (auto simp: mt_worker_iter_def)
  next
    case go: False
    show ?thesis
    proof (cases p)
      case None
      have "s2 = ?s1" using pop None by (auto simp: mt_runq_pop_def split: list.splits)
      moreover have i: "mt_worker_idle b now' s2 = (act, s')"
        using r go pop None unfolding mt_worker_iter_def Let_def by auto
      moreover have "act \<noteq> Run t" using i by (auto simp: mt_worker_idle_def split: if_splits option.splits)
      ultimately show ?thesis using wf_worker_idle[of "{}" s2] w1 by simp
    next
      case (Some u)
      then have "act = Run u" "s' = mt_worker_dispatch u s2"
        using r go pop unfolding mt_worker_iter_def Let_def by auto
      then show ?thesis using wf_dispatch[OF w1] pop Some by auto
    qed
  qed
  then show "wf {} s'" "act = Run t \<Longrightarrow> is_running s' t" by auto
qed

lemma wf_run_boundaries:
  "wf X s \<Longrightarrow> wf X (snd (mt_run_end s))" "wf X s \<Longrightarrow> wf X (snd (mt_run_no_memory s))"
  "wf X s \<Longrightarrow> wf X (snd (mt_run_thread_failed s))" "wf X s \<Longrightarrow> wf X (mt_worker_enter s)"
  "wf X s \<Longrightarrow> wf X (mt_worker_exit s)" "wf X s \<Longrightarrow> wf X (mt_run_threads n s)"
  "wf X s \<Longrightarrow> wf X (mt_worker_thread_main_failed s)"
  by (simp_all add: mt_run_end_def mt_run_no_memory_def mt_run_thread_failed_def mt_worker_enter_def
      mt_worker_exit_def mt_run_threads_def mt_worker_thread_main_failed_def stop_with_def Let_def)

section \<open>Shutdown\<close>

lemma wf_shutdown_running:
  assumes "wf {} s" and "running s"
  shows "wf {} (mt_shutdown cur s)"
proof -
  let ?s = "s\<lparr>stopping := True, run_result := MT_ERR_CANCELLED\<rparr>"
  have "wf {} (mt_fd_wake_all MT_ERR_CANCELLED ?s)"
    unfolding mt_fd_wake_all_def by (rule wf_wake_all_in) (use assms in simp_all)
  then show ?thesis using assms by (simp add: mt_shutdown_def)
qed

text \<open>
  The teardown frees every object. A waiter of a parked select is freed while its \<^verbatim>\<open>active\<close> flag is
  still set (its channel has been reset before), so the invariant of the empty runtime holds once
  the freed memory is taken as unused.
\<close>

definition quiet_chan :: "mt_chan \<Rightarrow> bool" where
  "quiet_chan ch \<longleftrightarrow> send_q ch = [] \<and> recv_q ch = [] \<and> select_send_q ch = [] \<and> select_recv_q ch = [] \<and>
     send_waiters ch = 0 \<and> recv_waiters ch = 0 \<and> select_send_waiters ch = 0 \<and> select_recv_waiters ch = 0"

lemma reset_channels_quiet:
  assumes "\<And>c. c \<notin> set cs \<Longrightarrow> quiet_chan (chan_mem s c)"
  shows "quiet_chan (chan_mem (reset_channels cs s) c)"
  using assms
proof (induction cs arbitrary: s)
  case (Cons d cs)
  show ?case unfolding reset_channels.simps
    by (rule Cons.IH) (use Cons.prems in \<open>auto simp: quiet_chan_def reset_channel_def\<close>)
qed simp

lemma reset_channels_frame [simp]:
  "handles (reset_channels cs s) = handles s" "handle_mem (reset_channels cs s) = handle_mem s"
  by (induction cs arbitrary: s) simp_all

lemma reset_handles_frame [simp]: "chan_mem (reset_handles hs s) = chan_mem s"
  by (induction hs arbitrary: s) simp_all

lemma reset_handles_quiet:
  assumes "\<And>h. h \<notin> set hs \<Longrightarrow> join_q (handle_mem s h) = [] \<and> join_waiters (handle_mem s h) = 0"
  shows "join_q (handle_mem (reset_handles hs s) h) = [] \<and> join_waiters (handle_mem (reset_handles hs s) h) = 0"
  using assms
proof (induction hs arbitrary: s)
  case (Cons d hs)
  show ?case unfolding reset_handles.simps
    by (rule Cons.IH) (use Cons.prems in \<open>auto simp: reset_handle_def\<close>)
qed simp

lemma free_waiters_quiet:
  "(\<And>c. quiet_chan (chan_mem s c)) \<Longrightarrow> quiet_chan (chan_mem (free_waiters ws s) c)"
proof (induction ws arbitrary: s)
  case (Cons w ws)
  let ?s = "if sw_active (sw_mem s w) then snd (mt_select_remove_waiter_from_channel w s) else s"
  have "quiet_chan (chan_mem ?s d)" for d
    using Cons.prems[of d]
    by (auto simp: quiet_chan_def mt_select_remove_waiter_from_channel_def select_send_remove_def
        select_recv_remove_def split: option.splits)
  from Cons.IH[OF this] show ?case by simp
qed simp

lemma free_task_waiters_objects:
  "chan_mem (mt_select_free_task_waiters t s) = chan_mem (free_waiters (select_waiters (task_mem s t)) s)"
  "handle_mem (mt_select_free_task_waiters t s) = handle_mem s"
  using free_waiters_shape[of "select_waiters (task_mem s t)" s]
  by (auto simp: mt_select_free_task_waiters_def)

lemma task_destroy_objects:
  "handle_mem (mt_task_destroy t s) = handle_mem s"
  "(\<And>c. quiet_chan (chan_mem s c)) \<Longrightarrow> quiet_chan (chan_mem (mt_task_destroy t s) c)"
  by (simp_all add: mt_task_destroy_def free_task_stack_def Let_def free_task_waiters_objects mt_fd_free_waiter_def
      mt_fd_waiter_remove_def free_waiters_quiet split: option.split)

lemma shutdown_task_objects:
  "handle_mem (shutdown_task t s) = handle_mem s"
  "(\<And>c. quiet_chan (chan_mem s c)) \<Longrightarrow> quiet_chan (chan_mem (shutdown_task t s) c)"
  unfolding shutdown_task_def Let_def
  by (simp_all add: task_destroy_objects free_task_waiters_objects mt_fd_free_waiter_def
      mt_fd_waiter_remove_def free_waiters_quiet split: option.split)

lemma shutdown_tasks_objects:
  "(\<And>c. quiet_chan (chan_mem s c)) \<Longrightarrow>
     handle_mem (shutdown_tasks s) = handle_mem s \<and> quiet_chan (chan_mem (shutdown_tasks s) d)"
proof (induction s rule: shutdown_tasks.induct)
  case (1 s)
  show ?case
  proof (cases "all_tasks s")
    case Nil
    then show ?thesis using 1(2) by (subst (1 2) shutdown_tasks.simps) simp
  next
    case (Cons t ts)
    from 1(1)[OF Cons shutdown_task_objects(2)[OF 1(2)]] shutdown_task_objects(1)[of t s]
    show ?thesis using Cons by (subst (1 2) shutdown_tasks.simps) simp
  qed
qed

lemma inv_teardown:
  assumes inv: "runtime_inv s" and i: "initialized s" "\<not> running s" and m: "\<And>w. \<not> sw_active (m w)"
  shows "runtime_inv ((mt_shutdown None s)\<lparr>sw_mem := m\<rparr>)" and "\<not> initialized (mt_shutdown None s)"
    and "fresh_runtime (mt_shutdown None s)"
proof -
  have wf: "wf {} s" using inv by (simp add: runtime_inv_def)
  let ?s1 = "reset_channels (channels s) s"
  let ?s2 = "reset_handles (handles ?s1) ?s1"
  let ?s3 = "shutdown_tasks ?s2"
  have c1: "quiet_chan (chan_mem ?s1 c)" for c
    by (rule reset_channels_quiet)
      (use wfD(5)[OF wf] wf_chan_counts[OF wf] in \<open>simp add: wf_chans_def quiet_chan_def\<close>)
  have jw: "join_waiters (handle_mem s h) = length (join_q (handle_mem s h))" for h
    using wfD(6)[OF wf] by (simp add: wf_joins_def)
  have "join_q (handle_mem s h) = []" if "h \<notin> set (handles s)" for h
    using wf_handlesD(4)[OF wfD(9)[OF wf], of h] that by auto
  then have h2: "join_q (handle_mem ?s2 h) = [] \<and> join_waiters (handle_mem ?s2 h) = 0" for h
    by (intro reset_handles_quiet) (simp_all add: jw)
  have o3: "handle_mem ?s3 = handle_mem ?s2 \<and> quiet_chan (chan_mem ?s3 c)" for c
    by (rule shutdown_tasks_objects) (simp add: c1)
  define q where "q = mt_shutdown None s"
  have q: "fresh_runtime q" "\<not> initialized q" "chan_mem q = chan_mem ?s3" "handle_mem q = handle_mem ?s3"
    using i by (simp_all add: q_def mt_shutdown_def Let_def)
  have "fresh_runtime (q\<lparr>sw_mem := m\<rparr>)" using q(1) by (simp add: fresh_runtime_def)
  then have "wf {} (q\<lparr>sw_mem := m\<rparr>)"
    by (rule wf_empty) (use o3 h2 m q(3,4) in \<open>simp_all add: quiet_chan_def\<close>)
  then show "runtime_inv ((mt_shutdown None s)\<lparr>sw_mem := m\<rparr>)"
    using q(1,2) by (simp add: q_def[symmetric] runtime_inv_def fresh_runtime_def)
  show "\<not> initialized (mt_shutdown None s)" "fresh_runtime (mt_shutdown None s)"
    using q(1,2) by (simp_all add: q_def)
qed

end
