(* ===== verification/Preserve_Io.thy ===== *)
theory Preserve_Io
  imports Io Preserve_Sched
begin

text \<open>The descriptor calls keep the invariant.\<close>

section \<open>Linking a waiter, and memory nobody refers to\<close>

lemma wf_fds_added:
  assumes f: "wf_fds X s" and t: "t \<in> X" "t \<in> set (all_tasks s)" "fd_waiter (task_mem s t) = None"
    and w: "w \<notin> set (fd_waiters s)"
    and s': "all_tasks s' = all_tasks s" "fd_waiters s' = w # fd_waiters s"
      "fd_waiting_count s' = fd_waiting_count s + 1" "fd_waiter (task_mem s' t) = Some w"
      "fw_task (fw_mem s' w) = Some t" "fw_state (fw_mem s' w) = MT_FD_WAITER_ACTIVE"
    and fm: "\<And>v. v \<noteq> w \<Longrightarrow> fw_mem s' v = fw_mem s v"
    and tm: "\<And>u. u \<noteq> t \<Longrightarrow> task_mem s' u = task_mem s u"
  shows "wf_fds X s'"
proof -
  have mem: "v \<noteq> w" if "v \<in> set (fd_waiters s)" for v using that w by auto
  have act: "mt_fd_waiter_is_active (fw_mem s' w)" "mt_fd_waiter_reserves_conflict (fw_mem s' w)"
    using s' by (simp_all add: mt_fd_waiter_is_active_def mt_fd_waiter_reserves_conflict_def)
  have "filter (\<lambda>w. mt_fd_waiter_is_active (fw_mem s' w)) (fd_waiters s) =
      filter (\<lambda>w. mt_fd_waiter_is_active (fw_mem s w)) (fd_waiters s)"
    by (rule filter_cong) (simp_all add: fm mem)
  then have cnt: "fd_waiting_count s' =
      length (filter (\<lambda>w. mt_fd_waiter_is_active (fw_mem s' w)) (fd_waiters s'))"
    using wf_fdsD(2)[OF f] act by (simp add: s')
  show ?thesis
    unfolding wf_fds_def live_def s'(1)
  proof (intro conjI ballI allI impI)
    show "distinct (fd_waiters s')" using wf_fdsD(1)[OF f] w by (simp add: s')
    show "fd_waiting_count s' =
      length (filter (\<lambda>w. mt_fd_waiter_is_active (fw_mem s' w)) (fd_waiters s'))" by (rule cnt)
  next
    fix v assume v: "v \<in> set (fd_waiters s')"
    show "fw_task (fw_mem s' v) \<noteq> None" "mt_fd_waiter_reserves_conflict (fw_mem s' v)"
      using v wf_fdsD(3,4)[OF f, of v] act s'(5) by (cases "v = w"; simp add: fm s'(2))+
    fix u assume u: "fw_task (fw_mem s' v) = Some u"
    have "v = w \<and> u = t \<or> v \<noteq> w \<and> u \<noteq> t \<and> v \<in> set (fd_waiters s) \<and> fw_task (fw_mem s v) = Some u"
      using v u s'(2,5) fm[of v] wf_fdsD(5)[OF f, of v u] t(3) by (cases "v = w") auto
    then show "u \<in> set (all_tasks s)" "fd_waiter (task_mem s' u) = Some v"
      "u \<in> X \<or> mt_fd_waiter_is_active (fw_mem s' v) = (state (task_mem s' u) = MT_TASK_WAITING_FD)"
      using wf_fdsD(5)[OF f, of v u] t s'(4) by (auto simp: fm tm)
  next
    fix u v assume u: "u \<in> set (all_tasks s)" "fd_waiter (task_mem s' u) = Some v"
    show "v \<in> set (fd_waiters s')" "fw_task (fw_mem s' v) = Some u"
      using u wf_fdsD(6)[OF f u(1), of v] s'(2,4,5) mem fm[of v] tm[of u] by (cases "u = t"; auto)+
  next
    fix u assume "(u \<in> set (all_tasks s) \<and> u \<notin> X) \<and> state (task_mem s' u) = MT_TASK_WAITING_FD"
    then show "fd_waiter (task_mem s' u) \<noteq> None"
      using wf_fdsD(7)[OF f, of u] t(1) tm[of u] by (cases "u = t") (auto simp: live_def)
  qed
qed

lemma wf_fds_ghost:
  assumes f: "wf_fds X s" and w: "w \<notin> set (fd_waiters s)"
    and s': "all_tasks s' = all_tasks s" "fd_waiters s' = fd_waiters s"
      "fd_waiting_count s' = fd_waiting_count s"
    and fm: "\<And>v. v \<noteq> w \<Longrightarrow> fw_mem s' v = fw_mem s v"
    and tm: "\<And>u. fd_waiter (task_mem s' u) = fd_waiter (task_mem s u)"
      "\<And>u. state (task_mem s' u) = state (task_mem s u)"
  shows "wf_fds X s'"
proof -
  have m: "fw_mem s' v = fw_mem s v" if "v \<in> set (fd_waiters s)" for v using that w fm by metis
  have "filter (\<lambda>w. mt_fd_waiter_is_active (fw_mem s' w)) (fd_waiters s) =
      filter (\<lambda>w. mt_fd_waiter_is_active (fw_mem s w)) (fd_waiters s)"
    by (rule filter_cong) (simp_all add: m)
  then have cnt: "fd_waiting_count s = length (filter (\<lambda>w. mt_fd_waiter_is_active (fw_mem s' w)) (fd_waiters s))"
    using wf_fdsD(2)[OF f] by simp
  show ?thesis
    unfolding wf_fds_def live_def s' tm
  proof (intro conjI ballI allI impI)
    show "distinct (fd_waiters s)" by (rule wf_fdsD(1)[OF f])
  next
    fix v assume v: "v \<in> set (fd_waiters s)"
    show "fw_task (fw_mem s' v) \<noteq> None" "mt_fd_waiter_reserves_conflict (fw_mem s' v)"
      using wf_fdsD(3,4)[OF f v] by (simp_all add: m[OF v])
    fix t assume "fw_task (fw_mem s' v) = Some t"
    then show "t \<in> set (all_tasks s)" "fd_waiter (task_mem s t) = Some v"
      "t \<in> X \<or> mt_fd_waiter_is_active (fw_mem s' v) = (state (task_mem s t) = MT_TASK_WAITING_FD)"
      using wf_fdsD(5)[OF f v, of t] by (simp_all add: m[OF v])
  next
    fix t v assume "t \<in> set (all_tasks s)" "fd_waiter (task_mem s t) = Some v"
    then show "v \<in> set (fd_waiters s)" "fw_task (fw_mem s' v) = Some t"
      using wf_fdsD(6)[OF f, of t v] m[of v] by auto
  next
    fix t assume "(t \<in> set (all_tasks s) \<and> t \<notin> X) \<and> state (task_mem s t) = MT_TASK_WAITING_FD"
    then show "fd_waiter (task_mem s t) \<noteq> None" using wf_fdsD(7)[OF f, of t] by (simp add: live_def)
  qed (rule cnt)
qed

section \<open>Waiting\<close>

lemma backend_add_fields:
  assumes "mt_io_backend_add w ctl s = (rc, s')"
  shows "fw_mem s' = fw_mem s" "fd_waiters s' = fd_waiters s" "fd_waiting_count s' = fd_waiting_count s"
    "task_mem s' = task_mem s" "all_tasks s' = all_tasks s" "runq s' = runq s"
    "runnable_count s' = runnable_count s" "timers s' = timers s" "chan_mem s' = chan_mem s"
    "channels s' = channels s" "handle_mem s' = handle_mem s" "handles s' = handles s"
    "sw_mem s' = sw_mem s" "live_count s' = live_count s" "initialized s' = initialized s"
  using assms by (auto simp: backend_add_defs Let_def
      split: if_splits ctl_result.splits)

text \<open>The fields after the waiter has been filled in and linked.\<close>

definition registered :: "tptr \<Rightarrow> fptr \<Rightarrow> mt_task \<Rightarrow> mt_task" where
  "registered t w k = k\<lparr>fd_waiter := Some w, fd_result := MT_OK, fd_ready_events := 0, fd_in_timer := False\<rparr>"

lemma generation_current_shape:
  assumes "mt_fd_generation_current fd a s = (g, s')"
  shows "\<exists>gs. s' = s\<lparr>fd_generations := gs\<rparr>"
proof (intro exI)
  show "s' = s\<lparr>fd_generations := fd_generations s'\<rparr>"
    using assms by (auto simp: mt_fd_generation_current_def split: option.splits if_splits)
qed

lemma register_fields:
  assumes "r = fd_wait_register t w fd ev a s"
  shows "task_mem r = (task_mem s)(t := registered t w (task_mem s t))"
    and "\<exists>g. fw_mem r = (fw_mem s)(w := zero_fw\<lparr>fw_task := Some t, fw_fd := fd, fw_events := ev,
           fw_generation := g\<rparr>)"
    and "fd_waiters r = fd_waiters s" "fd_waiting_count r = fd_waiting_count s"
    "all_tasks r = all_tasks s" "runq r = runq s"
    "runnable_count r = runnable_count s" "timers r = timers s" "chan_mem r = chan_mem s"
    "channels r = channels s" "handle_mem r = handle_mem s" "handles r = handles s"
    "sw_mem r = sw_mem s" "live_count r = live_count s" "initialized r = initialized s"
proof -
  obtain g s1 where g: "mt_fd_generation_current fd a (upd_fw w (\<lambda>_. zero_fw\<lparr>fw_task := Some t,
      fw_fd := fd, fw_events := ev\<rparr>) s) = (g, s1)" by fastforce
  note r = assms[unfolded fd_wait_register_def g Let_def prod.case]
  from g obtain gs where s1: "s1 = (upd_fw w (\<lambda>_. zero_fw\<lparr>fw_task := Some t, fw_fd := fd, fw_events := ev\<rparr>) s)
      \<lparr>fd_generations := gs\<rparr>" using generation_current_shape by blast
  show "task_mem r = (task_mem s)(t := registered t w (task_mem s t))"
    by (simp add: r s1 registered_def)
  show "\<exists>g. fw_mem r = (fw_mem s)(w := zero_fw\<lparr>fw_task := Some t, fw_fd := fd, fw_events := ev,
           fw_generation := g\<rparr>)" by (auto simp: r s1)
qed (simp_all add: assms fd_wait_register_def Let_def mt_fd_generation_current_def split: option.split)

lemma wf_running_back:
  assumes "wf {t} s" and "is_running s t" and "detached {t} s t"
  shows "wf {} s"
proof -
  have "wf ({t} - {t}) s"
    by (rule wf_attach[OF assms(1)]) (use assms(2,3) in \<open>auto simp: is_running_def detached_def timed_def\<close>)
  then show ?thesis by simp
qed

text \<open>A running task whose only changes are in the results of a descriptor wait.\<close>

lemma wf_fd_undone:
  assumes wf: "wf {} s" and run: "is_running s t" and none: "fd_waiter (task_mem s t) = None"
    and w: "w \<notin> set (fd_waiters s)"
    and z: "fd_waiters z = fd_waiters s" "fd_waiting_count z = fd_waiting_count s"
      "\<And>v. v \<noteq> w \<Longrightarrow> fw_mem z v = fw_mem s v"
      "task_mem z = (task_mem s)(t := (task_mem s t)\<lparr>fd_result := a, fd_ready_events := b, fd_in_timer := c\<rparr>)"
    and eq: "runq z = runq s" "runnable_count z = runnable_count s" "all_tasks z = all_tasks s"
      "timers z = timers s" "chan_mem z = chan_mem s" "channels z = channels s"
      "handle_mem z = handle_mem s" "handles z = handles s" "sw_mem z = sw_mem s"
      "live_count z = live_count s"
  shows "wf {} z"
proof -
  note d = wf_running[OF wf run, simplified]
  have "wf_fds {t} z"
    by (rule wf_fds_ghost[OF wfD(8)[OF d(1)] w]) (simp_all add: z eq)
  then have "wf {t} z" by (rule wf_fd_task[OF d(1) singletonI]) (simp_all add: z eq)
  then show ?thesis
    by (rule wf_running_back) (use run d(2) none in \<open>simp_all add: is_running_def detached_def z eq\<close>)
qed

lemma wf_fd_wait:
  assumes wf: "wf {} s" and run: "is_running s t" and none: "fd_waiter (task_mem s t) = None"
    and fresh: "\<And>w. w_alloc env = Some w \<Longrightarrow> w \<notin> set (fd_waiters s)"
    and r: "mt_fd_wait_begin (Some t) fd ev tmo out env s = (res, s')"
  shows "wf {} (case res of WaitPark w \<Rightarrow> mt_task_after_switch t s' | WaitReturn rc e \<Rightarrow> s')"
proof (cases "fd < 0 \<or> \<not> mt_fd_validate_events ev \<or> \<not> out \<or>
    fd_wait_now fd ev tmo (w_poll env) s \<noteq> None \<or> w_alloc env = None")
  case True
  then have "s' = s \<and> (\<exists>rc e. res = WaitReturn rc e)"
    using r by (auto simp: mt_fd_wait_begin_def split: option.splits if_splits)
  then show ?thesis using wf by auto
next
  case go: False
  then obtain w where w: "w_alloc env = Some w" by blast
  have now: "fd_wait_now fd ev tmo (w_poll env) s = None" "\<not> fd < 0" "mt_fd_validate_events ev" "out"
    using go by blast+
  define q where "q = fd_wait_register t w fd ev (w_gen_ok env) s"
  note qf = register_fields[OF q_def]
  note d = wf_running[OF wf run, simplified]
  have ta: "t \<in> set (all_tasks s)" and tr: "state (task_mem s t) = MT_TASK_RUNNING"
    using run by (simp_all add: is_running_def)
  note fw = fresh[OF w]
  obtain g where g: "fw_mem q = (fw_mem s)(w := zero_fw\<lparr>fw_task := Some t, fw_fd := fd, fw_events := ev,
      fw_generation := g\<rparr>)" using qf(2) by blast
  obtain rc q1 where add: "mt_fd_waiter_add w (w_ctl env) q = (rc, q1)" by fastforce
  obtain rc0 q0 where b: "mt_io_backend_add w (w_ctl env) q = (rc0, q0)" by fastforce
  note bf = backend_add_fields[OF b]
  have fold: "fd_wait_register t w fd ev (w_gen_ok env) s = q" by (simp add: q_def)
  show ?thesis
  proof (cases "rc = MT_OK")
    case False
    have q1: "q1 = q0" using add b False by (auto simp: mt_fd_waiter_add_def Let_def split: if_splits)
    let ?z = "mt_fd_free_waiter w (upd_task t (\<lambda>k. k\<lparr>fd_waiter := None\<rparr>) q0)"
    have "wf {} ?z"
      by (rule wf_fd_undone[OF wf run none fw, where a = MT_OK and b = 0 and c = False])
        (simp_all add: mt_fd_free_waiter_def mt_fd_waiter_remove_def deactivate_fields bf qf(3-) g
          mt_fd_waiter_is_active_def zero_fw_def remove1_idem fw qf(1) registered_def none task_eq)
    moreover have "res = WaitReturn rc 0" "s' = ?z"
      using r False by (simp_all add: mt_fd_wait_begin_def now w fold add q1)
    ultimately show ?thesis by simp
  next
    case True
    have ok0: "rc0 = MT_OK" using True add b by (auto simp: mt_fd_waiter_add_def split: if_splits)
    have q1: "q1 = mt_notify_all ((mt_fd_waiter_set_state w MT_FD_WAITER_ACTIVE q0)
        \<lparr>fd_waiters := w # fd_waiters q0, fd_waiting_count := fd_waiting_count q0 + 1\<rparr>)"
      using add b ok0 by (simp add: mt_fd_waiter_add_def Let_def mt_fd_waiter_set_state_def)
    have m1: "task_mem q1 = (task_mem s)(t := registered t w (task_mem s t))"
      by (simp add: q1 mt_fd_waiter_set_state_def bf qf(1))
    have f1: "fw_mem q1 w = zero_fw\<lparr>fw_task := Some t, fw_fd := fd, fw_events := ev, fw_generation := g,
        fw_state := MT_FD_WAITER_ACTIVE\<rparr>" "v \<noteq> w \<Longrightarrow> fw_mem q1 v = fw_mem s v"
      "fd_waiters q1 = w # fd_waiters s" "fd_waiting_count q1 = fd_waiting_count s + 1"
      "all_tasks q1 = all_tasks s" for v
      by (simp_all add: q1 mt_fd_waiter_set_state_def bf g qf(3-))
    have "wf_fds {t} q1"
      by (rule wf_fds_added[OF wfD(8)[OF d(1)] singletonI ta none fw])
        (simp_all add: f1 m1 registered_def)
    then have w1: "wf {t} q1"
      by (rule wf_fd_task[OF d(1) singletonI])
        (simp_all add: qf(1) registered_def q1 mt_fd_waiter_set_state_def bf qf(3-))
    obtain prc q2 where push: "mt_timer_push_state t (mt_deadline_from_timeout (w_now env) tmo)
        MT_TASK_WAITING_FD (w_timer_ok env) q1 = (prc, q2)" by fastforce
    show ?thesis
    proof (cases "prc = MT_OK")
      case True
      have k2: "state (task_mem q2 t) = MT_TASK_WAITING_FD"
        by (rule timer_push_eq[OF push[unfolded True]]) (simp add: timer_pushed_def)
      have "wf ({t} - {t}) (upd_task t (\<lambda>k. k\<lparr>fd_in_timer := True\<rparr>) q2)"
        by (rule wf_timer_attach[OF w1 singletonI _ _ push[unfolded True]])
          (use d(2) in \<open>simp_all add: f1 m1 registered_def timed_def k2 tr ta detached_def
            mt_fd_waiter_is_active_def\<close>)
      then have "wf {} (mt_task_after_switch t (upd_task t (\<lambda>k. k\<lparr>fd_in_timer := True\<rparr>) q2))"
        by (intro wf_after_switch_parked) (simp_all add: k2)
      moreover have "res = WaitPark w" "s' = upd_task t (\<lambda>k. k\<lparr>fd_in_timer := True\<rparr>) q2"
        using r \<open>rc = MT_OK\<close> True by (simp_all add: mt_fd_wait_begin_def now w fold add push)
      ultimately show ?thesis by simp
    next
      case False
      have q2: "q2 = q1" using timer_push_failed[OF push False] by simp
      let ?z = "mt_fd_free_waiter w (upd_task t (\<lambda>k. k\<lparr>fd_waiter := None\<rparr>) (snd (mt_fd_waiter_remove w q1)))"
      have fr: "runq q1 = runq s" "runnable_count q1 = runnable_count s" "timers q1 = timers s"
        "chan_mem q1 = chan_mem s" "channels q1 = channels s" "handle_mem q1 = handle_mem s"
        "handles q1 = handles s" "sw_mem q1 = sw_mem s" "live_count q1 = live_count s"
        by (simp_all add: q1 mt_fd_waiter_set_state_def bf qf(3-))
      have "wf {} ?z"
        by (rule wf_fd_undone[OF wf run none fw, where a = MT_OK and b = 0 and c = False])
          (simp_all add: mt_fd_free_waiter_def mt_fd_waiter_remove_def deactivate_fields f1 fr m1
            mt_fd_waiter_is_active_def remove1_idem fw registered_def none task_eq)
      moreover have "res = WaitReturn MT_ERR_NOMEM 0" "s' = ?z"
        using r \<open>rc = MT_OK\<close> False by (simp_all add: mt_fd_wait_begin_def now w fold add push q2)
      ultimately show ?thesis by simp
    qed
  qed
qed

lemma wf_fd_wait_end:
  assumes wf: "wf {} s" and run: "is_running s t" and w: "fd_waiter (task_mem s t) = Some w"
    and r: "mt_fd_wait_end t w s = (res, s')"
  shows "wf {} s'" and "is_running s' t" and "fd_waiter (task_mem s' t) = None"
proof -
  note d = wf_running[OF wf run, simplified]
  have ta: "t \<in> set (all_tasks s)" using run by (simp add: is_running_def)
  let ?z = "mt_fd_free_waiter w (upd_task t (\<lambda>k. k\<lparr>fd_waiter := None\<rparr>) s)"
  have "wf_fds {t} ?z"
    by (rule wf_fds_dropped[OF wfD(8)[OF d(1)] singletonI ta w])
      (simp_all add: mt_fd_free_waiter_def mt_fd_waiter_remove_def deactivate_fields)
  then have "wf {t} ?z"
    by (rule wf_fd_task[OF d(1) singletonI]) (simp_all add: mt_fd_free_waiter_def mt_fd_waiter_remove_def)
  moreover have z: "s' = ?z" using r w by (simp add: mt_fd_wait_end_def Let_def)
  moreover show z2: "is_running s' t" "fd_waiter (task_mem s' t) = None"
    using run by (simp_all add: z is_running_def mt_fd_free_waiter_def mt_fd_waiter_remove_def)
  moreover have "detached {t} s' t"
    using d(2) by (simp add: z detached_def mt_fd_free_waiter_def mt_fd_waiter_remove_def)
  ultimately show "wf {} s'" using wf_running_back by metis
qed

section \<open>Adoption, release, close and the loops\<close>

lemma wf_fd_adopt: "mt_fd_adopt fd env a s = (rc, c, s') \<Longrightarrow> wf X s' = wf X s"
  using wf_generation_current
  by (auto simp: mt_fd_adopt_def Let_def split: if_splits sum.splits prod.splits option.splits)

lemma wf_fd_release: "wf X (snd (snd (mt_fd_release fd err s))) = wf X s"
  by (simp add: mt_fd_release_def mt_fd_generation_remove_def Let_def split: option.split)

lemma wf_set_closing: "wf X (snd (mt_fd_set_closing fd b a s)) = wf X s"
  by (simp add: mt_fd_set_closing_def split: option.split)

lemma wf_fd_close:
  assumes "wf {} s"
  shows "wf {} (snd (mt_fd_close_begin fd a a' s))" and "wf {} (snd (mt_fd_close_end fd err a s))"
proof -
  obtain rc s1 where c: "mt_fd_set_closing fd True a s = (rc, s1)" by fastforce
  have "wf {} s1" using wf_set_closing[of "{}" fd True a s] assms c by simp
  then show "wf {} (snd (mt_fd_close_begin fd a a' s))"
    using assms c by (simp add: mt_fd_close_begin_def wf_wake_for_close)
  show "wf {} (snd (mt_fd_close_end fd err a s))"
    using assms by (simp add: mt_fd_close_end_def wf_set_closing)
qed

end
