(* ===== verification/Frames.thy ===== *)
theory Frames
  imports Preserve_Io
begin

text \<open>
  What no operation but a few writes: \<^verbatim>\<open>g_rt.initialized\<close>, set by initialisation and cleared by
  teardown, and the rings of the channels, changed by send, receive, create and destroy only. The
  lemmas follow the call graph upwards.
\<close>

section \<open>The core of the state\<close>

definition ring_part :: "mt_chan \<Rightarrow> nat \<times> nat \<times> nat \<times> nat \<times> nat \<times> byte list" where
  "ring_part ch = (elem_size ch, capacity ch, ch_len ch, ch_head ch, ch_tail ch, ch_buffer ch)"

definition core :: "mt_state \<Rightarrow> bool \<times> (cptr \<Rightarrow> nat \<times> nat \<times> nat \<times> nat \<times> nat \<times> byte list)" where
  "core s = (initialized s, \<lambda>c. ring_part (chan_mem s c))"

lemma core_initialized: "core s' = core s \<Longrightarrow> initialized s' = initialized s"
  by (simp add: core_def)

lemma core_ring: "core s' = core s \<Longrightarrow> ring_part (chan_mem s' c) = ring_part (chan_mem s c)"
  by (simp add: core_def fun_eq_iff)

lemma core_objects [simp]:
  "core (upd_task t f s) = core s" "core (upd_handle h g s) = core s" "core (upd_sw w k s) = core s"
  "core (upd_fw v l s) = core s"
  by (simp_all add: core_def)

lemma core_upd_chan [simp]:
  "(\<And>ch. ring_part (f ch) = ring_part ch) \<Longrightarrow> core (upd_chan c f s) = core s"
  by (auto simp: core_def)

lemma ring_part_queues [simp]:
  "ring_part (ch\<lparr>send_q := a\<rparr>) = ring_part ch" "ring_part (ch\<lparr>recv_q := a\<rparr>) = ring_part ch"
  "ring_part (ch\<lparr>send_waiters := n\<rparr>) = ring_part ch" "ring_part (ch\<lparr>recv_waiters := n\<rparr>) = ring_part ch"
  "ring_part (ch\<lparr>select_send_q := a\<rparr>) = ring_part ch" "ring_part (ch\<lparr>select_recv_q := a\<rparr>) = ring_part ch"
  "ring_part (ch\<lparr>select_send_waiters := n\<rparr>) = ring_part ch"
  "ring_part (ch\<lparr>select_recv_waiters := n\<rparr>) = ring_part ch"
  "ring_part (ch\<lparr>ch_closed := b\<rparr>) = ring_part ch"
  by (simp_all add: ring_part_def)

text \<open>The other fields of the global record and of the memory.\<close>

lemma core_fields [simp]:
  "core (s\<lparr>all_tasks := x0\<rparr>) = core s" "core (s\<lparr>runq := x1\<rparr>) = core s"
  "core (s\<lparr>runnable_count := x2\<rparr>) = core s" "core (s\<lparr>handles := x3\<rparr>) = core s"
  "core (s\<lparr>channels := x4\<rparr>) = core s" "core (s\<lparr>timers := x5\<rparr>) = core s"
  "core (s\<lparr>live_count := x6\<rparr>) = core s" "core (s\<lparr>completed_count := x7\<rparr>) = core s"
  "core (s\<lparr>channel_waiting_count := x8\<rparr>) = core s" "core (s\<lparr>join_waiting_count := x9\<rparr>) = core s"
  "core (s\<lparr>fd_waiters := x10\<rparr>) = core s" "core (s\<lparr>fd_waiting_count := x11\<rparr>) = core s"
  "core (s\<lparr>fd_generations := x12\<rparr>) = core s" "core (s\<lparr>io_polling := x13\<rparr>) = core s"
  "core (s\<lparr>current := x14\<rparr>) = core s" "core (s\<lparr>running_tasks := x15\<rparr>) = core s"
  "core (s\<lparr>active_workers := x16\<rparr>) = core s" "core (s\<lparr>worker_threads := x17\<rparr>) = core s"
  "core (s\<lparr>worker_count := x18\<rparr>) = core s" "core (s\<lparr>running := x19\<rparr>) = core s"
  "core (s\<lparr>stopping := x20\<rparr>) = core s" "core (s\<lparr>run_result := x21\<rparr>) = core s"
  "core (s\<lparr>next_id := x22\<rparr>) = core s" "core (s\<lparr>task_mem := x23\<rparr>) = core s"
  "core (s\<lparr>handle_mem := x24\<rparr>) = core s" "core (s\<lparr>sw_mem := x25\<rparr>) = core s"
  "core (s\<lparr>fw_mem := x26\<rparr>) = core s" "core (s\<lparr>user_mem := x27\<rparr>) = core s"
  "core (s\<lparr>backend_calls := x28\<rparr>) = core s" "core (s\<lparr>cond_signals := x29\<rparr>) = core s"
  "core (s\<lparr>cond_broadcasts := x30\<rparr>) = core s" "core (s\<lparr>io_wakes := x31\<rparr>) = core s"
  "core (s\<lparr>sys_calls := x32\<rparr>) = core s"
  by (simp_all add: core_def)

lemma base_core [simp]:
  "core (mt_notify_one s) = core s" "core (mt_notify_all s) = core s" "core (mt_runq_push t s) = core s"
  "core (snd (mt_runq_pop s)) = core s" "core (mt_task_register t s) = core s"
  "core (mt_task_unregister t s) = core s" "core (mt_handle_unregister h s) = core s"
  "core (mt_handle_register h s) = core s" "core (mt_chan_register c s) = core s"
  "core (mt_chan_unregister c s) = core s"
  by (simp_all add: mt_notify_one_def mt_notify_all_def mt_io_backend_wake_def mt_runq_push_def mt_runq_pop_def
      mt_task_register_def mt_task_unregister_def mt_handle_unregister_def mt_handle_register_def
      mt_chan_register_def mt_chan_unregister_def split: list.split)

lemma backend_core [simp]:
  "core (mt_io_backend_remove w s) = core s" "core (snd (mt_fd_waiter_deactivate w b s)) = core s"
proof -
  show "core (mt_io_backend_remove w s) = core s" for s
    by (simp add: backend_remove_defs Let_def)
  then show "core (snd (mt_fd_waiter_deactivate w b s)) = core s"
    by (simp add: mt_fd_waiter_deactivate_def mt_fd_waiter_set_state_def mt_fd_waiter_unlink_def Let_def)
qed

lemma backend_add_core: "mt_io_backend_add w ctl s = (rc, s') \<Longrightarrow> core s' = core s"
  by (auto simp: backend_add_defs Let_def
      split: if_splits ctl_result.splits)

lemma set_handle_status_core [simp]: "core (set_handle_status t st s) = core s"
  by (simp add: set_handle_status_def split: option.split)

section \<open>Queues, timers and task states\<close>

lemma queues_core [simp]:
  "core (chan_send_push c t s) = core s" "core (chan_recv_push c t s) = core s"
  "core (snd (chan_send_pop c s)) = core s" "core (snd (chan_recv_pop c s)) = core s"
  "core (snd (chan_send_remove c t s)) = core s"
  "core (snd (chan_recv_remove c t s)) = core s"
  "core (join_push h t s) = core s" "core (snd (join_pop h s)) = core s"
  "core (snd (join_remove h t s)) = core s"
  "core (select_send_push c w s) = core s" "core (select_recv_push c w s) = core s"
  "core (snd (select_send_pop c s)) = core s" "core (snd (select_recv_pop c s)) = core s"
  "core (snd (select_send_remove c w s)) = core s"
  "core (snd (select_recv_remove c w s)) = core s"
  by (auto simp: chan_send_push_def chan_recv_push_def chan_send_pop_def chan_recv_pop_def
      chan_send_remove_def chan_recv_remove_def join_push_def join_pop_def join_remove_def
      select_send_push_def select_recv_push_def select_send_pop_def select_recv_pop_def
      select_send_remove_def select_recv_remove_def Let_def split: prod.split)

lemma states_core [simp]:
  "core (mt_task_mark_ready t s) = core s" "core (mt_task_mark_running t s) = core s"
  "core (mt_task_mark_dead t s) = core s"
  "core (mt_task_block_on_channel t c k v s) = core s"
  "core (dec_channel_waiting s) = core s" "core (dec_join_waiting s) = core s"
  "core (mt_task_complete_channel_wait t rc s) = core s"
  "core (mt_task_clear_channel_wait t s) = core s"
  "core (mt_task_block_on_select t s) = core s"
  "core (mt_task_complete_select_wait t s) = core s"
  "core (mt_task_block_on_join t h s) = core s"
  "core (mt_task_complete_join_wait t rc s) = core s"
  by (simp_all add: mt_task_mark_ready_def mt_task_mark_running_def mt_task_mark_dead_def
      mt_task_block_on_channel_def dec_channel_waiting_def dec_join_waiting_def
      mt_task_complete_channel_wait_def mt_task_clear_channel_wait_def mt_task_block_on_select_def
      mt_task_complete_select_wait_def mt_task_block_on_join_def mt_task_complete_join_wait_def Let_def)

lemma timers_core [simp]:
  "core (snd (mt_timer_push_state t d st a s)) = core s"
  "core (snd (mt_timer_push t d a s)) = core s"
  "core (snd (mt_timer_pop s)) = core s"
  "core (snd (mt_timer_remove t s)) = core s"
  by (auto simp: mt_timer_push_state_def mt_timer_push_def mt_timer_reserve_def mt_timer_pop_def
      mt_timer_remove_def Let_def split: option.split)

lemma runq_core [simp]: "core (snd (mt_runq_remove t s)) = core s"
  by (simp add: mt_runq_remove_def Let_def)

section \<open>Selects and descriptors\<close>

lemma remove_waiter_core [simp]:
  "core (snd (mt_select_remove_waiter_from_channel w s)) = core s"
  by (simp add: mt_select_remove_waiter_from_channel_def split: option.split)

lemma free_waiters_core [simp]: "core (free_waiters ws s) = core s"
  by (induction ws arbitrary: s) simp_all

lemma select_core [simp]:
  "core (mt_select_free_task_waiters t s) = core s"
  "core (mt_select_unpark_task t rc i s) = core s"
  "core (mt_select_complete_waiter w rc s) = core s"
  "core (mt_select_timeout_ready t s) = core s"
  by (simp_all add: mt_select_free_task_waiters_def mt_select_unpark_task_def
      mt_select_complete_waiter_def mt_select_timeout_ready_def Let_def split: option.split)

lemma fds_core [simp]:
  "core (snd (mt_fd_generation_current fd a s)) = core s"
  "core (mt_fd_generation_bump fd a s) = core s"
  "core (snd (mt_fd_set_closing fd b a s)) = core s"
  "core (snd (mt_fd_generation_remove fd s)) = core s"
  "core (mt_fd_free_waiter w s) = core s"
  "core (mt_fd_ready_waiter w rc e s) = core s"
  "core (mt_fd_timeout_ready t s) = core s"
  by (simp_all add: mt_fd_generation_current_def mt_fd_generation_bump_def mt_fd_set_closing_def
      mt_fd_generation_remove_def mt_fd_free_waiter_def mt_fd_waiter_remove_def mt_fd_ready_waiter_def
      mt_fd_timeout_ready_def Let_def split: option.split)

lemma find_waiter_core [simp]: "core (snd (mt_fd_find_waiter fd e a s)) = core s"
proof -
  have "core (snd (find_waiter_in fd e a ws s)) = core s" for ws
    by (induction ws) (auto simp: mt_fd_generation_current_def Let_def split: option.split)
  then show ?thesis by (simp add: mt_fd_find_waiter_def)
qed

lemma wake_fds_core [simp]:
  "core (wake_all_in rc ws s) = core s" "core (wake_fd_in fd ws s) = core s"
  by (induction ws arbitrary: s) simp_all

lemma wake_for_close_core [simp]: "core (mt_fd_wake_for_close fd a s) = core s"
  by (simp add: mt_fd_wake_for_close_def Let_def)

lemma deliver_event_core [simp]: "core (deliver_event fd raw r a s) = core s"
proof (induction fd raw r a s rule: deliver_event.induct)
  case (1 fd raw r a s)
  obtain w s1 where f: "mt_fd_find_waiter fd r a s = (w, s1)" by fastforce
  have "core s1 = core s" using find_waiter_core[of fd r a s] f by simp
  with 1 f show ?case by (subst deliver_event.simps) (auto split: option.split)
qed

lemma wake_invalid_core [simp]: "core (wake_invalid n fd a s) = core s"
proof (induction n arbitrary: s)
  case (Suc n)
  obtain w s1 where f: "mt_fd_find_waiter fd (MT_FD_READ OR MT_FD_WRITE) a s = (w, s1)" by fastforce
  have "core s1 = core s"
    using find_waiter_core by (metis f snd_conv)
  with Suc f show ?case by (auto split: option.split)
qed simp

lemma poll_entry_core [simp]: "core (poll_entry fd re a s) = core s"
proof -
  obtain w s1 where f: "mt_fd_find_waiter fd (mt_poll_revents_to_fd_events re) a s = (w, s1)" by fastforce
  have "core s1 = core s"
    using find_waiter_core[of fd "mt_poll_revents_to_fd_events re" a s] f by simp
  then show ?thesis using f by (auto simp: poll_entry_def Let_def split: option.split)
qed

lemma poll_entries_core [simp]: "core (poll_entries es a s) = core s"
  by (induction es a s rule: poll_entries.induct) simp_all

lemma epoll_wait_core [simp]: "core (mt_epoll_backend_wait_locked es a s) = core s"
  by (induction es arbitrary: s) simp_all

lemma kqueue_event_core [simp]: "core (kqueue_event e a s) = core s"
proof -
  obtain fd filt flags where e: "e = (fd, filt, flags)" by (rule prod_cases3)
  obtain w s1 where f: "mt_fd_find_waiter fd (kqueue_ready_events filt flags) a s = (w, s1)" by fastforce
  have "core s1 = core s"
    using find_waiter_core[of fd "kqueue_ready_events filt flags" a s] f by simp
  then show ?thesis using e f by (auto simp: kqueue_event_def Let_def split: option.split)
qed

lemma kqueue_wait_core [simp]: "core (mt_kqueue_backend_wait_locked es a s) = core s"
  by (induction es arbitrary: s) simp_all

lemma poll_once_core [simp]: "core (mt_poll_fd_waiters_once es a s) = core s"
  by (simp add: mt_poll_fd_waiters_once_def mt_poll_fd_waiters_with_timeout_def
      mt_backend_fd_waiters_locked_def mt_poll_backend_wait_locked_def Let_def)

lemma wake_expired_core [simp]: "core (mt_wake_expired_timers now s) = core s"
proof (induction now s rule: mt_wake_expired_timers.induct)
  case (1 now s)
  obtain w s1 where p: "mt_timer_pop s = (w, s1)" by fastforce
  have "core s1 = core s" using timers_core(3)[of s] p by simp
  then have "core (wake_timer t s1) = core s" for t by (simp add: wake_timer_def)
  with 1 p show ?case by (subst mt_wake_expired_timers.simps) (auto split: option.split)
qed

section \<open>Channels, handles and tasks\<close>

lemma chan_parts_core [simp]:
  "core (store_at v x s) = core s" "core (mt_chan_ready_waiter t rc s) = core s"
  by (simp_all add: store_at_def mt_chan_ready_waiter_def Let_def)

text \<open>A popped waiter, or none, leaves the flag alone.\<close>

lemma pops_core:
  "chan_send_pop c s = (r, s') \<Longrightarrow> core s' = core s"
  "chan_recv_pop c s = (r, s') \<Longrightarrow> core s' = core s"
  "select_send_pop c s = (w, s') \<Longrightarrow> core s' = core s"
  "select_recv_pop c s = (w, s') \<Longrightarrow> core s' = core s"
  "join_pop h s = (r, s') \<Longrightarrow> core s' = core s"
  by (metis snd_conv queues_core(3), metis snd_conv queues_core(4),
      metis snd_conv queues_core(12), metis snd_conv queues_core(13),
      metis snd_conv queues_core(8))

lemma wake_closed_core [simp]:
  "core (wake_closed_senders c s) = core s" "core (wake_closed_receivers c s) = core s"
  "core (wake_closed_select_senders c s) = core s"
  "core (wake_closed_select_receivers c s) = core s"
proof -
  show "core (wake_closed_senders c s) = core s"
    by (induction c s rule: wake_closed_senders.induct, subst wake_closed_senders.simps)
      (auto split: prod.split option.split dest!: pops_core)
  show "core (wake_closed_receivers c s) = core s"
    by (induction c s rule: wake_closed_receivers.induct, subst wake_closed_receivers.simps)
      (auto split: prod.split option.split dest!: pops_core)
  show "core (wake_closed_select_senders c s) = core s"
    by (induction c s rule: wake_closed_select_senders.induct, subst wake_closed_select_senders.simps)
      (auto split: prod.split option.split dest!: pops_core)
  show "core (wake_closed_select_receivers c s) = core s"
    by (induction c s rule: wake_closed_select_receivers.induct, subst wake_closed_select_receivers.simps)
      (auto split: prod.split option.split dest!: pops_core)
qed

lemma wake_joiners_core [simp]: "core (wake_joiners h s) = core s"
  by (induction h s rule: wake_joiners.induct, subst wake_joiners.simps)
    (auto simp: mt_join_waiter_ready_def split: prod.split option.split dest!: pops_core)

lemma handles_core [simp]:
  "core (mt_handle_free_if_possible h s) = core s"
  "core (mt_handle_complete h b s) = core s"
  "core (mt_task_handle_release g s) = core s"
  by (simp_all add: mt_handle_free_if_possible_def mt_handle_complete_def mt_task_handle_release_def Let_def
      split: option.split)

lemma free_task_stack_core [simp]: "core (free_task_stack t s) = core s"
  by (simp add: free_task_stack_def)

lemma destroy_core [simp]: "core (mt_task_destroy t s) = core s"
  by (simp add: mt_task_destroy_def mt_fd_waiter_remove_def Let_def split: option.split)

lemma after_switch_core [simp]: "core (mt_task_after_switch t s) = core s"
  by (simp add: mt_task_after_switch_def Let_def split: option.split mt_task_state.split)

lemma removes_core:
  "chan_send_remove c t s = (b, s') \<Longrightarrow> core s' = core s"
  "chan_recv_remove c t s = (b, s') \<Longrightarrow> core s' = core s"
  "join_remove h t s = (b, s') \<Longrightarrow> core s' = core s"
  "mt_runq_remove t s = (b, s') \<Longrightarrow> core s' = core s"
  "mt_timer_remove t s = (b, s') \<Longrightarrow> core s' = core s"
  by (metis snd_conv queues_core(5), metis snd_conv queues_core(6),
      metis snd_conv queues_core(9), metis snd_conv runq_core,
      metis snd_conv timers_core(4))

lemma chan_remove_waiter_core [simp]:
  "core (snd (mt_chan_remove_waiter t s)) = core s"
  by (auto simp: mt_chan_remove_waiter_def Let_def split: option.split mt_chan_wait_kind.split prod.split
      dest!: removes_core)

lemma handle_remove_joiner_core [simp]:
  "core (snd (mt_handle_remove_joiner h t s)) = core s"
  by (auto simp: mt_handle_remove_joiner_def split: option.split prod.split dest!: removes_core)

lemma wake_for_cancel_core [simp]: "core (mt_task_wake_for_cancel t s) = core s"
proof (cases t)
  case (Some u)
  have c: "core s' = core s" if "mt_chan_remove_waiter u s = (b, s')" for b s'
    using chan_remove_waiter_core[of u s] that by simp
  have j: "core s' = core s" if "mt_handle_remove_joiner h u s = (b, s')" for h b s'
    using handle_remove_joiner_core[of h u s] that by simp
  show ?thesis
    by (cases "state (task_mem s u)")
      (auto simp: mt_task_wake_for_cancel_def Some Let_def split: prod.split option.split
        dest!: removes_core c j)
qed (simp add: mt_task_wake_for_cancel_def)

lemma cancel_core: "mt_task_cancel h s = (rc, s') \<Longrightarrow> core s' = core s"
  by (auto simp: mt_task_cancel_def Let_def split: option.splits if_splits)

lemma task_calls_core:
  "mt_yield cur s = (b, s') \<Longrightarrow> core s' = core s"
  "mt_sleep_ms cur ms now ok s = (b, s') \<Longrightarrow> core s' = core s"
  "mt_join cur h s = (out, s') \<Longrightarrow> core s' = core s"
proof -
  have p: "core r = core s" if "mt_timer_push t d ok s = (rc, r)" for t d rc r
    using timers_core(2)[of t d ok s] that by simp
  show "mt_yield cur s = (b, s') \<Longrightarrow> core s' = core s"
    "mt_sleep_ms cur ms now ok s = (b, s') \<Longrightarrow> core s' = core s"
    "mt_join cur h s = (out, s') \<Longrightarrow> core s' = core s"
    by (auto simp: mt_yield_def mt_sleep_ms_def mt_join_def split: option.splits if_splits prod.splits dest!: p)
qed

section \<open>Select, the workers and descriptor calls\<close>

lemma register_cases_core:
  "register_cases t ks i as s = (ok, s') \<Longrightarrow> core s' = core s"
  by (induction t ks i as s rule: register_cases.induct)
    (auto simp: register_case_def Let_def split: if_splits list.splits option.splits)

lemma worker_core: "mt_worker_iter b now es a now' s = (act, s') \<Longrightarrow> core s' = core s"
proof -
  have pop: "core r = core q" if "mt_runq_pop q = (t, r)" for q t r
    using that by (metis snd_conv base_core(4))
  show "mt_worker_iter b now es a now' s = (act, s') \<Longrightarrow> core s' = core s"
    by (auto simp: mt_worker_iter_def mt_worker_idle_def stop_with_def mt_worker_dispatch_def Let_def
        split: if_splits option.splits prod.splits dest!: pop)
qed

lemma io_core:
  "mt_fd_adopt fd fenv a s = (rc, c, s') \<Longrightarrow> core s' = core s"
  "core (snd (snd (mt_fd_release fd err s))) = core s"
  "core (snd (mt_fd_close_begin fd a a' s)) = core s"
  "core (snd (mt_fd_close_end fd err a s)) = core s"
  "core (snd (mt_fd_wait_end t w s)) = core s"
proof -
  have g: "core r = core q" if "mt_fd_generation_current fd a q = (g, r)" for q g r
    using fds_core(1)[of fd a q] that by simp
  show "mt_fd_adopt fd fenv a s = (rc, c, s') \<Longrightarrow> core s' = core s"
    by (auto simp: mt_fd_adopt_def Let_def split: if_splits sum.splits prod.splits option.splits dest!: g)
  have k: "core r = core q" if "mt_fd_set_closing fd True a q = (rc, r)" for q rc r
    using fds_core(3)[of fd True a q] that by simp
  show "core (snd (mt_fd_close_begin fd a a' s)) = core s"
    by (auto simp: mt_fd_close_begin_def split: prod.split dest!: k)
  show "core (snd (mt_fd_close_end fd err a s)) = core s"
    "core (snd (mt_fd_wait_end t w s)) = core s"
    by (simp_all add: mt_fd_close_end_def mt_fd_wait_end_def Let_def)
  show "core (snd (snd (mt_fd_release fd err s))) = core s"
    by (simp add: mt_fd_release_def mt_fd_generation_remove_def Let_def split: option.split)
qed

lemma fd_wait_core:
  assumes "mt_fd_wait_begin cur fd ev tmo out env s = (res, s')"
  shows "core s' = core s"
proof -
  have add: "core r = core q" if "mt_fd_waiter_add w ctl q = (rc, r)" for w ctl q rc r
    using that by (auto simp: mt_fd_waiter_add_def mt_fd_waiter_set_state_def Let_def
        split: prod.splits if_splits dest!: backend_add_core)
  have reg: "core (fd_wait_register t w fd ev a s) = core s" for t w a
    by (simp add: fd_wait_register_def Let_def split: prod.split)
      (metis fds_core(1) core_objects(4) snd_conv)
  have push: "core r = core q" if "mt_timer_push_state t d st a q = (rc, r)" for t d st a q rc r
    using timers_core(1)[of t d st a q] that by simp
  show ?thesis
    using assms by (auto simp: mt_fd_wait_begin_def Let_def reg mt_fd_waiter_remove_def
        split: if_splits option.splits prod.splits dest!: add push)
qed

lemma close_core: "mt_chan_close ch s = (rc, s') \<Longrightarrow> core s' = core s"
  by (auto simp: mt_chan_close_def mt_chan_wake_closed_waiters_def split: option.splits if_splits)

section \<open>The rings stay within their buffers\<close>

text \<open>A channel has a sound ring, or is memory that holds no channel.\<close>

definition ring_safe :: "mt_chan \<Rightarrow> bool" where
  "ring_safe ch \<longleftrightarrow> ring_ok ch \<or> capacity ch = 0 \<and> ch_len ch = 0 \<and> elem_size ch = 0"

definition rings_ok :: "mt_state \<Rightarrow> bool" where
  "rings_ok s \<longleftrightarrow> (\<forall>c. ring_safe (chan_mem s c))"

lemma ring_safe_part: "ring_part a = ring_part b \<Longrightarrow> ring_safe a = ring_safe b"
  by (simp add: ring_part_def ring_safe_def ring_ok_def)

text \<open>The operation from \<open>s\<close> to \<open>s'\<close> neither initialises nor tears down, and keeps the rings sound.\<close>

definition keeps :: "mt_state \<Rightarrow> mt_state \<Rightarrow> bool" where
  "keeps s s' \<longleftrightarrow> initialized s' = initialized s \<and> (rings_ok s \<longrightarrow> rings_ok s')"

lemma keepsD: "keeps s s' \<Longrightarrow> initialized s' = initialized s" "keeps s s' \<Longrightarrow> rings_ok s \<Longrightarrow> rings_ok s'"
  by (simp_all add: keeps_def)

lemma core_keeps:
  assumes "core s' = core s"
  shows "keeps s s'"
  using core_initialized[OF assms] ring_safe_part[OF core_ring[OF assms]] by (simp add: keeps_def rings_ok_def)

lemma keeps_refl [simp]: "keeps s s"
  by (simp add: keeps_def)

lemma keeps_trans [trans]: "keeps s r \<Longrightarrow> keeps r s' \<Longrightarrow> keeps s s'"
  by (simp add: keeps_def)

lemma keeps_core_right: "core s' = core r \<Longrightarrow> keeps s r \<Longrightarrow> keeps s s'"
  by (rule keeps_trans[OF _ core_keeps])

lemma keeps_push:
  assumes "ch_len (chan_mem s c) < capacity (chan_mem s c)" and "length bs = elem_size (chan_mem s c)"
  shows "keeps s (buffer_push c bs s)"
proof -
  have "ring_safe (mt_chan_buffer_push bs (chan_mem s c))" if "ring_safe (chan_mem s c)"
    using push_ring_ok[of "chan_mem s c" bs] that assms by (auto simp: ring_safe_def)
  then show ?thesis by (auto simp: keeps_def rings_ok_def buffer_push_def)
qed

lemma keeps_pop:
  assumes "0 < ch_len (chan_mem s c)"
  shows "keeps s (buffer_pop c v s)"
proof -
  have "ring_safe (snd (mt_chan_buffer_pop (chan_mem s c)))" if "ring_safe (chan_mem s c)"
    using pop_ring_ok[of "chan_mem s c"] that assms by (auto simp: ring_safe_def)
  then show ?thesis by (auto simp: keeps_def rings_ok_def buffer_pop_eq store_at_def)
qed

lemma ring_part_fields:
  "ring_part a = ring_part b \<Longrightarrow> elem_size a = elem_size b \<and> capacity a = capacity b \<and> ch_len a = ch_len b"
  by (simp add: ring_part_def)

lemma length_value_at [simp]: "length (value_at c v s) = elem_size (chan_mem s c)"
  by (simp add: value_at_def)

lemma keeps_push_from:
  assumes "core r = core s" and "ch_len (chan_mem s c) < capacity (chan_mem s c)"
  shows "keeps s (buffer_push c (value_at c v r) r)"
proof -
  note p = ring_part_fields[OF core_ring[OF assms(1), of c]]
  show ?thesis
    by (rule keeps_trans[OF core_keeps[OF assms(1)] keeps_push]) (use p assms(2) in simp_all)
qed

lemma keeps_fill: "keeps s (mt_chan_fill_buffer_from_waiting_sender c s)"
proof (cases "ch_closed (chan_mem s c) \<or> capacity (chan_mem s c) = 0 \<or>
    ch_len (chan_mem s c) \<ge> capacity (chan_mem s c)")
  case False
  obtain t r where p: "chan_send_pop c s = (t, r)" by fastforce
  obtain w q where p': "select_send_pop c r = (w, q)" by fastforce
  have c: "core r = core s" using pops_core(1)[OF p] .
  have c': "core q = core s" using pops_core(3)[OF p'] c by simp
  show ?thesis
  proof (cases t)
    case None
    then show ?thesis
      using False p p' keeps_push_from[OF c'] core_keeps[OF c']
      by (auto simp: mt_chan_fill_buffer_from_waiting_sender_def split: option.split
          intro!: keeps_core_right[OF select_core(3)])
  next
    case (Some u)
    then show ?thesis
      using False p keeps_push_from[OF c]
      by (auto simp: mt_chan_fill_buffer_from_waiting_sender_def intro!: keeps_core_right[OF chan_parts_core(2)])
  qed
qed (simp add: mt_chan_fill_buffer_from_waiting_sender_def)

lemma keeps_send_now:
  assumes "send_now c v s = (rc, s')"
  shows "keeps s s'"
proof -
  obtain t r where p: "chan_recv_pop c s = (t, r)" by fastforce
  obtain w q where p': "select_recv_pop c r = (w, q)" by fastforce
  have c: "core r = core s" using pops_core(2)[OF p] .
  have c': "core q = core s" using pops_core(4)[OF p'] c by simp
  note same = ring_part_fields[OF core_ring[OF c', of c]]
  show ?thesis
    using assms p p' keeps_push_from[OF c', of c v] same c c'
    by (auto simp: send_now_def intro!: core_keeps split: if_splits option.splits)
qed

lemma keeps_recv_now:
  assumes "recv_now c v s = (rc, s')"
  shows "keeps s s'"
proof (cases "ch_len (chan_mem s c) > 0")
  case True
  then show ?thesis using assms keeps_trans[OF keeps_pop keeps_fill] by (auto simp: recv_now_def)
next
  case False
  obtain t r where p: "chan_send_pop c s = (t, r)" by fastforce
  obtain w q where p': "select_send_pop c r = (w, q)" by fastforce
  have c: "core r = core s" using pops_core(1)[OF p] .
  have c': "core q = core s" using pops_core(3)[OF p'] c by simp
  show ?thesis
    using assms False p p' c c'
    by (auto simp: recv_now_def intro!: core_keeps split: if_splits option.splits)
qed

lemma keeps_chan_calls:
  "mt_chan_try_send ch v s = (rc, s') \<Longrightarrow> keeps s s'"
  "mt_chan_try_recv ch v s = (rc, s') \<Longrightarrow> keeps s s'"
  "mt_chan_send cur ch v s = (out, s') \<Longrightarrow> keeps s s'"
  "mt_chan_recv cur ch v s = (out, s') \<Longrightarrow> keeps s s'"
  by (auto simp: mt_chan_try_send_def mt_chan_try_recv_def mt_chan_send_def mt_chan_recv_def
      split: option.splits prod.splits if_splits intro!: keeps_core_right[OF queues_core(1)]
      keeps_core_right[OF queues_core(2)] keeps_core_right[OF states_core(4)]
      dest!: keeps_send_now keeps_recv_now)

lemma keeps_destroy:
  assumes "mt_chan_destroy ch s = (rc, s')"
  shows "keeps s s'"
proof (cases "s' = s")
  case False
  then obtain c where ch: "ch = Some c" using assms by (auto simp: mt_chan_destroy_def split: option.splits)
  let ?r = "if select_send_waiters (chan_mem s c) \<noteq> 0 \<or> select_recv_waiters (chan_mem s c) \<noteq> 0
    then mt_chan_wake_closed_waiters c (upd_chan c (\<lambda>k. k\<lparr>ch_closed := True\<rparr>) s) else s"
  have s': "s' = upd_chan c (\<lambda>_. zero_chan) (mt_chan_unregister c ?r)"
    using assms False by (auto simp: mt_chan_destroy_def ch Let_def split: if_splits)
  have "core (mt_chan_unregister c ?r) = core s" by (simp add: mt_chan_wake_closed_waiters_def)
  moreover have "keeps r (upd_chan c (\<lambda>_. zero_chan) r)" for r
    by (auto simp: keeps_def rings_ok_def ring_safe_def zero_chan_def)
  ultimately show ?thesis unfolding s' by (blast intro: keeps_trans core_keeps)
qed simp

lemma keeps_try_case: "mt_select_try_case k s = (rc, s') \<Longrightarrow> keeps s s'"
  by (auto simp: mt_select_try_case_def split: mt_select_op.splits dest: keeps_chan_calls)

lemma keeps_select_try: "select_try ks i s = (r, s') \<Longrightarrow> keeps s s'"
proof (induction ks i s rule: select_try.induct)
  case (2 k ks i s)
  obtain rc r1 where t: "mt_select_try_case k s = (rc, r1)" by fastforce
  show ?case
    using 2 t keeps_try_case[OF t] by (auto split: if_splits intro: keeps_trans)
qed simp

lemma select_park_core:
  assumes "mt_select_park cur ks p as now ok q = (out, r)"
  shows "core r = core q"
proof -
  have push: "core r' = core q'" if "mt_timer_push_state t d st ok q' = (rc, r')" for t d st q' rc r'
    using timers_core(1)[of t d st ok q'] that by simp
  show ?thesis
    using assms by (auto simp: mt_select_park_def Let_def split: option.splits if_splits prod.splits
        dest!: register_cases_core push)
qed

lemma keeps_select:
  assumes "mt_select cur ks ix as now ok s = (out, s')"
  shows "keeps s s'"
proof -
  obtain t q where q: "select_try ks 0 s = (t, q)" by fastforce
  show ?thesis
    using assms q keeps_select_try[OF q] keeps_core_right[OF select_park_core]
    by (auto simp: mt_select_def split: if_splits option.splits)
qed

end
