(* ===== verification/System.thy ===== *)
theory System
  imports Frames
begin

text \<open>
  The runtime as a transition system. A step is one critical section of the runtime mutex, by any
  thread: a call from the main thread, a call of a running task, or one pass of a worker. The mutex
  is held across a context switch, so a call that parks its task and the work of the worker that
  takes over (\<open>mt_task_after_switch\<close>) are one step. Any interleaving of the steps is possible, so
  the reachable states cover every schedule of several workers.

  The premises are what the program's surroundings promise: \<^verbatim>\<open>malloc\<close> returns memory that is not in
  use, calls name channels and handles that exist, and a task that was resumed from a descriptor
  wait first finishes that wait.
\<close>

section \<open>Invariants of transition systems\<close>

inductive reachable :: "('s \<Rightarrow> bool) \<Rightarrow> ('s \<Rightarrow> 's \<Rightarrow> bool) \<Rightarrow> 's \<Rightarrow> bool" for start step where
  reachable_start: "start s \<Longrightarrow> reachable start step s"
| reachable_step: "reachable start step s \<Longrightarrow> step s s' \<Longrightarrow> reachable start step s'"

locale inductive_invariant =
  fixes start :: "'s \<Rightarrow> bool" and step :: "'s \<Rightarrow> 's \<Rightarrow> bool" and inv :: "'s \<Rightarrow> bool"
  assumes start_inv: "start s \<Longrightarrow> inv s"
    and step_inv: "inv s \<Longrightarrow> step s s' \<Longrightarrow> inv s'"
begin

lemma reachable_inv: "reachable start step s \<Longrightarrow> inv s"
  by (induction rule: reachable.induct) (auto intro: start_inv step_inv)

text \<open>A consequence of the invariant holds along the run as well.\<close>

lemma always: "(\<And>s. inv s \<Longrightarrow> P s) \<Longrightarrow> reachable start step s \<Longrightarrow> P s"
  using reachable_inv by blast

lemma steps_inv: "step\<^sup>*\<^sup>* s s' \<Longrightarrow> inv s \<Longrightarrow> inv s'"
  by (induction rule: rtranclp_induct) (auto intro: step_inv)

end

section \<open>Who may call\<close>

definition task_turn :: "mt_state \<Rightarrow> tptr \<Rightarrow> bool" where
  "task_turn s t \<longleftrightarrow> is_running s t \<and> fd_waiter (task_mem s t) = None"

text \<open>A caller is the main thread or a running task.\<close>

definition caller :: "mt_state \<Rightarrow> tptr option \<Rightarrow> bool" where
  "caller s cur \<longleftrightarrow> (case cur of None \<Rightarrow> True | Some t \<Rightarrow> task_turn s t)"

text \<open>The state after a call: the worker takes over if the call parked its task.\<close>

definition switched :: "bool \<Rightarrow> tptr option \<Rightarrow> mt_state \<Rightarrow> mt_state" where
  "switched parked cur s = (if parked then mt_task_after_switch (the cur) s else s)"

section \<open>Steps\<close>

text \<open>Starting up, creating tasks and the boundaries of a run.\<close>

inductive start_step :: "mt_state \<Rightarrow> mt_state \<Rightarrow> bool" where
  init: "mt_init_with_options opts ienv s = (rc, s') \<Longrightarrow> start_step s s'"
| go: "fresh_objects env s \<Longrightarrow> mt_go fn arg ienv env s = (rc, s') \<Longrightarrow> start_step s s'"
| go_with_stack: "fresh_objects env s \<Longrightarrow> mt_go_with_stack fn arg sz ienv env s = (rc, s') \<Longrightarrow> start_step s s'"
| go_handle: "fresh_objects env s \<Longrightarrow> mt_go_handle fn arg ienv env s = (h, s') \<Longrightarrow> start_step s s'"
| go_handle_with_stack: "fresh_objects env s \<Longrightarrow>
    mt_go_handle_with_stack fn arg sz ienv env s = (h, s') \<Longrightarrow> start_step s s'"
| run_begin: "mt_run_begin cur n ienv s = (r, s') \<Longrightarrow> start_step s s'"
| runtime_start: "mt_runtime_start cur n ienv s = (r, s') \<Longrightarrow> start_step s s'"
| chan_create: "(\<And>c. new_ch = Some c \<Longrightarrow> c \<notin> set (channels s)) \<Longrightarrow>
    mt_chan_create es n ienv new_ch buf_ok junk s = (ch, s') \<Longrightarrow> start_step s s'"
| teardown: "initialized s \<Longrightarrow> \<not> running s \<Longrightarrow> (\<And>w. \<not> sw_active (m w)) \<Longrightarrow>
    start_step s ((mt_shutdown None s)\<lparr>sw_mem := m\<rparr>)"

text \<open>
  The workers and the main thread of an initialised runtime. The mutex is released while a backend
  waits for events, so a pass that polls is split: the timers, the start of the poll, the delivery of
  whatever events the system reported, the end of the poll, and the choice of a task. A pass without
  an interruption is the single step \<open>worker_iter\<close>.
\<close>

inductive worker_step :: "mt_state \<Rightarrow> mt_state \<Rightarrow> bool" where
  worker_enter: "worker_step s (mt_worker_enter s)"
| worker_iter: "mt_worker_iter b now es a now' s = (act, s') \<Longrightarrow> worker_step s s'"
| worker_poll: "worker_step s (mt_poll_fd_waiters_with_timeout es a s)"
| worker_timers: "worker_step s (mt_wake_expired_timers now s)"
| poll_begin: "worker_step s (s\<lparr>io_polling := True\<rparr>)"
| poll_deliver: "worker_step s (poll_entries es a s)"
| epoll_deliver: "worker_step s (mt_epoll_backend_wait_locked es a s)"
| kqueue_deliver: "worker_step s (mt_kqueue_backend_wait_locked es a s)"
| poll_end: "worker_step s (mt_notify_all (s\<lparr>io_polling := False\<rparr>))"
| worker_dispatch: "mt_runq_pop s = (Some t, s') \<Longrightarrow> worker_step s (mt_worker_dispatch t s')"
| worker_idle: "mt_runq_pop s = (None, r) \<Longrightarrow> mt_worker_idle b now r = (act, s') \<Longrightarrow> worker_step s s'"
| worker_exit: "worker_step s (mt_worker_exit s)"
| run_end: "worker_step s (snd (mt_run_end s))"
| run_no_memory: "worker_step s (snd (mt_run_no_memory s))"
| run_threads: "worker_step s (mt_run_threads n s)"
| thread_main_failed: "worker_step s (mt_worker_thread_main_failed s)"
| run_thread_failed: "worker_step s (snd (mt_run_thread_failed s))"
| shutdown: "running s \<Longrightarrow> worker_step s (mt_shutdown cur s)"
| user_code: "worker_step s (s\<lparr>user_mem := um\<rparr>)"

text \<open>
  Calls of a running task, or of the main thread. A select tries its cases in critical sections of
  their own (the steps \<open>try_send\<close> and \<open>try_recv\<close>) before it parks in another (\<open>select_park\<close>); the
  step \<open>select\<close> is the call without an interruption.
\<close>

inductive call_step :: "mt_state \<Rightarrow> mt_state \<Rightarrow> bool" where
  yield: "task_turn s t \<Longrightarrow> mt_yield (Some t) s = (b, s') \<Longrightarrow> call_step s (switched b (Some t) s')"
| sleep: "task_turn s t \<Longrightarrow> mt_sleep_ms (Some t) ms now ok s = (b, s') \<Longrightarrow>
    call_step s (switched b (Some t) s')"
| finish: "task_turn s t \<Longrightarrow> call_step s (mt_task_after_switch t (mt_task_entry_finish t s))"
| join: "task_turn s t \<Longrightarrow> h \<in> set (handles s) \<Longrightarrow> mt_join (Some t) (Some h) s = (out, s') \<Longrightarrow>
    call_step s (switched (out = Park) (Some t) s')"
| cancel: "h \<in> set (handles s) \<Longrightarrow> mt_task_cancel (Some h) s = (rc, s') \<Longrightarrow> call_step s s'"
| handle_release: "call_step s (mt_task_handle_release h s)"
| send: "caller s cur \<Longrightarrow> c \<in> set (channels s) \<Longrightarrow> mt_chan_send cur (Some c) v s = (out, s') \<Longrightarrow>
    call_step s (switched (out = Park) cur s')"
| recv: "caller s cur \<Longrightarrow> c \<in> set (channels s) \<Longrightarrow> mt_chan_recv cur (Some c) v s = (out, s') \<Longrightarrow>
    call_step s (switched (out = Park) cur s')"
| try_send: "mt_chan_try_send ch v s = (rc, s') \<Longrightarrow> call_step s s'"
| try_recv: "mt_chan_try_recv ch v s = (rc, s') \<Longrightarrow> call_step s s'"
| close: "mt_chan_close ch s = (rc, s') \<Longrightarrow> call_step s s'"
| destroy: "mt_chan_destroy (Some c) s = (rc, s') \<Longrightarrow> call_step s s'"
| select: "caller s cur \<Longrightarrow> fresh_waiters allocs s \<Longrightarrow> known_channels cases s \<Longrightarrow>
    mt_select cur cases ix allocs now ok s = (out, s') \<Longrightarrow> call_step s (switched (out = SelectPark) cur s')"
| select_park: "task_turn s t \<Longrightarrow> fresh_waiters allocs s \<Longrightarrow> known_channels cases s \<Longrightarrow>
    select_validate cases 0 empty_plan = Some p \<Longrightarrow> mt_select_park (Some t) cases p allocs now ok s = (out, s') \<Longrightarrow>
    call_step s (switched (out = SelectPark) (Some t) s')"

text \<open>Descriptor calls.\<close>

inductive io_step :: "mt_state \<Rightarrow> mt_state \<Rightarrow> bool" where
  fd_wait: "task_turn s t \<Longrightarrow> (\<And>w. w_alloc env = Some w \<Longrightarrow> w \<notin> set (fd_waiters s)) \<Longrightarrow>
    mt_fd_wait_begin (Some t) fd ev tmo out env s = (res, s') \<Longrightarrow>
    io_step s (switched (\<exists>w. res = WaitPark w) (Some t) s')"
| fd_wait_end: "is_running s t \<Longrightarrow> fd_waiter (task_mem s t) = Some w \<Longrightarrow>
    mt_fd_wait_end t w s = (res, s') \<Longrightarrow> io_step s s'"
| fd_adopt: "mt_fd_adopt fd fenv a s = (rc, c, s') \<Longrightarrow> io_step s s'"
| fd_release: "io_step s (snd (snd (mt_fd_release fd err s)))"
| fd_close_begin: "io_step s (snd (mt_fd_close_begin fd a a' s))"
| fd_close_end: "io_step s (snd (mt_fd_close_end fd err a s))"

inductive rt_step :: "mt_state \<Rightarrow> mt_state \<Rightarrow> bool" where
  start: "start_step s s' \<Longrightarrow> rt_step s s'"
| worker: "initialized s \<Longrightarrow> worker_step s s' \<Longrightarrow> rt_step s s'"
| call: "initialized s \<Longrightarrow> call_step s s' \<Longrightarrow> rt_step s s'"
| io: "initialized s \<Longrightarrow> io_step s s' \<Longrightarrow> rt_step s s'"

section \<open>Every step keeps the invariant\<close>

lemma runtime_invI: "initialized s \<Longrightarrow> wf {} s \<Longrightarrow> runtime_inv s"
  by (simp add: runtime_inv_def)

lemma runtime_inv_wf: "runtime_inv s \<Longrightarrow> wf {} s"
  by (simp add: runtime_inv_def)

lemma switched_core [simp]: "core (switched b cur s) = core s"
  by (simp add: switched_def)

lemma callerD: "caller s cur \<Longrightarrow> cur = Some t \<Longrightarrow> is_running s t"
  by (simp add: caller_def task_turn_def)

lemma inv_create:
  assumes inv: "runtime_inv s" and f: "fresh_objects env s" and e: "ensure_init ienv s = (True, s1)"
    and c: "mt_create_task_internal fn arg sz want env s1 = (rc, h, s')"
  shows "runtime_inv s'"
proof -
  note i = runtime_inv_ensure_init[OF inv e]
  have "fresh_objects env s1" using f unfolding fresh_objects_def i(3,5) .
  note w = wf_create_task[OF runtime_inv_wf[OF i(1)] this c]
  show ?thesis using w i(2) by (intro runtime_invI) simp_all
qed

lemma inv_run_begin: "runtime_inv s \<Longrightarrow> mt_run_begin cur n ienv s = (r, s') \<Longrightarrow> runtime_inv s'"
proof -
  assume inv: "runtime_inv s" and r: "mt_run_begin cur n ienv s = (r, s')"
  obtain ok s1 where e: "ensure_init ienv s = (ok, s1)" by fastforce
  note i = runtime_inv_ensure_init(1,2)[OF inv e]
  show "runtime_inv s'"
    using r e i by (auto simp: mt_run_begin_def runtime_inv_def split: if_splits)
qed

lemma inv_start:
  assumes inv: "runtime_inv s" and "start_step s s'"
  shows "runtime_inv s'"
  using assms(2)
proof cases
  case (init opts ienv rc)
  then show ?thesis using runtime_inv_init[OF inv] by blast
next
  case (go env fn arg ienv rc)
  then show ?thesis
    using inv_create[OF inv go(1)] runtime_inv_ensure_init(1)[OF inv]
    by (auto simp: mt_go_def split: prod.splits if_splits)
next
  case (go_with_stack env fn arg sz ienv rc)
  then show ?thesis
    using inv_create[OF inv go_with_stack(1)] runtime_inv_ensure_init(1)[OF inv]
    by (auto simp: mt_go_with_stack_def split: prod.splits if_splits)
next
  case (go_handle env fn arg ienv h)
  then show ?thesis
    using inv_create[OF inv go_handle(1)] runtime_inv_ensure_init(1)[OF inv]
    by (auto simp: mt_go_handle_def split: prod.splits if_splits)
next
  case (go_handle_with_stack env fn arg sz ienv h)
  then show ?thesis
    using inv_create[OF inv go_handle_with_stack(1)] runtime_inv_ensure_init(1)[OF inv]
    by (auto simp: mt_go_handle_with_stack_def split: prod.splits if_splits)
next
  case (run_begin cur n ienv r)
  then show ?thesis using inv_run_begin[OF inv] by blast
next
  case (runtime_start cur n ienv r)
  then show ?thesis
    using inv inv_run_begin[OF runtime_inv_ensure_init(1)[OF inv], of ienv _ _ cur n ienv r s']
      runtime_inv_ensure_init(1)[OF inv]
    by (auto simp: mt_runtime_start_def split: prod.splits if_splits)
next
  case (chan_create new_ch es n ienv buf_ok junk ch)
  then show ?thesis using inv_chan_create[OF inv] by blast
next
  case (teardown m)
  then show ?thesis using inv_teardown(1)[OF inv] by blast
qed

lemma wf_poll_timeout: "wf {} s \<Longrightarrow> wf {} (mt_poll_fd_waiters_with_timeout es a s)"
  by (simp add: mt_poll_fd_waiters_with_timeout_def Let_def wf_epoll_wait wf_kqueue_wait mt_backend_fd_waiters_locked_def
      mt_poll_backend_wait_locked_def wf_poll_entries)

lemma wf_worker_step:
  assumes wf: "wf {} s" and "worker_step s s'"
  shows "wf {} s'"
  using assms(2)
proof cases
  case (worker_iter b now es a now' act)
  then show ?thesis using wf_worker_iter(1)[OF wf] by blast
next
  case (worker_poll es a)
  then show ?thesis using wf_poll_timeout[OF wf] by simp
next
  case (worker_dispatch t r)
  then show ?thesis using wf_dispatch(1)[OF wf worker_dispatch(2)] by simp
next
  case (worker_idle r b now act)
  have "r = s" using worker_idle(1) by (auto simp: mt_runq_pop_def split: list.splits)
  then show ?thesis using wf_worker_idle[OF wf] worker_idle(2) by simp
next
  case (shutdown cur)
  then show ?thesis using wf_shutdown_running[OF wf] by simp
qed (use wf in \<open>simp_all add: wf_run_boundaries wf_wake_expired wf_poll_entries wf_epoll_wait wf_kqueue_wait\<close>)

lemma wf_call_step:
  assumes wf: "wf {} s" and "call_step s s'"
  shows "wf {} s'"
  using assms(2)
proof cases
  case (yield t b r)
  then show ?thesis using wf_yield[OF wf _ yield(3)] by (auto simp: task_turn_def switched_def mt_yield_def)
next
  case (sleep t ms now ok b r)
  then show ?thesis using wf_sleep[OF wf _ sleep(3)] by (cases b) (simp_all add: task_turn_def switched_def)
next
  case (finish t)
  have "is_running s t" using finish by (simp add: task_turn_def)
  then have "wf ({t} - {t}) s'" unfolding finish(1)
    by (intro wf_after_switch_dead wf_running[OF wf, simplified])
  then show ?thesis by simp
next
  case (join t h out r)
  then show ?thesis using wf_join[OF wf _ join(3,4)] by (auto simp: task_turn_def switched_def)
next
  case (cancel h rc)
  then show ?thesis using wf_cancel[OF wf] by blast
next
  case (handle_release h)
  then show ?thesis using wf_handle_release[OF wf] by simp
next
  case (send cur c v out r)
  then show ?thesis using wf_send[OF wf callerD[OF send(2)] send(3,4)] by (auto simp: switched_def)
next
  case (recv cur c v out r)
  then show ?thesis using wf_recv[OF wf callerD[OF recv(2)] recv(3,4)] by (auto simp: switched_def)
next
  case (try_send ch v rc)
  then show ?thesis using wf_try_send[OF wf] by blast
next
  case (try_recv ch v rc)
  then show ?thesis using wf_try_recv[OF wf] by blast
next
  case (close ch rc)
  then show ?thesis using wf_close[OF wf] by blast
next
  case (destroy c rc)
  then show ?thesis using wf_destroy[OF wf] by blast
next
  case (select cur allocs cases ix now ok out r)
  then show ?thesis using wf_mt_select[OF wf callerD[OF select(2)] select(3-5)] by (auto simp: switched_def)
next
  case (select_park t allocs cases p now ok out r)
  then have "wf {} (if out = SelectPark then mt_task_after_switch t r else r)"
    by (intro wf_select_park[OF wf _ select_park(5,3,4,6)]) (simp add: task_turn_def)
  then show ?thesis by (cases "out = SelectPark") (simp_all add: select_park(1) switched_def)
qed

lemma wf_io_step:
  assumes wf: "wf {} s" and "io_step s s'"
  shows "wf {} s'"
  using assms(2)
proof cases
  case (fd_wait t env fd ev tmo out res r)
  have "wf {} (case res of WaitPark w \<Rightarrow> mt_task_after_switch t r | WaitReturn rc e \<Rightarrow> r)"
    by (rule wf_fd_wait[OF wf _ _ fd_wait(3,4)]) (use fd_wait(2) in \<open>simp_all add: task_turn_def\<close>)
  then show ?thesis by (cases res) (simp_all add: fd_wait(1) switched_def)
next
  case (fd_wait_end t w res)
  then show ?thesis using wf_fd_wait_end(1)[OF wf] by blast
next
  case (fd_adopt fd fenv a rc c)
  then show ?thesis using wf_fd_adopt wf by blast
qed (use wf in \<open>simp_all add: wf_fd_release wf_fd_close\<close>)

text \<open>The steps of an initialised runtime do not reset it, and keep the rings of its channels sound.\<close>

lemma keeps_worker_step:
  assumes "worker_step s s'"
  shows "keeps s s'"
  using assms
proof cases
  case (worker_iter b now es a now' act)
  then show ?thesis using core_keeps worker_core by blast
next
  case (worker_poll es a)
  then show ?thesis
    by (simp add: core_keeps mt_poll_fd_waiters_with_timeout_def Let_def mt_backend_fd_waiters_locked_def
        mt_poll_backend_wait_locked_def)
next
  case (worker_dispatch t r)
  then show ?thesis using base_core(4)[of s] by (simp add: core_keeps mt_worker_dispatch_def Let_def)
next
  case (worker_idle r b now act)
  then show ?thesis using base_core(4)[of s]
    by (intro core_keeps) (auto simp: mt_worker_idle_def stop_with_def split: if_splits option.splits)
next
  case (shutdown cur)
  then show ?thesis by (auto simp: core_keeps mt_shutdown_def mt_fd_wake_all_def)
qed (simp_all add: core_keeps mt_worker_enter_def mt_worker_exit_def mt_run_end_def
    mt_run_no_memory_def mt_run_thread_failed_def
    mt_run_threads_def mt_worker_thread_main_failed_def stop_with_def Let_def)

lemma keeps_call_step:
  assumes "call_step s s'"
  shows "keeps s s'"
  using assms
proof cases
  case (yield t b r)
  then show ?thesis using core_keeps[OF task_calls_core(1)[OF yield(3)]] by (simp add: keeps_core_right[OF switched_core])
next
  case (sleep t ms now ok b r)
  then show ?thesis using core_keeps[OF task_calls_core(2)[OF sleep(3)]] by (simp add: keeps_core_right[OF switched_core])
next
  case (join t h out r)
  then show ?thesis using core_keeps[OF task_calls_core(3)[OF join(4)]] by (simp add: keeps_core_right[OF switched_core])
next
  case (cancel h rc)
  then show ?thesis using core_keeps cancel_core by blast
next
  case (send cur c v out r)
  then show ?thesis using keeps_chan_calls(3)[OF send(4)] by (simp add: keeps_core_right[OF switched_core])
next
  case (recv cur c v out r)
  then show ?thesis using keeps_chan_calls(4)[OF recv(4)] by (simp add: keeps_core_right[OF switched_core])
next
  case (close ch rc)
  then show ?thesis using core_keeps close_core by blast
next
  case (select cur allocs cases ix now ok out r)
  then show ?thesis using keeps_select[OF select(5)] by (simp add: keeps_core_right[OF switched_core])
next
  case (select_park t allocs cases p now ok out r)
  then show ?thesis using core_keeps[OF select_park_core[OF select_park(6)]]
    by (simp add: keeps_core_right[OF switched_core])
qed (simp_all add: core_keeps mt_task_entry_finish_def keeps_chan_calls keeps_destroy)

lemma keeps_io_step:
  assumes "io_step s s'"
  shows "keeps s s'"
  using assms
proof cases
  case (fd_wait t env fd ev tmo out res r)
  then show ?thesis using core_keeps[OF fd_wait_core[OF fd_wait(4)]] by (simp add: keeps_core_right[OF switched_core])
next
  case (fd_wait_end t w res)
  then show ?thesis using io_core(5)[of t w s] by (simp add: core_keeps)
next
  case (fd_adopt fd fenv a rc c)
  then show ?thesis using core_keeps io_core(1) by blast
qed (simp_all add: core_keeps io_core)

section \<open>The invariant of the runtime\<close>

lemma inv_step:
  assumes "runtime_inv s" and "rt_step s s'"
  shows "runtime_inv s'"
  using assms(2)
proof cases
  case start
  then show ?thesis using inv_start[OF assms(1)] by blast
next
  case worker
  then show ?thesis using keepsD(1)[OF keeps_worker_step] wf_worker_step[OF runtime_inv_wf[OF assms(1)]]
    by (intro runtime_invI) simp_all
next
  case call
  then show ?thesis using keepsD(1)[OF keeps_call_step] wf_call_step[OF runtime_inv_wf[OF assms(1)]]
    by (intro runtime_invI) simp_all
next
  case io
  then show ?thesis using keepsD(1)[OF keeps_io_step] wf_io_step[OF runtime_inv_wf[OF assms(1)]]
    by (intro runtime_invI) simp_all
qed

abbreviation rt_reachable :: "mt_state \<Rightarrow> bool" where
  "rt_reachable \<equiv> reachable (\<lambda>s. s = zero_state) rt_step"

interpretation rt: inductive_invariant "\<lambda>s. s = zero_state" rt_step runtime_inv
  by unfold_locales (auto intro: inv_step runtime_inv_zero)

section \<open>The rings of the channels\<close>

lemma rings_ok_zero: "rings_ok zero_state"
  by (simp add: rings_ok_def ring_safe_def zero_state_def zero_chan_def)

lemma rings_ok_chan_mem: "chan_mem s' = chan_mem s \<Longrightarrow> rings_ok s' = rings_ok s"
  by (simp add: rings_ok_def)

lemma init_chan_mem:
  assumes "mt_init_with_options opts env s = (rc, s')"
  shows "chan_mem s' = chan_mem s"
  using assms
  by (auto simp: mt_init_with_options_def Let_def split: if_splits prod.splits dest!: io_backend_init_objects)

lemma ensure_init_chan_mem: "ensure_init env s = (ok, s') \<Longrightarrow> chan_mem s' = chan_mem s"
  by (auto simp: ensure_init_def mt_init_def split: if_splits prod.splits dest: init_chan_mem)

lemma drop_handle_core [simp]: "core (drop_handle h s) = core s"
  by (simp add: drop_handle_def split: option.split)

lemma create_core: "mt_create_task_internal fn arg sz want env s = (rc, h, s') \<Longrightarrow> core s' = core s"
  by (auto simp: mt_create_task_internal_def Let_def split: if_splits option.splits prod.splits)

lemma rings_create:
  assumes "rings_ok s" and "ensure_init ienv s = (ok, s1)" and "mt_create_task_internal fn arg sz want env s1 = (rc, h, s')"
  shows "rings_ok s'"
  using keepsD(2)[OF core_keeps[OF create_core[OF assms(3)]]] rings_ok_chan_mem[OF ensure_init_chan_mem[OF assms(2)]]
    assms(1) by simp

lemma rings_run_begin: "mt_run_begin cur n ienv s = (r, s') \<Longrightarrow> chan_mem s' = chan_mem s"
  by (auto simp: mt_run_begin_def split: if_splits prod.splits dest: ensure_init_chan_mem)

lemma rings_chan_create:
  assumes "rings_ok s" and "mt_chan_create es n env new_ch buf_ok junk s = (out, s')"
  shows "rings_ok s'"
proof -
  obtain ok s1 where e: "ensure_init env s = (ok, s1)" by fastforce
  have "rings_ok s1" using rings_ok_chan_mem[OF ensure_init_chan_mem[OF e]] assms(1) by simp
  moreover have "ring_ok (zero_chan\<lparr>elem_size := es, capacity := n, ch_buffer := map junk [0 ..< es * n]\<rparr>)"
    if "es \<noteq> 0" using that by (auto simp: ring_ok_def zero_chan_def)
  ultimately show ?thesis
    using assms e by (auto simp: mt_chan_create_def rings_ok_def ring_safe_def mt_chan_register_def
        split: if_splits option.splits)
qed

lemma reset_core [simp]:
  "core (reset_channels cs s) = core s" "core (reset_handles hs s) = core s"
proof -
  show "core (reset_channels cs s) = core s"
    by (induction cs arbitrary: s) (simp_all add: reset_channel_def)
  show "core (reset_handles hs s) = core s" by (induction hs arbitrary: s) simp_all
qed

lemma shutdown_tasks_core [simp]: "core (shutdown_tasks s) = core s"
proof (induction s rule: shutdown_tasks.induct)
  case (1 s)
  have "core (shutdown_task t s) = core s" for t
    by (simp add: shutdown_task_def mt_fd_waiter_remove_def Let_def split: option.split)
  with 1 show ?case by (subst shutdown_tasks.simps) (simp split: list.split)
qed

lemma rings_teardown:
  assumes "rings_ok s" and "initialized s" and "\<not> running s"
  shows "rings_ok (mt_shutdown None s)"
proof -
  let ?s = "shutdown_tasks (reset_handles (handles s) (reset_channels (channels s) s))"
  have "keeps s ?s" by (rule core_keeps) simp
  then have "rings_ok ?s" using keepsD(2) assms(1) by blast
  moreover have "handles (reset_channels (channels s) s) = handles s" by simp
  then have "chan_mem (mt_shutdown None s) = chan_mem ?s"
    using assms(2,3) by (simp add: mt_shutdown_def Let_def)
  ultimately show ?thesis using rings_ok_chan_mem by blast
qed

lemma rings_start:
  assumes r: "rings_ok s" and "start_step s s'"
  shows "rings_ok s'"
  using assms(2)
proof cases
  case (init opts ienv rc)
  then show ?thesis using rings_ok_chan_mem[OF init_chan_mem] r by blast
next
  case (run_begin cur n ienv q)
  then show ?thesis using rings_ok_chan_mem[OF rings_run_begin] r by blast
next
  case (runtime_start cur n ienv q)
  then show ?thesis
    using r by (auto simp: mt_runtime_start_def rings_ok_chan_mem[OF rings_run_begin] rings_ok_chan_mem[OF ensure_init_chan_mem]
        split: if_splits prod.splits)
next
  case (chan_create new_ch es n ienv buf_ok junk ch)
  then show ?thesis using rings_chan_create[OF r] by blast
next
  case (teardown m)
  then show ?thesis using rings_teardown[OF r] rings_ok_chan_mem[of "(mt_shutdown None s)\<lparr>sw_mem := m\<rparr>"] by simp
qed (use r in \<open>auto simp: mt_go_def mt_go_with_stack_def mt_go_handle_def mt_go_handle_with_stack_def
    rings_ok_chan_mem[OF ensure_init_chan_mem] intro: rings_create split: if_splits prod.splits\<close>)

lemma rings_step: "rings_ok s \<Longrightarrow> rt_step s s' \<Longrightarrow> rings_ok s'"
  by (auto elim!: rt_step.cases intro: rings_start keepsD(2)[OF keeps_worker_step]
      keepsD(2)[OF keeps_call_step] keepsD(2)[OF keeps_io_step])

interpretation rings: inductive_invariant "\<lambda>s. s = zero_state" rt_step rings_ok
  by unfold_locales (auto intro: rings_step rings_ok_zero)

end
