(* ===== verification/Stable_Relation.thy ===== *)
theory Stable_Relation
  imports System
begin

text \<open>
  Relations between states that most operations respect. The locale lists what such a relation must
  tolerate: writes to fields and objects that do not set a task running, new entries at the end of the
  run queue, new tasks that are not running, and the queues of channels and of descriptor waiters losing
  members. Its lemmas follow the call graph upwards, so an interpretation yields the fact for every
  operation that neither takes tasks from the run queue nor blocks one on a channel nor counts running
  tasks. Two extensions add the operations that need more: the switches of a task, and the writes to channels.
\<close>

locale stable_relation =
  fixes R :: "mt_state \<Rightarrow> mt_state \<Rightarrow> bool"
  assumes stays [simp]: "R s s"
    and fields [simp]:
      "R s0 s \<Longrightarrow> R s0 (s\<lparr>runnable_count := x1\<rparr>)"
      "R s0 s \<Longrightarrow> R s0 (s\<lparr>handles := x2\<rparr>)" "R s0 s \<Longrightarrow> R s0 (s\<lparr>channels := x3\<rparr>)"
      "R s0 s \<Longrightarrow> R s0 (s\<lparr>timers := x4\<rparr>)" "R s0 s \<Longrightarrow> R s0 (s\<lparr>live_count := x5\<rparr>)"
      "R s0 s \<Longrightarrow> R s0 (s\<lparr>completed_count := x6\<rparr>)" "R s0 s \<Longrightarrow> R s0 (s\<lparr>channel_waiting_count := x7\<rparr>)"
      "R s0 s \<Longrightarrow> R s0 (s\<lparr>join_waiting_count := x8\<rparr>)" "R s0 s \<Longrightarrow> R s0 (s\<lparr>fd_waiting_count := x9\<rparr>)"
      "R s0 s \<Longrightarrow> R s0 (s\<lparr>fd_generations := x10\<rparr>)" "R s0 s \<Longrightarrow> R s0 (s\<lparr>io_polling := x11\<rparr>)"
      "R s0 s \<Longrightarrow> R s0 (s\<lparr>current := x12\<rparr>)"
      "R s0 s \<Longrightarrow> R s0 (s\<lparr>active_workers := x14\<rparr>)" "R s0 s \<Longrightarrow> R s0 (s\<lparr>worker_threads := x15\<rparr>)"
      "R s0 s \<Longrightarrow> R s0 (s\<lparr>worker_count := x16\<rparr>)" "R s0 s \<Longrightarrow> R s0 (s\<lparr>running := x17\<rparr>)"
      "R s0 s \<Longrightarrow> R s0 (s\<lparr>stopping := x18\<rparr>)" "R s0 s \<Longrightarrow> R s0 (s\<lparr>run_result := x19\<rparr>)"
      "R s0 s \<Longrightarrow> R s0 (s\<lparr>next_id := x20\<rparr>)"
      "R s0 s \<Longrightarrow> R s0 (s\<lparr>handle_mem := x22\<rparr>)" "R s0 s \<Longrightarrow> R s0 (s\<lparr>sw_mem := x23\<rparr>)"
      "R s0 s \<Longrightarrow> R s0 (s\<lparr>user_mem := x24\<rparr>)" "R s0 s \<Longrightarrow> R s0 (s\<lparr>backend_calls := x25\<rparr>)"
      "R s0 s \<Longrightarrow> R s0 (s\<lparr>cond_signals := x26\<rparr>)" "R s0 s \<Longrightarrow> R s0 (s\<lparr>cond_broadcasts := x27\<rparr>)"
      "R s0 s \<Longrightarrow> R s0 (s\<lparr>io_wakes := x28\<rparr>)" "R s0 s \<Longrightarrow> R s0 (s\<lparr>sys_calls := x29\<rparr>)"
    and task_writes [simp]: "\<forall>k. state (f k) = MT_TASK_RUNNING \<longrightarrow> state k = MT_TASK_RUNNING \<Longrightarrow>
      R s0 s \<Longrightarrow> R s0 (upd_task t f s)"
    and registry [simp]: "R s0 s \<Longrightarrow> R s0 (mt_task_unregister t s)"
      "state (task_mem s t) \<noteq> MT_TASK_RUNNING \<Longrightarrow> R s0 s \<Longrightarrow> R s0 (mt_task_register t s)"
    and objects [simp]: "R s0 s \<Longrightarrow> R s0 (upd_handle h g s)"
      "R s0 s \<Longrightarrow> R s0 (upd_sw w k s)"
    and runq_push [simp]: "R s0 s \<Longrightarrow> R s0 (mt_runq_push t s)"
    and chan_pops [simp]: "R s0 s \<Longrightarrow> R s0 (snd (chan_send_pop c s))" "R s0 s \<Longrightarrow> R s0 (snd (chan_recv_pop c s))"
    and chan_removes [simp]: "R s0 s \<Longrightarrow> R s0 (snd (chan_send_remove c t s))"
      "R s0 s \<Longrightarrow> R s0 (snd (chan_recv_remove c t s))"
    and select_queues [simp]: "R s0 s \<Longrightarrow> R s0 (select_send_push c w s)" "R s0 s \<Longrightarrow> R s0 (select_recv_push c w s)"
      "R s0 s \<Longrightarrow> R s0 (snd (select_send_remove c w s))" "R s0 s \<Longrightarrow> R s0 (snd (select_recv_remove c w s))"
    and select_pops [simp]: "R s0 s \<Longrightarrow> R s0 (snd (select_send_pop c s))"
      "R s0 s \<Longrightarrow> R s0 (snd (select_recv_pop c s))"
    and deactivate [simp]: "R s0 s \<Longrightarrow> R s0 (snd (mt_fd_waiter_deactivate w b s))"
begin

lemma base [simp]:
  "R s0 s \<Longrightarrow> R s0 (mt_notify_one s)" "R s0 s \<Longrightarrow> R s0 (mt_notify_all s)"
  "R s0 s \<Longrightarrow> R s0 (mt_handle_unregister h s)" "R s0 s \<Longrightarrow> R s0 (mt_handle_register h s)"
  "R s0 s \<Longrightarrow> R s0 (mt_chan_register c s)" "R s0 s \<Longrightarrow> R s0 (mt_chan_unregister c s)"
  by (simp_all add: mt_notify_one_def mt_notify_all_def mt_io_backend_wake_def mt_runq_push_def mt_runq_pop_def
      mt_handle_unregister_def mt_handle_register_def
      mt_chan_register_def mt_chan_unregister_def mt_runq_remove_def Let_def split: list.split)

lemma states [simp]:
  "R s0 s \<Longrightarrow> R s0 (mt_task_mark_ready t s)"
  "R s0 s \<Longrightarrow> R s0 (mt_task_mark_dead t s)"
  "R s0 s \<Longrightarrow> R s0 (mt_task_block_on_channel t c k v s)"
  "R s0 s \<Longrightarrow> R s0 (dec_channel_waiting s)" "R s0 s \<Longrightarrow> R s0 (dec_join_waiting s)"
  "R s0 s \<Longrightarrow> R s0 (mt_task_complete_channel_wait t rc s)"
  "R s0 s \<Longrightarrow> R s0 (mt_task_clear_channel_wait t s)"
  "R s0 s \<Longrightarrow> R s0 (mt_task_block_on_select t s)"
  "R s0 s \<Longrightarrow> R s0 (mt_task_complete_select_wait t s)"
  "R s0 s \<Longrightarrow> R s0 (mt_task_block_on_join t h s)"
  "R s0 s \<Longrightarrow> R s0 (mt_task_complete_join_wait t rc s)"
  by (simp_all add: mt_task_mark_ready_def mt_task_mark_dead_def
      mt_task_block_on_channel_def dec_channel_waiting_def dec_join_waiting_def
      mt_task_complete_channel_wait_def mt_task_clear_channel_wait_def mt_task_block_on_select_def
      mt_task_complete_select_wait_def mt_task_block_on_join_def mt_task_complete_join_wait_def Let_def)

lemma timers [simp]:
  "st \<noteq> MT_TASK_RUNNING \<Longrightarrow> R s0 s \<Longrightarrow> R s0 (snd (mt_timer_push_state t d st a s))"
  "R s0 s \<Longrightarrow> R s0 (snd (mt_timer_push t d a s))"
  "R s0 s \<Longrightarrow> R s0 (snd (mt_timer_pop s))"
  "R s0 s \<Longrightarrow> R s0 (snd (mt_timer_remove t s))"
  by (auto simp: mt_timer_push_state_def mt_timer_push_def mt_timer_reserve_def mt_timer_pop_def
      mt_timer_remove_def Let_def split: option.split)

lemma status [simp]: "R s0 s \<Longrightarrow> R s0 (set_handle_status t st s)"
  by (simp add: set_handle_status_def split: option.split)

lemma joins [simp]:
  "R s0 s \<Longrightarrow> R s0 (join_push h t s)" "R s0 s \<Longrightarrow> R s0 (snd (join_pop h s))"
  "R s0 s \<Longrightarrow> R s0 (snd (join_remove h t s))"
  by (auto simp: join_push_def join_pop_def join_remove_def split: prod.split)

lemma remove_waiter [simp]:
  "R s0 s \<Longrightarrow> R s0 (snd (mt_select_remove_waiter_from_channel w s))"
  by (simp add: mt_select_remove_waiter_from_channel_def split: option.split)

lemma free_waiters [simp]: "R s0 s \<Longrightarrow> R s0 (free_waiters ws s)"
  by (induction ws arbitrary: s) simp_all

lemma select [simp]:
  "R s0 s \<Longrightarrow> R s0 (mt_select_free_task_waiters t s)"
  "R s0 s \<Longrightarrow> R s0 (mt_select_unpark_task t rc i s)"
  "R s0 s \<Longrightarrow> R s0 (mt_select_complete_waiter w rc s)"
  "R s0 s \<Longrightarrow> R s0 (mt_select_timeout_ready t s)"
  by (simp_all add: mt_select_free_task_waiters_def mt_select_unpark_task_def
      mt_select_complete_waiter_def mt_select_timeout_ready_def Let_def split: option.split)

lemma fds [simp]:
  "R s0 s \<Longrightarrow> R s0 (snd (mt_fd_generation_current fd a s))"
  "R s0 s \<Longrightarrow> R s0 (mt_fd_generation_bump fd a s)"
  "R s0 s \<Longrightarrow> R s0 (snd (mt_fd_set_closing fd b a s))"
  "R s0 s \<Longrightarrow> R s0 (snd (mt_fd_generation_remove fd s))"
  "R s0 s \<Longrightarrow> R s0 (mt_fd_free_waiter w s)"
  "R s0 s \<Longrightarrow> R s0 (mt_fd_ready_waiter w rc e s)"
  "R s0 s \<Longrightarrow> R s0 (mt_fd_timeout_ready t s)"
  by (simp_all add: mt_fd_generation_current_def mt_fd_generation_bump_def mt_fd_set_closing_def
      mt_fd_generation_remove_def mt_fd_free_waiter_def mt_fd_waiter_remove_def mt_fd_ready_waiter_def
      mt_fd_timeout_ready_def Let_def split: option.split)

lemma find_waiter [simp]: "R s0 s \<Longrightarrow> R s0 (snd (mt_fd_find_waiter fd e a s))"
proof -
  assume s: "R s0 s"
  have "R s0 (snd (find_waiter_in fd e a ws s))" for ws
    using s by (induction ws) (auto simp: split_beta)
  then show ?thesis by (simp add: mt_fd_find_waiter_def)
qed

lemma wake_fds [simp]:
  "R s0 s \<Longrightarrow> R s0 (wake_all_in rc ws s)" "R s0 s \<Longrightarrow> R s0 (wake_fd_in fd ws s)"
  by (induction ws arbitrary: s) simp_all

lemma wake_for_close [simp]: "R s0 s \<Longrightarrow> R s0 (mt_fd_wake_for_close fd a s)"
  by (simp add: mt_fd_wake_for_close_def Let_def)

lemma deliver_event [simp]: "R s0 s \<Longrightarrow> R s0 (deliver_event fd raw r a s)"
proof (induction fd raw r a s rule: deliver_event.induct)
  case (1 fd raw r a s)
  obtain w s1 where f: "mt_fd_find_waiter fd r a s = (w, s1)" by fastforce
  have "R s0 s1" using find_waiter[OF 1(2), of fd r a] f by simp
  with 1 f show ?case by (subst deliver_event.simps) (auto split: option.split)
qed

lemma wake_invalid [simp]: "R s0 s \<Longrightarrow> R s0 (wake_invalid n fd a s)"
  by (induction n arbitrary: s) (simp_all add: split_beta split: option.split)

lemma poll_entry [simp]: "R s0 s \<Longrightarrow> R s0 (poll_entry fd re a s)"
  by (simp add: poll_entry_def split_beta Let_def split: option.split)

lemma poll_entries [simp]: "R s0 s \<Longrightarrow> R s0 (poll_entries es a s)"
  by (induction es a s rule: poll_entries.induct) simp_all

lemma epoll_wait [simp]: "R s0 s \<Longrightarrow> R s0 (mt_epoll_backend_wait_locked es a s)"
  by (induction es arbitrary: s) simp_all

lemma kqueue_wait [simp]: "R s0 s \<Longrightarrow> R s0 (mt_kqueue_backend_wait_locked es a s)"
  by (induction es arbitrary: s) (simp_all add: kqueue_event_def split_beta Let_def split: option.split)

lemma poll [simp]:
  "R s0 s \<Longrightarrow> R s0 (mt_poll_fd_waiters_with_timeout es a s)"
  "R s0 s \<Longrightarrow> R s0 (mt_poll_fd_waiters_once es a s)"
  by (simp_all add: mt_poll_fd_waiters_once_def mt_poll_fd_waiters_with_timeout_def
      mt_backend_fd_waiters_locked_def mt_poll_backend_wait_locked_def Let_def)

lemma wake_expired [simp]: "R s0 s \<Longrightarrow> R s0 (mt_wake_expired_timers now s)"
proof (induction now s rule: mt_wake_expired_timers.induct)
  case (1 now s)
  obtain w s1 where p: "mt_timer_pop s = (w, s1)" by fastforce
  have "R s0 s1" using timers(3)[of s0 s] p 1(2) by simp
  then have "R s0 (wake_timer t s1)" for t by (simp add: wake_timer_def)
  with 1 p show ?case by (subst mt_wake_expired_timers.simps) (auto split: option.split)
qed

section \<open>Channels, handles and tasks\<close>

lemma chan_parts [simp]:
  "R s0 s \<Longrightarrow> R s0 (store_at v x s)" "R s0 s \<Longrightarrow> R s0 (mt_chan_ready_waiter t rc s)"
  by (simp_all add: store_at_def mt_chan_ready_waiter_def Let_def)

lemma popsD:
  "chan_send_pop c s = (r, s') \<Longrightarrow> R s0 s \<Longrightarrow> R s0 s'"
  "chan_recv_pop c s = (r, s') \<Longrightarrow> R s0 s \<Longrightarrow> R s0 s'"
  "select_send_pop c s = (w, s') \<Longrightarrow> R s0 s \<Longrightarrow> R s0 s'"
  "select_recv_pop c s = (w, s') \<Longrightarrow> R s0 s \<Longrightarrow> R s0 s'"
  "join_pop h s = (r, s') \<Longrightarrow> R s0 s \<Longrightarrow> R s0 s'"
  by (metis snd_conv chan_pops(1), metis snd_conv chan_pops(2),
      metis snd_conv select_pops(1), metis snd_conv select_pops(2),
      metis snd_conv joins(2))

lemma wake_closed [simp]:
  "R s0 s \<Longrightarrow> R s0 (wake_closed_senders c s)" "R s0 s \<Longrightarrow> R s0 (wake_closed_receivers c s)"
  "R s0 s \<Longrightarrow> R s0 (wake_closed_select_senders c s)"
  "R s0 s \<Longrightarrow> R s0 (wake_closed_select_receivers c s)"
proof -
  show "R s0 s \<Longrightarrow> R s0 (wake_closed_senders c s)"
  proof (induction c s rule: wake_closed_senders.induct)
    case (1 c s)
    obtain r q where pop: "chan_send_pop c s = (r, q)" by fastforce
    show ?case using 1 pop popsD(1)[OF pop 1(2)]
      by (subst wake_closed_senders.simps) (simp split: option.split)
  qed
  show "R s0 s \<Longrightarrow> R s0 (wake_closed_receivers c s)"
  proof (induction c s rule: wake_closed_receivers.induct)
    case (1 c s)
    obtain r q where pop: "chan_recv_pop c s = (r, q)" by fastforce
    show ?case using 1 pop popsD(2)[OF pop 1(2)]
      by (subst wake_closed_receivers.simps) (simp split: option.split)
  qed
  show "R s0 s \<Longrightarrow> R s0 (wake_closed_select_senders c s)"
  proof (induction c s rule: wake_closed_select_senders.induct)
    case (1 c s)
    obtain r q where pop: "select_send_pop c s = (r, q)" by fastforce
    show ?case using 1 pop popsD(3)[OF pop 1(2)]
      by (subst wake_closed_select_senders.simps) (simp split: option.split)
  qed
  show "R s0 s \<Longrightarrow> R s0 (wake_closed_select_receivers c s)"
  proof (induction c s rule: wake_closed_select_receivers.induct)
    case (1 c s)
    obtain r q where pop: "select_recv_pop c s = (r, q)" by fastforce
    show ?case using 1 pop popsD(4)[OF pop 1(2)]
      by (subst wake_closed_select_receivers.simps) (simp split: option.split)
  qed
qed

lemma wake_joiners [simp]: "R s0 s \<Longrightarrow> R s0 (wake_joiners h s)"
proof (induction h s rule: wake_joiners.induct)
  case (1 h s)
  obtain r q where pop: "join_pop h s = (r, q)" by fastforce
  show ?case using 1 pop popsD(5)[OF pop 1(2)]
    by (subst wake_joiners.simps) (simp add: mt_join_waiter_ready_def split: option.split)
qed

lemma handles [simp]:
  "R s0 s \<Longrightarrow> R s0 (mt_handle_free_if_possible h s)"
  "R s0 s \<Longrightarrow> R s0 (mt_handle_complete h b s)"
  "R s0 s \<Longrightarrow> R s0 (mt_task_handle_release g s)"
  by (simp_all add: mt_handle_free_if_possible_def mt_handle_complete_def mt_task_handle_release_def Let_def
      split: option.split)

lemma free_stack [simp]: "R s0 s \<Longrightarrow> R s0 (free_task_stack t s)"
  by (simp add: free_task_stack_def)

lemma destroy [simp]: "R s0 s \<Longrightarrow> R s0 (mt_task_destroy t s)"
  by (simp add: mt_task_destroy_def mt_fd_waiter_remove_def Let_def split: option.split)

text \<open>What a worker does with a task that switched back, once it is counted out.\<close>

lemma after_switch_counted:
  "R s0 (s\<lparr>current := None, running_tasks := running_tasks s - 1\<rparr>) \<Longrightarrow> R s0 (mt_task_after_switch t s)"
  by (simp add: mt_task_after_switch_def Let_def split: option.split mt_task_state.split)

lemma idle [simp]: "R s0 s \<Longrightarrow> R s0 (snd (mt_worker_idle b now s))"
  by (simp add: mt_worker_idle_def stop_with_def split: option.split)

lemma removes [simp]:
  "R s0 s \<Longrightarrow> R s0 (snd (mt_chan_remove_waiter t s))"
  "R s0 s \<Longrightarrow> R s0 (snd (mt_handle_remove_joiner h t s))"
  by (simp_all add: mt_chan_remove_waiter_def mt_handle_remove_joiner_def split_beta Let_def
      split: option.split mt_chan_wait_kind.split)

lemma task_calls:
  "R s (snd (mt_yield cur s))" "R s (snd (mt_sleep_ms cur ms now ok s))"
  "R s (snd (mt_join cur h s))"
  by (simp_all add: mt_yield_def mt_sleep_ms_def mt_join_def split_beta split: option.split)

lemma register_cases:
  "R s0 s \<Longrightarrow> R s0 (snd (register_cases t ks i as s))"
  by (induction t ks i as s rule: register_cases.induct)
    (auto simp: register_case_def Let_def split: list.split option.split)

lemma select_park [simp]: "R s0 s \<Longrightarrow> R s0 (snd (mt_select_park cur ks p as now ok s))"
  by (simp add: mt_select_park_def split_beta Let_def register_cases split: option.split)

lemma io:
  "mt_fd_adopt fd fenv a s = (rc, c, s') \<Longrightarrow> R s s'"
  "R s (snd (snd (mt_fd_release fd err s)))" "R s (snd (mt_fd_close_begin fd a a' s))"
  "R s (snd (mt_fd_close_end fd err a s))" "R s (snd (mt_fd_wait_end t w s))"
proof -
  have g: "R s r" if "mt_fd_generation_current fd a s = (g, r)" for g r
    using fds(1)[of s s fd a] that by simp
  show "mt_fd_adopt fd fenv a s = (rc, c, s') \<Longrightarrow> R s s'"
    by (auto simp: mt_fd_adopt_def Let_def split: if_splits sum.splits prod.splits option.splits dest: g)
  show "R s (snd (snd (mt_fd_release fd err s)))" "R s (snd (mt_fd_close_begin fd a a' s))"
    "R s (snd (mt_fd_close_end fd err a s))" "R s (snd (mt_fd_wait_end t w s))"
    by (simp_all add: mt_fd_release_def mt_fd_generation_remove_def mt_fd_close_begin_def mt_fd_close_end_def
        mt_fd_wait_end_def split_beta Let_def split: option.split)
qed

lemma drop_handle [simp]: "R s0 s \<Longrightarrow> R s0 (drop_handle h s)"
  by (simp add: drop_handle_def split: option.split)

lemma create: "mt_create_task_internal fn arg sz want env s = (rc, h, s') \<Longrightarrow> R s s'"
  by (auto simp: mt_create_task_internal_def Let_def split: if_splits option.splits prod.splits)

end

section \<open>Relations that do not look at running tasks\<close>

locale switch_relation = stable_relation +
  assumes any_task [simp]: "R s0 s \<Longrightarrow> R s0 (upd_task t f s)" "R s0 s \<Longrightarrow> R s0 (mt_task_register t s)"
    "R s0 s \<Longrightarrow> R s0 (s\<lparr>running_tasks := n\<rparr>)"
begin

lemma after_switch [simp]: "R s0 s \<Longrightarrow> R s0 (mt_task_after_switch t s)"
  by (simp add: after_switch_counted)

lemma switched [simp]: "R s0 s \<Longrightarrow> R s0 (switched b cur s)"
  by (simp add: switched_def)

lemma dispatch [simp]: "R s0 s \<Longrightarrow> R s0 (mt_worker_dispatch t s)"
  by (simp add: mt_worker_dispatch_def mt_task_mark_running_def Let_def)

lemma push_state [simp]: "R s0 s \<Longrightarrow> R s0 (snd (mt_timer_push_state t d st a s))"
  by (auto simp: mt_timer_push_state_def mt_timer_reserve_def Let_def)

end

section \<open>Relations that tolerate any write to a channel\<close>

locale channel_relation = stable_relation +
  assumes upd_chan [simp]: "R s0 s \<Longrightarrow> R s0 (upd_chan c f s)"
begin

lemma buffers [simp]: "R s0 s \<Longrightarrow> R s0 (buffer_push c bs s)" "R s0 s \<Longrightarrow> R s0 (buffer_pop c v s)"
  by (simp_all add: buffer_push_def buffer_pop_eq)

lemma fill [simp]: "R s0 s \<Longrightarrow> R s0 (mt_chan_fill_buffer_from_waiting_sender c s)"
  by (simp add: mt_chan_fill_buffer_from_waiting_sender_def split_beta split: option.split)

lemma transfers [simp]: "R s0 s \<Longrightarrow> R s0 (snd (send_now c v s))" "R s0 s \<Longrightarrow> R s0 (snd (recv_now c v s))"
  by (simp_all add: send_now_def recv_now_def split_beta split: option.split)

lemma chan_pushes [simp]: "R s0 s \<Longrightarrow> R s0 (chan_send_push c t s)" "R s0 s \<Longrightarrow> R s0 (chan_recv_push c t s)"
  by (simp_all add: chan_send_push_def chan_recv_push_def)

lemma chan_calls [simp]:
  "R s0 s \<Longrightarrow> R s0 (snd (mt_chan_try_send ch v s))" "R s0 s \<Longrightarrow> R s0 (snd (mt_chan_try_recv ch v s))"
  "R s0 s \<Longrightarrow> R s0 (snd (mt_chan_send cur ch v s))" "R s0 s \<Longrightarrow> R s0 (snd (mt_chan_recv cur ch v s))"
  "R s0 s \<Longrightarrow> R s0 (snd (mt_chan_close ch s))" "R s0 s \<Longrightarrow> R s0 (snd (mt_chan_destroy ch s))"
  by (simp_all add: mt_chan_try_send_def mt_chan_try_recv_def mt_chan_send_def mt_chan_recv_def mt_chan_close_def
      mt_chan_destroy_def mt_chan_wake_closed_waiters_def split_beta Let_def split: option.split)

lemma select_try [simp]: "R s0 s \<Longrightarrow> R s0 (snd (select_try ks i s))"
proof (induction ks i s rule: select_try.induct)
  case (2 k ks i s)
  obtain rc q where t: "mt_select_try_case k s = (rc, q)" by fastforce
  have "R s0 (snd (mt_select_try_case k s))"
    using "2.prems" by (simp add: mt_select_try_case_def split: mt_select_op.split)
  then show ?case using "2.IH"(1) "2.IH"(2)[OF _ t[symmetric] refl] "2.prems" t by auto
qed simp

lemma select_call: "R s (snd (mt_select cur ks ix as now ok s))"
  by (simp add: mt_select_def split_beta Let_def split: option.split)

end

end
