(* ===== verification/Running.thy ===== *)
theory Running
  imports Stable_Relation
begin

text \<open>
  The count of running tasks, by which an idle worker decides whether anybody could still wake a waiting
  task: in every reachable state it is at least the number of registered tasks that run.
\<close>

section \<open>No operation but a dispatch sets a task running\<close>

definition runs :: "mt_state \<Rightarrow> tptr set" where
  "runs s = {t \<in> set (all_tasks s). state (task_mem s t) = MT_TASK_RUNNING}"

definition runs_fewer :: "mt_state \<Rightarrow> mt_state \<Rightarrow> bool" where
  "runs_fewer s s' \<longleftrightarrow> running_tasks s' = running_tasks s \<and> runs s' \<subseteq> runs s"

definition counted :: "mt_state \<Rightarrow> bool" where
  "counted s \<longleftrightarrow> card (runs s) \<le> running_tasks s"

lemma finite_runs [simp]: "finite (runs s)"
  by (simp add: runs_def)

lemma runs_fewer_upd_task:
  "\<forall>k. state (f k) = MT_TASK_RUNNING \<longrightarrow> state k = MT_TASK_RUNNING \<Longrightarrow> runs_fewer s0 s \<Longrightarrow>
     runs_fewer s0 (upd_task t f s)"
  by (auto simp: runs_fewer_def runs_def split: if_splits)

text \<open>An operation that leaves the tasks alone.\<close>

definition runs_part :: "mt_state \<Rightarrow> tptr list \<times> (tptr \<Rightarrow> mt_task) \<times> nat" where
  "runs_part s = (all_tasks s, task_mem s, running_tasks s)"

lemma runs_fewer_same: "runs_part s' = runs_part s \<Longrightarrow> runs_fewer s0 s' = runs_fewer s0 s"
  by (simp add: runs_part_def runs_fewer_def runs_def)

lemma backend_remove_running [simp]: "running_tasks (mt_io_backend_remove w s) = running_tasks s"
  by (simp add: backend_remove_defs Let_def)

interpretation fewer: channel_relation runs_fewer
proof
  show "runs_fewer s s" for s by (simp add: runs_fewer_def)
  show "runs_fewer s0 (upd_task t f s)"
    if "\<forall>k. state (f k) = MT_TASK_RUNNING \<longrightarrow> state k = MT_TASK_RUNNING" "runs_fewer s0 s" for f s0 s t
    using that by (rule runs_fewer_upd_task)
  show "runs_fewer s0 (mt_task_unregister t s)" if "runs_fewer s0 s" for s0 s t
    using that by (auto simp: runs_fewer_def runs_def mt_task_unregister_def dest!: set_mp[OF set_remove1_subset])
  show "runs_fewer s0 (mt_task_register t s)"
    if "state (task_mem s t) \<noteq> MT_TASK_RUNNING" "runs_fewer s0 s" for s0 s t
    using that by (auto simp: runs_fewer_def runs_def mt_task_register_def)
qed (auto simp: runs_fewer_def runs_def mt_runq_push_def mt_notify_one_def mt_io_backend_wake_def chan_send_pop_def
    chan_recv_pop_def chan_send_remove_def chan_recv_remove_def select_send_push_def select_recv_push_def
    select_send_remove_def select_recv_remove_def select_send_pop_def select_recv_pop_def split_beta
    mt_fd_waiter_deactivate_def mt_fd_waiter_set_state_def mt_fd_waiter_unlink_def Let_def)

lemma runq_fewer [simp]:
  "runs_fewer s0 (snd (mt_runq_pop s)) = runs_fewer s0 s"
  "runs_fewer s0 (snd (mt_runq_remove t s)) = runs_fewer s0 s"
  by (rule runs_fewer_same; simp add: runs_part_def mt_runq_pop_def mt_runq_remove_def split: list.split)+

lemma popD_fewer: "mt_runq_pop s = (r, s') \<Longrightarrow> runs_fewer s s'"
  using runq_fewer(1)[of s s] by simp

lemma counted_fewer: "runs_fewer s s' \<Longrightarrow> counted s \<Longrightarrow> counted s'"
  unfolding runs_fewer_def counted_def by (metis card_mono finite_runs le_trans)

section \<open>Counting in and out\<close>

lemma counted_dispatch:
  assumes "counted s"
  shows "counted (mt_worker_dispatch t s)"
proof -
  have "running_tasks (mt_worker_dispatch t s) = running_tasks s + 1" "runs (mt_worker_dispatch t s) \<subseteq> insert t (runs s)"
    by (auto simp: mt_worker_dispatch_def mt_task_mark_running_def set_handle_status_def runs_def Let_def
        split: option.splits if_splits)
  moreover have "card (insert t (runs s)) \<le> card (runs s) + 1" by (simp add: card_insert_if)
  ultimately show ?thesis
    using assms card_mono[of "insert t (runs s)" "runs (mt_worker_dispatch t s)"] by (simp add: counted_def)
qed

text \<open>A call that parks its task is followed by the switch, which counts the task out.\<close>

lemma counted_parked:
  assumes "counted s" and "is_running s t" and "runs_fewer s r" and "state (task_mem r t) \<noteq> MT_TASK_RUNNING"
  shows "counted (mt_task_after_switch t r)"
proof -
  let ?q = "r\<lparr>current := None, running_tasks := running_tasks r - 1\<rparr>"
  have t: "t \<in> runs s" using assms(2) by (simp add: runs_def is_running_def)
  have "runs r \<subseteq> runs s - {t}" using assms(3,4) by (auto simp: runs_fewer_def runs_def)
  then have "card (runs r) \<le> card (runs s) - 1" using t by (metis card_Diff_singleton card_mono finite_Diff finite_runs)
  then have "counted ?q" using assms(1,3) by (simp add: counted_def runs_fewer_def runs_def)
  moreover have "runs_fewer ?q (mt_task_after_switch t r)"
    by (rule fewer.after_switch_counted) (simp add: runs_fewer_def)
  ultimately show ?thesis by (blast intro: counted_fewer)
qed

lemma counted_switched:
  assumes "counted s" and "parked \<Longrightarrow> is_running s (the cur)" and "runs_fewer s r"
    and "parked \<Longrightarrow> state (task_mem r (the cur)) \<noteq> MT_TASK_RUNNING"
  shows "counted (switched parked cur r)"
  using assms counted_parked[OF assms(1)] counted_fewer[OF assms(3,1)] by (simp add: switched_def)

section \<open>A parked task does not run\<close>

lemma push_state_state:
  "mt_timer_push_state t d st ok s = (MT_OK, s') \<Longrightarrow> state (task_mem s' t) = st"
  by (auto simp: mt_timer_push_state_def Let_def split: if_splits prod.splits)

lemma parked_states:
  "mt_yield (Some t) s = (True, s') \<Longrightarrow> state (task_mem s' t) = MT_TASK_READY"
  "mt_sleep_ms (Some t) ms now ok s = (True, s') \<Longrightarrow> state (task_mem s' t) \<noteq> MT_TASK_RUNNING"
  "mt_join (Some t) h s = (Park, s') \<Longrightarrow> state (task_mem s' t) = MT_TASK_WAITING_JOIN"
  "mt_chan_send cur ch v s = (Park, s') \<Longrightarrow> cur \<noteq> None \<and> state (task_mem s' (the cur)) = MT_TASK_WAITING_CHAN"
  "mt_chan_recv cur ch v s = (Park, s') \<Longrightarrow> cur \<noteq> None \<and> state (task_mem s' (the cur)) = MT_TASK_WAITING_CHAN"
  "mt_select_park cur ks p as now ok s = (SelectPark, s') \<Longrightarrow>
     cur \<noteq> None \<and> state (task_mem s' (the cur)) = MT_TASK_WAITING_SELECT"
  by (auto simp: mt_yield_def mt_sleep_ms_def mt_timer_push_def mt_join_def join_push_def mt_task_block_on_join_def
      mt_chan_send_def mt_chan_recv_def chan_send_push_def chan_recv_push_def mt_task_block_on_channel_def
      mt_select_park_def mt_task_block_on_select_def Let_def split: option.splits if_splits prod.splits
      dest!: push_state_state)

lemma parked_select:
  "mt_select cur ks ix as now ok s = (SelectPark, s') \<Longrightarrow>
     cur \<noteq> None \<and> state (task_mem s' (the cur)) = MT_TASK_WAITING_SELECT"
  by (auto simp: mt_select_def split: if_splits option.splits prod.splits dest: parked_states(6))

lemma parked_fd:
  "mt_fd_wait_begin (Some t) fd ev tmo out env s = (WaitPark w, s') \<Longrightarrow> state (task_mem s' t) = MT_TASK_WAITING_FD"
  by (auto simp: mt_fd_wait_begin_def Let_def split: option.splits if_splits prod.splits dest!: push_state_state)

section \<open>Every step keeps the count\<close>

lemma worker_iter_counted:
  assumes "counted s"
  shows "counted (snd (mt_worker_iter b now es a now' s))"
proof -
  define q where "q = (if \<not> stopping s then mt_poll_fd_waiters_once es a (mt_wake_expired_timers now s) else s)"
  have q: "runs_fewer s q" by (simp add: q_def)
  then have "counted (snd (mt_runq_pop q))" using counted_fewer[OF _ assms] by simp
  then have "counted (mt_worker_dispatch t (snd (mt_runq_pop q)))" for t by (rule counted_dispatch)
  moreover have "counted (snd (mt_worker_idle b now' (snd (mt_runq_pop q))))"
    by (rule counted_fewer[OF fewer.idle assms]) (simp add: q)
  ultimately show ?thesis
    unfolding mt_worker_iter_def q_def[symmetric] using assms by (simp add: split_beta Let_def split: option.split)
qed

lemma counted_worker_step:
  assumes c: "counted s" and "worker_step s s'"
  shows "counted s'"
  using assms(2)
proof cases
  case (worker_iter b now es a now' act)
  then show ?thesis using worker_iter_counted[OF c, of b now es a now'] by simp
next
  case (worker_dispatch t r)
  then show ?thesis using counted_dispatch[OF counted_fewer[OF popD_fewer c]] by simp
next
  case (worker_idle r b now act)
  have "runs_fewer s (snd (mt_worker_idle b now r))" using popD_fewer[OF worker_idle(1)] by (rule fewer.idle)
  then show ?thesis using worker_idle(2) c by (simp add: counted_fewer)
next
  case (shutdown cur)
  then have "runs_fewer s s'" by (simp add: mt_shutdown_def mt_fd_wake_all_def)
  then show ?thesis using c by (rule counted_fewer)
qed (rule counted_fewer[OF _ c], simp add: mt_worker_enter_def mt_worker_exit_def mt_run_end_def mt_run_no_memory_def
    mt_run_thread_failed_def mt_run_threads_def mt_worker_thread_main_failed_def stop_with_def Let_def)+

lemma cancel_fewer: "mt_task_cancel h s = (rc, s') \<Longrightarrow> runs_fewer s s'"
proof -
  have "runs_fewer r (mt_task_wake_for_cancel t r)" for r t
    by (simp add: mt_task_wake_for_cancel_def split_beta Let_def split: option.split mt_task_state.split)
  then have w: "runs_fewer s r \<Longrightarrow> runs_fewer s (mt_task_wake_for_cancel t r)" for r t
    unfolding runs_fewer_def by (metis order_trans)
  show "mt_task_cancel h s = (rc, s') \<Longrightarrow> runs_fewer s s'"
    by (auto simp: mt_task_cancel_def Let_def w split: option.splits if_splits)
qed

lemma turn_running: "caller s cur \<Longrightarrow> cur \<noteq> None \<Longrightarrow> is_running s (the cur)"
  "task_turn s t \<Longrightarrow> is_running s t"
  by (auto simp: caller_def task_turn_def)

lemma counted_call_step:
  assumes c: "counted s" and "call_step s s'"
  shows "counted s'"
  using assms(2)
proof cases
  case (yield t b r)
  then show ?thesis using fewer.task_calls(1)[of s "Some t"] parked_states(1)[of t s r] turn_running(2)
    by (intro counted_switched[OF c, of b "Some t" r, folded yield(1)]) auto
next
  case (sleep t ms now ok b r)
  then show ?thesis using fewer.task_calls(2)[of s "Some t" ms now ok] parked_states(2)[of t ms now ok s r] turn_running(2)
    by (intro counted_switched[OF c, of b "Some t" r, folded sleep(1)]) auto
next
  case (finish t)
  have "runs_fewer s (mt_task_entry_finish t s)" by (simp add: mt_task_entry_finish_def)
  then show ?thesis unfolding finish(1) using finish(2) turn_running(2)
    by (intro counted_parked[OF c]) (simp_all add: mt_task_entry_finish_def mt_task_mark_dead_def)
next
  case (join t h out r)
  then show ?thesis using fewer.task_calls(3)[of s "Some t" "Some h"] parked_states(3)[of t "Some h" s r] turn_running(2)
    by (intro counted_switched[OF c, of "out = Park" "Some t" r, folded join(1)]) auto
next
  case (cancel h rc)
  then show ?thesis using counted_fewer[OF cancel_fewer c] by blast
next
  case (send cur d v out r)
  then show ?thesis using fewer.chan_calls(3)[OF fewer.stays, of s cur "Some d" v] parked_states(4)[of cur "Some d" v s r]
      turn_running(1)
    by (intro counted_switched[OF c, of "out = Park" cur r, folded send(1)]) auto
next
  case (recv cur d v out r)
  then show ?thesis using fewer.chan_calls(4)[OF fewer.stays, of s cur "Some d" v] parked_states(5)[of cur "Some d" v s r]
      turn_running(1)
    by (intro counted_switched[OF c, of "out = Park" cur r, folded recv(1)]) auto
next
  case (try_send ch v rc)
  then show ?thesis using counted_fewer[OF fewer.chan_calls(1)[OF fewer.stays, of s ch v] c] by simp
next
  case (try_recv ch v rc)
  then show ?thesis using counted_fewer[OF fewer.chan_calls(2)[OF fewer.stays, of s ch v] c] by simp
next
  case (close ch rc)
  then show ?thesis using counted_fewer[OF fewer.chan_calls(5)[OF fewer.stays, of s ch] c] by simp
next
  case (destroy d rc)
  then show ?thesis using counted_fewer[OF fewer.chan_calls(6)[OF fewer.stays, of s "Some d"] c] by simp
next
  case (select cur allocs cases ix now ok out r)
  then show ?thesis using fewer.select_call[of s cur cases ix allocs now ok] parked_select[of cur cases ix allocs now ok s r]
      turn_running(1)
    by (intro counted_switched[OF c, of "out = SelectPark" cur r, folded select(1)]) auto
next
  case (select_park t allocs cases p now ok out r)
  then show ?thesis using fewer.select_park[OF fewer.stays, of s "Some t" cases p allocs now ok]
      parked_states(6)[of "Some t" cases p allocs now ok s r] turn_running(2)
    by (intro counted_switched[OF c, of "out = SelectPark" "Some t" r, folded select_park(1)]) auto
qed (use counted_fewer[OF fewer.handles(3)[OF fewer.stays] c] in simp)

text \<open>Descriptor calls.\<close>

lemma backend_add_running: "mt_io_backend_add w ctl s = (rc, s') \<Longrightarrow> running_tasks s' = running_tasks s"
  by (auto simp: backend_add_defs Let_def split: if_splits ctl_result.splits)

lemma waiter_add_fewer [simp]: "runs_fewer s0 (snd (mt_fd_waiter_add w ctl s)) = runs_fewer s0 s"
proof (rule runs_fewer_same)
  obtain rc r where a: "mt_io_backend_add w ctl s = (rc, r)" by fastforce
  show "runs_part (snd (mt_fd_waiter_add w ctl s)) = runs_part s"
    using backend_add_fields(4,5)[OF a] backend_add_running[OF a]
    by (simp add: runs_part_def mt_fd_waiter_add_def mt_fd_waiter_set_state_def a Let_def)
qed

lemma fd_wait_register_fewer [simp]: "runs_fewer s0 s \<Longrightarrow> runs_fewer s0 (fd_wait_register t w fd ev a s)"
proof -
  assume s: "runs_fewer s0 s"
  have "runs_fewer s0 (upd_fw w f r) = runs_fewer s0 r" for f r
    by (rule runs_fewer_same) (simp add: runs_part_def)
  then show ?thesis using s by (simp add: fd_wait_register_def split_beta Let_def)
qed

lemma counted_io_step:
  assumes c: "counted s" and "io_step s s'"
  shows "counted s'"
  using assms(2)
proof cases
  case (fd_wait t env fd ev tmo out res r)
  have "runs_fewer s (snd (mt_fd_wait_begin (Some t) fd ev tmo out env s))"
    by (simp add: mt_fd_wait_begin_def mt_fd_waiter_remove_def split_beta Let_def split: option.split)
  then show ?thesis using fd_wait parked_fd[of t fd ev tmo out env s _ r] turn_running(2)
    by (intro counted_switched[OF c, of "\<exists>w. res = WaitPark w" "Some t" r, folded fd_wait(1)]) auto
next
  case (fd_wait_end t w res)
  then show ?thesis using counted_fewer[OF fewer.io(5)[of s t w] c] by simp
next
  case (fd_adopt fd fenv a rc d)
  then show ?thesis using counted_fewer[OF fewer.io(1) c] by blast
qed (use counted_fewer[OF fewer.io(2) c] counted_fewer[OF fewer.io(3) c] counted_fewer[OF fewer.io(4) c] in simp_all)

text \<open>Starting up: an uninitialised runtime has no tasks, and a new task does not run.\<close>

lemma counted_no_tasks: "all_tasks s = [] \<Longrightarrow> counted s"
  by (simp add: counted_def runs_def)

lemma counted_init:
  assumes "runtime_inv s" and "counted s" and "mt_init_with_options opts env s = (rc, s')"
  shows "counted s'"
proof (cases "initialized s")
  case True
  then show ?thesis using assms(2,3) by (simp add: mt_init_with_options_def)
next
  case False
  then have "all_tasks s' = []" using runtime_inv_init[OF assms(1,3)] assms(1) by (simp add: runtime_inv_def)
  then show ?thesis by (rule counted_no_tasks)
qed

lemma counted_ensure_init:
  "runtime_inv s \<Longrightarrow> counted s \<Longrightarrow> ensure_init env s = (ok, s') \<Longrightarrow> counted s'"
  by (auto simp: ensure_init_def mt_init_def split: if_splits prod.splits intro: counted_init)

lemma counted_run_begin:
  "runtime_inv s \<Longrightarrow> counted s \<Longrightarrow> mt_run_begin cur n env s = (r, s') \<Longrightarrow> counted s'"
  by (auto simp: mt_run_begin_def counted_def runs_def split: if_splits prod.splits
      dest!: counted_ensure_init[unfolded counted_def runs_def])

lemma counted_start_step:
  assumes inv: "runtime_inv s" and c: "counted s" and "start_step s s'"
  shows "counted s'"
  using assms(3)
proof cases
  case (init opts ienv rc)
  then show ?thesis using counted_init[OF inv c] by blast
next
  case (run_begin cur n ienv r)
  then show ?thesis using counted_run_begin[OF inv c] by blast
next
  case (runtime_start cur n ienv r)
  obtain ok q where e: "ensure_init ienv s = (ok, q)" by fastforce
  have "runtime_inv q" "counted q" using runtime_inv_ensure_init(1)[OF inv e] counted_ensure_init[OF inv c e] by simp_all
  then show ?thesis using runtime_start e c counted_run_begin[of q cur n ienv r s']
    by (auto simp: mt_runtime_start_def split: if_splits)
next
  case (chan_create new_ch es n ienv buf_ok junk ch)
  obtain ok q where e: "ensure_init ienv s = (ok, q)" by fastforce
  have q: "counted q" by (rule counted_ensure_init[OF inv c e])
  have "s' = s \<or> runs_fewer q s'"
    using chan_create e by (auto simp: mt_chan_create_def split: if_splits option.splits)
  then show ?thesis using counted_fewer[OF _ q] c by blast
next
  case (teardown m)
  have "all_tasks s' = []" using inv_teardown(3)[OF inv teardown(2,3), of m] teardown(1,4) by (simp add: fresh_runtime_def)
  then show ?thesis by (rule counted_no_tasks)
qed (auto simp: mt_go_def mt_go_with_stack_def mt_go_handle_def mt_go_handle_with_stack_def
    intro: counted_ensure_init[OF inv c] counted_fewer[OF fewer.create counted_ensure_init[OF inv c]]
    split: if_splits prod.splits)

lemma counted_rt_step: "runtime_inv s \<and> counted s \<Longrightarrow> rt_step s s' \<Longrightarrow> runtime_inv s' \<and> counted s'"
  by (auto elim!: rt_step.cases intro: inv_step[OF _ rt_step.start] inv_step[OF _ rt_step.worker] inv_step[OF _ rt_step.call]
      inv_step[OF _ rt_step.io] counted_start_step counted_worker_step counted_call_step counted_io_step)

interpretation running: inductive_invariant "\<lambda>s. s = zero_state" rt_step "\<lambda>s. runtime_inv s \<and> counted s"
proof
  have "counted zero_state" by (rule counted_no_tasks) (simp add: zero_state_def)
  then show "runtime_inv s \<and> counted s" if "s = zero_state" for s using that runtime_inv_zero by simp
qed (rule counted_rt_step)

lemma reachable_running:
  assumes "rt_reachable s"
  shows "card {t \<in> set (all_tasks s). state (task_mem s t) = MT_TASK_RUNNING} \<le> running_tasks s"
  using running.reachable_inv[OF assms] by (simp add: counted_def runs_def)

end
