(* ===== verification/Reachable.thy ===== *)
theory Reachable
  imports Running
begin

text \<open>What holds in every reachable state of the runtime, and a run that shows a flaw of cancellation.\<close>

section \<open>Consequences of the invariant\<close>

lemma reachable_wf: "rt_reachable s \<Longrightarrow> wf {} s"
  using rt.reachable_inv runtime_inv_wf by blast

lemma live_all: "live {} s t \<longleftrightarrow> t \<in> set (all_tasks s)"
  by (simp add: live_def)

text \<open>Where a parked task is found again, by the kind of its wait.\<close>

lemma fd_found:
  assumes wf: "wf {} s" and t: "t \<in> set (all_tasks s)" "state (task_mem s t) = MT_TASK_WAITING_FD"
  shows "\<exists>w \<in> set (fd_waiters s). fw_task (fw_mem s w) = Some t \<and> mt_fd_waiter_is_active (fw_mem s w)"
proof -
  note f = wfD(8)[OF wf]
  obtain v where v: "fd_waiter (task_mem s t) = Some v"
    using wf_fdsD(7)[OF f, of t] t by (auto simp: live_all)
  then have "v \<in> set (fd_waiters s)" "fw_task (fw_mem s v) = Some t"
    using wf_fdsD(6)[OF f t(1)] by blast+
  then show ?thesis using wf_fdsD(5)[OF f, of v t] t(2) by auto
qed

lemma chan_found:
  assumes wf: "wf {} s" and t: "t \<in> set (all_tasks s)" "state (task_mem s t) = MT_TASK_WAITING_CHAN"
  shows "\<exists>c \<in> set (channels s). t \<in> set (send_q (chan_mem s c)) \<or> t \<in> set (recv_q (chan_mem s c))"
proof -
  obtain c where c: "chan_wait_ch (task_mem s t) = Some c" "chan_wait_kind (task_mem s t) \<noteq> MT_CHAN_WAIT_NONE"
    using wfD(10)[OF wf] t by (auto simp: wf_live_def live_all parked_ok_def)
  then have q: "t \<in> set (send_q (chan_mem s c)) \<or> t \<in> set (recv_q (chan_mem s c))"
    using wfD(3,4)[OF wf] t by (cases "chan_wait_kind (task_mem s t)")
      (simp_all add: wf_send_def wf_recv_def live_all waits_send_def waits_recv_def)
  moreover from q have "c \<in> set (channels s)" using wfD(5)[OF wf] unfolding wf_chans_def by fastforce
  ultimately show ?thesis by blast
qed

lemma join_found:
  assumes wf: "wf {} s" and t: "t \<in> set (all_tasks s)" "state (task_mem s t) = MT_TASK_WAITING_JOIN"
  shows "\<exists>h \<in> set (handles s). t \<in> set (join_q (handle_mem s h)) \<and> \<not> completed (handle_mem s h)"
proof -
  obtain h where "join_waiting_on (task_mem s t) = Some h"
    using wfD(10)[OF wf] t by (auto simp: wf_live_def live_all parked_ok_def)
  then have q: "t \<in> set (join_q (handle_mem s h))"
    using wfD(6)[OF wf] t by (simp add: wf_joins_def live_all waits_join_def)
  moreover from q have "h \<in> set (handles s)" "\<not> completed (handle_mem s h)"
    using wf_handlesD(4)[OF wfD(9)[OF wf], of h] by (cases "join_q (handle_mem s h)"; auto)+
  ultimately show ?thesis by blast
qed

text \<open>The waiters of the descriptors that are still armed correspond to the waiting tasks.\<close>

lemma fd_count_tasks:
  assumes "wf {} s"
  shows "fd_waiting_count s = length (filter (\<lambda>t. state (task_mem s t) = MT_TASK_WAITING_FD) (all_tasks s))"
proof -
  note f = wfD(8)[OF assms] and l = wfD(10)[OF assms]
  let ?W = "{w \<in> set (fd_waiters s). mt_fd_waiter_is_active (fw_mem s w)}"
  let ?T = "{t \<in> set (all_tasks s). state (task_mem s t) = MT_TASK_WAITING_FD}"
  let ?task = "\<lambda>w. the (fw_task (fw_mem s w))"
  have w: "\<exists>t. fw_task (fw_mem s w) = Some t \<and> t \<in> ?T \<and> fd_waiter (task_mem s t) = Some w" if "w \<in> ?W" for w
    using that wf_fdsD(3,5)[OF f, of w] by fastforce
  have t: "\<exists>w \<in> ?W. fw_task (fw_mem s w) = Some t" if "t \<in> ?T" for t
    using fd_found[OF assms] that by blast
  have inj: "inj_on ?task ?W" by (rule inj_onI) (metis w option.sel option.inject)
  have im: "?task ` ?W = ?T"
  proof (intro set_eqI iffI)
    fix u assume "u \<in> ?T"
    then obtain v where "v \<in> ?W" "fw_task (fw_mem s v) = Some u" using t by blast
    then show "u \<in> ?task ` ?W" by (intro image_eqI[of _ _ v]) simp_all
  next
    fix u assume "u \<in> ?task ` ?W"
    then obtain v where "v \<in> ?W" "u = ?task v" by blast
    then show "u \<in> ?T" using w[of v] by auto
  qed
  have "card ?W = card ?T" using card_image[OF inj] unfolding im by simp
  moreover have "card ?W = fd_waiting_count s"
    using distinct_card[OF distinct_filter[OF wf_fdsD(1)[OF f]]] wf_fdsD(2)[OF f] by simp
  moreover have "distinct (all_tasks s)" using l by (simp add: wf_live_def)
  then have "card ?T = length (filter (\<lambda>t. state (task_mem s t) = MT_TASK_WAITING_FD) (all_tasks s))"
    using distinct_card[OF distinct_filter[of "all_tasks s"]] by simp
  ultimately show ?thesis by simp
qed

text \<open>Where a task that waits in a select is found again.\<close>

lemma select_found:
  assumes wf: "wf {} s" and t: "t \<in> set (all_tasks s)" "state (task_mem s t) = MT_TASK_WAITING_SELECT"
  shows "t \<in> set (items (timers s)) \<or> (\<exists>w c. c \<in> set (channels s) \<and> sw_task (sw_mem s w) = Some t \<and>
    (w \<in> set (select_send_q (chan_mem s c)) \<or> w \<in> set (select_recv_q (chan_mem s c))))"
proof (cases "select_in_timer (task_mem s t)")
  case True
  then show ?thesis using wfD(2)[OF wf] t by (simp add: wf_timers_def timed_def live_def)
next
  case False
  note sel = wfD(7)[OF wf]
  have "select_waiters (task_mem s t) \<noteq> []"
    using wfD(10)[OF wf] t False by (auto simp: wf_live_def live_def parked_ok_def)
  then obtain w where w: "w \<in> set (select_waiters (task_mem s t))" by (cases "select_waiters (task_mem s t)") auto
  have a: "sw_active (sw_mem s w)" "sw_task (sw_mem s w) = Some t"
    using sel t(1) w unfolding wf_select_def by blast+
  obtain c where c: "sw_ch (sw_mem s w) = Some c" "w \<in> set (select_send_q (chan_mem s c)) \<or>
      w \<in> set (select_recv_q (chan_mem s c))"
    using wf_selectD(1)[OF sel] a(1) unfolding select_ok_def select_chan_ok_def linked_send_def linked_recv_def
    by blast
  have "c \<in> set (channels s)" using wfD(5)[OF wf] c(2) unfolding wf_chans_def by fastforce
  then show ?thesis using a(2) c(2) by blast
qed

text \<open>When nothing is ready, timed, waiting for a descriptor or running, everybody waits for somebody else.\<close>

lemma nobody_left:
  assumes r: "rt_reachable s" and q: "runq s = []" and z: "fd_waiting_count s = 0" "mt_timer_peek s = None" "running_tasks s = 0"
    and t: "t \<in> set (all_tasks s)"
  shows "\<not> timed (task_mem s t) \<and>
    state (task_mem s t) \<in> {MT_TASK_WAITING_CHAN, MT_TASK_WAITING_SELECT, MT_TASK_WAITING_JOIN}"
proof -
  note wf = reachable_wf[OF r]
  have "items (timers s) = []" using z(2) by (auto simp: peek_eq split: list.splits)
  then have nt: "\<not> timed (task_mem s t)" using wfD(2)[OF wf] t by (simp add: wf_timers_def live_all)
  have "state (task_mem s t) \<noteq> MT_TASK_READY" using wfD(1)[OF wf] q t by (simp add: wf_runq_def live_all)
  moreover have "state (task_mem s t) \<noteq> MT_TASK_WAITING_FD"
    using fd_count_tasks[OF wf] z(1) t by (simp add: filter_empty_conv)
  moreover have "state (task_mem s t) \<noteq> MT_TASK_RUNNING"
    using reachable_running[OF r] z(3) t by auto
  moreover have "state (task_mem s t) \<noteq> MT_TASK_DEAD"
    using wfD(10)[OF wf] t by (simp add: wf_live_def live_all)
  ultimately show ?thesis using nt by (cases "state (task_mem s t)") (simp_all add: timed_def)
qed

section \<open>A sample run\<close>

text \<open>One task, started, then parked for good: it receives from a channel nobody sends to.\<close>

definition good_create :: "tptr \<Rightarrow> hptr option \<Rightarrow> create_env" where
  "good_create t h = \<lparr>alloc_handle = h, alloc_task = Some t, sys_page = 16, alloc_stack = Some 0,
     guard_ok = True, make_ctx_ok = True\<rparr>"

definition with_channel :: mt_state where
  "with_channel = snd (mt_chan_create 1 0 good_env (Some 7) True (\<lambda>_. 0) zero_state)"

definition one_task :: mt_state where
  "one_task = snd (mt_go (Some 0) 0 good_env (good_create 3 None) with_channel)"

definition started :: mt_state where
  "started = snd (mt_run_begin None 1 good_env one_task)"

definition dispatched :: mt_state where
  "dispatched = snd (mt_worker_iter True 0 [] True 0 started)"

definition stuck :: mt_state where
  "stuck = switched True (Some 3) (snd (mt_chan_recv (Some 3) (Some 7) (Some 10) dispatched))"

definition with_ring :: mt_state where
  "with_ring = snd (mt_chan_create 1 2 good_env (Some 7) True (\<lambda>_. 0) zero_state)"

lemma reach_start: "rt_reachable s \<Longrightarrow> start_step s s' \<Longrightarrow> rt_reachable s'"
  by (blast intro: reachable_step rt_step.start)

lemma one_task_reachable: "rt_reachable one_task"
proof -
  have "rt_reachable zero_state" by (simp add: reachable_start)
  moreover have "start_step zero_state with_channel"
    by (rule start_step.chan_create[where new_ch = "Some 7"])
      (auto simp: zero_state_def with_channel_def intro: prod.collapse[symmetric])
  ultimately have "rt_reachable with_channel" by (rule reach_start)
  moreover have "fresh_objects (good_create 3 None) with_channel" by code_simp
  then have "start_step with_channel one_task"
    by (rule start_step.go) (simp add: one_task_def prod_eq_iff)
  ultimately show ?thesis by (rule reach_start)
qed

lemma dispatched_reachable: "rt_reachable dispatched"
proof -
  have "start_step one_task started" by (rule start_step.run_begin) (simp add: started_def prod_eq_iff)
  with one_task_reachable have "rt_reachable started" by (rule reach_start)
  moreover have "initialized started" by code_simp
  moreover have "worker_step started dispatched"
    by (rule worker_step.worker_iter) (simp add: dispatched_def prod_eq_iff)
  ultimately show ?thesis by (blast intro: reachable_step rt_step.worker)
qed

lemma stuck_reachable: "rt_reachable stuck"
proof -
  obtain out s' where r: "mt_chan_recv (Some 3) (Some 7) (Some 10) dispatched = (out, s')" by fastforce
  have "fst (mt_chan_recv (Some 3) (Some 7) (Some 10) dispatched) = Park" by code_simp
  then have out: "out = Park" by (simp add: r)
  have "caller dispatched (Some 3)" by code_simp
  moreover have "7 \<in> set (channels dispatched)" by code_simp
  ultimately have "call_step dispatched (switched (out = Park) (Some 3) s')"
    using r by (rule call_step.recv)
  then have "call_step dispatched stuck" by (simp add: stuck_def r out)
  moreover have "initialized dispatched" by code_simp
  ultimately show ?thesis using dispatched_reachable by (blast intro: reachable_step rt_step.call)
qed

section \<open>Properties\<close>

text \<open>
  C4: In every reachable state, whatever the schedule, a registered task is in exactly the queues its
  state calls for: in the run queue iff it is ready, in the timer heap iff it sleeps or waits with a
  timeout, in the send (receive, join) queue of a channel (handle) iff it waits to send to
  (receive from, join) just that one.
\<close>

theorem reachable_tasks_placed:
  assumes "rt_reachable s" and "t \<in> set (all_tasks s)"
  shows "(t \<in> set (runq s) \<longleftrightarrow> state (task_mem s t) = MT_TASK_READY) \<and>
    (t \<in> set (items (timers s)) \<longleftrightarrow> timed (task_mem s t)) \<and>
    (\<forall>c. t \<in> set (send_q (chan_mem s c)) \<longleftrightarrow> waits_send c (task_mem s t)) \<and>
    (\<forall>c. t \<in> set (recv_q (chan_mem s c)) \<longleftrightarrow> waits_recv c (task_mem s t)) \<and>
    (\<forall>h. t \<in> set (join_q (handle_mem s h)) \<longleftrightarrow> waits_join h (task_mem s t))"
  using wfD(1-4,6)[OF reachable_wf[OF assms(1)]] assms(2)
  by (simp add: wf_runq_def wf_timers_def wf_send_def wf_recv_def wf_joins_def live_all)

theorem reachable_tasks_placed_witness:
  "3 \<in> set (all_tasks stuck) \<and> 3 \<notin> set (runq stuck) \<and> 3 \<in> set (recv_q (chan_mem stuck 7))"
proof -
  have t: "3 \<in> set (all_tasks stuck)" by code_simp
  have "waits_recv 7 (task_mem stuck 3)" "state (task_mem stuck 3) \<noteq> MT_TASK_READY" by code_simp+
  then show ?thesis using reachable_tasks_placed[OF stuck_reachable t] t by simp
qed

text \<open>
  C1: No task is lost: in every reachable state a registered task is running, ready and in the run
  queue, or parked where an event finds it: in the timer heap, in the queue of a registered channel,
  in the queue of a registered handle that has not completed, with a registration in the select queue
  of a registered channel, or with an armed descriptor waiter. No dead task stays registered.
\<close>

theorem reachable_no_lost_task:
  assumes "rt_reachable s" and "t \<in> set (all_tasks s)"
  shows "case state (task_mem s t) of
      MT_TASK_READY \<Rightarrow> t \<in> set (runq s)
    | MT_TASK_RUNNING \<Rightarrow> True
    | MT_TASK_SLEEPING \<Rightarrow> t \<in> set (items (timers s))
    | MT_TASK_WAITING_CHAN \<Rightarrow> (\<exists>c \<in> set (channels s).
        t \<in> set (send_q (chan_mem s c)) \<or> t \<in> set (recv_q (chan_mem s c)))
    | MT_TASK_WAITING_SELECT \<Rightarrow> t \<in> set (items (timers s)) \<or>
        (\<exists>w c. c \<in> set (channels s) \<and> sw_task (sw_mem s w) = Some t \<and>
          (w \<in> set (select_send_q (chan_mem s c)) \<or> w \<in> set (select_recv_q (chan_mem s c))))
    | MT_TASK_WAITING_FD \<Rightarrow> (\<exists>w \<in> set (fd_waiters s). fw_task (fw_mem s w) = Some t \<and>
        mt_fd_waiter_is_active (fw_mem s w))
    | MT_TASK_WAITING_JOIN \<Rightarrow> (\<exists>h \<in> set (handles s). t \<in> set (join_q (handle_mem s h)) \<and>
        \<not> completed (handle_mem s h))
    | MT_TASK_DEAD \<Rightarrow> False"
proof -
  note wf = reachable_wf[OF assms(1)]
  note w = wfD(1,2,10)[OF wf]
  have "state (task_mem s t) \<noteq> MT_TASK_DEAD" using w(3) assms(2) by (simp add: wf_live_def live_all)
  then show ?thesis
    using w(1,2) assms(2) chan_found[OF wf assms(2)] join_found[OF wf assms(2)]
      select_found[OF wf assms(2)] fd_found[OF wf assms(2)]
    by (cases "state (task_mem s t)") (simp_all add: wf_runq_def wf_timers_def timed_def live_all)
qed

theorem reachable_no_lost_task_witness:
  "state (task_mem stuck 3) = MT_TASK_WAITING_CHAN \<and> (\<exists>c \<in> set (channels stuck).
     3 \<in> set (send_q (chan_mem stuck c)) \<or> 3 \<in> set (recv_q (chan_mem stuck c)))"
proof -
  have t: "3 \<in> set (all_tasks stuck)" by code_simp
  have "state (task_mem stuck 3) = MT_TASK_WAITING_CHAN" by code_simp
  then show ?thesis using reachable_no_lost_task[OF stuck_reachable t] by simp
qed



text \<open>
  C8: In every reachable state the copies into and out of the buffer of any channel stay within the
  allocation: the ring never holds more than its capacity, the slot a receive reads lies inside the
  buffer whenever there is something to read, and so does the slot a send writes whenever there is room.
\<close>

theorem reachable_buffers_safe:
  assumes "rt_reachable s"
  shows "ch_len (chan_mem s c) \<le> capacity (chan_mem s c) \<and>
    (0 < ch_len (chan_mem s c) \<longrightarrow> ch_head (chan_mem s c) * elem_size (chan_mem s c) + elem_size (chan_mem s c)
       \<le> length (ch_buffer (chan_mem s c))) \<and>
    (ch_len (chan_mem s c) < capacity (chan_mem s c) \<longrightarrow>
       ch_tail (chan_mem s c) * elem_size (chan_mem s c) + elem_size (chan_mem s c) \<le> length (ch_buffer (chan_mem s c)))"
proof -
  have "ring_safe (chan_mem s c)" using rings.reachable_inv[OF assms] by (simp add: rings_ok_def)
  then show ?thesis
    using slot_bound[of "ch_head (chan_mem s c)" "capacity (chan_mem s c)" "elem_size (chan_mem s c)"]
      slot_bound[of "ch_tail (chan_mem s c)" "capacity (chan_mem s c)" "elem_size (chan_mem s c)"]
    by (auto simp: ring_safe_def ring_ok_def)
qed

theorem reachable_buffers_safe_witness:
  "capacity (chan_mem with_ring 7) = 2 \<and> ch_tail (chan_mem with_ring 7) * 1 + 1 \<le> length (ch_buffer (chan_mem with_ring 7))"
proof -
  have "start_step zero_state with_ring"
    by (rule start_step.chan_create[where new_ch = "Some 7"])
      (auto simp: zero_state_def with_ring_def intro: prod.collapse[symmetric])
  then have r: "rt_reachable with_ring" by (intro reach_start[OF reachable_start]) simp_all
  have "fst (ensure_init good_env zero_state)" by code_simp
  then have "capacity (chan_mem with_ring 7) = 2" "ch_len (chan_mem with_ring 7) = 0" "elem_size (chan_mem with_ring 7) = 1"
    by (cases "ensure_init good_env zero_state"; simp add: with_ring_def mt_chan_create_def mt_chan_register_def zero_chan_def)+
  then show ?thesis using reachable_buffers_safe[OF r, of 7] by simp
qed

text \<open>
  C5: The deadlock verdict is sound: when an idle worker that may sleep for timers gives up with
  \<open>MT_ERR_STATE\<close>, no registered task is ready, running on any worker, sleeping, waiting for a descriptor
  or waiting with a timeout. Every one waits for a channel, a select without timeout or a join.
\<close>

theorem deadlock_verdict_sound:
  assumes "rt_reachable s" and "\<not> stopping s" and "runq s = []"
    and "mt_worker_idle True now s = (Exit, s')" and "run_result s' = MT_ERR_STATE" and "run_result s \<noteq> MT_ERR_STATE"
    and "t \<in> set (all_tasks s)"
  shows "running_tasks s = 0 \<and> \<not> timed (task_mem s t) \<and> state (task_mem s t) \<in>
    {MT_TASK_WAITING_CHAN, MT_TASK_WAITING_SELECT, MT_TASK_WAITING_JOIN}"
proof -
  have "fd_waiting_count s = 0" "mt_timer_peek s = None" "running_tasks s = 0"
    using assms(2,4-6) by (auto simp: mt_worker_idle_def split: if_splits option.splits)
  then show ?thesis using nobody_left[OF assms(1,3) _ _ _ assms(7)] by blast
qed

theorem deadlock_verdict_sound_witness:
  "run_result (snd (mt_worker_idle True 0 stuck)) = MT_ERR_STATE \<and> \<not> timed (task_mem stuck 3)"
proof -
  have a: "fst (mt_worker_idle True 0 stuck) = Exit" "run_result (snd (mt_worker_idle True 0 stuck)) = MT_ERR_STATE"
    by code_simp+
  have b: "\<not> stopping stuck" "runq stuck = []" "run_result stuck \<noteq> MT_ERR_STATE" "3 \<in> set (all_tasks stuck)"
    by code_simp+
  have "mt_worker_idle True 0 stuck = (Exit, snd (mt_worker_idle True 0 stuck))" using a(1) by (simp add: prod_eq_iff)
  then show ?thesis using deadlock_verdict_sound[OF stuck_reachable b(1,2) _ a(2) b(3,4)] a(2) by simp
qed

end
