(* ===== verification/Channel_Theorems.thy ===== *)
theory Channel_Theorems
  imports Reachable
begin

text \<open>
  What the channel operations promise their callers: a channel nobody waits on is a bounded queue of
  byte strings, a waiting peer is served first, and closing a channel wakes everybody.
\<close>

section \<open>The abstract channel\<close>

text \<open>The values in order, with what \<^verbatim>\<open>mt_chan_try_send\<close> and \<^verbatim>\<open>mt_chan_try_recv\<close> report.\<close>

definition spec_try_send :: "bool \<Rightarrow> nat \<Rightarrow> byte list list \<Rightarrow> byte list \<Rightarrow> mt_rc \<times> byte list list" where
  "spec_try_send closed n q x =
     (if closed then (MT_ERR_CLOSED, q) else if length q < n then (MT_OK, q @ [x])
      else (MT_ERR_WOULD_BLOCK, q))"

fun spec_try_recv :: "bool \<Rightarrow> byte list list \<Rightarrow> mt_rc \<times> byte list option \<times> byte list list" where
  "spec_try_recv closed (x # q) = (MT_OK, Some x, q)"
| "spec_try_recv closed [] = (if closed then MT_ERR_CLOSED else MT_ERR_WOULD_BLOCK, None, [])"

section \<open>Helper facts\<close>

lemma ring_content_part: "ring_part a = ring_part b \<Longrightarrow> ring_content a = ring_content b"
  by (simp add: ring_part_def ring_content_def slot_def)

lemma ring_ok_part: "ring_part a = ring_part b \<Longrightarrow> ring_ok a = ring_ok b"
  by (simp add: ring_part_def ring_ok_def)

lemma ring_content_empty: "ring_content ch = [] \<longleftrightarrow> ch_len ch = 0"
  by (simp add: ring_content_def)

lemma send_now_plain:
  assumes "recv_q (chan_mem s c) = []" and "select_recv_q (chan_mem s c) = []"
  shows "send_now c v s =
     (if ch_closed (chan_mem s c) then (Some MT_ERR_CLOSED, s)
      else if capacity (chan_mem s c) > 0 \<and> ch_len (chan_mem s c) < capacity (chan_mem s c)
      then (Some MT_OK, buffer_push c (value_at c v s) s) else (None, s))"
  using assms by (simp add: send_now_def pop_Nil_eq)

lemma fill_plain:
  "send_q (chan_mem s c) = [] \<Longrightarrow> select_send_q (chan_mem s c) = [] \<Longrightarrow>
    mt_chan_fill_buffer_from_waiting_sender c s = s"
  by (simp add: mt_chan_fill_buffer_from_waiting_sender_def pop_Nil_eq)

lemma buffer_pop_fields [simp]:
  "chan_mem (buffer_pop c v s) c = snd (mt_chan_buffer_pop (chan_mem s c))"
  "user_mem (buffer_pop c v s) = write_mem (the v) (fst (mt_chan_buffer_pop (chan_mem s c))) (user_mem s)"
  "task_mem (buffer_pop c v s) = task_mem s"
  by (simp_all add: buffer_pop_eq store_at_def)

lemma pop_queues [simp]:
  "send_q (snd (mt_chan_buffer_pop ch)) = send_q ch"
  "select_send_q (snd (mt_chan_buffer_pop ch)) = select_send_q ch"
  "ch_closed (snd (mt_chan_buffer_pop ch)) = ch_closed ch" "capacity (snd (mt_chan_buffer_pop ch)) = capacity ch"
  "elem_size (snd (mt_chan_buffer_pop ch)) = elem_size ch" "ch_len (snd (mt_chan_buffer_pop ch)) = ch_len ch - 1"
  "send_waiters (snd (mt_chan_buffer_pop ch)) = send_waiters ch"
  by (simp_all add: mt_chan_buffer_pop_def)

lemma recv_now_plain:
  assumes "send_q (chan_mem s c) = []" and "select_send_q (chan_mem s c) = []"
  shows "recv_now c v s =
     (if ch_len (chan_mem s c) > 0 then (Some MT_OK, buffer_pop c v s)
      else if ch_closed (chan_mem s c) then (Some MT_ERR_CLOSED, s) else (None, s))"
  using assms by (simp add: recv_now_def pop_Nil_eq fill_plain)

lemma length_popped:
  assumes "ring_ok ch" and "0 < ch_len ch"
  shows "length (fst (mt_chan_buffer_pop ch)) = elem_size ch"
proof -
  have "ch_head ch * elem_size ch + elem_size ch \<le> length (ch_buffer ch)"
    using assms slot_bound[of "ch_head ch" "capacity ch" "elem_size ch"] by (auto simp: ring_ok_def)
  then show ?thesis by (simp add: mt_chan_buffer_pop_def copy_out_def)
qed

text \<open>Waking a task with a result.\<close>

lemma ready_waiter_task:
  "task_mem (mt_chan_ready_waiter t r s) = (task_mem s)(t := (task_mem s t)\<lparr>chan_result := r,
     chan_wait_kind := MT_CHAN_WAIT_NONE, chan_wait_ch := None, chan_value := None, state := MT_TASK_READY\<rparr>)"
  "user_mem (mt_chan_ready_waiter t r s) = user_mem s"
  "runq (mt_chan_ready_waiter t r s) = runq s @ [t]"
  by (simp_all add: mt_chan_ready_waiter_def mt_task_complete_channel_wait_def mark_ready_eq
      dec_channel_waiting_eq Let_def)

section \<open>Properties\<close>

text \<open>
  C9: The ring buffer refines a plain queue: for every sequence of pushes and pops that a queue of the
  channel's capacity allows, starting from any consistent ring, the ring returns the same values in
  the same order and ends with the same content.
\<close>

theorem ring_refines_queue:
  assumes "ring_ok ch"
    and "ring.spec_run (\<lambda>bs. length bs = elem_size ch) (capacity ch) ops (ring_content ch) = Some (vs, q)"
  shows "\<exists>ch'. ring.run ops ch = (vs, ch') \<and> ring_ok ch' \<and> ring_content ch' = q"
  using ring.run_refines[OF assms] .

definition small_ring :: mt_chan where
  "small_ring = zero_chan\<lparr>elem_size := 1, capacity := 2, ch_buffer := [0, 0]\<rparr>"

theorem ring_refines_queue_witness:
  "fst (ring.run [Some [1], Some [2], None, Some [3], None] small_ring) = [[1], [2]]"
proof -
  have ok: "ring_ok small_ring" by (simp add: small_ring_def ring_ok_def zero_chan_def)
  have "ring.spec_run (\<lambda>bs. length bs = elem_size small_ring) (capacity small_ring)
      [Some [1], Some [2], None, Some [3], None] (ring_content small_ring) = Some ([[1], [2]], [[3]])"
    by (simp add: small_ring_def ring_content_def zero_chan_def)
  from ring_refines_queue[OF ok this] show ?thesis by auto
qed

text \<open>
  C10: While nobody waits on a channel, \<^verbatim>\<open>mt_chan_try_send\<close> implements the abstract channel on every
  branch: closed, room left, and full. The bytes queued are those the pointer designates, and the
  ring stays consistent.
\<close>

theorem try_send_refines:
  assumes "ring_ok (chan_mem s c)" and "recv_q (chan_mem s c) = []" and "select_recv_q (chan_mem s c) = []"
  shows "case mt_chan_try_send (Some c) (Some v) s of (rc, s') \<Rightarrow>
    (rc, ring_content (chan_mem s' c)) = spec_try_send (ch_closed (chan_mem s c)) (capacity (chan_mem s c))
      (ring_content (chan_mem s c)) (read_mem (user_mem s) v (elem_size (chan_mem s c))) \<and>
    ring_ok (chan_mem s' c)"
  using assms push_content[of "chan_mem s c" "value_at c (Some v) s"]
    push_ring_ok[of "chan_mem s c" "value_at c (Some v) s"]
  by (auto simp: mt_chan_try_send_def send_now_plain spec_try_send_def buffer_push_def value_at_def)

text \<open>A state with one small channel.\<close>

definition ring_state :: mt_state where
  "ring_state = zero_state\<lparr>chan_mem := (\<lambda>_. small_ring), user_mem := (\<lambda>a. word_of_nat a)\<rparr>"

lemma ring_state_ok:
  "ring_ok (chan_mem ring_state c)" "recv_q (chan_mem ring_state c) = []" "select_recv_q (chan_mem ring_state c) = []"
  "send_q (chan_mem ring_state c) = []" "select_send_q (chan_mem ring_state c) = []" "ch_closed (chan_mem ring_state c) = False"
  "capacity (chan_mem ring_state c) = 2" "elem_size (chan_mem ring_state c) = 1" "ring_content (chan_mem ring_state c) = []"
  "read_mem (user_mem ring_state) v (Suc 0) = [word_of_nat v]"
  by (simp_all add: ring_state_def small_ring_def ring_ok_def zero_chan_def ring_content_def read_mem_def zero_state_def)

theorem try_send_refines_witness:
  "fst (mt_chan_try_send (Some 7) (Some 9) ring_state) = MT_OK \<and>
   ring_content (chan_mem (snd (mt_chan_try_send (Some 7) (Some 9) ring_state)) 7) = [[9]]"
  using try_send_refines[OF ring_state_ok(1-3), where c = 7 and v = 9]
  by (simp add: ring_state_ok spec_try_send_def split: prod.splits)

text \<open>
  C11: While nobody waits on a channel, \<^verbatim>\<open>mt_chan_try_recv\<close> implements the abstract channel on every
  branch; the oldest value is copied to the pointer. A closed channel is drained before it reports
  \<open>MT_ERR_CLOSED\<close>.
\<close>

theorem try_recv_refines:
  assumes "ring_ok (chan_mem s c)" and "send_q (chan_mem s c) = []" and "select_send_q (chan_mem s c) = []"
  shows "case mt_chan_try_recv (Some c) (Some v) s of (rc, s') \<Rightarrow>
    (rc, if rc = MT_OK then Some (read_mem (user_mem s') v (elem_size (chan_mem s c))) else None,
     ring_content (chan_mem s' c)) = spec_try_recv (ch_closed (chan_mem s c)) (ring_content (chan_mem s c)) \<and>
    ring_ok (chan_mem s' c)"
proof (cases "ch_len (chan_mem s c) > 0")
  case True
  then show ?thesis
    using assms pop_content[OF assms(1) True] pop_ring_ok[OF assms(1) True] length_popped[OF assms(1) True]
    by (simp add: mt_chan_try_recv_def recv_now_plain)
next
  case False
  then have "ring_content (chan_mem s c) = []" by (simp add: ring_content_empty)
  then show ?thesis using assms False by (simp add: mt_chan_try_recv_def recv_now_plain)
qed

theorem try_recv_refines_witness:
  "fst (mt_chan_try_recv (Some 7) (Some 9) ring_state) = MT_ERR_WOULD_BLOCK"
  using try_recv_refines[OF ring_state_ok(1,4,5), where c = 7 and v = 9] by (simp add: ring_state_ok split: prod.splits)

text \<open>
  C12: A waiting receiver is served directly: a send to an open channel with receivers waiting gives
  the bytes to the one that has waited longest, makes it ready with \<open>MT_OK\<close> at the end of the run
  queue, returns \<open>MT_OK\<close> without parking the sender, and leaves the ring alone.
\<close>

theorem send_hands_over:
  assumes "\<not> ch_closed (chan_mem s c)" and "recv_q (chan_mem s c) = t # ts" and "chan_value (task_mem s t) = Some p"
    and "mt_chan_send cur (Some c) (Some v) s = (out, s')"
  shows "out = Return MT_OK \<and> recv_q (chan_mem s' c) = ts \<and> runq s' = runq s @ [t] \<and>
    state (task_mem s' t) = MT_TASK_READY \<and> chan_result (task_mem s' t) = MT_OK \<and>
    read_mem (user_mem s') p (elem_size (chan_mem s c)) = read_mem (user_mem s) v (elem_size (chan_mem s c)) \<and>
    ring_content (chan_mem s' c) = ring_content (chan_mem s c)"
proof -
  let ?s1 = "upd_chan c (\<lambda>ch. ch\<lparr>recv_q := ts, recv_waiters := recv_waiters (chan_mem s c) - 1\<rparr>) s"
  have pop: "chan_recv_pop c s = (Some t, ?s1)" using assms(2) by (simp add: chan_recv_pop_def)
  have "ring_content (chan_mem ?s1 c) = ring_content (chan_mem s c)"
    by (rule ring_content_part) (simp add: ring_part_def)
  then show ?thesis
    using assms pop by (auto simp: mt_chan_send_def send_now_def ready_waiter_task store_at_def value_at_def)
qed

definition waiting_state :: mt_state where
  "waiting_state = ring_state\<lparr>chan_mem := (\<lambda>_. small_ring\<lparr>recv_q := [3], recv_waiters := 1\<rparr>),
     task_mem := (\<lambda>_. zero_task\<lparr>state := MT_TASK_WAITING_CHAN, chan_wait_ch := Some 7,
       chan_wait_kind := MT_CHAN_WAIT_RECV, chan_value := Some 20\<rparr>)\<rparr>"

theorem send_hands_over_witness:
  "fst (mt_chan_send None (Some 7) (Some 9) waiting_state) = Return MT_OK \<and>
   read_mem (user_mem (snd (mt_chan_send None (Some 7) (Some 9) waiting_state))) 20 1 = [9]"
proof -
  have w: "\<not> ch_closed (chan_mem waiting_state 7)" "recv_q (chan_mem waiting_state 7) = [3]"
    "chan_value (task_mem waiting_state 3) = Some 20" "elem_size (chan_mem waiting_state 7) = 1"
    "user_mem waiting_state = user_mem ring_state"
    by (simp_all add: waiting_state_def small_ring_def zero_chan_def)
  show ?thesis
    using send_hands_over[OF w(1-3) prod.collapse[symmetric], of None 9] by (simp add: w ring_state_ok)
qed

section \<open>Closing\<close>

text \<open>A task that a closing channel has released; later wake-ups of the same call do not undo it.\<close>

definition released_closed :: "tptr \<Rightarrow> mt_state \<Rightarrow> bool" where
  "released_closed t s \<longleftrightarrow> state (task_mem s t) = MT_TASK_READY \<and> chan_result (task_mem s t) = MT_ERR_CLOSED"

lemma released_by_ready: "released_closed t (mt_chan_ready_waiter t MT_ERR_CLOSED s)"
  by (simp add: released_closed_def ready_waiter_task)

lemma released_ready: "released_closed t s \<Longrightarrow> released_closed t (mt_chan_ready_waiter u MT_ERR_CLOSED s)"
  by (simp add: released_closed_def ready_waiter_task)

lemma free_waiters_task_mem [simp]: "task_mem (free_waiters ws s) = task_mem s"
  using free_waiters_shape[of ws s] by auto

lemma complete_select_wait_fields:
  "state (task_mem (mt_task_complete_select_wait u s) t) = state (task_mem s t)"
  "chan_result (task_mem (mt_task_complete_select_wait u s) t) = chan_result (task_mem s t)"
  by (simp_all add: mt_task_complete_select_wait_def dec_channel_waiting_def)

lemma released_complete: "released_closed t s \<Longrightarrow> released_closed t (mt_select_complete_waiter w r s)"
  by (simp add: released_closed_def mt_select_complete_waiter_def mt_select_unpark_task_def Let_def mark_ready_eq
      complete_select_wait_fields mt_select_free_task_waiters_def timer_remove_eq split: option.split)

lemma pops_task_mem:
  "chan_send_pop c s = (p, s1) \<Longrightarrow> task_mem s1 = task_mem s" "chan_recv_pop c s = (p, s1) \<Longrightarrow> task_mem s1 = task_mem s"
  "select_send_pop c s = (q, s1) \<Longrightarrow> task_mem s1 = task_mem s" "select_recv_pop c s = (q, s1) \<Longrightarrow> task_mem s1 = task_mem s"
  by (auto simp: chan_send_pop_def chan_recv_pop_def select_send_pop_def select_recv_pop_def Let_def split: prod.splits)

lemma released_cong: "task_mem s' = task_mem s \<Longrightarrow> released_closed t s' = released_closed t s"
  by (simp add: released_closed_def)

lemma released_senders:
  "released_closed t s \<or> t \<in> set (send_q (chan_mem s c)) \<Longrightarrow> released_closed t (wake_closed_senders c s)"
proof (induction c s rule: wake_closed_senders.induct)
  case (1 c s)
  show ?case
  proof (cases "send_q (chan_mem s c)")
    case Nil
    then show ?thesis using 1(2) by (subst wake_closed_senders.simps) (simp add: pop_Nil_eq)
  next
    case (Cons u q)
    then obtain s1 where pop: "chan_send_pop c s = (Some u, s1)" by (simp add: chan_send_pop_def)
    have q: "send_q (chan_mem s1 c) = q" using pop Cons by (auto simp: chan_send_pop_def)
    have "released_closed t (mt_chan_ready_waiter u MT_ERR_CLOSED s1) \<or>
        t \<in> set (send_q (chan_mem (mt_chan_ready_waiter u MT_ERR_CLOSED s1) c))"
      using 1(2) Cons q released_cong[OF pops_task_mem(1)[OF pop]] released_by_ready released_ready by auto
    from 1(1)[OF pop[symmetric] refl this] show ?thesis using pop by (subst wake_closed_senders.simps) simp
  qed
qed

lemma released_receivers:
  "released_closed t s \<or> t \<in> set (recv_q (chan_mem s c)) \<Longrightarrow> released_closed t (wake_closed_receivers c s)"
proof (induction c s rule: wake_closed_receivers.induct)
  case (1 c s)
  show ?case
  proof (cases "recv_q (chan_mem s c)")
    case Nil
    then show ?thesis using 1(2) by (subst wake_closed_receivers.simps) (simp add: pop_Nil_eq)
  next
    case (Cons u q)
    then obtain s1 where pop: "chan_recv_pop c s = (Some u, s1)" by (simp add: chan_recv_pop_def)
    have q: "recv_q (chan_mem s1 c) = q" using pop Cons by (auto simp: chan_recv_pop_def)
    have "released_closed t (mt_chan_ready_waiter u MT_ERR_CLOSED s1) \<or>
        t \<in> set (recv_q (chan_mem (mt_chan_ready_waiter u MT_ERR_CLOSED s1) c))"
      using 1(2) Cons q released_cong[OF pops_task_mem(2)[OF pop]] released_by_ready released_ready by auto
    from 1(1)[OF pop[symmetric] refl this] show ?thesis using pop by (subst wake_closed_receivers.simps) simp
  qed
qed

lemma released_select:
  "released_closed t s \<Longrightarrow> released_closed t (wake_closed_select_senders c s)"
  "released_closed t s \<Longrightarrow> released_closed t (wake_closed_select_receivers c s)"
proof -
  show "released_closed t s \<Longrightarrow> released_closed t (wake_closed_select_senders c s)"
    by (induction c s rule: wake_closed_select_senders.induct, subst wake_closed_select_senders.simps)
      (auto split: prod.split option.split simp: released_cong[OF pops_task_mem(3)] released_complete)
  show "released_closed t s \<Longrightarrow> released_closed t (wake_closed_select_receivers c s)"
    by (induction c s rule: wake_closed_select_receivers.induct, subst wake_closed_select_receivers.simps)
      (auto split: prod.split option.split simp: released_cong[OF pops_task_mem(4)] released_complete)
qed

text \<open>
  C13: Closing a channel leaves nobody behind: all four of its queues are empty afterwards, and every
  task that was blocked in a send or a receive on it is ready with the result \<open>MT_ERR_CLOSED\<close>.
\<close>

theorem close_wakes_everybody:
  assumes "\<not> ch_closed (chan_mem s c)" and "mt_chan_close (Some c) s = (rc, s')"
  shows "rc = MT_OK \<and> send_q (chan_mem s' c) = [] \<and> recv_q (chan_mem s' c) = [] \<and>
    select_send_q (chan_mem s' c) = [] \<and> select_recv_q (chan_mem s' c) = [] \<and>
    (\<forall>t \<in> set (send_q (chan_mem s c)) \<union> set (recv_q (chan_mem s c)).
       state (task_mem s' t) = MT_TASK_READY \<and> chan_result (task_mem s' t) = MT_ERR_CLOSED)"
proof -
  let ?s = "upd_chan c (\<lambda>k. k\<lparr>ch_closed := True\<rparr>) s"
  have s': "rc = MT_OK" "s' = mt_chan_wake_closed_waiters c ?s" using assms by (simp_all add: mt_chan_close_def)
  have "released_closed t s'" if "t \<in> set (send_q (chan_mem s c)) \<union> set (recv_q (chan_mem s c))" for t
    unfolding s'(2) mt_chan_wake_closed_waiters_def
    using that wake_closed_senders_empty[of c ?s]
    by (intro released_select released_receivers) (auto intro: released_senders)
  then show ?thesis using wake_closed_waiters_empty[OF s'(2)] s'(1) by (auto simp: released_closed_def)
qed

theorem close_wakes_everybody_witness:
  "chan_result (task_mem (snd (mt_chan_close (Some 7) waiting_state)) 3) = MT_ERR_CLOSED \<and>
   recv_q (chan_mem (snd (mt_chan_close (Some 7) waiting_state)) 7) = []"
proof -
  have w: "\<not> ch_closed (chan_mem waiting_state 7)" "recv_q (chan_mem waiting_state 7) = [3]"
    by (simp_all add: waiting_state_def small_ring_def zero_chan_def)
  show ?thesis using close_wakes_everybody[OF w(1) prod.collapse[symmetric]] w(2) by simp
qed

section \<open>Creating and destroying\<close>

text \<open>
  C15: A channel that was created has a positive element size and a buffer of exactly element size
  times capacity bytes, a product that does not exceed \<^verbatim>\<open>SIZE_MAX\<close>; it is registered, open, empty and
  has a consistent ring. The runtime is initialised.
\<close>

theorem chan_create_sound:
  assumes "mt_chan_create es n env new_ch buf_ok junk s = (Some c, s')"
  shows "0 < es \<and> es * n \<le> SIZE_MAX \<and> initialized s' \<and> c \<in> set (channels s') \<and> new_ch = Some c \<and>
    ring_ok (chan_mem s' c) \<and> capacity (chan_mem s' c) = n \<and> elem_size (chan_mem s' c) = es \<and>
    length (ch_buffer (chan_mem s' c)) = es * n \<and> ring_content (chan_mem s' c) = [] \<and> \<not> ch_closed (chan_mem s' c)"
proof -
  obtain ok s1 where e: "ensure_init env s = (ok, s1)" by fastforce
  have ok: "ok" "es \<noteq> 0" "n > 0 \<longrightarrow> es \<le> SIZE_MAX div n" "new_ch = Some c"
    and s': "s' = mt_chan_register c (upd_chan c (\<lambda>_. zero_chan\<lparr>elem_size := es, capacity := n,
        ch_buffer := map junk [0 ..< es * n]\<rparr>) s1)"
    using assms e by (auto simp: mt_chan_create_def split: if_splits option.splits)
  have "es * n \<le> SIZE_MAX div n * n" if "n > 0" using ok(3) that by (intro mult_le_mono1) simp
  also have "SIZE_MAX div n * n \<le> SIZE_MAX" by (metis div_times_less_eq_dividend)
  finally have "es * n \<le> SIZE_MAX" by (cases "n = 0") simp_all
  moreover have "initialized s1"
    using e ok(1) by (auto simp: ensure_init_def mt_init_def mt_init_with_options_def Let_def
        split: if_splits prod.splits)
  ultimately show ?thesis
    using ok by (auto simp: s' mt_chan_register_def ring_ok_def zero_chan_def ring_content_def)
qed

theorem chan_create_sound_witness:
  "ring_ok (chan_mem (snd (mt_chan_create 1 2 good_env (Some 7) True (\<lambda>_. 0) zero_state)) 7)"
proof -
  have "fst (ensure_init good_env zero_state)" by code_simp
  then have "fst (mt_chan_create 1 2 good_env (Some 7) True (\<lambda>_. 0) zero_state) = Some 7"
    by (cases "ensure_init good_env zero_state") (simp add: mt_chan_create_def)
  then have "mt_chan_create 1 2 good_env (Some 7) True (\<lambda>_. 0) zero_state =
      (Some 7, snd (mt_chan_create 1 2 good_env (Some 7) True (\<lambda>_. 0) zero_state))" by (simp add: prod_eq_iff)
  from chan_create_sound[OF this] show ?thesis by blast
qed

lemma complete_waiter_channels [simp]: "channels (mt_select_complete_waiter w r s) = channels s"
proof -
  have f: "channels (free_waiters ws q) = channels q" for ws q using free_waiters_shape[of ws q] by auto
  show ?thesis
    by (simp add: mt_select_complete_waiter_def mt_select_unpark_task_def Let_def mark_ready_eq f
        mt_task_complete_select_wait_def dec_channel_waiting_def mt_select_free_task_waiters_def timer_remove_eq
        split: option.split)
qed

lemma pops_channels:
  "chan_send_pop c s = (p, s1) \<Longrightarrow> channels s1 = channels s" "chan_recv_pop c s = (p, s1) \<Longrightarrow> channels s1 = channels s"
  "select_send_pop c s = (q, s1) \<Longrightarrow> channels s1 = channels s" "select_recv_pop c s = (q, s1) \<Longrightarrow> channels s1 = channels s"
  by (auto simp: chan_send_pop_def chan_recv_pop_def select_send_pop_def select_recv_pop_def Let_def split: prod.splits)

lemma ready_waiter_channels [simp]: "channels (mt_chan_ready_waiter t r s) = channels s"
  by (simp add: mt_chan_ready_waiter_def mt_task_complete_channel_wait_def mark_ready_eq dec_channel_waiting_eq Let_def)

lemma wake_closed_channels [simp]: "channels (mt_chan_wake_closed_waiters c s) = channels s"
proof -
  have "channels (wake_closed_senders c s) = channels s" for s
    by (induction c s rule: wake_closed_senders.induct, subst wake_closed_senders.simps)
      (auto split: prod.split option.split dest!: pops_channels)
  moreover have "channels (wake_closed_receivers c s) = channels s" for s
    by (induction c s rule: wake_closed_receivers.induct, subst wake_closed_receivers.simps)
      (auto split: prod.split option.split dest!: pops_channels)
  moreover have "channels (wake_closed_select_senders c s) = channels s" for s
    by (induction c s rule: wake_closed_select_senders.induct, subst wake_closed_select_senders.simps)
      (auto split: prod.split option.split dest!: pops_channels)
  moreover have "channels (wake_closed_select_receivers c s) = channels s" for s
    by (induction c s rule: wake_closed_select_receivers.induct, subst wake_closed_select_receivers.simps)
      (auto split: prod.split option.split dest!: pops_channels)
  ultimately show ?thesis by (simp add: mt_chan_wake_closed_waiters_def)
qed

text \<open>
  C14: Destroying a channel in a reachable state is refused, with no effect, exactly when a task is
  blocked sending to it or receiving from it. Otherwise the channel is unregistered and no task, not
  even one in a select, waits for it any more.
\<close>

theorem chan_destroy_safe:
  assumes "rt_reachable s" and "mt_chan_destroy (Some c) s = (rc, s')"
  shows "if send_q (chan_mem s c) \<noteq> [] \<or> recv_q (chan_mem s c) \<noteq> [] then rc = MT_ERR_STATE \<and> s' = s
    else rc = MT_OK \<and> c \<notin> set (channels s') \<and> (\<forall>w. sw_active (sw_mem s' w) \<longrightarrow> sw_ch (sw_mem s' w) \<noteq> Some c) \<and>
      (\<forall>t \<in> set (all_tasks s'). \<not> waits_send c (task_mem s' t) \<and> \<not> waits_recv c (task_mem s' t))"
proof -
  note w = wfD[OF reachable_wf[OF assms(1)]]
  have n: "send_waiters (chan_mem s c) = length (send_q (chan_mem s c))"
    "recv_waiters (chan_mem s c) = length (recv_q (chan_mem s c))"
    using w(3,4) by (simp_all add: wf_send_def wf_recv_def)
  show ?thesis
  proof (cases "send_q (chan_mem s c) \<noteq> [] \<or> recv_q (chan_mem s c) \<noteq> []")
    case True
    then show ?thesis using assms(2) n by (auto simp: mt_chan_destroy_def split: if_splits)
  next
    case False
    then have r: "rc = MT_OK" "channels s' = remove1 c (channels s)"
      using assms(2) n by (auto simp: mt_chan_destroy_def Let_def mt_chan_unregister_def)
    then have nc: "c \<notin> set (channels s')" using w(5) by (simp add: wf_chans_def)
    note w' = wfD[OF wf_destroy[OF reachable_wf[OF assms(1)] assms(2)]]
    have q: "send_q (chan_mem s' c) = []" "recv_q (chan_mem s' c) = []"
      "select_send_q (chan_mem s' c) = []" "select_recv_q (chan_mem s' c) = []"
      using w'(5) nc by (simp_all add: wf_chans_def)
    have ok: "select_ok s'" using w'(7) by (simp add: wf_select_def)
    have "sw_ch (sw_mem s' v) \<noteq> Some c" if act: "sw_active (sw_mem s' v)" for v
    proof
      assume "sw_ch (sw_mem s' v) = Some c"
      moreover obtain d where "linked_send s' d v \<or> linked_recv s' d v" using ok act unfolding select_ok_def by blast
      ultimately have "linked_send s' c v \<or> linked_recv s' c v" by (auto simp: linked_send_def linked_recv_def)
      then show False using ok q unfolding select_ok_def select_chan_ok_def by (metis empty_iff list.set(1))
    qed
    moreover have "\<not> waits_send c (task_mem s' t) \<and> \<not> waits_recv c (task_mem s' t)" if "t \<in> set (all_tasks s')" for t
      using w'(3,4) q that unfolding wf_send_def wf_recv_def live_all by (metis empty_iff list.set(1))
    ultimately show ?thesis using False r(1) nc by simp
  qed
qed

theorem chan_destroy_safe_witness:
  "fst (mt_chan_destroy (Some 7) stuck) = MT_ERR_STATE \<and> snd (mt_chan_destroy (Some 7) stuck) = stuck"
proof -
  have "recv_q (chan_mem stuck 7) \<noteq> []" by code_simp
  then show ?thesis using chan_destroy_safe[OF stuck_reachable prod.collapse[symmetric], of 7] by simp
qed

end
