(* ===== verification/Select_Theorems.thy ===== *)
theory Select_Theorems
  imports Channel_Theorems
begin

text \<open>
  What \<^verbatim>\<open>mt_select\<close> promises: which argument lists it accepts, which case it picks, that a failed
  call leaves no registration behind, that a parked call is completed by one case only, and the gap
  between the polling pass and parking.
\<close>

section \<open>Validation\<close>

definition valid_case :: "mt_select_case \<Rightarrow> bool" where
  "valid_case k \<longleftrightarrow> sc_op k \<noteq> MT_SELECT_OTHER \<and> (is_chan_case k \<longrightarrow> sc_ch k \<noteq> None \<and> sc_value k \<noteq> None)"

definition op_count :: "mt_select_op \<Rightarrow> mt_select_case list \<Rightarrow> nat" where
  "op_count op ks = length (filter (\<lambda>k. sc_op k = op) ks)"

definition valid_cases :: "mt_select_case list \<Rightarrow> bool" where
  "valid_cases ks \<longleftrightarrow> ks \<noteq> [] \<and> list_all valid_case ks \<and>
     op_count MT_SELECT_DEFAULT ks \<le> 1 \<and> op_count MT_SELECT_TIMEOUT ks \<le> 1"

lemma select_validate_iff:
  "select_validate ks i p \<noteq> None \<longleftrightarrow> list_all valid_case ks \<and>
     op_count MT_SELECT_DEFAULT ks + (if default_index p = None then 0 else 1) \<le> 1 \<and>
     op_count MT_SELECT_TIMEOUT ks + (if timeout_index p = None then 0 else 1) \<le> 1"
proof (induction ks i p rule: select_validate.induct)
  case (2 k ks i p)
  then show ?case
    by (cases "sc_op k") (auto simp: valid_case_def is_chan_case_def op_count_def)
qed (simp add: op_count_def)

lemma select_validate_channels:
  "select_validate ks i p = Some q \<Longrightarrow> list_all (\<lambda>k. is_chan_case k \<longrightarrow> sc_ch k \<noteq> None \<and> sc_value k \<noteq> None) ks"
  using select_validate_iff[of ks i p] by (auto simp: list_all_iff valid_case_def)

text \<open>A plan without default, timeout and channel cases belongs to an empty list.\<close>

lemma select_validate_grows:
  "select_validate ks i p = Some q \<Longrightarrow> channel_cases p \<le> channel_cases q \<and>
     (default_index p \<noteq> None \<longrightarrow> default_index q \<noteq> None) \<and> (timeout_index p \<noteq> None \<longrightarrow> timeout_index q \<noteq> None)"
proof (induction ks i p rule: select_validate.induct)
  case (2 k ks i p)
  then show ?case by (cases "sc_op k") (auto split: if_splits)
qed simp

lemma select_validate_something:
  assumes "select_validate ks i p = Some q" and "ks \<noteq> []"
  shows "channel_cases q \<noteq> 0 \<or> default_index q \<noteq> None \<or> timeout_index q \<noteq> None"
proof -
  obtain k ks' where ks: "ks = k # ks'" using assms(2) by (cases ks) auto
  obtain p' where p': "select_validate ks' (i + 1) p' = Some q"
    "channel_cases p' \<noteq> 0 \<or> default_index p' \<noteq> None \<or> timeout_index p' \<noteq> None"
    using assms(1) unfolding ks by (cases "sc_op k") (auto split: if_splits)
  then show ?thesis using select_validate_grows[OF p'(1)] by auto
qed

section \<open>The polling pass\<close>

definition ready_case :: "mt_state \<Rightarrow> mt_select_case \<Rightarrow> bool" where
  "ready_case s k \<longleftrightarrow> is_chan_case k \<and> fst (mt_select_try_case k s) \<noteq> MT_ERR_WOULD_BLOCK"

definition first_ready :: "mt_state \<Rightarrow> mt_select_case list \<Rightarrow> nat" where
  "first_ready s ks = length (takeWhile (\<lambda>k. \<not> ready_case s k) ks)"

lemma select_try_first:
  "wf {} s \<Longrightarrow> select_try ks i s =
     (if first_ready s ks < length ks
      then (Some (fst (mt_select_try_case (ks ! first_ready s ks) s), i + first_ready s ks),
            snd (mt_select_try_case (ks ! first_ready s ks) s))
      else (None, s))"
proof (induction ks arbitrary: i)
  case (Cons k ks)
  obtain rc s1 where r: "mt_select_try_case k s = (rc, s1)" by fastforce
  have "rc = MT_ERR_WOULD_BLOCK \<Longrightarrow> s1 = s" using try_case_would_block[OF Cons.prems] r by blast
  then show ?case using Cons.IH[OF Cons.prems, of "i + 1"]
    by (auto simp: first_ready_def ready_case_def r)
qed (simp add: first_ready_def)

lemma try_case_valid:
  "is_chan_case k \<Longrightarrow> sc_ch k \<noteq> None \<Longrightarrow> sc_value k \<noteq> None \<Longrightarrow> fst (mt_select_try_case k s) \<noteq> MT_ERR_INVALID"
  by (cases "sc_op k") (auto simp: is_chan_case_def mt_select_try_case_def mt_chan_try_send_def
      mt_chan_try_recv_def send_now_def recv_now_def split: option.splits prod.splits if_splits)

lemma select_park_outcome:
  assumes "mt_select_park cur ks p allocs now ok s = (out, s')"
    and "channel_cases p \<noteq> 0 \<or> timeout_index p \<noteq> None"
  shows "if cur = None then out = Selected MT_ERR_STATE None \<and> s' = s
    else out = SelectPark \<or> out = Selected MT_ERR_NOMEM None"
  using assms by (auto simp: mt_select_park_def Let_def split: option.splits if_splits prod.splits)

section \<open>Registrations come and go\<close>

text \<open>Taking the registrations out again restores the channels they were added to.\<close>

lemma drop_new_waiter:
  "drop_waiters {w} (ch\<lparr>select_send_q := select_send_q ch @ [w], select_send_waiters := m\<rparr>) = drop_waiters {w} ch"
  "drop_waiters {w} (ch\<lparr>select_recv_q := select_recv_q ch @ [w], select_recv_waiters := m\<rparr>) = drop_waiters {w} ch"
  by (simp_all add: drop_waiters_def)

lemma drop_no_waiters: "select_ok s \<Longrightarrow> drop_waiters {} \<circ> chan_mem s = chan_mem s"
  by (auto simp: fun_eq_iff select_ok_def intro: drop_waiters_id)

lemma register_case_drop:
  assumes "select_ok s" and "\<not> sw_active (sw_mem s w)" and "sc_ch k = Some c" and "s' = register_case t k i w s"
  shows "drop_waiters {w} \<circ> chan_mem s' = chan_mem s"
proof
  fix d
  have ok: "select_chan_ok s d" using assms(1) by (simp add: select_ok_def)
  have "drop_waiters {w} (chan_mem s' d) = drop_waiters {w} (chan_mem s d)"
    using assms(3) unfolding assms(4)
    by (cases "d = c") (simp_all add: register_case_def Let_def select_send_push_def select_recv_push_def drop_new_waiter)
  then show "(drop_waiters {w} \<circ> chan_mem s') d = chan_mem s d"
    using assms(2) drop_waiters_id[OF ok, of "{w}"] by simp
qed

definition quiet_part :: "mt_state \<Rightarrow> tptr list \<times> mt_timer_heap \<times> nat \<times> tptr list" where
  "quiet_part s = (runq s, timers s, channel_waiting_count s, all_tasks s)"

lemma quiet_part_simps [simp]:
  "quiet_part (upd_task t f s) = quiet_part s"
  "quiet_part (register_case t k i w s) = quiet_part s"
  by (simp_all add: quiet_part_def register_case_def Let_def select_send_push_def select_recv_push_def)

lemma register_cases_quiet: "register_cases t ks i allocs s = (ok, s') \<Longrightarrow> quiet_part s' = quiet_part s"
  by (induction t ks i allocs s rule: register_cases.induct) (auto split: if_splits list.splits option.splits)

lemma register_cases_drop:
  assumes "select_ok s" and "fresh_waiters allocs s" and "known_channels ks s"
    and "register_cases t ks i allocs s = (ok, s')"
  shows "\<exists>ws. select_waiters (task_mem s' t) = ws @ select_waiters (task_mem s t) \<and>
    drop_waiters (set ws) \<circ> chan_mem s' = chan_mem s \<and> select_ok s' \<and> quiet_part s' = quiet_part s \<and>
    state (task_mem s' t) = state (task_mem s t)"
  using assms
proof (induction t ks i allocs s rule: register_cases.induct)
  case (1 t i allocs s)
  then show ?case using drop_no_waiters[OF 1(1)] by (intro exI[of _ "[]"]) simp
next
  case (2 t k ks i allocs s)
  show ?case
  proof (cases "is_chan_case k \<and> (\<exists>w a. allocs = Some w # a)")
    case False
    show ?thesis
    proof (cases "is_chan_case k")
      case True
      then have "s' = s" using 2(6) False by (auto split: list.splits option.splits)
      then show ?thesis using drop_no_waiters[OF 2(3)] 2(3) by (intro exI[of _ "[]"]) simp
    next
      case False
      then have "register_cases t ks (i + 1) allocs s = (ok, s')" "known_channels ks s"
        using 2(5,6) by (simp_all add: known_channels_def)
      then show ?thesis using 2(1)[OF False 2(3,4)] by blast
    qed
  next
    case True
    then obtain w a where a: "is_chan_case k" "allocs = Some w # a" by blast
    obtain c where c: "sc_ch k = Some c" using 2(5) a(1) by (auto simp: known_channels_def split: option.splits)
    let ?s = "register_case t k i w s"
    note f = fresh_waiters_register[OF 2(4)[unfolded a(2)] refl c]
    note r = register_case_fields[OF refl c]
    have "known_channels ks ?s" using 2(5) unfolding known_channels_def r(14) by simp
    moreover have "select_ok ?s" using select_ok_register[OF 2(3) f(1) c a(1) refl] .
    moreover have "register_cases t ks (i + 1) a ?s = (ok, s')" using 2(6) a by simp
    ultimately obtain ws where ws: "select_waiters (task_mem s' t) = ws @ select_waiters (task_mem ?s t)"
      "drop_waiters (set ws) \<circ> chan_mem s' = chan_mem ?s" "select_ok s'" "quiet_part s' = quiet_part ?s"
      "state (task_mem s' t) = state (task_mem ?s t)"
      using 2(2) a f(2) by blast
    have "drop_waiters {w} \<circ> (drop_waiters (set ws) \<circ> chan_mem s') = chan_mem s"
      using register_case_drop[OF 2(3) f(1) c refl] unfolding ws(2) .
    then have "drop_waiters (set (ws @ [w])) \<circ> chan_mem s' = chan_mem s"
      by (simp add: drop_waiters_twice fun_eq_iff)
    moreover have "select_waiters (task_mem s' t) = (ws @ [w]) @ select_waiters (task_mem s t)"
      using ws(1) by (simp add: r(2))
    ultimately show ?thesis using ws(3-5) by (intro exI[of _ "ws @ [w]"]) (simp add: r(2))
  qed
qed

text \<open>A call that runs out of memory after it has registered some cases undoes them.\<close>

lemma undo_registrations:
  assumes wf: "wf {} s" and f: "fresh_waiters allocs s" and c: "known_channels ks s"
    and r: "register_cases t ks 0 allocs (upd_task t g s) = (b, s1)"
    and g: "select_waiters (g (task_mem s t)) = []" "state (g (task_mem s t)) = state (task_mem s t)"
    and u: "s2 = s1 \<or> s2 = upd_task t (\<lambda>k. k\<lparr>select_index := i\<rparr>) s1"
  shows "chan_mem (mt_select_free_task_waiters t s2) = chan_mem s"
    and "quiet_part (mt_select_free_task_waiters t s2) = quiet_part s"
    and "state (task_mem (mt_select_free_task_waiters t s2) t) = state (task_mem s t)"
    and "select_waiters (task_mem (mt_select_free_task_waiters t s2) t) = []"
proof -
  let ?s = "upd_task t g s"
  have "select_ok ?s" using wf_selectD(1)[OF wfD(7)[OF wf]] by simp
  moreover have "fresh_waiters allocs ?s" "known_channels ks ?s"
    using f c unfolding fresh_waiters_def known_channels_def upd_task_frame .
  ultimately obtain ws where ws: "select_waiters (task_mem s1 t) = ws @ select_waiters (task_mem ?s t)"
    "drop_waiters (set ws) \<circ> chan_mem s1 = chan_mem ?s" "select_ok s1" "quiet_part s1 = quiet_part ?s"
    "state (task_mem s1 t) = state (task_mem ?s t)"
    using register_cases_drop[OF _ _ _ r] by blast
  have ok: "select_ok s2" and s2: "chan_mem s2 = chan_mem s1" "quiet_part s2 = quiet_part s1"
    "select_waiters (task_mem s2 t) = select_waiters (task_mem s1 t)" "state (task_mem s2 t) = state (task_mem s1 t)"
    using u ws(3) by auto
  note free = free_task_waiters_eq[OF ok, of t]
  show "chan_mem (mt_select_free_task_waiters t s2) = chan_mem s"
    using ws(1,2) g(1) s2 by (simp add: free)
  show "quiet_part (mt_select_free_task_waiters t s2) = quiet_part s"
    using ws(4) s2(2) by (simp add: free quiet_part_def)
  show "state (task_mem (mt_select_free_task_waiters t s2) t) = state (task_mem s t)"
    "select_waiters (task_mem (mt_select_free_task_waiters t s2) t) = []"
    using ws(5) g(2) s2 by (simp_all add: free)
qed

text \<open>
  What a parking call registers: the channel cases with their positions in the list, each with the memory
  of the next allocation, and the registrations among them that belong in a queue of a channel.
\<close>

definition chan_cases :: "nat \<Rightarrow> mt_select_case list \<Rightarrow> (nat \<times> mt_select_case) list" where
  "chan_cases i ks = filter (\<lambda>(j, k). is_chan_case k) (enumerate i ks)"

definition enough_waiters :: "(nat \<times> mt_select_case) list \<Rightarrow> wptr option list \<Rightarrow> bool" where
  "enough_waiters cs allocs \<longleftrightarrow> length cs \<le> length allocs \<and> None \<notin> set (take (length cs) allocs)"

definition registrations :: "(nat \<times> mt_select_case) list \<Rightarrow> wptr option list \<Rightarrow> (wptr \<times> nat \<times> mt_select_case) list" where
  "registrations cs allocs = zip (map the allocs) cs"

definition queued :: "mt_select_op \<Rightarrow> cptr \<Rightarrow> (wptr \<times> nat \<times> mt_select_case) list \<Rightarrow> wptr list" where
  "queued op c rs = map fst (filter (\<lambda>(w, i, k). sc_op k = op \<and> sc_ch k = Some c) rs)"

definition with_queued :: "cptr \<Rightarrow> (wptr \<times> nat \<times> mt_select_case) list \<Rightarrow> mt_chan \<Rightarrow> mt_chan" where
  "with_queued c rs ch = ch\<lparr>
     select_send_q := select_send_q ch @ queued MT_SELECT_SEND c rs,
     select_send_waiters := select_send_waiters ch + length (queued MT_SELECT_SEND c rs),
     select_recv_q := select_recv_q ch @ queued MT_SELECT_RECV c rs,
     select_recv_waiters := select_recv_waiters ch + length (queued MT_SELECT_RECV c rs)\<rparr>"

lemma chan_cases_simps [simp]:
  "chan_cases i [] = []"
  "chan_cases i (k # ks) = (if is_chan_case k then (i, k) # chan_cases (i + 1) ks else chan_cases (i + 1) ks)"
  by (simp_all add: chan_cases_def)

lemma with_queued_simps:
  "with_queued c [] ch = ch"
  "sc_ch k = Some c \<Longrightarrow> is_chan_case k \<Longrightarrow> with_queued c ((w, i, k) # rs) ch = with_queued c rs
     (if sc_op k = MT_SELECT_SEND
      then ch\<lparr>select_send_q := select_send_q ch @ [w], select_send_waiters := select_send_waiters ch + 1\<rparr>
      else ch\<lparr>select_recv_q := select_recv_q ch @ [w], select_recv_waiters := select_recv_waiters ch + 1\<rparr>)"
  "sc_ch k \<noteq> Some c \<Longrightarrow> with_queued c ((w, i, k) # rs) ch = with_queued c rs ch"
  by (auto simp: with_queued_def queued_def is_chan_case_def)

lemma register_cases_enough:
  "register_cases t ks i allocs s = (ok, s') \<Longrightarrow> ok = enough_waiters (chan_cases i ks) allocs"
proof (induction t ks i allocs s rule: register_cases.induct)
  case (2 t k ks i allocs s)
  then show ?case by (cases allocs) (auto simp: enough_waiters_def split: if_splits option.splits)
qed (simp add: enough_waiters_def)

lemma fresh_distinct: "fresh_waiters (Some w # a) s \<Longrightarrow> enough_waiters cs a \<Longrightarrow> w \<notin> fst ` set (registrations cs a)"
proof
  assume f: "fresh_waiters (Some w # a) s" and e: "enough_waiters cs a" and "w \<in> fst ` set (registrations cs a)"
  then obtain j where "j < length cs" "j < length a" "the (a ! j) = w"
    by (auto simp: registrations_def set_zip)
  moreover from this(1,2) have "a ! j \<noteq> None" using e unfolding enough_waiters_def
    by (metis in_set_conv_nth length_take min.absorb2 nth_take)
  ultimately have "Some w \<in> set a" by (metis nth_mem option.collapse)
  then show False using f by (simp add: fresh_waiters_def)
qed

lemma register_cases_effect:
  assumes "register_cases t ks i allocs s = (True, s')" and "fresh_waiters allocs s" and "known_channels ks s"
    and "rs = registrations (chan_cases i ks) allocs"
  shows "chan_mem s' c = with_queued c rs (chan_mem s c) \<and> (\<forall>(w, j, k) \<in> set rs. sw_mem s' w = new_sw t k j) \<and>
    (\<forall>w. w \<notin> fst ` set rs \<longrightarrow> sw_mem s' w = sw_mem s w) \<and>
    task_mem s' t = (task_mem s t)\<lparr>select_waiters := rev (map fst rs) @ select_waiters (task_mem s t),
      select_waiter_count := select_waiter_count (task_mem s t) + length rs\<rparr>"
  using assms
proof (induction t ks i allocs s arbitrary: rs rule: register_cases.induct)
  case (1 t i allocs s)
  then show ?case by (simp add: registrations_def with_queued_simps)
next
  case (2 t k ks i allocs s)
  show ?case
  proof (cases "is_chan_case k")
    case False
    then show ?thesis using 2(1)[OF False _ 2(4)] 2(3,5,6) by (simp add: known_channels_def)
  next
    case True
    then obtain w a where a: "allocs = Some w # a" using 2(3) by (auto split: list.splits option.splits)
    obtain d where d: "sc_ch k = Some d" using 2(5) True by (auto simp: known_channels_def split: option.splits)
    let ?s = "register_case t k i w s" and ?rs = "registrations (chan_cases (i + 1) ks) a"
    note f = fresh_waiters_register[OF 2(4)[unfolded a] refl d]
    note r = register_case_fields[OF refl d]
    have kc: "known_channels ks ?s" using 2(5) unfolding known_channels_def r(14) by simp
    have reg: "register_cases t ks (i + 1) a ?s = (True, s')" using 2(3) True a by simp
    have nw: "w \<notin> fst ` set ?rs" using fresh_distinct[OF 2(4)[unfolded a]] register_cases_enough[OF reg] by simp
    have rs: "rs = (w, i, k) # ?rs" using 2(6) True a by (simp add: registrations_def)
    have "chan_mem s' c = with_queued c ?rs (chan_mem ?s c) \<and> (\<forall>(w, j, k) \<in> set ?rs. sw_mem s' w = new_sw t k j) \<and>
        (\<forall>w. w \<notin> fst ` set ?rs \<longrightarrow> sw_mem s' w = sw_mem ?s w) \<and>
        task_mem s' t = (task_mem ?s t)\<lparr>select_waiters := rev (map fst ?rs) @ select_waiters (task_mem ?s t),
          select_waiter_count := select_waiter_count (task_mem ?s t) + length ?rs\<rparr>"
      using 2(2)[OF _ a refl reg f(2) kc refl] True by simp
    then show ?thesis
      using True nw with_queued_simps(2)[OF d True, of w i ?rs "chan_mem s c"] with_queued_simps(3)[of k c w i ?rs "chan_mem s c"] d
      by (cases "c = d") (auto simp: rs r(1,2,3))
  qed
qed

text \<open>A call that cannot park leaves nothing behind.\<close>

lemma park_nomem_undone:
  assumes "wf {} s" and "fresh_waiters allocs s" and "known_channels cases s"
    and p: "mt_select_park (Some t) cases p allocs now ok s = (Selected MT_ERR_NOMEM None, s')"
  shows "chan_mem s' = chan_mem s" and "quiet_part s' = quiet_part s"
    and "state (task_mem s' t) = state (task_mem s t)" and "select_waiters (task_mem s' t) = []"
proof -
  let ?g = "\<lambda>r :: mt_task. r\<lparr>select_waiters := [], select_waiter_count := 0, select_result := MT_OK,
    select_index := (case timeout_index p of Some i \<Rightarrow> i | None \<Rightarrow> 0), select_in_timer := False,
    select_counted_waiting := False\<rparr>"
  obtain b s1 where r: "register_cases t cases 0 allocs (upd_task t ?g s) = (b, s1)" by fastforce
  have "\<exists>s2 i. (s2 = s1 \<or> s2 = upd_task t (\<lambda>k. k\<lparr>select_index := i\<rparr>) s1) \<and> s' = mt_select_free_task_waiters t s2"
    using p r timer_push_fail[of t _ MT_TASK_WAITING_SELECT ok]
    by (auto simp: mt_select_park_def Let_def split: option.splits if_splits prod.splits) (metis fst_conv snd_conv)+
  then obtain s2 i where s2: "s2 = s1 \<or> s2 = upd_task t (\<lambda>k. k\<lparr>select_index := i\<rparr>) s1"
    "s' = mt_select_free_task_waiters t s2" by blast
  note undo = undo_registrations[OF assms(1-3) r _ _ s2(1), folded s2(2)]
  show "chan_mem s' = chan_mem s" "quiet_part s' = quiet_part s" "state (task_mem s' t) = state (task_mem s t)"
    "select_waiters (task_mem s' t) = []" using undo by simp_all
qed

text \<open>
  A parked select: its task waits, every channel case is registered at the end of the queue of its
  channel, in the order given, with its operation, value and position, nothing else of a channel has
  changed, the task is counted, and a timeout is in the timer heap with its deadline.
\<close>

definition select_parked ::
  "tptr \<Rightarrow> mt_select_case list \<Rightarrow> select_plan \<Rightarrow> wptr option list \<Rightarrow> u64 \<Rightarrow> mt_state \<Rightarrow> mt_state \<Rightarrow> bool" where
  "select_parked t cases p allocs now s s' \<longleftrightarrow>
     (let rs = registrations (chan_cases 0 cases) allocs in
      length rs = length (chan_cases 0 cases) \<and> state (task_mem s' t) = MT_TASK_WAITING_SELECT \<and>
      select_waiters (task_mem s' t) = rev (map fst rs) \<and>
      (\<forall>c. chan_mem s' c = with_queued c rs (chan_mem s c)) \<and>
      (\<forall>(w, i, k) \<in> set rs. sw_mem s' w = new_sw t k i) \<and>
      runq s' = runq s \<and> channel_waiting_count s' = channel_waiting_count s + 1 \<and>
      (case timeout_index p of
         None \<Rightarrow> timers s' = timers s \<and> \<not> select_in_timer (task_mem s' t)
       | Some i \<Rightarrow> select_in_timer (task_mem s' t) \<and> select_index (task_mem s' t) = i \<and>
           wake_ns (task_mem s' t) = deadline_after now (timeout_ms p) \<and>
           set (items (timers s')) = insert t (set (items (timers s)))))"

lemma push_select:
  assumes "mt_timer_push_state t d MT_TASK_WAITING_SELECT ok s = (MT_OK, s')"
  shows "chan_mem s' = chan_mem s" "sw_mem s' = sw_mem s" "runq s' = runq s"
    "channel_waiting_count s' = channel_waiting_count s" "task_mem s' = timer_pushed t d MT_TASK_WAITING_SELECT s"
    "set (items (timers s')) = insert t (set (items (timers s)))"
  by (rule timer_push_eq[OF assms]; simp)+

lemma park_parked:
  assumes "fresh_waiters allocs s" and "known_channels cases s"
    and p: "mt_select_park (Some t) cases p allocs now ok s = (SelectPark, s')"
  shows "select_parked t cases p allocs now s s'"
proof -
  let ?g = "\<lambda>r :: mt_task. r\<lparr>select_waiters := [], select_waiter_count := 0, select_result := MT_OK,
    select_index := (case timeout_index p of Some i \<Rightarrow> i | None \<Rightarrow> 0), select_in_timer := False,
    select_counted_waiting := False\<rparr>"
  let ?s = "upd_task t ?g s"
  obtain b s1 where r: "register_cases t cases 0 allocs ?s = (b, s1)" by fastforce
  have b: "b" using p r by (auto simp: mt_select_park_def Let_def split: if_splits)
  have "length (chan_cases 0 cases) \<le> length allocs"
    using register_cases_enough[OF r] b by (simp add: enough_waiters_def)
  then have len: "length (registrations (chan_cases 0 cases) allocs) = length (chan_cases 0 cases)"
    by (simp add: registrations_def)
  have f: "fresh_waiters allocs ?s" "known_channels cases ?s"
    using assms(1,2) unfolding fresh_waiters_def known_channels_def upd_task_frame .
  note e = register_cases_effect[OF r[simplified b] f refl]
  note q = register_cases_quiet[OF r, unfolded quiet_part_def]
  show ?thesis
  proof (cases "timeout_index p")
    case None
    then have "s' = mt_task_block_on_select t s1" using p r b by (auto simp: mt_select_park_def Let_def split: if_splits)
    then show ?thesis using None e q len by (auto simp: select_parked_def mt_task_block_on_select_def Let_def)
  next
    case (Some i)
    let ?q = "upd_task t (\<lambda>r. r\<lparr>select_index := i\<rparr>) s1"
    obtain s2 where push: "mt_timer_push_state t (deadline_after now (timeout_ms p)) MT_TASK_WAITING_SELECT ok ?q = (MT_OK, s2)"
      and s': "s' = mt_task_block_on_select t (upd_task t (\<lambda>r. r\<lparr>select_in_timer := True\<rparr>) s2)"
      using p r b Some by (auto simp: mt_select_park_def Let_def split: if_splits prod.splits)
    show ?thesis using Some e q len push_select[OF push]
      by (auto simp: s' select_parked_def mt_task_block_on_select_def timer_pushed_def Let_def)
  qed
qed

text \<open>Memory for the registrations and the timer is all a call in a task needs to park.\<close>

lemma park_with_memory:
  assumes "mt_select_park (Some t) cases p allocs now True s = (out, s')" and "enough_waiters (chan_cases 0 cases) allocs"
    and "channel_cases p \<noteq> 0 \<or> timeout_index p \<noteq> None"
  shows "out = SelectPark"
proof -
  have "fst (mt_timer_push_state t d st True q) = MT_OK" for d st q
    by (simp add: mt_timer_push_state_def reserve_eq Let_def)
  then have push: "mt_timer_push_state t d st True q = (rc, r) \<Longrightarrow> rc = MT_OK" for d st q rc r by (metis fst_conv)
  have "register_cases t cases 0 allocs q = (b, r) \<Longrightarrow> b" for q b r
    using register_cases_enough[of t cases 0 allocs q b r] assms(2) by simp
  then show ?thesis using assms(1,3)
    by (auto simp: mt_select_park_def Let_def split: if_splits prod.splits option.splits dest: push)
qed

text \<open>What a completed registration does to its task.\<close>

lemma free_waiters_rest:
  "runq (free_waiters ws s) = runq s" "user_mem (free_waiters ws s) = user_mem s"
  using free_waiters_shape[of ws s] by auto

lemma complete_waiter_effect:
  assumes "sw_task (sw_mem s w) = Some t"
  shows "runq (mt_select_complete_waiter w r s) = runq s @ [t]"
    and "state (task_mem (mt_select_complete_waiter w r s) t) = MT_TASK_READY"
    and "select_result (task_mem (mt_select_complete_waiter w r s) t) = r"
    and "select_index (task_mem (mt_select_complete_waiter w r s) t) = sw_index (sw_mem s w)"
    and "user_mem (mt_select_complete_waiter w r s) = user_mem s"
  using assms by (simp_all add: mt_select_complete_waiter_def mt_select_unpark_task_def Let_def mark_ready_eq
      mt_select_free_task_waiters_def complete_select_wait_eq timer_remove_eq free_waiters_rest)

section \<open>Properties\<close>

text \<open>
  C18: \<^verbatim>\<open>mt_select\<close> rejects exactly the malformed calls: it answers \<open>MT_ERR_INVALID\<close> without an
  index if and only if the pointer for the index is null or the list of cases is empty, has an unknown
  operation, a channel case without channel or value, two defaults or two timeouts. A rejected call
  has no effect.
\<close>

theorem select_rejects_malformed:
  assumes "rt_reachable s" and "mt_select cur cases has_index allocs now ok s = (out, s')"
  shows "(out = Selected MT_ERR_INVALID None \<longleftrightarrow> \<not> has_index \<or> \<not> valid_cases cases) \<and>
    (\<not> has_index \<or> \<not> valid_cases cases \<longrightarrow> s' = s)"
proof (cases "has_index \<and> valid_cases cases")
  case False
  then have "cases = [] \<or> \<not> has_index \<or> select_validate cases 0 empty_plan = None"
    using select_validate_iff[of cases 0 empty_plan] by (auto simp: valid_cases_def empty_plan_def)
  then have "mt_select cur cases has_index allocs now ok s = (Selected MT_ERR_INVALID None, s)"
    by (auto simp: mt_select_def)
  then show ?thesis using False assms(2) by auto
next
  case True
  then have ne: "cases \<noteq> []" "has_index" by (simp_all add: valid_cases_def)
  obtain p where p: "select_validate cases 0 empty_plan = Some p"
    using True select_validate_iff[of cases 0 empty_plan] by (auto simp: valid_cases_def empty_plan_def)
  note some = select_validate_something[OF p ne(1)]
  have "out \<noteq> Selected MT_ERR_INVALID None"
    using assms(2) ne p some select_try_first[OF reachable_wf[OF assms(1)], of cases 0]
      select_park_outcome[of cur cases p allocs now ok s out s']
    by (auto simp: mt_select_def split: if_splits option.splits)
  then show ?thesis using True by simp
qed

definition recv_case :: mt_select_case where
  "recv_case = \<lparr>sc_op = MT_SELECT_RECV, sc_ch = Some 7, sc_value = Some 10, sc_timeout_ms = 0\<rparr>"

definition default_case :: mt_select_case where
  "default_case = recv_case\<lparr>sc_op := MT_SELECT_DEFAULT\<rparr>"

theorem select_rejects_malformed_witness:
  "fst (mt_select (Some 3) [default_case, default_case] True [] 0 True dispatched) = Selected MT_ERR_INVALID None \<and>
   mt_select (Some 3) [recv_case] False [Some 5] 0 True dispatched = (Selected MT_ERR_INVALID None, dispatched) \<and>
   fst (mt_select (Some 3) [recv_case] True [Some 5] 0 True dispatched) \<noteq> Selected MT_ERR_INVALID None"
proof -
  note m = select_rejects_malformed[OF dispatched_reachable prod.collapse[symmetric]]
  have "\<not> valid_cases [default_case, default_case]" "valid_cases [recv_case]" by code_simp+
  then show ?thesis
    using m[of "Some 3" "[default_case, default_case]" True "[]" 0 True] m[of "Some 3" "[recv_case]" False "[Some 5]" 0 True]
      m[of "Some 3" "[recv_case]" True "[Some 5]" 0 True] by (simp add: prod_eq_iff)
qed

text \<open>
  C16: Which case a valid select takes. The first case, in the order given, whose channel operation
  can proceed is carried out and its index and result are reported; the cases before it have no
  effect. If none can proceed, the default is taken, then a zero timeout, both without effect.
  Otherwise a call outside a task fails with \<open>MT_ERR_STATE\<close> and no effect. A call in a task parks when it
  gets the memory it asks for: the task waits, each channel case is registered at the end of the queue of
  its channel with its operation, value and index, nothing else of any channel changes, the task is counted
  as waiting, and a timeout is in the timer heap with its deadline. Without the memory it returns
  \<open>MT_ERR_NOMEM\<close>, and every channel, the run queue, the timers and the count of waiting tasks are as before.
\<close>

theorem select_takes_first_ready:
  assumes "rt_reachable s" and "cases \<noteq> []" and "select_validate cases 0 empty_plan = Some p"
    and "fresh_waiters allocs s" and "known_channels cases s"
    and "mt_select cur cases True allocs now ok s = (out, s')"
  shows "if first_ready s cases < length cases
    then out = Selected (fst (mt_select_try_case (cases ! first_ready s cases) s)) (Some (first_ready s cases)) \<and>
      s' = snd (mt_select_try_case (cases ! first_ready s cases) s)
    else if default_index p \<noteq> None then out = Selected MT_OK (default_index p) \<and> s' = s
    else if timeout_index p \<noteq> None \<and> timeout_ms p = 0 then out = Selected MT_OK (timeout_index p) \<and> s' = s
    else case cur of
        None \<Rightarrow> out = Selected MT_ERR_STATE None \<and> s' = s
      | Some t \<Rightarrow>
          (if out = SelectPark then select_parked t cases p allocs now s s'
           else out = Selected MT_ERR_NOMEM None \<and> chan_mem s' = chan_mem s \<and> quiet_part s' = quiet_part s \<and>
             state (task_mem s' t) = state (task_mem s t) \<and> select_waiters (task_mem s' t) = []) \<and>
          (enough_waiters (chan_cases 0 cases) allocs \<and> ok \<longrightarrow> out = SelectPark)"
proof (cases "first_ready s cases < length cases \<or> default_index p \<noteq> None \<or> (timeout_index p \<noteq> None \<and> timeout_ms p = 0)")
  case True
  then show ?thesis
    using assms(2,3,6) select_try_first[OF reachable_wf[OF assms(1)], of cases 0]
    by (auto simp: mt_select_def split: if_splits option.splits)
next
  case False
  note wf = reachable_wf[OF assms(1)]
  have park: "mt_select_park cur cases p allocs now ok s = (out, s')"
    using False assms(2,3,6) select_try_first[OF wf, of cases 0] by (auto simp: mt_select_def)
  have some: "channel_cases p \<noteq> 0 \<or> timeout_index p \<noteq> None" using select_validate_something[OF assms(3,2)] False by auto
  show ?thesis
  proof (cases cur)
    case None
    then show ?thesis using False select_park_outcome[OF park some] by simp
  next
    case (Some t)
    have "out = SelectPark \<or> out = Selected MT_ERR_NOMEM None" using select_park_outcome[OF park some] Some by simp
    then show ?thesis
      using False Some park_parked[OF assms(4,5)] park_nomem_undone[OF wf assms(4,5)] park_with_memory[OF _ _ some] park
      by (cases ok) auto
  qed
qed

theorem select_takes_first_ready_witness:
  "mt_select (Some 3) [recv_case, default_case] True [] 0 True dispatched = (Selected MT_OK (Some 1), dispatched) \<and>
   select_recv_q (chan_mem (snd (mt_select (Some 3) [recv_case] True [Some 5] 0 True dispatched)) 7) = [5] \<and>
   state (task_mem (snd (mt_select (Some 3) [recv_case] True [Some 5] 0 True dispatched)) 3) = MT_TASK_WAITING_SELECT"
proof -
  have n: "\<not> ready_case dispatched recv_case" by code_simp
  then have f: "first_ready dispatched [recv_case, default_case] = 2" "first_ready dispatched [recv_case] = 1"
    by (simp_all add: first_ready_def ready_case_def is_chan_case_def default_case_def)
  have v: "select_validate [recv_case, default_case] 0 empty_plan = Some (empty_plan\<lparr>channel_cases := 1, default_index := Some 1\<rparr>)"
    "select_validate [recv_case] 0 empty_plan = Some (empty_plan\<lparr>channel_cases := 1\<rparr>)"
    by (simp_all add: recv_case_def default_case_def empty_plan_def)
  have k: "known_channels [recv_case, default_case] dispatched" "known_channels [recv_case] dispatched"
    "fresh_waiters [] dispatched" "fresh_waiters [Some 5] dispatched" "select_recv_q (chan_mem dispatched 7) = []" by code_simp+
  have pl: "default_index (empty_plan\<lparr>channel_cases := 1\<rparr>) = None" "timeout_index (empty_plan\<lparr>channel_cases := 1\<rparr>) = None"
    by (simp_all add: empty_plan_def)
  note m = select_takes_first_ready[OF dispatched_reachable _ _ _ _ prod.collapse[symmetric]]
  have "enough_waiters (chan_cases 0 [recv_case]) [Some 5]" by code_simp
  then have "select_parked 3 [recv_case] (empty_plan\<lparr>channel_cases := 1\<rparr>) [Some 5] 0 dispatched
      (snd (mt_select (Some 3) [recv_case] True [Some 5] 0 True dispatched))"
    using m[OF _ v(2) k(4,2), of "Some 3" 0 True] f(2) pl by (simp split: if_splits)
  then have "select_recv_q (chan_mem (snd (mt_select (Some 3) [recv_case] True [Some 5] 0 True dispatched)) 7) = [5] \<and>
      state (task_mem (snd (mt_select (Some 3) [recv_case] True [Some 5] 0 True dispatched)) 3) = MT_TASK_WAITING_SELECT"
    using k(5) by (simp add: select_parked_def Let_def registrations_def with_queued_def queued_def is_chan_case_def recv_case_def)
  moreover have "mt_select (Some 3) [recv_case, default_case] True [] 0 True dispatched = (Selected MT_OK (Some 1), dispatched)"
    using m[OF _ v(1) k(3,1), of "Some 3" 0 True] f(1) by (simp add: prod_eq_iff)
  ultimately show ?thesis by simp
qed

text \<open>
  C19: A select that runs out of memory, in a registration or in the timer, has no effect on anybody
  else: every channel is as before, with the queues in the same order, so are the run queue, the
  timers and the count of waiting tasks, and the caller goes on running without registrations.
\<close>

theorem select_nomem_undone:
  assumes "rt_reachable s" and "is_running s t" and "fresh_waiters allocs s" and "known_channels cases s"
    and "mt_select (Some t) cases has_index allocs now ok s = (Selected MT_ERR_NOMEM None, s')"
  shows "chan_mem s' = chan_mem s \<and> runq s' = runq s \<and> timers s' = timers s \<and>
    channel_waiting_count s' = channel_waiting_count s \<and> is_running s' t \<and> select_waiters (task_mem s' t) = []"
proof -
  note wf = reachable_wf[OF assms(1)]
  obtain p where p: "mt_select_park (Some t) cases p allocs now ok s = (Selected MT_ERR_NOMEM None, s')"
    using assms(5) select_try_first[OF wf, of cases 0]
    by (auto simp: mt_select_def split: if_splits option.splits)
  show ?thesis using park_nomem_undone[OF wf assms(3,4) p] assms(2) by (simp add: quiet_part_def is_running_def)
qed

theorem select_nomem_undone_witness:
  "select_waiters (task_mem (snd (mt_select (Some 3) [recv_case] True [None] 0 True dispatched)) 3) = [] \<and>
   fst (mt_select (Some 3) [recv_case] True [None] 0 True dispatched) = Selected MT_ERR_NOMEM None"
proof -
  have "fst (mt_select (Some 3) [recv_case] True [None] 0 True dispatched) = Selected MT_ERR_NOMEM None" by code_simp
  moreover have "is_running dispatched 3" "fresh_waiters [None] dispatched" "known_channels [recv_case] dispatched"
    by code_simp+
  ultimately show ?thesis
    using select_nomem_undone[OF dispatched_reachable, of 3 "[None]" "[recv_case]" True 0 True
        "snd (mt_select (Some 3) [recv_case] True [None] 0 True dispatched)"] by (simp add: prod_eq_iff)
qed

text \<open>
  C17: A parked select is completed by one case only. A send to a channel where the select at the head
  of the queue waits to receive hands the bytes over, makes the selecting task ready with that
  case's index and \<open>MT_OK\<close>, and in the same step removes its registrations from every channel and its
  timeout from the timer heap, so that no other case can fire.
\<close>

theorem select_completed_once:
  assumes "rt_reachable s" and "\<not> ch_closed (chan_mem s c)" and "recv_q (chan_mem s c) = []"
    and "select_recv_q (chan_mem s c) = w # ws" and "sw_task (sw_mem s w) = Some t" and "sw_value (sw_mem s w) = Some p"
    and "mt_chan_send cur (Some c) (Some v) s = (out, s')"
  shows "out = Return MT_OK \<and> runq s' = runq s @ [t] \<and> state (task_mem s' t) = MT_TASK_READY \<and>
    select_result (task_mem s' t) = MT_OK \<and> select_index (task_mem s' t) = sw_index (sw_mem s w) \<and>
    read_mem (user_mem s') p (elem_size (chan_mem s c)) = read_mem (user_mem s) v (elem_size (chan_mem s c)) \<and>
    (\<forall>u. sw_active (sw_mem s' u) \<longrightarrow> sw_task (sw_mem s' u) \<noteq> Some t) \<and> t \<notin> set (items (timers s'))"
proof -
  note wf = reachable_wf[OF assms(1)]
  note pop = select_recv_pop_eq[OF wf_selectD(1)[OF wfD(7)[OF wf]] assms(4)]
  let ?s1 = "s\<lparr>chan_mem := drop_waiters {w} \<circ> chan_mem s, sw_mem := deactivate_all {w} (sw_mem s)\<rparr>"
  let ?s2 = "store_at (Some p) (value_at c (Some v) ?s1) ?s1"
  have now: "send_now c (Some v) s = (Some MT_OK, mt_select_complete_waiter w MT_OK ?s2)"
    using assms(2,3,6) pop by (simp add: send_now_def pop_Nil_eq deactivate_all_def)
  have s': "out = Return MT_OK" "s' = mt_select_complete_waiter w MT_OK ?s2"
    using assms(7) now by (simp_all add: mt_chan_send_def)
  have "sw_task (sw_mem ?s2 w) = Some t" "sw_index (sw_mem ?s2 w) = sw_index (sw_mem s w)"
    using assms(5) by (simp_all add: deactivate_all_def store_at_def)
  note eff = complete_waiter_effect[OF this(1), of MT_OK, folded s'(2)] this(2)
  have "mt_chan_try_send (Some c) (Some v) s = (MT_OK, s')" using now s'(2) by (simp add: mt_chan_try_send_def)
  note w' = wfD[OF wf_try_send[OF wf this]]
  have "t \<in> set (runq s')" using eff(1) by simp
  then have live: "live {} s' t" using w'(1) by (simp add: wf_runq_def)
  then have "select_waiters (task_mem s' t) = []" using wf_selectD(5)[OF w'(7)] eff(2) by simp
  then have "\<forall>u. sw_active (sw_mem s' u) \<longrightarrow> sw_task (sw_mem s' u) \<noteq> Some t"
    using wf_selectD(3)[OF w'(7), of _ t] by auto
  moreover have "t \<notin> set (items (timers s'))" using w'(2) eff(2) by (simp add: wf_timers_def timed_def)
  ultimately show ?thesis using s'(1) eff by (simp add: store_at_def value_at_def)
qed

definition selecting :: mt_state where
  "selecting = switched True (Some 3) (snd (mt_select (Some 3) [recv_case] True [Some 5] 0 True dispatched))"

theorem select_completed_once_witness:
  "fst (mt_chan_send None (Some 7) (Some 20) selecting) = Return MT_OK \<and>
   state (task_mem (snd (mt_chan_send None (Some 7) (Some 20) selecting)) 3) = MT_TASK_READY"
proof -
  obtain out s' where r: "mt_select (Some 3) [recv_case] True [Some 5] 0 True dispatched = (out, s')" by fastforce
  have "fst (mt_select (Some 3) [recv_case] True [Some 5] 0 True dispatched) = SelectPark" by code_simp
  then have out: "out = SelectPark" by (simp add: r)
  have "caller dispatched (Some 3)" "fresh_waiters [Some 5] dispatched" "known_channels [recv_case] dispatched"
    "initialized dispatched"
    by code_simp+
  then have "rt_step dispatched selecting"
    using call_step.select[OF _ _ _ r] by (simp add: rt_step.call selecting_def r out)
  then have "rt_reachable selecting" using dispatched_reachable by (blast intro: reachable_step)
  moreover have "let s = selecting in \<not> ch_closed (chan_mem s 7) \<and> recv_q (chan_mem s 7) = [] \<and>
      select_recv_q (chan_mem s 7) = [5] \<and> sw_task (sw_mem s 5) = Some 3 \<and> sw_value (sw_mem s 5) = Some 10"
    by code_simp
  ultimately show ?thesis
    using select_completed_once[OF _ _ _ _ _ _ prod.collapse[symmetric]] unfolding Let_def by blast
qed

text \<open>
  C20: A value can arrive between the two phases of a select. The polling pass finds the channel
  empty; another thread then sends, successfully, into the buffer; and the select, which does not
  look again before it parks, goes to sleep although its case is ready. Only a later operation on the channel can wake it.
\<close>

theorem select_lost_wakeup:
  assumes "ring_content (chan_mem s c) = []" and "0 < capacity (chan_mem s c)" and "\<not> ch_closed (chan_mem s c)"
    and "recv_q (chan_mem s c) = []" "select_recv_q (chan_mem s c) = []"
    and "send_q (chan_mem s c) = []" "select_send_q (chan_mem s c) = []"
    and "k = \<lparr>sc_op = MT_SELECT_RECV, sc_ch = Some c, sc_value = Some v, sc_timeout_ms = 0\<rparr>"
    and "select_validate [k] 0 empty_plan = Some p"
  shows "select_try [k] 0 s = (None, s) \<and>
    (\<exists>s1 s2. mt_chan_try_send (Some c) (Some u) s = (MT_OK, s1) \<and>
       mt_select_park (Some t) [k] p [Some w] now ok s1 = (SelectPark, s2) \<and>
       state (task_mem s2 t) = MT_TASK_WAITING_SELECT \<and> \<not> select_in_timer (task_mem s2 t) \<and>
       ch_len (chan_mem s2 c) = 1 \<and> runq s2 = runq s)"
proof -
  have len: "ch_len (chan_mem s c) = 0" using assms(1) by (simp add: ring_content_empty)
  have "select_try [k] 0 s = (None, s)"
    using assms(3,6,7) len
    by (simp add: assms(8) is_chan_case_def mt_select_try_case_def mt_chan_try_recv_def recv_now_plain)
  moreover have p: "p = empty_plan\<lparr>channel_cases := 1\<rparr>"
    using assms(9) by (simp add: assms(8) empty_plan_def)
  moreover let ?s1 = "buffer_push c (value_at c (Some u) s) s"
  have "mt_chan_try_send (Some c) (Some u) s = (MT_OK, ?s1)"
    using assms(2-5) len by (simp add: mt_chan_try_send_def send_now_plain)
  moreover obtain s2 where "mt_select_park (Some t) [k] p [Some w] now ok ?s1 = (SelectPark, s2)"
    "state (task_mem s2 t) = MT_TASK_WAITING_SELECT" "\<not> select_in_timer (task_mem s2 t)"
    "ch_len (chan_mem s2 c) = ch_len (chan_mem ?s1 c)" "runq s2 = runq ?s1"
    unfolding p assms(8) by (simp add: mt_select_park_def empty_plan_def is_chan_case_def register_case_def
        Let_def select_recv_push_def mt_task_block_on_select_def)
  moreover have "ch_len (chan_mem ?s1 c) = 1" "runq ?s1 = runq s"
    using len by (simp_all add: buffer_push_def mt_chan_buffer_push_def)
  ultimately show ?thesis by auto
qed

theorem select_lost_wakeup_witness:
  "\<exists>s1 s2. mt_chan_try_send (Some 7) (Some 9) ring_state = (MT_OK, s1) \<and>
     mt_select_park (Some 3) [recv_case] (empty_plan\<lparr>channel_cases := 1\<rparr>) [Some 5] 0 True s1 = (SelectPark, s2) \<and>
     ch_len (chan_mem s2 7) = 1"
proof -
  have "select_validate [recv_case] 0 empty_plan = Some (empty_plan\<lparr>channel_cases := 1\<rparr>)"
    by (simp add: recv_case_def empty_plan_def)
  from select_lost_wakeup[OF ring_state_ok(9) _ _ ring_state_ok(2-5) recv_case_def this, of 9 3 5 0 True] show ?thesis
    by (auto simp: ring_state_ok)
qed

end
