(* ===== verification/Task_Theorems.thy ===== *)
theory Task_Theorems
  imports Reachable Channel_Theorems
begin

text \<open>
  What creation, joining and cancellation promise: a failed creation leaves nothing behind, the end
  of a task releases all who join it, and cancellation interrupts a wait. The last properties show
  two flaws of cancellation.
\<close>

section \<open>Waking the joiners of a handle\<close>

definition released_join :: "mt_rc \<Rightarrow> tptr \<Rightarrow> mt_state \<Rightarrow> bool" where
  "released_join r t s \<longleftrightarrow> state (task_mem s t) = MT_TASK_READY \<and> join_result (task_mem s t) = r \<and>
     join_waiting_on (task_mem s t) = None"

lemma join_waiter_ready_task:
  "task_mem (mt_join_waiter_ready t r s) = (task_mem s)(t := (task_mem s t)\<lparr>join_result := r,
     join_waiting_on := None, state := MT_TASK_READY\<rparr>)"
  by (simp add: mt_join_waiter_ready_def mt_task_complete_join_wait_def mark_ready_eq dec_join_waiting_eq Let_def)

lemma wake_joiners_releases:
  "join_q (handle_mem (wake_joiners h s) h) = [] \<and>
   completed (handle_mem (wake_joiners h s) h) = completed (handle_mem s h) \<and>
   h_status (handle_mem (wake_joiners h s) h) = h_status (handle_mem s h) \<and>
   h_join_result (handle_mem (wake_joiners h s) h) = h_join_result (handle_mem s h) \<and>
   all_tasks (wake_joiners h s) = all_tasks s \<and>
   (\<forall>t. t \<in> set (join_q (handle_mem s h)) \<or> released_join (h_join_result (handle_mem s h)) t s \<longrightarrow>
      released_join (h_join_result (handle_mem s h)) t (wake_joiners h s))"
proof (induction h s rule: wake_joiners.induct)
  case (1 h s)
  show ?case
  proof (cases "join_q (handle_mem s h)")
    case Nil
    then have "wake_joiners h s = s" by (subst wake_joiners.simps) (simp add: join_pop_Nil)
    with Nil show ?thesis by simp
  next
    case (Cons t q)
    then obtain s' where pop: "join_pop h s = (Some t, s')" by (simp add: join_pop_def)
    have s': "all_tasks s' = all_tasks s" "task_mem s' = task_mem s" "join_q (handle_mem s' h) = q"
      "completed (handle_mem s' h) = completed (handle_mem s h)" "h_status (handle_mem s' h) = h_status (handle_mem s h)"
      "h_join_result (handle_mem s' h) = h_join_result (handle_mem s h)"
      using pop Cons by (auto simp: join_pop_def Let_def split: prod.splits)
    let ?r = "mt_join_waiter_ready t (h_join_result (handle_mem s' h)) s'"
    have "wake_joiners h s = wake_joiners h ?r" using pop by (subst wake_joiners.simps) simp
    moreover have "released_join (h_join_result (handle_mem s h)) u ?r"
      if "u = t \<or> released_join (h_join_result (handle_mem s h)) u s" for u
      using that by (auto simp: released_join_def join_waiter_ready_task s')
    ultimately show ?thesis using 1[OF pop[symmetric] refl] Cons s' by auto
  qed
qed

lemma handle_free_mem [simp]: "handle_mem (mt_handle_free_if_possible h s) = handle_mem s"
  "task_mem (mt_handle_free_if_possible h s) = task_mem s" "all_tasks (mt_handle_free_if_possible h s) = all_tasks s"
  by (simp_all add: mt_handle_free_if_possible_def mt_handle_unregister_def)

lemma task_destroy_task_mem: "u \<noteq> t \<Longrightarrow> task_mem (mt_task_destroy t s) u = task_mem s u"
  using free_waiters_shape[of "select_waiters (task_mem s t)" s]
  by (auto simp: mt_task_destroy_def free_task_stack_def Let_def mt_select_free_task_waiters_def mt_fd_free_waiter_def
      mt_fd_waiter_remove_def split: option.split)

text \<open>The last thing that happens to a task with a handle.\<close>

lemma retire_effect:
  assumes "\<not> completed (handle_mem s h)" and "s' = mt_task_destroy t (mt_handle_complete h c s)"
    and "r = (if c then MT_ERR_CANCELLED else MT_OK)"
  shows "all_tasks s' = remove1 t (all_tasks s)"
    and "completed (handle_mem s' h)" and "h_join_result (handle_mem s' h) = r" and "join_q (handle_mem s' h) = []"
    and "\<And>u. u \<in> set (join_q (handle_mem s h)) \<Longrightarrow> u \<noteq> t \<Longrightarrow> released_join r u s'"
proof -
  let ?f = "\<lambda>k :: mt_task_handle. k\<lparr>completed := True, h_task := None,
    h_status := (if c then MT_TASK_STATUS_CANCELLED else MT_TASK_STATUS_DONE), h_join_result := r\<rparr>"
  let ?w = "wake_joiners h (upd_handle h ?f s)"
  have s': "s' = mt_task_destroy t (mt_handle_free_if_possible h ?w)"
    using assms by (simp add: mt_handle_complete_def)
  note w = wake_joiners_releases[of h "upd_handle h ?f s"]
  show "all_tasks s' = remove1 t (all_tasks s)" using w by (simp add: s')
  show "completed (handle_mem s' h)" "h_join_result (handle_mem s' h) = r" "join_q (handle_mem s' h) = []"
    using w by (simp_all add: s' task_destroy_objects)
  show "released_join r u s'" if "u \<in> set (join_q (handle_mem s h))" "u \<noteq> t" for u
    using w that by (simp add: s' released_join_def task_destroy_task_mem)
qed

section \<open>Interrupting a wait\<close>

text \<open>What a task that was parked in the given state finds when a cancellation resumes it.\<close>

definition interrupted :: "mt_task_state \<Rightarrow> mt_task \<Rightarrow> bool" where
  "interrupted st k \<longleftrightarrow> state k = MT_TASK_READY \<and>
     (case st of
        MT_TASK_SLEEPING \<Rightarrow> True
      | MT_TASK_WAITING_CHAN \<Rightarrow> chan_result k = MT_ERR_CANCELLED
      | MT_TASK_WAITING_SELECT \<Rightarrow> select_result k = MT_ERR_CANCELLED
      | MT_TASK_WAITING_FD \<Rightarrow> fd_result k = MT_ERR_CANCELLED
      | MT_TASK_WAITING_JOIN \<Rightarrow> join_result k = MT_ERR_CANCELLED
      | _ \<Rightarrow> False)"

definition is_waiting :: "mt_task_state \<Rightarrow> bool" where
  "is_waiting st \<longleftrightarrow> st \<in> {MT_TASK_SLEEPING, MT_TASK_WAITING_CHAN, MT_TASK_WAITING_SELECT,
     MT_TASK_WAITING_FD, MT_TASK_WAITING_JOIN}"

lemma cancel_chan:
  assumes wf: "wf {} s" and t: "t \<in> set (all_tasks s)" "state (task_mem s t) = MT_TASK_WAITING_CHAN"
    and s': "s' = mt_task_wake_for_cancel (Some t) s"
  shows "interrupted MT_TASK_WAITING_CHAN (task_mem s' t)" and "runq s' = runq s @ [t]"
    and "channel_waiting_count s' = channel_waiting_count s - 2"
    and "all_tasks s' = all_tasks s" and "u \<noteq> t \<Longrightarrow> task_mem s' u = task_mem s u"
proof -
  have l: "live {} s t" using t(1) by (simp add: live_def)
  have "parked_ok (task_mem s t)" using wfD(10)[OF wf] l by (simp add: wf_live_def)
  then obtain c where c: "chan_wait_ch (task_mem s t) = Some c"
    and k: "chan_wait_kind (task_mem s t) \<noteq> MT_CHAN_WAIT_NONE" using t(2) by (auto simp: parked_ok_def)
  have "waits_send c (task_mem s t) \<or> waits_recv c (task_mem s t)"
    using c k t(2) by (cases "chan_wait_kind (task_mem s t)") (simp_all add: waits_send_def waits_recv_def)
  then have q: "if chan_wait_kind (task_mem s t) = MT_CHAN_WAIT_SEND then t \<in> set (send_q (chan_mem s c))
      else chan_wait_kind (task_mem s t) = MT_CHAN_WAIT_RECV \<and> t \<in> set (recv_q (chan_mem s c))"
    using wfD(3,4)[OF wf] l by (auto simp: wf_send_def wf_recv_def waits_send_def waits_recv_def)
  show "interrupted MT_TASK_WAITING_CHAN (task_mem s' t)" "runq s' = runq s @ [t]"
    "channel_waiting_count s' = channel_waiting_count s - 2" "all_tasks s' = all_tasks s"
    "u \<noteq> t \<Longrightarrow> task_mem s' u = task_mem s u"
    using q c t(2) unfolding s'
    by (cases "chan_wait_kind (task_mem s t)"; simp add: mt_task_wake_for_cancel_def mt_chan_remove_waiter_def
        chan_send_remove_def chan_recv_remove_def mt_task_complete_channel_wait_def mark_ready_eq dec_channel_waiting_eq
        mt_task_clear_channel_wait_def interrupted_def Let_def)+
qed

lemma cancel_join:
  assumes wf: "wf {} s" and t: "t \<in> set (all_tasks s)" "state (task_mem s t) = MT_TASK_WAITING_JOIN"
    and s': "s' = mt_task_wake_for_cancel (Some t) s"
  shows "interrupted MT_TASK_WAITING_JOIN (task_mem s' t)" and "runq s' = runq s @ [t]"
    and "join_waiting_count s' = join_waiting_count s - 2"
    and "all_tasks s' = all_tasks s" and "u \<noteq> t \<Longrightarrow> task_mem s' u = task_mem s u"
proof -
  have l: "live {} s t" using t(1) by (simp add: live_def)
  have "parked_ok (task_mem s t)" using wfD(10)[OF wf] l by (simp add: wf_live_def)
  then obtain h where h: "join_waiting_on (task_mem s t) = Some h" using t(2) by (auto simp: parked_ok_def)
  have "t \<in> set (join_q (handle_mem s h))" using wfD(6)[OF wf] l t(2) h
    by (simp add: wf_joins_def waits_join_def)
  then show "interrupted MT_TASK_WAITING_JOIN (task_mem s' t)" "runq s' = runq s @ [t]"
    "join_waiting_count s' = join_waiting_count s - 2" "all_tasks s' = all_tasks s"
    "u \<noteq> t \<Longrightarrow> task_mem s' u = task_mem s u"
    using h t(2) unfolding s'
    by (simp_all add: mt_task_wake_for_cancel_def mt_handle_remove_joiner_def join_remove_def
        mt_task_complete_join_wait_def mark_ready_eq dec_join_waiting_eq interrupted_def Let_def)
qed

lemma cancel_sleep:
  assumes wf: "wf {} s" and t: "t \<in> set (all_tasks s)" "state (task_mem s t) = MT_TASK_SLEEPING"
    and s': "s' = mt_task_wake_for_cancel (Some t) s"
  shows "interrupted MT_TASK_SLEEPING (task_mem s' t)" and "runq s' = runq s @ [t]"
proof -
  have "t \<in> set (items (timers s))" using wfD(2)[OF wf] t by (simp add: wf_timers_def live_def timed_def)
  then show "interrupted MT_TASK_SLEEPING (task_mem s' t)" "runq s' = runq s @ [t]"
    using t(2) unfolding s'
    by (simp_all add: mt_task_wake_for_cancel_def timer_remove_eq mark_ready_eq interrupted_def)
qed

lemma cancel_select:
  assumes "wf {} s" and "state (task_mem s t) = MT_TASK_WAITING_SELECT" and "s' = mt_task_wake_for_cancel (Some t) s"
  shows "interrupted MT_TASK_WAITING_SELECT (task_mem s' t)" and "runq s' = runq s @ [t]"
  using assms(2) unfolding assms(3)
  by (simp_all add: mt_task_wake_for_cancel_def unpark_eq[OF wf_selectD(1)[OF wfD(7)[OF assms(1)]]]
      select_woken_def select_unqueued_def timer_remove_eq interrupted_def)

lemma cancel_fd:
  assumes wf: "wf {} s" and t: "t \<in> set (all_tasks s)" "state (task_mem s t) = MT_TASK_WAITING_FD"
    and s': "s' = mt_task_wake_for_cancel (Some t) s"
  shows "interrupted MT_TASK_WAITING_FD (task_mem s' t)" and "runq s' = runq s @ [t]"
proof -
  obtain w where w: "fd_waiter (task_mem s t) = Some w"
    using wf_fdsD(7)[OF wfD(8)[OF wf], of t] t by (auto simp: live_def)
  then have "fw_task (fw_mem s w) = Some t" using wf_fdsD(6)[OF wfD(8)[OF wf] t(1)] by auto
  then show "interrupted MT_TASK_WAITING_FD (task_mem s' t)" "runq s' = runq s @ [t]"
    using w t(2) unfolding s'
    by (simp_all add: mt_task_wake_for_cancel_def mt_fd_ready_waiter_def Let_def timer_remove_eq mark_ready_eq
        interrupted_def)
qed

lemma cancel_waiting:
  assumes "wf {} s" and "t \<in> set (all_tasks s)" and "is_waiting (state (task_mem s t))"
    and "s' = mt_task_wake_for_cancel (Some t) s"
  shows "interrupted (state (task_mem s t)) (task_mem s' t) \<and> runq s' = runq s @ [t]"
proof (cases "state (task_mem s t)")
  case MT_TASK_WAITING_CHAN
  then show ?thesis using cancel_chan[OF assms(1,2) _ assms(4)] by simp
next
  case MT_TASK_WAITING_JOIN
  then show ?thesis using cancel_join[OF assms(1,2) _ assms(4)] by simp
next
  case MT_TASK_SLEEPING
  then show ?thesis using cancel_sleep[OF assms(1,2) _ assms(4)] by simp
next
  case MT_TASK_WAITING_SELECT
  then show ?thesis using cancel_select[OF assms(1) _ assms(4)] by simp
next
  case MT_TASK_WAITING_FD
  then show ?thesis using cancel_fd[OF assms(1,2) _ assms(4)] by simp
qed (use assms(3) in \<open>simp_all add: is_waiting_def\<close>)

text \<open>The state in which \<^verbatim>\<open>mt_task_cancel\<close> of a handle that has not completed looks at its task.\<close>

definition cancel_marked :: "hptr \<Rightarrow> mt_state \<Rightarrow> mt_state" where
  "cancel_marked h s = upd_handle h (\<lambda>k. k\<lparr>h_status := MT_TASK_STATUS_CANCELLED\<rparr>)
     (upd_handle h (\<lambda>k. k\<lparr>cancel_requested := True\<rparr>) s)"

lemma cancel_marked_frame [simp]:
  "task_mem (cancel_marked h s) = task_mem s" "all_tasks (cancel_marked h s) = all_tasks s"
  "runq (cancel_marked h s) = runq s" "channel_waiting_count (cancel_marked h s) = channel_waiting_count s"
  "join_waiting_count (cancel_marked h s) = join_waiting_count s" "live_count (cancel_marked h s) = live_count s"
  by (simp_all add: cancel_marked_def)

lemma cancel_reaches_task:
  assumes wf: "wf {} s" and h: "h \<in> set (handles s)" "h_task (handle_mem s h) = Some t"
    and c: "mt_task_cancel (Some h) s = (rc, s')"
  shows "rc = MT_OK" and "s' = mt_task_wake_for_cancel (Some t) (cancel_marked h s)"
    and "wf {} (cancel_marked h s)" and "t \<in> set (all_tasks s)"
proof -
  have t: "t \<in> set (all_tasks s)" "\<not> completed (handle_mem s h)"
    using wf_handlesD(3)[OF wfD(9)[OF wf] h] by auto
  then show "rc = MT_OK" "s' = mt_task_wake_for_cancel (Some t) (cancel_marked h s)" "t \<in> set (all_tasks s)"
    using c h(2) by (simp_all add: mt_task_cancel_def cancel_marked_def)
  show "wf {} (cancel_marked h s)"
    unfolding cancel_marked_def by (rule wf_handle_flags[OF wf_handle_flags[OF wf]]) simp_all
qed

section \<open>A sample run with a handle\<close>

definition joinable :: mt_state where
  "joinable = snd (mt_go_handle (Some 0) 0 good_env (good_create 3 (Some 8)) with_channel)"

definition joinable_running :: mt_state where
  "joinable_running = snd (mt_worker_iter True 0 [] True 0 (snd (mt_run_begin None 1 good_env joinable)))"

definition joinable_stuck :: mt_state where
  "joinable_stuck = switched True (Some 3) (snd (mt_chan_recv (Some 3) (Some 7) (Some 10) joinable_running))"

lemma joinable_reachable: "rt_reachable joinable"
proof -
  have "start_step zero_state with_channel"
    by (rule start_step.chan_create[where new_ch = "Some 7"])
      (auto simp: zero_state_def with_channel_def intro: prod.collapse[symmetric])
  then have "rt_reachable with_channel" by (intro reach_start[OF reachable_start]) simp_all
  moreover have "fresh_objects (good_create 3 (Some 8)) with_channel" by code_simp
  then have "start_step with_channel joinable"
    by (rule start_step.go_handle) (simp add: joinable_def prod_eq_iff)
  ultimately show ?thesis by (rule reach_start)
qed

lemma joinable_running_reachable: "rt_reachable joinable_running"
proof -
  let ?s = "snd (mt_run_begin None 1 good_env joinable)"
  have "start_step joinable ?s" by (rule start_step.run_begin) (simp add: prod_eq_iff)
  with joinable_reachable have "rt_reachable ?s" by (rule reach_start)
  moreover have "initialized ?s" by code_simp
  moreover have "worker_step ?s joinable_running"
    by (rule worker_step.worker_iter) (simp add: joinable_running_def prod_eq_iff)
  ultimately show ?thesis by (blast intro: reachable_step rt_step.worker)
qed

lemma joinable_running_facts:
  "caller joinable_running (Some 3)" "7 \<in> set (channels joinable_running)" "initialized joinable_running"
  "task_turn joinable_running 3" "handle (task_mem joinable_running 3) = Some 8"
  "fst (mt_chan_recv (Some 3) (Some 7) (Some 10) joinable_running) = Park"
  by code_simp+

lemma joinable_stuck_reachable: "rt_reachable joinable_stuck"
proof -
  obtain out s' where r: "mt_chan_recv (Some 3) (Some 7) (Some 10) joinable_running = (out, s')" by fastforce
  have out: "out = Park" using joinable_running_facts(6) by (simp add: r)
  have "call_step joinable_running (switched (out = Park) (Some 3) s')"
    using joinable_running_facts(1,2) r by (rule call_step.recv)
  then have "call_step joinable_running joinable_stuck" by (simp add: joinable_stuck_def r out)
  then show ?thesis using joinable_running_reachable joinable_running_facts(3) by (blast intro: reachable_step rt_step.call)
qed

text \<open>A second task, without a handle, gets stuck on the same channel.\<close>

definition second_running :: mt_state where
  "second_running = snd (mt_worker_iter True 0 [] True 0 (snd (mt_go (Some 0) 0 good_env (good_create 4 None) joinable_stuck)))"

definition both_stuck :: mt_state where
  "both_stuck = switched True (Some 4) (snd (mt_chan_recv (Some 4) (Some 7) (Some 11) second_running))"

lemma second_running_facts:
  "let s = second_running in caller s (Some 4) \<and> 7 \<in> set (channels s) \<and> initialized s \<and>
     \<not> ch_closed (chan_mem s 7) \<and> ch_len (chan_mem s 7) = 0 \<and> send_q (chan_mem s 7) = [] \<and>
     select_send_q (chan_mem s 7) = [] \<and> 8 \<in> set (handles s) \<and> h_task (handle_mem s 8) = Some 3 \<and>
     channel_waiting_count s = 1 \<and> all_tasks s = [4, 3] \<and> state (task_mem s 3) = MT_TASK_WAITING_CHAN \<and>
     handle (task_mem s 4) = None"
  by code_simp

lemma second_recv:
  "mt_chan_recv (Some 4) (Some 7) (Some 11) second_running =
     (Park, chan_recv_push 7 4 (mt_task_block_on_channel 4 7 MT_CHAN_WAIT_RECV (Some 11) second_running))"
  using second_running_facts by (simp add: mt_chan_recv_def recv_now_plain Let_def)

lemma both_stuck_reachable: "rt_reachable both_stuck"
proof -
  let ?s = "snd (mt_go (Some 0) 0 good_env (good_create 4 None) joinable_stuck)"
  have "fresh_objects (good_create 4 None) joinable_stuck" by code_simp
  then have "start_step joinable_stuck ?s" by (rule start_step.go) (rule prod.collapse[symmetric])
  with joinable_stuck_reachable have "rt_reachable ?s" by (rule reach_start)
  moreover have "initialized ?s" by code_simp
  moreover have "worker_step ?s second_running"
    by (rule worker_step.worker_iter) (simp add: second_running_def prod_eq_iff)
  ultimately have r: "rt_reachable second_running" by (blast intro: reachable_step rt_step.worker)
  have "call_step second_running both_stuck"
    using call_step.recv[OF _ _ second_recv] second_running_facts by (simp add: both_stuck_def second_recv Let_def)
  then show ?thesis using r second_running_facts by (auto simp: Let_def intro: reachable_step rt_step.call)
qed

lemma both_stuck_facts:
  "8 \<in> set (handles both_stuck)" "h_task (handle_mem both_stuck 8) = Some 3" "channel_waiting_count both_stuck = 2"
  "all_tasks both_stuck = [4, 3]" "state (task_mem both_stuck 3) = MT_TASK_WAITING_CHAN"
  "state (task_mem both_stuck 4) = MT_TASK_WAITING_CHAN"
  using second_running_facts
  by (simp_all add: both_stuck_def second_recv switched_def mt_task_after_switch_def set_handle_status_def
      chan_recv_push_def mt_task_block_on_channel_def Let_def)

section \<open>Properties\<close>

text \<open>
  C21: When a task with a handle ends, in whatever reachable state, it is destroyed, its handle is
  completed with \<open>MT_OK\<close>, or with \<open>MT_ERR_CANCELLED\<close> if its cancellation was requested, and every
  task that joins it is ready with that result; a later join returns it at once.
\<close>

theorem task_end_releases_joiners:
  assumes "rt_reachable s" and "task_turn s t" and "handle (task_mem s t) = Some h"
    and "r = (if cancel_requested (handle_mem s h) then MT_ERR_CANCELLED else MT_OK)"
    and "s' = mt_task_after_switch t (mt_task_entry_finish t s)"
  shows "t \<notin> set (all_tasks s') \<and> join_q (handle_mem s' h) = [] \<and>
    (\<forall>u \<in> set (join_q (handle_mem s h)). released_join r u s') \<and> mt_join cur (Some h) s' = (Return r, s')"
proof -
  note wf = reachable_wf[OF assms(1)]
  have t: "t \<in> set (all_tasks s)" "state (task_mem s t) = MT_TASK_RUNNING"
    using assms(2) by (simp_all add: task_turn_def is_running_def)
  let ?d = "(mt_task_mark_dead t s)\<lparr>current := None, running_tasks := running_tasks s - 1,
    live_count := live_count s - 1, completed_count := completed_count s + 1\<rparr>"
  have s': "s' = mt_task_destroy t (mt_handle_complete h (cancel_requested (handle_mem s h)) ?d)"
    using assms(3) by (simp add: assms(5) mt_task_after_switch_def mt_task_entry_finish_def mt_task_mark_dead_def
        Let_def upd_task_def)
  have "\<not> completed (handle_mem s h)"
    using wf_handlesD(2)[OF wfD(9)[OF wf] t(1)] wf_handlesD(3)[OF wfD(9)[OF wf]] assms(3) t(2) by fastforce
  then have "\<not> completed (handle_mem ?d h)" by (simp add: mt_task_mark_dead_def)
  note e = retire_effect[OF this s' assms(4)]
  have "distinct (all_tasks s)" using wfD(10)[OF wf] by (simp add: wf_live_def)
  then have "t \<notin> set (all_tasks s')" using e(1) by (simp add: mt_task_mark_dead_def)
  moreover have "released_join r u s'" if "u \<in> set (join_q (handle_mem s h))" for u
  proof -
    have "state (task_mem s u) = MT_TASK_WAITING_JOIN"
      using that wfD(6)[OF wf] by (auto simp: wf_joins_def waits_join_def)
    then have "u \<noteq> t" using t(2) by auto
    then show ?thesis using e(5)[of u] that by (simp add: mt_task_mark_dead_def)
  qed
  ultimately show ?thesis using e(2-4) by (simp add: mt_join_def)
qed

theorem task_end_releases_joiners_witness:
  "3 \<notin> set (all_tasks (mt_task_after_switch 3 (mt_task_entry_finish 3 joinable_running)))"
  using task_end_releases_joiners[OF joinable_running_reachable joinable_running_facts(4,5) refl refl] by blast

text \<open>
  C22: Cancelling a handle interrupts the wait of its task. In every reachable state, a task that
  sleeps, or waits for a channel, a select, a descriptor or a join, is made ready at the end of the
  run queue, and the call it is blocked in will return \<open>MT_ERR_CANCELLED\<close>.
\<close>

theorem cancel_interrupts:
  assumes "rt_reachable s" and "h \<in> set (handles s)" and "h_task (handle_mem s h) = Some t"
    and "is_waiting (state (task_mem s t))" and "mt_task_cancel (Some h) s = (rc, s')"
  shows "rc = MT_OK \<and> interrupted (state (task_mem s t)) (task_mem s' t) \<and> runq s' = runq s @ [t]"
proof -
  note c = cancel_reaches_task[OF reachable_wf[OF assms(1)] assms(2,3,5)]
  show ?thesis using cancel_waiting[OF c(3) _ _ c(2)] c(1,4) assms(4) by simp
qed

lemma joinable_stuck_facts:
  "8 \<in> set (handles joinable_stuck)" "h_task (handle_mem joinable_stuck 8) = Some 3"
  "state (task_mem joinable_stuck 3) = MT_TASK_WAITING_CHAN" "channel_waiting_count joinable_stuck = 1"
proof -
  have "let s = joinable_stuck in 8 \<in> set (handles s) \<and> h_task (handle_mem s 8) = Some 3 \<and>
      state (task_mem s 3) = MT_TASK_WAITING_CHAN \<and> channel_waiting_count s = 1" by code_simp
  then show "8 \<in> set (handles joinable_stuck)" "h_task (handle_mem joinable_stuck 8) = Some 3"
    "state (task_mem joinable_stuck 3) = MT_TASK_WAITING_CHAN" "channel_waiting_count joinable_stuck = 1"
    by (simp_all add: Let_def)
qed

theorem cancel_interrupts_witness:
  "chan_result (task_mem (snd (mt_task_cancel (Some 8) joinable_stuck)) 3) = MT_ERR_CANCELLED"
  using cancel_interrupts[OF joinable_stuck_reachable joinable_stuck_facts(1,2) _ prod.collapse[symmetric]]
  by (simp add: joinable_stuck_facts is_waiting_def interrupted_def)

lemma one_less:
  assumes "all_tasks s' = all_tasks s" and "\<And>u. u \<noteq> t \<Longrightarrow> task_mem s' u = task_mem s u" and "\<not> P (state (task_mem s' t))"
  shows "{u \<in> set (all_tasks s'). P (state (task_mem s' u))} = {u \<in> set (all_tasks s). P (state (task_mem s u))} - {t}"
  using assms by (auto, metis+)

text \<open>The registered tasks that wait for a channel or in a select, and those that wait in a join.\<close>

definition channel_waiting :: "mt_state \<Rightarrow> tptr set" where
  "channel_waiting s = {u \<in> set (all_tasks s). state (task_mem s u) \<in> {MT_TASK_WAITING_CHAN, MT_TASK_WAITING_SELECT}}"

definition join_waiting :: "mt_state \<Rightarrow> tptr set" where
  "join_waiting s = {u \<in> set (all_tasks s). state (task_mem s u) = MT_TASK_WAITING_JOIN}"

text \<open>
  C25: Cancellation loses count of the waiting tasks. Cancelling a task that is blocked on a channel takes
  just that task out of the set of tasks that wait for channels, but lowers
  \<^verbatim>\<open>channel_waiting_count\<close> by two whenever it is two or more: taking the task off the queue lowers it, and
  completing the wait lowers it again. The same happens to \<^verbatim>\<open>join_waiting_count\<close> for a join. The scheduler
  tells a deadlock from these counters, so one cancelled wait hides another task that is stuck.
\<close>

theorem cancel_undercounts:
  assumes "rt_reachable s" and "h \<in> set (handles s)" and "h_task (handle_mem s h) = Some t"
    and "mt_task_cancel (Some h) s = (rc, s')"
  shows "(state (task_mem s t) = MT_TASK_WAITING_CHAN \<and> 2 \<le> channel_waiting_count s \<longrightarrow>
      channel_waiting_count s' + 2 = channel_waiting_count s \<and> t \<in> channel_waiting s \<and>
      channel_waiting s' = channel_waiting s - {t}) \<and>
    (state (task_mem s t) = MT_TASK_WAITING_JOIN \<and> 2 \<le> join_waiting_count s \<longrightarrow>
      join_waiting_count s' + 2 = join_waiting_count s \<and> t \<in> join_waiting s \<and>
      join_waiting s' = join_waiting s - {t})"
proof -
  note c = cancel_reaches_task[OF reachable_wf[OF assms(1)] assms(2-4)]
  note ch = cancel_chan[OF c(3) _ _ c(2)] and jo = cancel_join[OF c(3) _ _ c(2)]
  have "channel_waiting s' = channel_waiting s - {t}" if "state (task_mem s t) = MT_TASK_WAITING_CHAN"
    unfolding channel_waiting_def by (rule one_less) (use ch(1,4,5) c(4) that in \<open>simp_all add: interrupted_def\<close>)
  moreover have "join_waiting s' = join_waiting s - {t}" if "state (task_mem s t) = MT_TASK_WAITING_JOIN"
    unfolding join_waiting_def by (rule one_less) (use jo(1,4,5) c(4) that in \<open>simp_all add: interrupted_def\<close>)
  moreover have "state (task_mem s t) = MT_TASK_WAITING_CHAN \<Longrightarrow> t \<in> channel_waiting s"
    "state (task_mem s t) = MT_TASK_WAITING_JOIN \<Longrightarrow> t \<in> join_waiting s"
    using c(4) by (simp_all add: channel_waiting_def join_waiting_def)
  moreover have "state (task_mem s t) = MT_TASK_WAITING_CHAN \<Longrightarrow> channel_waiting_count s' = channel_waiting_count s - 2"
    "state (task_mem s t) = MT_TASK_WAITING_JOIN \<Longrightarrow> join_waiting_count s' = join_waiting_count s - 2"
    using ch(3) jo(3) c(4) by simp_all
  ultimately show ?thesis by (simp, linarith)
qed

theorem cancel_undercounts_witness:
  "let s = both_stuck; s' = snd (mt_task_cancel (Some 8) s) in
   channel_waiting_count s = 2 \<and> channel_waiting s = {3, 4} \<and>
   channel_waiting_count s' = 0 \<and> channel_waiting s' = {4}"
proof -
  have "channel_waiting both_stuck = {3, 4}" by (auto simp: channel_waiting_def both_stuck_facts)
  moreover have "({3, 4} :: tptr set) - {3} = {4}" by auto
  ultimately show ?thesis
    using cancel_undercounts[OF both_stuck_reachable both_stuck_facts(1,2) prod.collapse[symmetric]]
      both_stuck_facts(3,5) unfolding Let_def by simp
qed

text \<open>
  C24: Cancelling a handle whose task is ready, even one that has run before and only yielded, destroys
  the task without resuming it: it leaves the registry and the run queue, and its handle completes
  with \<open>MT_ERR_CANCELLED\<close>. Such a task never gets to see the request.
\<close>

theorem cancel_ready_destroys:
  assumes "rt_reachable s" and "h \<in> set (handles s)" and "h_task (handle_mem s h) = Some t"
    and "state (task_mem s t) = MT_TASK_READY" and "mt_task_cancel (Some h) s = (rc, s')"
  shows "rc = MT_OK \<and> t \<notin> set (all_tasks s') \<and> t \<notin> set (runq s') \<and> completed (handle_mem s' h) \<and>
    h_join_result (handle_mem s' h) = MT_ERR_CANCELLED"
proof -
  note wf = reachable_wf[OF assms(1)]
  note c = cancel_reaches_task[OF wf assms(2,3,5)]
  let ?m = "cancel_marked h s"
  have h: "handle (task_mem s t) = Some h" "\<not> completed (handle_mem s h)"
    using wf_handlesD(3)[OF wfD(9)[OF wf] assms(2,3)] by auto
  have "t \<in> set (runq ?m)" using wfD(1)[OF wf] c(4) assms(4) by (simp add: wf_runq_def live_def)
  then obtain s1 where r: "mt_runq_remove t ?m = (True, s1)" by (simp add: mt_runq_remove_def)
  then have s1: "task_mem s1 = task_mem s" "all_tasks s1 = all_tasks s" "handle_mem s1 = handle_mem ?m"
    by (auto simp: mt_runq_remove_def split: if_splits)
  let ?d = "(mt_task_mark_dead t s1)\<lparr>live_count := live_count s1 - 1, completed_count := completed_count s1 + 1\<rparr>"
  have d: "s' = mt_task_destroy t (mt_handle_complete h True ?d)"
    using assms(4) h(1) r s1 unfolding c(2) by (simp add: mt_task_wake_for_cancel_def mt_task_mark_dead_def Let_def)
  have "\<not> completed (handle_mem ?d h)" using h(2) s1(3) by (simp add: mt_task_mark_dead_def cancel_marked_def)
  note e = retire_effect[OF this d refl]
  have "distinct (all_tasks s)" using wfD(10)[OF wf] by (simp add: wf_live_def)
  then have n: "t \<notin> set (all_tasks s')" using e(1) by (simp add: mt_task_mark_dead_def s1)
  moreover have "wf {} s'" using wf_cancel[OF wf assms(2,5)] .
  then have "t \<notin> set (runq s')" using n wfD(1) by (auto simp: wf_runq_def live_def)
  ultimately show ?thesis using c(1) e(2,3) by simp
qed

theorem cancel_ready_destroys_witness:
  "completed (handle_mem (snd (mt_task_cancel (Some 8) joinable)) 8)"
proof -
  have "let s = joinable in 8 \<in> set (handles s) \<and> h_task (handle_mem s 8) = Some 3 \<and>
      state (task_mem s 3) = MT_TASK_READY" by code_simp
  then show ?thesis
    using cancel_ready_destroys[OF joinable_reachable _ _ _ prod.collapse[symmetric], of 8 3] by (simp add: Let_def)
qed

text \<open>When a creation has all it needs.\<close>

definition creatable :: "nat option \<Rightarrow> u64 \<Rightarrow> bool \<Rightarrow> create_env \<Rightarrow> mt_state \<Rightarrow> bool" where
  "creatable fn sz want env s \<longleftrightarrow> fn \<noteq> None \<and> (want \<longrightarrow> alloc_handle env \<noteq> None) \<and> alloc_task env \<noteq> None \<and>
     fst (mt_stack_alloc (if sz \<noteq> 0 then sz else default_stack_size s) (sys_page env) (alloc_stack env)
       (guard_ok env)) = MT_OK \<and> make_ctx_ok env"

lemmas create_defs = mt_create_task_internal_def creatable_def Let_def rc_code_neg_iff drop_handle_def fresh_objects_def
  free_task_stack_def
  mt_handle_free_if_possible_def mt_handle_register_def mt_handle_unregister_def zero_handle_def

text \<open>
  C23: Creating a task is all or nothing. With everything it needs, the call registers exactly one task,
  ready at the end of the run queue with the function, the argument and the handle it was given, and
  returns the identifier. Short of anything, a handle, the task, the stack or the context, it returns
  an error and no handle, and the registries, the run queue and the count of live tasks are as before.
\<close>

theorem create_all_or_nothing:
  assumes "fresh_objects env s" and "mt_create_task_internal fn arg sz want env s = (rc, h, s')"
  shows "if creatable fn sz want env s
    then rc = sint (next_id s) \<and> h = (if want then alloc_handle env else None) \<and>
      (\<exists>t. alloc_task env = Some t \<and> runq s' = runq s @ [t] \<and> set (all_tasks s') = insert t (set (all_tasks s)) \<and>
         live_count s' = live_count s + 1 \<and> state (task_mem s' t) = MT_TASK_READY \<and>
         Some (task_fn (task_mem s' t)) = fn \<and> task_arg (task_mem s' t) = arg \<and> handle (task_mem s' t) = h \<and>
         (\<forall>g. h = Some g \<longrightarrow> g \<in> set (handles s') \<and> h_task (handle_mem s' g) = Some t))
    else rc < 0 \<and> h = None \<and> all_tasks s' = all_tasks s \<and> runq s' = runq s \<and> live_count s' = live_count s \<and>
      handles s' = handles s"
proof (cases "alloc_task env")
  case None
  then show ?thesis using assms by (auto simp: create_defs split: if_splits option.splits)
next
  case (Some t)
  let ?st = "mt_stack_alloc (if sz \<noteq> 0 then sz else default_stack_size s) (sys_page env) (alloc_stack env) (guard_ok env)"
  show ?thesis
  proof (cases want)
    case True
    then show ?thesis using assms Some
      by (cases ?st; cases "alloc_handle env"; cases "sz = 0")
        (auto simp: create_defs mt_task_register_def mt_runq_push_def split: if_splits)
  next
    case False
    then show ?thesis using assms Some
      by (cases ?st; cases "sz = 0") (auto simp: create_defs mt_task_register_def mt_runq_push_def split: if_splits)
  qed
qed

theorem create_all_or_nothing_witness:
  "handles (snd (snd (mt_create_task_internal (Some 0) 0 0 True ((good_create 3 (Some 8))\<lparr>alloc_task := None\<rparr>) with_channel))) =
     handles with_channel"
proof -
  let ?env = "(good_create 3 (Some 8))\<lparr>alloc_task := None\<rparr>"
  obtain rc h s' where r: "mt_create_task_internal (Some 0) 0 0 True ?env with_channel = (rc, h, s')" by (rule prod_cases3)
  have "fresh_objects ?env with_channel" by code_simp
  from create_all_or_nothing[OF this r] show ?thesis by (simp add: creatable_def r)
qed

end
