(* ===== verification/Fairness.thy ===== *)
theory Fairness
  imports Stable_Relation Reachable "HOL-Library.Sublist"
begin

text \<open>
  The run queue over arbitrary steps: tasks join at the end and leave from the front or by
  cancellation, so a ready task is not overtaken.
\<close>

section \<open>Joining the run queue at the end\<close>

definition grows :: "mt_state \<Rightarrow> mt_state \<Rightarrow> bool" where
  "grows s s' \<longleftrightarrow> prefix (runq s) (runq s')"

lemma grows_same: "runq s' = runq s \<Longrightarrow> grows s0 s' = grows s0 s"
  by (simp add: grows_def)

lemma grows_push: "grows s0 s \<Longrightarrow> grows s0 (mt_runq_push t s)"
  by (auto simp: grows_def mt_runq_push_def mt_notify_one_def mt_io_backend_wake_def)

interpretation grows: channel_relation grows
proof
  show "grows s0 (snd (mt_fd_waiter_deactivate w b s))" if "grows s0 s" for s0 s w b
    using that by (simp add: grows_def mt_fd_waiter_deactivate_def mt_fd_waiter_set_state_def mt_fd_waiter_unlink_def Let_def)
  show "grows s0 s \<Longrightarrow> grows s0 (mt_runq_push t s)" for s0 s t by (rule grows_push)
qed (auto simp: grows_def chan_send_pop_def chan_recv_pop_def chan_send_remove_def chan_recv_remove_def select_send_push_def
    select_recv_push_def select_send_remove_def select_recv_remove_def select_send_pop_def select_recv_pop_def split_beta)

interpretation grows_switch: switch_relation grows
  by unfold_locales (simp_all add: grows_def mt_task_register_def)

section \<open>What a step does to the run queue\<close>

text \<open>A worker takes the task at the front, after its pass may have made others ready.\<close>

definition dispatches :: "mt_state \<Rightarrow> tptr \<Rightarrow> mt_state \<Rightarrow> bool" where
  "dispatches s u s' \<longleftrightarrow> initialized s \<and>
     ((\<exists>b now es a now'. mt_worker_iter b now es a now' s = (Run u, s')) \<or>
      (\<exists>r. mt_runq_pop s = (Some u, r) \<and> s' = mt_worker_dispatch u r))"

definition takes_front :: "mt_state \<Rightarrow> tptr \<Rightarrow> mt_state \<Rightarrow> bool" where
  "takes_front s u s' \<longleftrightarrow> (\<exists>q. grows s q \<and> runq q = u # runq s') \<and> state (task_mem s' u) = MT_TASK_RUNNING"

text \<open>A cancellation may remove one ready task before it makes others ready.\<close>

definition cancels :: "mt_state \<Rightarrow> mt_state \<Rightarrow> bool" where
  "cancels s s' \<longleftrightarrow> (\<exists>u q. runq q = remove1 u (runq s) \<and> grows q s' \<and> u \<notin> set (all_tasks s'))"

lemma dispatch_fields [simp]:
  "runq (mt_worker_dispatch t s) = runq s" "state (task_mem (mt_worker_dispatch t s) t) = MT_TASK_RUNNING"
  by (simp_all add: mt_worker_dispatch_def mt_task_mark_running_def set_handle_status_def Let_def split: option.split)

lemma idle_runq: "mt_worker_idle b now s = (act, s') \<Longrightarrow> runq s' = runq s"
  by (auto simp: mt_worker_idle_def stop_with_def mt_notify_all_def mt_io_backend_wake_def split: if_splits option.splits)

lemma worker_iter_runq:
  assumes "mt_worker_iter b now es a now' s = (act, s')"
  shows "case act of Run u \<Rightarrow> takes_front s u s' | _ \<Rightarrow> grows s s'"
proof -
  define q where "q = (if \<not> stopping s then mt_poll_fd_waiters_once es a (mt_wake_expired_timers now s) else s)"
  have g: "grows s q" by (simp add: q_def)
  have it: "mt_worker_iter b now es a now' s =
      (if stopping s \<and> (run_result s \<noteq> MT_ERR_CANCELLED \<or> runq s = []) then (Exit, s)
       else let (task, s) = mt_runq_pop q
            in case task of None \<Rightarrow> mt_worker_idle b now' s | Some t \<Rightarrow> (Run t, mt_worker_dispatch t s))"
    by (simp only: mt_worker_iter_def q_def Let_def)
  show ?thesis
  proof (cases "runq q")
    case Nil
    then have p: "mt_runq_pop q = (None, q)" by (simp add: mt_runq_pop_def)
    have "act = Exit \<and> s' = s \<or> mt_worker_idle b now' q = (act, s')" using assms it p by (auto split: if_splits)
    moreover have "grows s s' \<and> (\<forall>u. act \<noteq> Run u)" if i: "mt_worker_idle b now' q = (act, s')"
    proof -
      have "\<forall>u. act \<noteq> Run u" using i by (auto simp: mt_worker_idle_def split: option.splits if_splits)
      then show ?thesis using g idle_runq[OF i] by (simp add: grows_def)
    qed
    ultimately show ?thesis by (auto split: worker_action.split)
  next
    case (Cons u ts)
    then obtain r where p: "mt_runq_pop q = (Some u, r)" "runq r = ts" by (simp add: mt_runq_pop_def)
    have "takes_front s u (mt_worker_dispatch u r)"
      using g Cons p(2) by (auto simp: takes_front_def)
    then show ?thesis using assms it p by (auto split: if_splits)
  qed
qed

lemma dispatches_front: "dispatches s u s' \<Longrightarrow> takes_front s u s'"
proof -
  assume d: "dispatches s u s'"
  show ?thesis
  proof (cases "\<exists>r. mt_runq_pop s = (Some u, r) \<and> s' = mt_worker_dispatch u r")
    case True
    then have "runq s = u # runq s'" "state (task_mem s' u) = MT_TASK_RUNNING"
      by (auto simp: mt_runq_pop_def split: list.splits)
    then show ?thesis unfolding takes_front_def by (intro conjI exI[of _ s]) simp_all
  next
    case False
    then show ?thesis using d worker_iter_runq by (force simp: dispatches_def)
  qed
qed

lemma worker_step_runq: "worker_step s s' \<Longrightarrow> grows s s' \<or> (\<exists>u. takes_front s u s')"
proof (induction rule: worker_step.induct)
  case (worker_iter b now es a now' s act s')
  from worker_iter_runq[OF this] show ?case by (cases act) auto
next
  case (worker_dispatch s t r)
  then have "runq s = t # runq (mt_worker_dispatch t r)" by (auto simp: mt_runq_pop_def split: list.splits)
  then have "takes_front s t (mt_worker_dispatch t r)" unfolding takes_front_def by (intro conjI exI[of _ s]) simp_all
  then show ?case by blast
next
  case (worker_idle s r b now act s')
  then have "runq r = runq s" by (auto simp: mt_runq_pop_def split: list.splits)
  then show ?case using idle_runq[OF worker_idle(2)] by (simp add: grows_def)
next
  case (shutdown s cur)
  then show ?case by (simp add: mt_shutdown_def mt_fd_wake_all_def)
qed (simp_all add: mt_worker_enter_def mt_worker_exit_def mt_run_end_def mt_run_no_memory_def
    mt_run_thread_failed_def mt_run_threads_def mt_worker_thread_main_failed_def stop_with_def Let_def)

lemma waiter_add_grows: "grows s0 s \<Longrightarrow> grows s0 (snd (mt_fd_waiter_add w ctl s))"
  using backend_add_fields(6)[OF prod.collapse[symmetric], of w ctl s]
  by (simp add: grows_def mt_fd_waiter_add_def mt_fd_waiter_set_state_def mt_notify_all_def mt_io_backend_wake_def
      split_beta Let_def)

lemma io_step_runq:
  assumes "io_step s s'"
  shows "grows s s'"
  using assms
proof cases
  case (fd_wait t env fd ev tmo out res r)
  have "grows s (fd_wait_register t w fd ev (w_gen_ok env) s)" for w
    using register_fields(6)[OF refl, of t w fd ev "w_gen_ok env" s] by (simp add: grows_def)
  then have "grows s (snd (mt_fd_wait_begin (Some t) fd ev tmo out env s))"
    by (simp add: mt_fd_wait_begin_def mt_fd_waiter_remove_def waiter_add_grows split_beta Let_def split: option.split)
  then show ?thesis using fd_wait by simp
next
  case (fd_wait_end t w res)
  then show ?thesis using grows.io(5)[of s t w] by simp
next
  case (fd_adopt fd fenv a rc c)
  then show ?thesis using grows.io(1) by blast
qed (simp_all add: grows.io)

lemma complete_all_tasks: "all_tasks (mt_handle_complete h b s) = all_tasks s"
proof -
  have "all_tasks (wake_joiners g r) = all_tasks r" for g r
  proof (induction g r rule: wake_joiners.induct)
    case (1 g r)
    obtain u q where pop: "join_pop g r = (u, q)" by fastforce
    then have "all_tasks q = all_tasks r" by (auto simp: join_pop_def split: prod.splits)
    with 1 pop show ?case by (subst wake_joiners.simps) (simp split: option.split)
  qed
  then show ?thesis
    by (simp add: mt_handle_complete_def mt_handle_free_if_possible_def mt_handle_unregister_def Let_def)
qed

lemma wake_for_cancel_runq:
  assumes "distinct (all_tasks s)"
  shows "grows s (mt_task_wake_for_cancel t s) \<or> cancels s (mt_task_wake_for_cancel t s)"
proof (cases "\<exists>u. t = Some u \<and> state (task_mem s u) = MT_TASK_READY \<and> u \<in> set (runq s)")
  case True
  then obtain u where u: "t = Some u" "state (task_mem s u) = MT_TASK_READY" "u \<in> set (runq s)" by blast
  obtain q where q: "mt_runq_remove u s = (True, q)" "runq q = remove1 u (runq s)" "all_tasks q = all_tasks s"
    using u(3) by (simp add: mt_runq_remove_def)
  have "grows q (mt_task_wake_for_cancel t s)"
    using u(1,2) q(1) by (simp add: mt_task_wake_for_cancel_def Let_def split: option.split)
  moreover have "all_tasks (mt_task_wake_for_cancel t s) = remove1 u (all_tasks s)"
    using u(1,2) q(1,3) by (simp add: mt_task_wake_for_cancel_def Let_def complete_all_tasks mt_task_mark_dead_def split: option.split)
  ultimately show ?thesis using q(2) assms unfolding cancels_def by (intro disjI2 exI[of _ u] exI[of _ q]) simp
next
  case False
  then show ?thesis
    by (auto simp: mt_task_wake_for_cancel_def mt_runq_remove_def split_beta Let_def split: option.split mt_task_state.split)
qed

lemma cancel_runq:
  assumes "distinct (all_tasks s)" and "mt_task_cancel h s = (rc, s')"
  shows "grows s s' \<or> cancels s s'"
proof (cases "\<exists>g. h = Some g \<and> \<not> completed (handle_mem s g)")
  case True
  then obtain g where g: "h = Some g" "\<not> completed (handle_mem s g)" by blast
  define r where "r = upd_handle g (\<lambda>k. k\<lparr>h_status := MT_TASK_STATUS_CANCELLED\<rparr>)
      (upd_handle g (\<lambda>k. k\<lparr>cancel_requested := True\<rparr>) s)"
  have r: "runq r = runq s" "all_tasks r = all_tasks s" by (simp_all add: r_def)
  have "s' = mt_task_wake_for_cancel (h_task (handle_mem r g)) r"
    using assms(2) g by (auto simp: mt_task_cancel_def r_def Let_def)
  then show ?thesis
    using wake_for_cancel_runq[of r "h_task (handle_mem r g)"] assms(1) r by (auto simp: grows_def cancels_def)
next
  case False
  then show ?thesis using assms(2) by (auto simp: mt_task_cancel_def Let_def split: option.splits if_splits)
qed

lemma call_step_runq:
  assumes d: "distinct (all_tasks s)" and "call_step s s'"
  shows "grows s s' \<or> cancels s s'"
  using assms(2)
proof cases
  case (yield t b r)
  then show ?thesis using grows.task_calls(1)[of s "Some t"] by simp
next
  case (sleep t ms now ok b r)
  then show ?thesis using grows.task_calls(2)[of s "Some t" ms now ok] by simp
next
  case (join t h out r)
  then show ?thesis using grows.task_calls(3)[of s "Some t" "Some h"] by simp
next
  case (cancel h rc)
  then show ?thesis using cancel_runq[OF d] by blast
next
  case (send cur c v out r)
  then show ?thesis using grows.chan_calls(3)[OF grows.stays, of s cur "Some c" v] by simp
next
  case (recv cur c v out r)
  then show ?thesis using grows.chan_calls(4)[OF grows.stays, of s cur "Some c" v] by simp
next
  case (try_send ch v rc)
  then show ?thesis using grows.chan_calls(1)[OF grows.stays, of s ch v] by simp
next
  case (try_recv ch v rc)
  then show ?thesis using grows.chan_calls(2)[OF grows.stays, of s ch v] by simp
next
  case (close ch rc)
  then show ?thesis using grows.chan_calls(5)[OF grows.stays, of s ch] by simp
next
  case (destroy c rc)
  then show ?thesis using grows.chan_calls(6)[OF grows.stays, of s "Some c"] by simp
next
  case (select cur allocs cases ix now ok out r)
  then show ?thesis using grows.select_call[of s cur cases ix allocs now ok] by simp
next
  case (select_park t allocs cases p now ok out r)
  then show ?thesis using grows.select_park[OF grows.stays, of s "Some t" cases p allocs now ok] by simp
qed (simp_all add: mt_task_entry_finish_def)

text \<open>With a task in the run queue the runtime is initialised, so a call that starts it does nothing.\<close>

lemma start_step_runq:
  assumes inv: "runtime_inv s" and ne: "runq s \<noteq> []" and "start_step s s'"
  shows "grows s s' \<or> runq s' = []"
proof -
  have "initialized s"
    using inv ne wfD(1)[of "{}" s] unfolding runtime_inv_def
    by (metis list.set_intros(1) list.exhaust empty_iff list.set(1) live_all wf_runq_def)
  then have i: "ensure_init env s = (ok, r) \<Longrightarrow> ok \<and> r = s" "mt_init_with_options opts env s = (MT_OK, s)" for env ok r opts
    by (auto simp: ensure_init_def mt_init_with_options_def)
  from assms(3) show ?thesis
  proof cases
    case (init opts ienv rc)
    then show ?thesis using i(2) by simp
  next
    case (run_begin cur n ienv r)
    then show ?thesis by (auto simp: mt_run_begin_def split: if_splits prod.splits dest!: i(1))
  next
    case (runtime_start cur n ienv r)
    then show ?thesis
      by (auto simp: mt_runtime_start_def mt_run_begin_def split: if_splits prod.splits dest!: i(1))
  next
    case (chan_create new_ch es n ienv buf_ok junk ch)
    then show ?thesis by (auto simp: mt_chan_create_def split: if_splits prod.splits option.splits dest!: i(1))
  next
    case (teardown m)
    then show ?thesis
      using clear_runtime_fresh by (simp add: mt_shutdown_def Let_def fresh_runtime_def del: clear_runtime_fresh)
  qed (auto simp: mt_go_def mt_go_with_stack_def mt_go_handle_def mt_go_handle_with_stack_def
      split: if_splits prod.splits dest!: i(1) dest: grows.create)
qed

section \<open>Who is ahead\<close>

definition ahead :: "tptr \<Rightarrow> mt_state \<Rightarrow> tptr list" where
  "ahead t s = takeWhile (\<lambda>u. u \<noteq> t) (runq s)"

lemma ahead_grows: "grows s s' \<Longrightarrow> t \<in> set (runq s) \<Longrightarrow> ahead t s' = ahead t s"
  by (auto simp: grows_def ahead_def prefix_def takeWhile_append1)

lemma ahead_front:
  assumes "takes_front s u s'" and "t \<in> set (runq s)" and "t \<noteq> u"
  shows "ahead t s = u # ahead t s'"
proof -
  obtain q where q: "grows s q" "runq q = u # runq s'" using assms(1) by (auto simp: takes_front_def)
  then show ?thesis using ahead_grows[OF q(1) assms(2)] assms(3) by (simp add: ahead_def)
qed

lemma takeWhile_remove1: "u \<noteq> t \<Longrightarrow> takeWhile (\<lambda>x. x \<noteq> t) (remove1 u xs) = remove1 u (takeWhile (\<lambda>x. x \<noteq> t) xs)"
  by (induction xs) auto

lemma subseq_remove1: "subseq (remove1 x xs) xs"
  by (induction xs) auto

lemma ahead_cancel:
  assumes "cancels s s'" and "t \<in> set (runq s)" and "t \<in> set (all_tasks s')"
  shows "subseq (ahead t s') (ahead t s)"
proof -
  obtain u q where q: "runq q = remove1 u (runq s)" "grows q s'" "u \<noteq> t" using assms(1,3) by (auto simp: cancels_def)
  have "t \<in> set (runq q)" using q(1,3) assms(2) by (simp add: in_set_remove1)
  then have "ahead t s' = remove1 u (ahead t s)"
    using ahead_grows[OF q(2)] q(1,3) by (simp add: ahead_def takeWhile_remove1)
  then show ?thesis by (simp add: subseq_remove1)
qed

text \<open>One step: nobody gets ahead of a task that stays in the run queue.\<close>

lemma front_other:
  assumes "rt_reachable s'" and "takes_front s u s'" and "t \<in> set (runq s')"
  shows "t \<noteq> u"
  using assms wfD(1)[OF reachable_wf[OF assms(1)]] by (auto simp: takes_front_def wf_runq_def)

lemma ahead_step:
  assumes r: "rt_reachable s" and step: "rt_step s s'" and t: "t \<in> set (runq s)" "t \<in> set (runq s')"
  shows "subseq (ahead t s') (ahead t s)"
proof -
  have r': "rt_reachable s'" using r step by (rule reachable_step)
  have al: "t \<in> set (all_tasks s')" using wfD(1)[OF reachable_wf[OF r']] t(2) by (auto simp: wf_runq_def live_all)
  have d: "distinct (all_tasks s)" using wfD(10)[OF reachable_wf[OF r]] by (simp add: wf_live_def)
  have "grows s s' \<or> (\<exists>u. takes_front s u s') \<or> cancels s s'"
    using step
  proof cases
    case start
    have "runq s \<noteq> []" "runq s' \<noteq> []" using t by auto
    then show ?thesis using start_step_runq[OF rt.reachable_inv[OF r]] start by blast
  next
    case worker
    then show ?thesis using worker_step_runq by blast
  next
    case call
    then show ?thesis using call_step_runq[OF d] by blast
  next
    case io
    then show ?thesis using io_step_runq by blast
  qed
  then consider "grows s s'" | u where "takes_front s u s'" | "cancels s s'" by blast
  then show ?thesis
  proof cases
    case 1
    show ?thesis unfolding ahead_grows[OF 1 t(1)] by simp
  next
    case (2 u)
    have "ahead t s = u # ahead t s'" using ahead_front[OF 2 t(1) front_other[OF r' 2 t(2)]] .
    then show ?thesis by (simp add: list_emb_Cons)
  next
    case 3
    then show ?thesis using ahead_cancel[OF _ t(1) al] by blast
  qed
qed

section \<open>Properties\<close>

text \<open>A run during which a task stays ready, with the tasks that workers have dispatched, in order.\<close>

inductive waiting_run :: "tptr \<Rightarrow> mt_state \<Rightarrow> tptr list \<Rightarrow> mt_state \<Rightarrow> bool" for t s where
  waiting_start: "t \<in> set (runq s) \<Longrightarrow> waiting_run t s [] s"
| waiting_dispatch: "waiting_run t s us q \<Longrightarrow> dispatches q u s' \<Longrightarrow> t \<in> set (runq s') \<Longrightarrow> waiting_run t s (us @ [u]) s'"
| waiting_other: "waiting_run t s us q \<Longrightarrow> rt_step q s' \<Longrightarrow> t \<in> set (runq s') \<Longrightarrow> waiting_run t s us s'"

lemma dispatches_step: "dispatches s u s' \<Longrightarrow> rt_step s s'"
  by (auto simp: dispatches_def intro: rt_step.worker worker_step.worker_iter worker_step.worker_dispatch)

text \<open>
  C6: A ready task is not overtaken. However many steps of however many threads follow, as long as the
  task is still in the run queue the tasks dispatched in the meantime, followed by those still ahead of
  it, are among the tasks that were ahead of it at the start, in the same order. So no more tasks are
  dispatched before it than were ahead of it.
\<close>

theorem ready_not_overtaken:
  assumes "rt_reachable s" and "waiting_run t s us s'"
  shows "subseq (us @ ahead t s') (ahead t s) \<and> length us \<le> length (ahead t s)"
proof -
  from assms(2) have "subseq (us @ ahead t s') (ahead t s) \<and> rt_reachable s' \<and> t \<in> set (runq s')"
  proof induction
    case waiting_start
    then show ?case using assms(1) by simp
  next
    case (waiting_dispatch us q u r)
    have "rt_reachable r" using waiting_dispatch.IH dispatches_step[OF waiting_dispatch.hyps(2)] by (blast intro: reachable_step)
    moreover note f = dispatches_front[OF waiting_dispatch.hyps(2)]
    ultimately have "ahead t q = u # ahead t r"
      using waiting_dispatch.IH waiting_dispatch.hyps(3) by (intro ahead_front[OF f] front_other[OF _ f]) blast+
    then show ?case using waiting_dispatch.IH waiting_dispatch.hyps(3) \<open>rt_reachable r\<close> by simp
  next
    case (waiting_other us q r)
    then have "subseq (ahead t r) (ahead t q)" using ahead_step by blast
    then have "subseq (us @ ahead t r) (us @ ahead t q)" by (simp add: subseq_append')
    then show ?case using waiting_other subseq_order.trans by (blast intro: reachable_step)
  qed
  then have s: "subseq (us @ ahead t s') (ahead t s)" by blast
  then show ?thesis using list_emb_length[OF s] by simp
qed

text \<open>Two tasks are ready; a worker dispatches the first while the second waits.\<close>

definition two_ready :: mt_state where
  "two_ready = snd (mt_go (Some 0) 0 good_env (good_create 4 None) one_task)"

definition two_begun :: mt_state where
  "two_begun = snd (mt_run_begin None 1 good_env two_ready)"

theorem ready_not_overtaken_witness:
  "\<exists>s'. waiting_run 4 two_begun [3] s' \<and> subseq ([3] @ ahead 4 s') (ahead 4 two_begun)"
proof -
  have "fresh_objects (good_create 4 None) one_task" by code_simp
  then have "start_step one_task two_ready" by (rule start_step.go) (simp add: two_ready_def prod_eq_iff)
  with one_task_reachable have "rt_reachable two_ready" by (rule reach_start)
  moreover have "start_step two_ready two_begun" by (rule start_step.run_begin) (simp add: two_begun_def prod_eq_iff)
  ultimately have r: "rt_reachable two_begun" by (rule reach_start)
  have "let s = two_begun in initialized s \<and> runq s = [3, 4]" by code_simp
  then have b: "initialized two_begun" "runq two_begun = [3, 4]" by (simp_all add: Let_def)
  let ?r = "snd (mt_runq_pop two_begun)"
  have p: "mt_runq_pop two_begun = (Some 3, ?r)" "runq ?r = [4]" using b(2) by (simp_all add: mt_runq_pop_def)
  then have "dispatches two_begun 3 (mt_worker_dispatch 3 ?r)" using b(1) by (auto simp: dispatches_def)
  then have "waiting_run 4 two_begun ([] @ [3]) (mt_worker_dispatch 3 ?r)"
    by (intro waiting_dispatch[OF waiting_start]) (simp_all add: b(2) p(2))
  then have w: "waiting_run 4 two_begun [3] (mt_worker_dispatch 3 ?r)" by simp
  show ?thesis using ready_not_overtaken[OF r w] w by blast
qed

end
