(* ===== verification/Sched_Theorems.thy ===== *)
theory Sched_Theorems
  imports Fairness
begin

text \<open>
  What the scheduler promises: tasks run in the order in which they became ready, a run that reports
  success has finished every task, expired timers are delivered in deadline order, and a shutdown
  leaves a runtime as good as new.
\<close>

section \<open>The next timer\<close>




section \<open>Tearing down\<close>

lemma free_task_waiters_stack: "stack (task_mem (mt_select_free_task_waiters t s) u) = stack (task_mem s u)"
  using free_waiters_shape[of "select_waiters (task_mem s t)" s] by (auto simp: mt_select_free_task_waiters_def)

lemma task_destroy_stack:
  "stack (task_mem (mt_task_destroy t s) u) = (if u = t then zero_stack else stack (task_mem s u))"
  by (simp add: mt_task_destroy_def free_task_stack_def Let_def mt_fd_free_waiter_def mt_fd_waiter_remove_def stack_free_zero
      free_task_waiters_stack split: option.split)

lemma shutdown_task_stack:
  "stack (task_mem (shutdown_task t s) u) = (if u = t then zero_stack else stack (task_mem s u))"
  by (simp add: shutdown_task_def Let_def mt_fd_free_waiter_def mt_fd_waiter_remove_def task_destroy_stack
      free_task_waiters_stack split: option.split)

lemma reset_channels_tasks:
  "task_mem (reset_channels cs s) = task_mem s" "all_tasks (reset_channels cs s) = all_tasks s"
  by (induction cs arbitrary: s) simp_all

lemma reset_handles_tasks:
  "task_mem (reset_handles hs s) = task_mem s" "all_tasks (reset_handles hs s) = all_tasks s"
  by (induction hs arbitrary: s) simp_all

lemma clear_runtime_tasks: "task_mem (clear_runtime s) = task_mem s"
  by (cases s) (simp add: clear_runtime_def mt_runtime.defs)

lemma backend_shutdown_tasks: "task_mem (mt_io_backend_shutdown s) = task_mem s"
  by (simp add: backend_shutdown_defs Let_def)

lemma shutdown_tasks_stacks:
  "t \<in> set (all_tasks s) \<or> stack (task_mem s t) = zero_stack \<Longrightarrow> stack (task_mem (shutdown_tasks s) t) = zero_stack"
proof (induction s rule: shutdown_tasks.induct)
  case (1 s)
  show ?case
  proof (cases "all_tasks s")
    case Nil
    then show ?thesis using 1(2) by (subst shutdown_tasks.simps) simp
  next
    case (Cons u us)
    have "t \<in> set (all_tasks (shutdown_task u s)) \<or> stack (task_mem (shutdown_task u s) t) = zero_stack"
      using 1(2) Cons by (auto simp: shutdown_task_stack)
    then show ?thesis using 1(1)[OF Cons] Cons by (subst shutdown_tasks.simps) simp
  qed
qed

text \<open>What a teardown gives back to the system.\<close>

definition sys_part :: "mt_state \<Rightarrow> sys_call list \<times> int \<times> int \<times> int" where
  "sys_part s = (sys_calls s, io_backend_fd s, io_wake_read_fd s, io_wake_write_fd s)"

lemma free_task_waiters_sys [simp]: "sys_part (mt_select_free_task_waiters t s) = sys_part s"
  using free_waiters_shape[of "select_waiters (task_mem s t)" s]
  by (auto simp: mt_select_free_task_waiters_def sys_part_def)

lemma deactivate_sys [simp]: "sys_part (snd (mt_fd_waiter_deactivate w b s)) = sys_part s"
  by (simp add: mt_fd_waiter_deactivate_def mt_fd_waiter_set_state_def mt_fd_waiter_unlink_def backend_remove_defs
      sys_part_def Let_def)

lemma sys_part_upd [simp]:
  "sys_part (upd_task t f s) = sys_part s" "sys_part (mt_task_unregister t s) = sys_part s"
  "sys_part (s\<lparr>live_count := n\<rparr>) = sys_part s"
  by (simp_all add: sys_part_def)

lemma free_task_stack_sys [simp]:
  "sys_part (free_task_stack t s) =
     (fst (sys_part s) @ map SysRelease (stack_memory (stack (task_mem s t))), snd (sys_part s))"
  by (simp add: free_task_stack_def stack_free_calls sys_part_def)

lemma shutdown_task_sys:
  "sys_part (shutdown_task t s) =
     (fst (sys_part s) @ map SysRelease (stack_memory (stack (task_mem s t))), snd (sys_part s))"
  by (simp add: shutdown_task_def mt_task_destroy_def mt_fd_free_waiter_def mt_fd_waiter_remove_def Let_def
      free_task_waiters_stack split: option.split)

lemma shutdown_tasks_sys:
  "distinct (all_tasks s) \<Longrightarrow> sys_part (shutdown_tasks s) =
     (fst (sys_part s) @ map SysRelease (concat (map (\<lambda>t. stack_memory (stack (task_mem s t))) (all_tasks s))),
      snd (sys_part s))"
proof (induction s rule: shutdown_tasks.induct)
  case (1 s)
  show ?case
  proof (cases "all_tasks s")
    case Nil
    then show ?thesis by (subst shutdown_tasks.simps) (simp add: sys_part_def)
  next
    case (Cons u us)
    have q: "all_tasks (shutdown_task u s) = us" "u \<notin> set us" "distinct us" using Cons 1(2) by simp_all
    have "concat (map (\<lambda>t. stack_memory (stack (task_mem (shutdown_task u s) t))) us) =
        concat (map (\<lambda>t. stack_memory (stack (task_mem s t))) us)"
      using q(2) by (intro arg_cong[of _ _ concat] map_cong) (auto simp: shutdown_task_stack)
    then show ?thesis
      using 1(1)[OF Cons] q Cons by (subst shutdown_tasks.simps) (simp add: shutdown_task_sys)
  qed
qed

lemma reset_sys [simp]: "sys_part (reset_channels cs s) = sys_part s" "sys_part (reset_handles hs s) = sys_part s"
  by (induction cs arbitrary: s; simp add: sys_part_def) (induction hs arbitrary: s; simp add: sys_part_def)

lemma shutdown_sys_calls:
  assumes "distinct (all_tasks s)" and "initialized s" and "\<not> running s"
  shows "sys_calls (mt_shutdown None s) = sys_calls s @ map SysRelease
    (concat (map (\<lambda>t. stack_memory (stack (task_mem s t))) (all_tasks s)) @
     map Descriptor (filter (\<lambda>fd. 0 \<le> fd) [io_backend_fd s, io_wake_read_fd s, io_wake_write_fd s]) @
     [SchedulerContext, RuntimeCond, RuntimeMutex])"
proof -
  let ?r = "reset_handles (handles (reset_channels (channels s) s)) (reset_channels (channels s) s)"
  have r: "all_tasks ?r = all_tasks s" "task_mem ?r = task_mem s" "sys_part ?r = sys_part s"
    by (simp_all add: reset_channels_tasks reset_handles_tasks)
  have "sys_part (shutdown_tasks ?r) =
      (fst (sys_part s) @ map SysRelease (concat (map (\<lambda>t. stack_memory (stack (task_mem s t))) (all_tasks s))), snd (sys_part s))"
    using shutdown_tasks_sys[of ?r] assms(1) unfolding r by blast
  then show ?thesis
    using assms(2,3) by (simp add: mt_shutdown_def Let_def io_backend_shutdown_sys_calls sys_part_def)
qed

section \<open>Properties\<close>

text \<open>
  C26: A worker runs the task that has been ready longest. Whatever timers expire and whatever events
  arrive in its pass, it takes the head of the run queue, marks it running, and leaves the others in
  their order ahead of the tasks this pass has made ready.
\<close>

theorem worker_runs_oldest:
  assumes "rt_reachable s" and "\<not> stopping s" and "runq s = t # ts"
    and "mt_worker_iter b now es a now' s = (act, s')"
  shows "act = Run t \<and> state (task_mem s' t) = MT_TASK_RUNNING \<and> current s' = Some t \<and>
    prefix ts (runq s') \<and> t \<notin> set (runq s')"
proof -
  note wf = reachable_wf[OF assms(1)]
  let ?s = "mt_poll_fd_waiters_once es a (mt_wake_expired_timers now s)"
  have "grows s ?s" by simp
  then have "prefix (t # ts) (runq ?s)" using assms(3) by (simp add: grows_def)
  then obtain ys where q: "runq ?s = t # ts @ ys" by (auto simp: prefix_def)
  then have pop: "fst (mt_runq_pop ?s) = Some t" "runq (snd (mt_runq_pop ?s)) = ts @ ys"
    by (simp_all add: mt_runq_pop_def)
  have s': "act = Run t" "s' = mt_worker_dispatch t (snd (mt_runq_pop ?s))"
    using assms(2,4) pop by (cases "mt_runq_pop ?s"; simp add: mt_worker_iter_def)+
  have d: "state (task_mem s' t) = MT_TASK_RUNNING" "current s' = Some t" "runq s' = ts @ ys"
    using pop(2) by (simp_all add: s'(2) mt_worker_dispatch_def mt_task_mark_running_def Let_def set_handle_status_def
        split: option.split)
  have "wf {} s'" using wf_worker_iter(1)[OF wf assms(4)] .
  then have "t \<notin> set (runq s')" using d(1) wfD(1) by (auto simp: wf_runq_def)
  then show ?thesis using s'(1) d by simp
qed

theorem worker_runs_oldest_witness:
  "fst (mt_worker_iter True 0 [] True 0 started) = Run 3"
proof -
  have "start_step one_task started" by (rule start_step.run_begin) (simp add: started_def prod_eq_iff)
  with one_task_reachable have "rt_reachable started" by (rule reach_start)
  moreover have "let s = started in \<not> stopping s \<and> runq s = [3]" by code_simp
  ultimately show ?thesis using worker_runs_oldest[OF _ _ _ prod.collapse[symmetric]] by (simp add: Let_def)
qed



text \<open>
  C28: Waking the expired timers is exact: the tasks whose deadline has passed, all of them and no
  others, are appended to the run queue in the order of deadline and sequence number, and precisely
  the tasks with a later deadline stay in the timer heap, which is still a heap.
\<close>

theorem expired_timers_exact:
  assumes "rt_reachable s" and "s' = mt_wake_expired_timers now s"
  shows "\<exists>ts. runq s' = runq s @ ts \<and> sorted_wrt (\<lambda>a b. \<not> mt_timer_less (task_mem s) b a) ts \<and> distinct ts \<and>
    set ts = {t \<in> set (all_tasks s). timed (task_mem s t) \<and> wake_ns (task_mem s t) \<le> now} \<and>
    set (items (timers s')) = {t \<in> set (all_tasks s). timed (task_mem s t) \<and> now < wake_ns (task_mem s t)} \<and>
    is_heap (mt_timer_less (task_mem s')) (items (timers s'))"
proof -
  have ok: "timers_ok s" and q: "set (items (timers s)) = {t \<in> set (all_tasks s). timed (task_mem s t)}"
    using wfD(2)[OF reachable_wf[OF assms(1)]] by (auto simp: wf_timers_def live_all)
  obtain ts where ts: "runq s' = runq s @ ts" "mset ts = {#t \<in># mset (items (timers s)). wake_ns (task_mem s t) \<le> now#}"
    "sorted_wrt (\<lambda>a b. \<not> mt_timer_less (task_mem s) b a) ts"
    "mset (items (timers s')) = {#t \<in># mset (items (timers s)). now < wake_ns (task_mem s t)#}" "timers_ok s'"
    using wake_expired_spec[OF ok, of now] unfolding assms(2) by blast
  have "set ts = {t \<in> set (items (timers s)). wake_ns (task_mem s t) \<le> now}"
    using arg_cong[OF ts(2), of set_mset] by simp
  moreover have "set (items (timers s')) = {t \<in> set (items (timers s)). now < wake_ns (task_mem s t)}"
    using arg_cong[OF ts(4), of set_mset] by simp
  moreover have "distinct ts"
    using ok ts(2) by (metis distinct_filter mset_filter mset_eq_imp_distinct_iff timers_ok_def)
  ultimately show ?thesis using ts(1,3,5) q by (auto simp: timers_ok_def)
qed

definition sleeping :: mt_state where
  "sleeping = switched True (Some 3) (snd (mt_sleep_ms (Some 3) 1 0 True dispatched))"

theorem expired_timers_exact_witness:
  "3 \<in> set (runq (mt_wake_expired_timers 1000000 sleeping)) \<and> 3 \<notin> set (runq sleeping)"
proof -
  have p: "fst (mt_sleep_ms (Some 3) 1 0 True dispatched)" by code_simp
  have "task_turn dispatched 3" "initialized dispatched" by code_simp+
  then have "rt_step dispatched sleeping"
    using call_step.sleep[OF _ prod.collapse[symmetric], of dispatched 3 1 0 True] p
    by (simp add: sleeping_def rt_step.call)
  then have r: "rt_reachable sleeping" using dispatched_reachable by (blast intro: reachable_step)
  have f: "let s = sleeping in all_tasks s = [3] \<and> timed (task_mem s 3) \<and> wake_ns (task_mem s 3) = 1000000 \<and> runq s = []"
    by code_simp
  show ?thesis using expired_timers_exact[OF r refl, of 1000000] f by (auto simp: Let_def)
qed

text \<open>
  C35: A shutdown outside a run releases everything and starts over: whatever the reachable state, the
  runtime is uninitialised afterwards, with no task, channel, handle, timer or waiter registered and
  every counter zero. Of stack memory, descriptors and system objects it gives back, once each and in this
  order and nothing else: the memory of the stack of every registered task, the backend descriptor and the two ends of the wake pipe as far as they are
  open, the scheduler context, the condition variable and the mutex. The stacks are cleared, and nobody
  is left in the queues of a channel or a handle, which the program may still hold.
\<close>

theorem shutdown_starts_over:
  assumes "rt_reachable s" and "initialized s" and "\<not> running s" and "s' = mt_shutdown None s"
  shows "\<not> initialized s' \<and> fresh_runtime s' \<and>
    sys_calls s' = sys_calls s @ map SysRelease
      (concat (map (\<lambda>t. stack_memory (stack (task_mem s t))) (all_tasks s)) @
       map Descriptor (filter (\<lambda>fd. 0 \<le> fd) [io_backend_fd s, io_wake_read_fd s, io_wake_write_fd s]) @
       [SchedulerContext, RuntimeCond, RuntimeMutex]) \<and>
    (\<forall>t \<in> set (all_tasks s). stack (task_mem s' t) = zero_stack) \<and>
    (\<forall>c. send_q (chan_mem s' c) = [] \<and> recv_q (chan_mem s' c) = [] \<and>
       select_send_q (chan_mem s' c) = [] \<and> select_recv_q (chan_mem s' c) = []) \<and>
    (\<forall>h. join_q (handle_mem s' h) = [])"
proof -
  note t = inv_teardown[OF rt.reachable_inv[OF assms(1)] assms(2,3), of "\<lambda>_. zero_sw", folded assms(4)]
  have f: "fresh_runtime s'" "\<not> initialized s'" using t by (simp_all add: zero_sw_def)
  then have no: "channels s' = []" "handles s' = []" by (simp_all add: fresh_runtime_def)
  have w: "wf {} (s'\<lparr>sw_mem := \<lambda>_. zero_sw\<rparr>)" using t(1) by (simp add: runtime_inv_def zero_sw_def)
  have "\<forall>c. send_q (chan_mem s' c) = [] \<and> recv_q (chan_mem s' c) = [] \<and>
       select_send_q (chan_mem s' c) = [] \<and> select_recv_q (chan_mem s' c) = []"
    using wfD(5)[OF w] no by (simp add: wf_chans_def)
  moreover have "\<forall>h. join_q (handle_mem s' h) = []"
    using wf_handlesD(4)[OF wfD(9)[OF w]] no by auto
  moreover have "\<forall>t \<in> set (all_tasks s). stack (task_mem s' t) = zero_stack"
    using assms(2,3) by (simp add: assms(4) mt_shutdown_def Let_def clear_runtime_tasks backend_shutdown_tasks
        shutdown_tasks_stacks reset_channels_tasks reset_handles_tasks)
  moreover have "distinct (all_tasks s)" using wfD(10)[OF reachable_wf[OF assms(1)]] by (simp add: wf_live_def)
  then have "sys_calls s' = sys_calls s @ map SysRelease
      (concat (map (\<lambda>t. stack_memory (stack (task_mem s t))) (all_tasks s)) @
       map Descriptor (filter (\<lambda>fd. 0 \<le> fd) [io_backend_fd s, io_wake_read_fd s, io_wake_write_fd s]) @
       [SchedulerContext, RuntimeCond, RuntimeMutex])"
    unfolding assms(4) using assms(2,3) by (rule shutdown_sys_calls)
  ultimately show ?thesis using f by blast
qed

theorem shutdown_starts_over_witness:
  "fresh_runtime (mt_shutdown None one_task) \<and> stack (task_mem (mt_shutdown None one_task) 3) = zero_stack \<and>
   SysRelease (Mapping 0 65552) \<in> set (sys_calls (mt_shutdown None one_task))"
proof -
  have "let s = one_task in initialized s \<and> \<not> running s \<and> all_tasks s = [3] \<and>
      stack_memory (stack (task_mem s 3)) = [Mapping 0 65552]" by code_simp
  then show ?thesis using shutdown_starts_over[OF one_task_reachable _ _ refl] by (simp add: Let_def)
qed

end
