(* ===== verification/Queue_Theorems.thy ===== *)
theory Queue_Theorems
  imports Wait_Queue
begin

text \<open>
  The wait queues are modelled by lists. Here the lists are related to the pointers of the code: on
  every sequence of operations the linked structure returns what the list returns, always returns,
  and leaves the other queues that share its link field alone.
\<close>

section \<open>Sequences of queue operations\<close>

datatype 'a qop = Push 'a | Pop | Remove 'a

datatype 'a qres = Popped "'a option" | Removed bool

text \<open>The operations on a list, which is the specification; \<open>None\<close> if an element would be queued twice.\<close>

fun spec_step :: "'a qop \<Rightarrow> 'a list \<Rightarrow> ('a qres list \<times> 'a list) option" where
  "spec_step (Push x) xs = (if x \<in> set xs then None else Some ([], xs @ [x]))"
| "spec_step Pop xs = (case xs of [] \<Rightarrow> Some ([Popped None], []) | x # ys \<Rightarrow> Some ([Popped (Some x)], ys))"
| "spec_step (Remove x) xs = Some ([Removed (x \<in> set xs)], remove1 x xs)"

fun spec_run :: "'a qop list \<Rightarrow> 'a list \<Rightarrow> ('a qres list \<times> 'a list) option" where
  "spec_run [] xs = Some ([], xs)"
| "spec_run (p # ps) xs =
     (case spec_step p xs of
        None \<Rightarrow> None
      | Some (rs, ys) \<Rightarrow> (case spec_run ps ys of None \<Rightarrow> None | Some (rs', zs) \<Rightarrow> Some (rs @ rs', zs)))"

fun pushed :: "'a qop list \<Rightarrow> 'a set" where
  "pushed [] = {}"
| "pushed (Push x # ps) = insert x (pushed ps)"
| "pushed (_ # ps) = pushed ps"

context fifo_queue
begin

text \<open>The same sequence on the implementation.\<close>

fun step :: "'a qop \<Rightarrow> 'q \<Rightarrow> ('a qres list \<times> 'q) option" where
  "step (Push x) q = Some ([], push q x)"
| "step Pop q = (case pop q of (r, q') \<Rightarrow> Some ([Popped r], q'))"
| "step (Remove x) q = map_option (\<lambda>(b, q'). ([Removed b], q')) (remove q x)"

fun run :: "'a qop list \<Rightarrow> 'q \<Rightarrow> ('a qres list \<times> 'q) option" where
  "run [] q = Some ([], q)"
| "run (p # ps) q =
     (case step p q of
        None \<Rightarrow> None
      | Some (rs, q') \<Rightarrow> (case run ps q' of None \<Rightarrow> None | Some (rs', q'') \<Rightarrow> Some (rs @ rs', q'')))"

lemma step_refines:
  assumes "rep q xs" and "spec_step p xs = Some (rs, ys)"
  shows "\<exists>q'. step p q = Some (rs, q') \<and> rep q' ys"
proof (cases p)
  case (Push x)
  then show ?thesis using assms rep_push by (auto split: if_splits)
next
  case Pop
  then show ?thesis using assms pop_Nil[of q] pop_Cons[of q]
    by (cases xs) force+
next
  case (Remove x)
  then show ?thesis using assms remove_mem[OF assms(1), of x] remove_not_mem[OF assms(1), of x]
    by (cases "x \<in> set xs") (auto simp: remove1_idem)
qed

lemma run_refines:
  "rep q xs \<Longrightarrow> spec_run ps xs = Some (rs, ys) \<Longrightarrow> \<exists>q'. run ps q = Some (rs, q') \<and> rep q' ys"
proof (induction ps arbitrary: q xs rs)
  case (Cons p ps)
  then obtain rs1 zs rs2 where s: "spec_step p xs = Some (rs1, zs)" "spec_run ps zs = Some (rs2, ys)" "rs = rs1 @ rs2"
    by (auto split: option.splits)
  from step_refines[OF Cons.prems(1) s(1)] obtain q1 where q1: "step p q = Some (rs1, q1)" "rep q1 zs" by blast
  from Cons.IH[OF q1(2) s(2)] q1(1) s(3) show ?case by auto
qed simp

end

section \<open>Other queues on the same link field\<close>

lemma step_link:
  assumes "is_queue q xs" and "y \<notin> set xs" and "\<And>x. p = Push x \<Longrightarrow> y \<noteq> x" and "ptr.step p q = Some (rs, q')"
  shows "q_link q' y = q_link q y"
  using assms q_push_link[OF assms(1,2)] q_pop_link[OF assms(1,2)] q_remove_link[OF assms(1,2)]
  by (cases p) (auto split: prod.splits)

lemma spec_step_set: "spec_step p xs = Some (rs, ys) \<Longrightarrow> set ys \<subseteq> set xs \<union> pushed [p]"
  by (cases p) (auto split: if_splits list.splits dest: subsetD[OF set_remove1_subset])

lemma pushed_Cons: "pushed (p # ps) = pushed [p] \<union> pushed ps"
  by (cases p) auto

lemma run_link:
  "is_queue q xs \<Longrightarrow> spec_run ps xs = Some (rs, zs) \<Longrightarrow> y \<notin> set xs \<union> pushed ps \<Longrightarrow> ptr.run ps q = Some (rs, q') \<Longrightarrow>
    q_link q' y = q_link q y"
proof (induction ps arbitrary: q xs rs)
  case (Cons p ps)
  then obtain rs1 us rs2 where s: "spec_step p xs = Some (rs1, us)" "spec_run ps us = Some (rs2, zs)" "rs = rs1 @ rs2"
    by (auto split: option.splits)
  from ptr.step_refines[OF Cons.prems(1) s(1)] obtain q1 where q1: "ptr.step p q = Some (rs1, q1)" "is_queue q1 us" by blast
  have y: "y \<notin> set us \<union> pushed ps" "y \<notin> pushed [p]" "y \<notin> set xs"
    using Cons.prems(3) spec_step_set[OF s(1)] pushed_Cons[of p ps] by auto
  have "ptr.run ps q1 = Some (rs2, q')" using Cons.prems(4) q1(1) s(3) by (auto split: option.splits)
  from Cons.IH[OF q1(2) s(2) y(1) this] have "q_link q' y = q_link q1 y" .
  also have "\<dots> = q_link q y" using step_link[OF Cons.prems(1) y(3) _ q1(1)] y(2) by (cases p) auto
  finally show ?case .
qed simp

section \<open>Properties\<close>

text \<open>
  C29: The pointer-linked queue of the code and the list model that the rest of the development uses
  agree. For every sequence of pushes, pops and removals in which no element is queued twice, both
  terminate with the results of a first-in first-out list and end with its content, the linked
  structure with tail pointer and counter in step, and the counter of the model is that of the code.
  A queue of other elements that shares the link field is still intact.
\<close>

theorem linked_queue_equals_list:
  assumes "is_queue q xs" and "spec_run ps xs = Some (rs, ys)"
    and "chain (q_link q) p zs" and "set zs \<inter> (set xs \<union> pushed ps) = {}"
  shows "\<exists>q'. ptr.run ps q = Some (rs, q') \<and> is_queue q' ys \<and>
    wq.run ps (xs, q_count q) = Some (rs, (ys, q_count q')) \<and> chain (q_link q') p zs"
proof -
  obtain q' where q': "ptr.run ps q = Some (rs, q')" "is_queue q' ys"
    using ptr.run_refines[OF assms(1,2)] by blast
  have "waitq_rep (xs, q_count q) xs" using assms(1) by (simp add: is_queue_def)
  from wq.run_refines[OF this assms(2)] obtain w where w: "wq.run ps (xs, q_count q) = Some (rs, w)" "waitq_rep w ys"
    by blast
  have "w = (ys, q_count q')" using w(2) q'(2) by (cases w) (simp add: is_queue_def)
  moreover have "chain (q_link q') p zs = chain (q_link q) p zs"
    by (rule chain_cong) (use run_link[OF assms(1,2) _ q'(1)] assms(4) in auto)
  ultimately show ?thesis using q' w(1) assms(3) by blast
qed

definition empty_queue :: "nat iqueue" where
  "empty_queue = \<lparr>q_link = (\<lambda>_. None), q_head = None, q_tail = None, q_count = 0\<rparr>"

theorem linked_queue_equals_list_witness:
  "\<exists>q'. ptr.run [Push 4, Push 5, Push 6, Remove 5, Pop, Pop, Pop] empty_queue =
     Some ([Removed True, Popped (Some 4), Popped (Some 6), Popped None], q')"
proof -
  have q: "is_queue empty_queue []" by (simp add: empty_queue_def is_queue_def)
  have r: "spec_run [Push 4, Push 5, Push 6, Remove 5, Pop, Pop, Pop] ([] :: nat list) =
      Some ([Removed True, Popped (Some 4), Popped (Some 6), Popped None], [])" by simp
  have c: "chain (q_link empty_queue) (Some 9) [9]" by (simp add: empty_queue_def)
  from linked_queue_equals_list[OF q r c] show ?thesis by auto
qed

end
