(* ===== verification/Io_Theorems.thy ===== *)
theory Io_Theorems
  imports Reachable
begin

text \<open>
  What the descriptor calls promise: exclusive waits, a close that wakes whoever waits, writes that
  report exactly what was accepted, timeouts that are not cut short, and adoption that can be undone;
  and what goes wrong when a closed descriptor number is used again.
\<close>

unbundle bit_operations_syntax

section \<open>Writing\<close>

text \<open>The system accepts at most the bytes it is offered.\<close>

fun writes_within :: "nat \<Rightarrow> io_round list \<Rightarrow> bool" where
  "writes_within left [] = True"
| "writes_within left (x # xs) =
     (case io_res x of IoCount n \<Rightarrow> n \<le> left \<and> writes_within (left - n) xs | IoErrno e \<Rightarrow> writes_within left xs)"

lemma write_loop_prefix:
  assumes "fd_write_loop d buf sent xs out = (r, out')" and "writes_within (length buf - sent) xs"
    and "out = take sent buf" and "sent \<le> length buf"
  shows "\<exists>k. sent \<le> k \<and> k \<le> length buf \<and> out' = take k buf \<and>
    (r = None \<or> r = Some (int k) \<or> (k = 0 \<and> (\<exists>rc. rc \<noteq> MT_OK \<and> r = Some (rc_code rc))))"
  using assms
proof (induction d buf sent xs out rule: fd_write_loop.induct)
  case (1 d buf sent xs out)
  show ?case
  proof (cases "sent \<ge> length buf \<or> xs = []")
    case True
    then have "(r = None \<or> r = Some (int sent)) \<and> out' = out"
      using 1(4) fd_write_loop.simps[of d buf sent xs out] by (cases "length buf \<le> sent") auto
    then show ?thesis using 1(6,7) by (intro exI[of _ sent]) auto
  next
    case False
    then obtain x ys where xs: "xs = x # ys" and lt: "sent < length buf" by (cases xs) auto
    note eq = fd_write_loop.simps[of d buf sent xs out]
    show ?thesis
    proof (cases "io_res x")
      case (IoCount n)
      have sn: "sent + n \<le> length buf" using 1(5) xs IoCount lt by auto
      then have "out @ take n (drop sent buf) = take (sent + n) buf" using 1(6) by (simp add: take_add)
      moreover have "fd_write_loop d buf (sent + n) ys (out @ take n (drop sent buf)) = (r, out')"
        using 1(4) eq xs IoCount lt by simp
      moreover have "writes_within (length buf - (sent + n)) ys" using 1(5) xs IoCount by simp
      ultimately obtain k where "sent + n \<le> k" "k \<le> length buf" "out' = take k buf"
        "r = None \<or> r = Some (int k) \<or> (k = 0 \<and> (\<exists>rc. rc \<noteq> MT_OK \<and> r = Some (rc_code rc)))"
        using 1(1)[OF _ xs IoCount] sn lt by auto
      then show ?thesis by (intro exI[of _ k]) auto
    next
      case (IoErrno e)
      have ok: "writes_within (length buf - sent) ys" using 1(5) xs IoErrno by simp
      consider (retry) "e = EINTR \<or> e = EAGAIN \<and> round_wait d x = MT_OK" | (fail) "e \<noteq> EINTR" "e \<noteq> EAGAIN"
        | (wait) "e = EAGAIN" "round_wait d x \<noteq> MT_OK" by blast
      then show ?thesis
      proof cases
        case retry
        then have "fd_write_loop d buf sent ys out = (r, out')" using 1(4) eq xs IoErrno lt by auto
        then show ?thesis using 1(2,3)[OF _ xs IoErrno] retry ok lt 1(6,7) by auto
      next
        case fail
        then show ?thesis using 1(4,6,7) eq xs IoErrno lt
          by (intro exI[of _ sent]) (auto simp: mt_io_error_from_errno_def split: if_splits)
      next
        case wait
        then show ?thesis using 1(4,6,7) eq xs IoErrno lt by (intro exI[of _ sent]) (auto split: if_splits)
      qed
    qed
  qed
qed

section \<open>Closing\<close>

definition woken_closed :: "tptr \<Rightarrow> mt_state \<Rightarrow> bool" where
  "woken_closed t s \<longleftrightarrow> state (task_mem s t) = MT_TASK_READY \<and> fd_result (task_mem s t) = MT_ERR_CLOSED"

lemma deactivate_generations [simp]: "fd_generations (snd (mt_fd_waiter_deactivate w b s)) = fd_generations s"
  by (simp add: mt_fd_waiter_deactivate_def Let_def mt_fd_waiter_set_state_def mt_fd_waiter_unlink_def
      backend_remove_defs)

lemma ready_waiter_closed:
  assumes "fw_task (fw_mem s w) = Some t" and "state (task_mem s t) = MT_TASK_WAITING_FD"
    and "s' = mt_fd_ready_waiter w MT_ERR_CLOSED 0 s"
  shows "fw_mem s' = (fw_mem s)(w := (fw_mem s w)\<lparr>fw_state := MT_FD_WAITER_READY_RESERVED\<rparr>)"
    and "fd_waiters s' = fd_waiters s" and "fd_generations s' = fd_generations s" and "woken_closed t s'"
    and "\<And>u. u \<noteq> t \<Longrightarrow> task_mem s' u = task_mem s u"
  using assms by (simp_all add: mt_fd_ready_waiter_def Let_def deactivate_fields timer_remove_eq mark_ready_eq woken_closed_def)

lemma wake_fd_effect:
  assumes "wf {} s" and "set ws \<subseteq> set (fd_waiters s)" and "s' = wake_fd_in fd ws s"
  shows "fd_waiters s' = fd_waiters s \<and> fd_generations s' = fd_generations s \<and>
    (\<forall>v. fw_fd (fw_mem s' v) = fw_fd (fw_mem s v) \<and>
       (mt_fd_waiter_is_active (fw_mem s' v) \<longrightarrow> mt_fd_waiter_is_active (fw_mem s v) \<and> (v \<in> set ws \<longrightarrow> fw_fd (fw_mem s v) \<noteq> fd))) \<and>
    (\<forall>t. woken_closed t s \<or> (\<exists>v \<in> set ws. mt_fd_waiter_is_active (fw_mem s v) \<and> fw_fd (fw_mem s v) = fd \<and>
       fw_task (fw_mem s v) = Some t) \<longrightarrow> woken_closed t s')"
  using assms
proof (induction ws arbitrary: s)
  case (Cons w ws)
  show ?case
  proof (cases "mt_fd_waiter_is_active (fw_mem s w) \<and> fw_fd (fw_mem s w) = fd")
    case False
    then have "s' = wake_fd_in fd ws s" using Cons.prems(3) by auto
    then show ?thesis using Cons.IH[OF Cons.prems(1)] Cons.prems(2) False by auto
  next
    case True
    have w: "w \<in> set (fd_waiters s)" using Cons.prems(2) by simp
    obtain t where t: "fw_task (fw_mem s w) = Some t" using wf_fdsD(3)[OF wfD(8)[OF Cons.prems(1)] w] by blast
    have st: "state (task_mem s t) = MT_TASK_WAITING_FD"
      using wf_fdsD(5)[OF wfD(8)[OF Cons.prems(1)] w t] True by simp
    define r where "r = mt_fd_ready_waiter w MT_ERR_CLOSED 0 s"
    note e = ready_waiter_closed[OF t st r_def]
    have wf: "wf {} r" using wf_fd_ready[OF Cons.prems(1) w t _ st] by (simp add: r_def)
    have "s' = wake_fd_in fd ws r" using Cons.prems(3) True by (simp add: r_def)
    note ih = Cons.IH[OF wf _ this, unfolded e(2,3)]
    have sub: "set ws \<subseteq> set (fd_waiters s)" using Cons.prems(2) by simp
    have i: "woken_closed u r \<Longrightarrow> woken_closed u s'" "v \<in> set ws \<Longrightarrow> mt_fd_waiter_is_active (fw_mem r v) \<Longrightarrow>
        fw_fd (fw_mem r v) = fd \<Longrightarrow> fw_task (fw_mem r v) = Some u \<Longrightarrow> woken_closed u s'" for u v
      using ih[OF sub] by blast+
    have keep: "woken_closed u r" if "woken_closed u s" for u
      using that st e(5)[of u] by (cases "u = t") (simp_all add: woken_closed_def)
    have "woken_closed u s'" if v: "v \<in> set (w # ws)" "mt_fd_waiter_is_active (fw_mem s v)" "fw_fd (fw_mem s v) = fd"
        "fw_task (fw_mem s v) = Some u" for u v
      using v i(1)[of u] i(2)[of v u] e(1,4) t by (cases "v = w") auto
    moreover have "fd_waiters s' = fd_waiters s \<and> fd_generations s' = fd_generations s \<and>
      (\<forall>v. fw_fd (fw_mem s' v) = fw_fd (fw_mem s v) \<and> (mt_fd_waiter_is_active (fw_mem s' v) \<longrightarrow>
         mt_fd_waiter_is_active (fw_mem s v) \<and> (v \<in> set (w # ws) \<longrightarrow> fw_fd (fw_mem s v) \<noteq> fd)))"
      using ih[OF sub] e(1) by (auto simp: mt_fd_waiter_is_active_def split: if_splits)
    ultimately show ?thesis using i(1) keep by blast
  qed
qed simp

lemma gen_find_update:
  "(\<And>g. fg_fd (f g) = fg_fd g) \<Longrightarrow> gen_find fd (gen_update fd f gs) = map_option f (gen_find fd gs)"
  by (induction gs) auto

lemma close_begin_shape:
  assumes "mt_fd_close_begin fd a b s = (None, s')"
  obtains gs where "s' = wake_fd_in fd (fd_waiters s) (s\<lparr>fd_generations := gs\<rparr>)"
    and "map_option fg_closing (gen_find fd gs) = Some True"
proof -
  obtain rc s1 where c: "mt_fd_set_closing fd True a s = (rc, s1)" by fastforce
  have ok: "rc = MT_OK" "s' = mt_fd_wake_for_close fd b s1"
    using assms c by (auto simp: mt_fd_close_begin_def split: if_splits)
  obtain gs where gs: "s1 = s\<lparr>fd_generations := gs\<rparr>" "map_option fg_closing (gen_find fd gs) = Some True"
    using c ok(1) by (auto simp: mt_fd_set_closing_def mt_fd_generation_find_def gen_find_update gen_new_def
        split: option.splits if_splits)
  let ?f = "\<lambda>g. let g = g\<lparr>fg_generation := fg_generation g + 1\<rparr>
    in if fg_generation g = 0 then g\<lparr>fg_generation := 1\<rparr> else g"
  obtain g where g: "gen_find fd gs = Some g" "fg_closing g" using gs(2) by auto
  then have "s' = wake_fd_in fd (fd_waiters s) (s\<lparr>fd_generations := gen_update fd ?f gs\<rparr>)"
    by (simp add: ok(2) mt_fd_wake_for_close_def mt_fd_generation_bump_def gs(1) Let_def)
  moreover have "map_option fg_closing (gen_find fd (gen_update fd ?f gs)) = Some True"
    using g by (simp add: gen_find_update Let_def)
  ultimately show ?thesis using that by blast
qed

lemma wake_fd_nobody: "(\<And>v. v \<in> set ws \<Longrightarrow> fw_fd (fw_mem s v) \<noteq> fd) \<Longrightarrow> wake_fd_in fd ws s = s"
  by (induction ws) auto

section \<open>The loop for an invalid descriptor\<close>

text \<open>The loop without a bound; not returning is \<open>None\<close>.\<close>

partial_function (option) wake_invalid_loop :: "int \<Rightarrow> bool \<Rightarrow> mt_state \<Rightarrow> mt_state option" where
  "wake_invalid_loop fd gen_ok s =
     (case mt_fd_find_waiter fd (MT_FD_READ OR MT_FD_WRITE) gen_ok s of
        (None, s) \<Rightarrow> Some s
      | (Some w, s) \<Rightarrow> wake_invalid_loop fd gen_ok (mt_fd_ready_waiter w MT_ERR_INVALID 0 s))"

lemma wake_invalid_loop_returns:
  "wf {} s \<Longrightarrow> fd_waiting_count s \<le> n \<Longrightarrow> wake_invalid_loop fd a s = Some (wake_invalid n fd a s)"
proof (induction n arbitrary: s)
  case 0
  have "\<not> mt_fd_waiter_is_active (fw_mem s w)" if "w \<in> set (fd_waiters s)" for w
    using wf_fdsD(2)[OF wfD(8)[OF 0(1)]] 0(2) that by (simp add: filter_empty_conv)
  then have "find_waiter_in fd (MT_FD_READ OR MT_FD_WRITE) a ws s = (None, s)" if "set ws \<subseteq> set (fd_waiters s)" for ws
    using that by (induction ws) auto
  then show ?case by (subst wake_invalid_loop.simps) (simp add: mt_fd_find_waiter_def)
next
  case (Suc n)
  obtain r s' where f: "mt_fd_find_waiter fd (MT_FD_READ OR MT_FD_WRITE) a s = (r, s')" by fastforce
  show ?case
  proof (cases r)
    case None
    then show ?thesis using f by (subst wake_invalid_loop.simps) simp
  next
    case (Some w)
    note w = wf_find_waiter[OF Suc.prems(1) f]
    have wa: "w \<in> set (fd_waiters s')" "mt_fd_waiter_is_active (fw_mem s' w)" using w(3) Some by auto
    have "fd_waiting_count s' = fd_waiting_count s"
      using f Some find_waiter_count unfolding mt_fd_find_waiter_def by simp
    then have "fd_waiting_count (mt_fd_ready_waiter w MT_ERR_INVALID 0 s') \<le> n"
      using fd_waiting_count_ready[OF w(1) wa] Suc.prems(2) by simp
    from Suc.IH[OF wf_ready_active[OF w(1) wa] this] f Some show ?thesis
      by (subst wake_invalid_loop.simps) simp
  qed
qed

section \<open>Properties\<close>

text \<open>
  C32: A write reports exactly what the system accepted. Whatever the sequence of partial writes,
  interruptions, waits and errors, the bytes handed over are a prefix of the buffer in order; a
  returned count is the length of that prefix, and an error is returned only if the prefix is empty.
\<close>

theorem write_reports_prefix:
  assumes "mt_fd_write fd has_buf buf tmo env a now xs s = ((Some r, out), s')" and "writes_within (length buf) xs"
  shows "if 0 \<le> r then nat r \<le> length buf \<and> out = take (nat r) buf else out = []"
proof -
  have "out = [] \<and> r \<le> 0 \<or> fd_write_loop (mt_deadline_from_timeout now tmo) buf 0 xs [] = (Some r, out)"
    using assms(1) by (auto simp: mt_fd_write_def rc_code_nonpos split: if_splits prod.splits)
  then show ?thesis
  proof
    assume "fd_write_loop (mt_deadline_from_timeout now tmo) buf 0 xs [] = (Some r, out)"
    from write_loop_prefix[OF this] assms(2) show ?thesis by (auto simp flip: rc_code_neg_iff)
  qed auto
qed

definition short_writes :: "io_round list" where
  "short_writes = [\<lparr>io_res = IoCount 2, io_now = 0, io_wait = (\<lambda>_. MT_OK)\<rparr>,
     \<lparr>io_res = IoErrno EAGAIN, io_now = 0, io_wait = (\<lambda>_. MT_ERR_TIMEOUT)\<rparr>]"

theorem write_reports_prefix_witness:
  "snd (fst (mt_fd_write 4 True [7, 8, 9] 5 \<lparr>getfl = Inr 0, setfl_err = None\<rparr> True 0 short_writes zero_state)) = [7, 8]"
proof -
  let ?w = "mt_fd_write 4 True [7, 8, 9] 5 \<lparr>getfl = Inr 0, setfl_err = None\<rparr> True 0 short_writes zero_state"
  have "fst (fst ?w) = Some 2" by code_simp
  then have "?w = ((Some 2, snd (fst ?w)), snd ?w)" by (simp add: prod_eq_iff)
  from write_reports_prefix[OF this] show ?thesis by (simp add: short_writes_def)
qed

text \<open>
  The time left until a deadline, in whole milliseconds, is rounded up: waiting for it does not
  end before the deadline, nor a millisecond or more after it. This holds unless the deadline is
  within a millisecond of the end of the clock's range away.
\<close>

lemma timeout_left_rounds_up:
  assumes "unat deadline_ns - unat now_ns + 999999 < 2 ^ 64"
  shows "unat deadline_ns \<le> unat now_ns + unat (mt_timeout_left_ms deadline_ns now_ns) * 1000000 \<and>
    unat (mt_timeout_left_ms deadline_ns now_ns) * 1000000 < (unat deadline_ns - unat now_ns) + 1000000"
proof (cases "deadline_ns \<le> now_ns")
  case True
  then show ?thesis by (simp add: mt_timeout_left_ms_def word_le_nat_alt)
next
  case False
  then have lt: "unat now_ns < unat deadline_ns" by (simp add: word_le_nat_alt)
  let ?l = "deadline_ns - now_ns"
  have l: "unat ?l = unat deadline_ns - unat now_ns" using False by (simp add: unat_sub)
  have "unat (999999 + ?l) = unat ?l + 999999" using assms l by (simp add: unat_word_ariths)
  then have "unat (mt_timeout_left_ms deadline_ns now_ns) = (unat ?l + 999999) div 1000000"
    using False by (simp add: mt_timeout_left_ms_def unat_div)
  then show ?thesis using l lt ceil_div[of "unat ?l"] by simp
qed

text \<open>
  How waits on a descriptor are kept exclusive. A wait that overlaps one in progress, even one whose task
  has been woken and not yet returned, fails with \<open>MT_ERR_STATE\<close> and no effect. A wait that parks is
  on an open descriptor for valid events that no other waiter has, and its waiter is registered.
\<close>

lemma fd_wait_exclusive:
  assumes "rt_reachable s" and "mt_fd_wait_begin (Some t) fd events tmo True env s = (res, s')"
    and "0 \<le> fd" and "mt_fd_validate_events events" and "\<not> mt_fd_is_closing fd s"
  shows "if \<exists>v \<in> set (fd_waiters s). fw_fd (fw_mem s v) = fd \<and> fw_events (fw_mem s v) AND events \<noteq> 0
    then res = WaitReturn MT_ERR_STATE 0 \<and> s' = s
    else (\<forall>w. res = WaitPark w \<longrightarrow> w_alloc env = Some w \<and> w \<in> set (fd_waiters s') \<and> fw_fd (fw_mem s' w) = fd \<and>
       fw_events (fw_mem s' w) = events \<and> fw_task (fw_mem s' w) = Some t \<and> fd_waiter (task_mem s' t) = Some w)"
proof (cases "\<exists>v \<in> set (fd_waiters s). fw_fd (fw_mem s v) = fd \<and> fw_events (fw_mem s v) AND events \<noteq> 0")
  case True
  then have "mt_fd_waiter_conflicts fd events s"
    using wf_fdsD(4)[OF wfD(8)[OF reachable_wf[OF assms(1)]]] by (auto simp: mt_fd_waiter_conflicts_def list_ex_iff)
  then have "res = WaitReturn MT_ERR_STATE 0 \<and> s' = s"
    using assms(2-5) by (simp add: mt_fd_wait_begin_def fd_wait_now_def)
  then show ?thesis using True by simp
next
  case False
  have "w_alloc env = Some w \<and> w \<in> set (fd_waiters s') \<and> fw_fd (fw_mem s' w) = fd \<and>
       fw_events (fw_mem s' w) = events \<and> fw_task (fw_mem s' w) = Some t \<and> fd_waiter (task_mem s' t) = Some w"
    if "res = WaitPark w" for w
  proof -
    let ?q = "fd_wait_register t w fd events (w_gen_ok env) s"
    obtain rc q1 where b: "mt_io_backend_add w (w_ctl env) ?q = (rc, q1)" by fastforce
    note q = register_fields[OF refl, of t w fd events "w_gen_ok env" s] and b1 = backend_add_fields[OF b]
    obtain rc2 q2 where add: "mt_fd_waiter_add w (w_ctl env) ?q = (rc2, q2)" by fastforce
    let ?d = "mt_deadline_from_timeout (w_now env) tmo"
    obtain rc3 p where push: "mt_timer_push_state t ?d MT_TASK_WAITING_FD (w_timer_ok env) q2 = (rc3, p)" by fastforce
    have w: "w_alloc env = Some w"
      using assms(2) that by (auto simp: mt_fd_wait_begin_def Let_def split: if_splits option.splits prod.splits)
    then have ok: "rc2 = MT_OK" "rc3 = MT_OK" "s' = upd_task t (\<lambda>k. k\<lparr>fd_in_timer := True\<rparr>) p"
      using assms(2) that add push by (auto simp: mt_fd_wait_begin_def Let_def split: if_splits option.splits)
    have p: "fw_mem p = fw_mem q2" "fd_waiters p = fd_waiters q2" "fd_waiter (task_mem p t) = fd_waiter (task_mem q2 t)"
      by (rule timer_push_eq[OF push[unfolded ok(2)]]; simp add: timer_pushed_def)+
    have "w \<in> set (fd_waiters q2) \<and> task_mem q2 = task_mem ?q \<and> fw_fd (fw_mem q2 w) = fw_fd (fw_mem ?q w) \<and>
        fw_events (fw_mem q2 w) = fw_events (fw_mem ?q w) \<and> fw_task (fw_mem q2 w) = fw_task (fw_mem ?q w)"
      using add b1(1,4) ok(1) unfolding mt_fd_waiter_add_def b Let_def prod.case
      by (auto simp: mt_fd_waiter_set_state_def split: if_splits)
    moreover obtain g where g: "fw_mem ?q = (fw_mem s)(w := zero_fw\<lparr>fw_task := Some t, fw_fd := fd,
        fw_events := events, fw_generation := g\<rparr>)" using q(2) by blast
    then have "fw_fd (fw_mem ?q w) = fd" "fw_events (fw_mem ?q w) = events" "fw_task (fw_mem ?q w) = Some t"
      by (simp_all only: g) simp_all
    moreover have "fd_waiter (task_mem ?q t) = Some w" by (simp only: q(1)) (simp add: registered_def)
    ultimately show ?thesis using p w by (simp add: ok(3))
  qed
  then show ?thesis unfolding if_not_P[OF False] by blast
qed

definition wait_ok :: wait_env where
  "wait_ok = \<lparr>w_poll = PollNone, w_alloc = Some 6, w_gen_ok = True, w_ctl = CTL_OK, w_now = 0, w_timer_ok = True\<rparr>"

text \<open>
  C30: Closing a descriptor leaves nobody waiting for it: the descriptor is marked as closing, no active
  waiter for it is left, and every task that waited for it is ready with the result \<open>MT_ERR_CLOSED\<close>.
\<close>

theorem fd_close_wakes_waiters:
  assumes "rt_reachable s" and "mt_fd_close_begin fd a b s = (None, s')"
  shows "mt_fd_is_closing fd s' \<and>
    (\<forall>w \<in> set (fd_waiters s'). fw_fd (fw_mem s' w) = fd \<longrightarrow> \<not> mt_fd_waiter_is_active (fw_mem s' w)) \<and>
    (\<forall>t \<in> set (all_tasks s). \<forall>w. state (task_mem s t) = MT_TASK_WAITING_FD \<and> fd_waiter (task_mem s t) = Some w \<and>
       fw_fd (fw_mem s w) = fd \<longrightarrow> woken_closed t s')"
proof -
  note wf = reachable_wf[OF assms(1)]
  obtain gs where gs: "s' = wake_fd_in fd (fd_waiters s) (s\<lparr>fd_generations := gs\<rparr>)"
    "map_option fg_closing (gen_find fd gs) = Some True" by (rule close_begin_shape[OF assms(2)])
  have "wf {} (s\<lparr>fd_generations := gs\<rparr>)" using wf by simp
  from wake_fd_effect[OF this _ gs(1), simplified]
  have e: "fd_waiters s' = fd_waiters s" "fd_generations s' = gs"
    "\<And>v. fw_fd (fw_mem s' v) = fw_fd (fw_mem s v)"
    "\<And>v. mt_fd_waiter_is_active (fw_mem s' v) \<Longrightarrow> v \<in> set (fd_waiters s) \<Longrightarrow> fw_fd (fw_mem s v) \<noteq> fd"
    "\<And>t v. v \<in> set (fd_waiters s) \<Longrightarrow> mt_fd_waiter_is_active (fw_mem s v) \<Longrightarrow> fw_fd (fw_mem s v) = fd \<Longrightarrow>
       fw_task (fw_mem s v) = Some t \<Longrightarrow> woken_closed t s'"
    by blast+
  have "woken_closed t s'" if t: "t \<in> set (all_tasks s)" "state (task_mem s t) = MT_TASK_WAITING_FD"
    and w: "fd_waiter (task_mem s t) = Some w" "fw_fd (fw_mem s w) = fd" for t w
  proof -
    have v: "w \<in> set (fd_waiters s)" "fw_task (fw_mem s w) = Some t" using wf_fdsD(6)[OF wfD(8)[OF wf] t(1) w(1)] by auto
    then show ?thesis using e(5)[OF v(1) _ w(2) v(2)] wf_fdsD(5)[OF wfD(8)[OF wf] v] t(2) by simp
  qed
  moreover have "mt_fd_is_closing fd s'"
    using gs(2) e(2) by (auto simp: mt_fd_is_closing_def mt_fd_generation_find_def)
  ultimately show ?thesis by (auto simp: e(1,3) dest: e(4))
qed

text \<open>The sample task, parked in a wait for descriptor 4.\<close>

definition waiting_fd :: mt_state where
  "waiting_fd = switched True (Some 3) (snd (mt_fd_wait_begin (Some 3) 4 MT_FD_READ 5 True wait_ok dispatched))"

lemma waiting_fd_reachable: "rt_reachable waiting_fd"
proof -
  obtain res s' where r: "mt_fd_wait_begin (Some 3) 4 MT_FD_READ 5 True wait_ok dispatched = (res, s')" by fastforce
  have "fst (mt_fd_wait_begin (Some 3) 4 MT_FD_READ 5 True wait_ok dispatched) = WaitPark 6" by code_simp
  then have res: "res = WaitPark 6" by (simp add: r)
  have d: "let s = dispatched in task_turn s 3 \<and> fd_waiters s = [] \<and> initialized s" by code_simp
  then have "rt_step dispatched waiting_fd"
    using io_step.fd_wait[OF _ _ r] by (simp add: Let_def rt_step.io waiting_fd_def r res)
  then show ?thesis using dispatched_reachable by (blast intro: reachable_step)
qed

lemma waiting_fd_facts:
  "fst (mt_fd_close_begin 4 True True waiting_fd) = None" "3 \<in> set (all_tasks waiting_fd)"
  "state (task_mem waiting_fd 3) = MT_TASK_WAITING_FD" "fd_waiter (task_mem waiting_fd 3) = Some 6"
  "fw_fd (fw_mem waiting_fd 6) = 4" "fd_waiters waiting_fd = [6]"
proof -
  have "let s = waiting_fd in fst (mt_fd_close_begin 4 True True s) = None \<and> all_tasks s = [3] \<and>
      state (task_mem s 3) = MT_TASK_WAITING_FD \<and> fd_waiter (task_mem s 3) = Some 6 \<and> fw_fd (fw_mem s 6) = 4 \<and>
      fd_waiters s = [6]"
    by code_simp
  then show "fst (mt_fd_close_begin 4 True True waiting_fd) = None" "3 \<in> set (all_tasks waiting_fd)"
    "state (task_mem waiting_fd 3) = MT_TASK_WAITING_FD" "fd_waiter (task_mem waiting_fd 3) = Some 6"
    "fw_fd (fw_mem waiting_fd 6) = 4" "fd_waiters waiting_fd = [6]"
    by (simp_all add: Let_def)
qed

theorem fd_close_wakes_waiters_witness:
  "woken_closed 3 (snd (mt_fd_close_begin 4 True True waiting_fd))"
proof -
  have "mt_fd_close_begin 4 True True waiting_fd = (None, snd (mt_fd_close_begin 4 True True waiting_fd))"
    using waiting_fd_facts(1) by (simp add: prod_eq_iff)
  from fd_close_wakes_waiters[OF waiting_fd_reachable this] waiting_fd_facts show ?thesis by blast
qed

text \<open>
  C33: The loop of the poll backend that wakes the waiters of an invalid descriptor ends: written as the
  unbounded loop of the code, it returns in every reachable state, and with the result of the model,
  which makes at most as many rounds as there are waiters.
\<close>

theorem poll_invalid_terminates:
  assumes "rt_reachable s"
  shows "wake_invalid_loop fd a s = Some (wake_invalid (length (fd_waiters s)) fd a s)"
proof -
  note wf = reachable_wf[OF assms(1)]
  have "fd_waiting_count s \<le> length (fd_waiters s)" using wf_fdsD(2)[OF wfD(8)[OF wf]] by simp
  then show ?thesis by (rule wake_invalid_loop_returns[OF wf])
qed

theorem poll_invalid_terminates_witness:
  "wake_invalid_loop 4 True waiting_fd = Some (wake_invalid 1 4 True waiting_fd)"
  using poll_invalid_terminates[OF waiting_fd_reachable, of 4 True] by (simp add: waiting_fd_facts)

text \<open>
  Adoption can be undone: adopting a descriptor the runtime does not know makes it non-blocking, if
  it is not so already, and a release with nobody waiting puts back exactly the flags it had. The
  runtime is then in the state it was in before.
\<close>

lemma adopt_release_roundtrip:
  assumes "0 \<le> fd" and "gen_find fd (fd_generations s) = None" and "\<not> mt_fd_waiter_conflicts fd (MT_FD_READ OR MT_FD_WRITE) s"
    and "getfl env = Inr flags" and "0 \<le> flags" and "setfl_err env = None"
    and "mt_fd_adopt fd env True s = (rc, c, s1)" and "mt_fd_release fd None s1 = (rc', c', s2)"
  shows "rc = MT_OK \<and> c = (if flags AND O_NONBLOCK \<noteq> 0 then None else Some (flags OR O_NONBLOCK)) \<and>
    rc' = MT_OK \<and> c' = Some flags \<and> s2 = s"
proof -
  let ?g = "(gen_new fd 1 (- 1))\<lparr>fg_adopted := True, fg_original_flags := flags\<rparr>"
  have a: "rc = MT_OK" "c = (if flags AND O_NONBLOCK \<noteq> 0 then None else Some (flags OR O_NONBLOCK))"
    "s1 = s\<lparr>fd_generations := ?g # fd_generations s\<rparr>"
    using assms(1,2,4,6,7) by (auto simp: mt_fd_adopt_def make_nonblocking_def mt_fd_is_closing_def mt_fd_generation_find_def
        mt_fd_generation_current_def gen_new_def split: if_splits)
  have "mt_fd_waiter_conflicts fd (MT_FD_READ OR MT_FD_WRITE) s1 = mt_fd_waiter_conflicts fd (MT_FD_READ OR MT_FD_WRITE) s"
    by (simp add: a(3) mt_fd_waiter_conflicts_def)
  then have "rc' = MT_OK \<and> c' = Some flags \<and> s2 = s"
    using assms(1,3,5,8) by (simp add: a(3) mt_fd_release_def mt_fd_is_closing_def mt_fd_generation_find_def
        mt_fd_generation_remove_def gen_new_def)
  then show ?thesis using a by simp
qed

text \<open>
  C34: A descriptor number that is used again inherits the flags of its predecessor. Closing keeps the
  entry of the descriptor, with the adoption mark and the flags of the closed file; when the system
  hands out the number again and the new file is adopted and released, the release sets the flags of
  the old file on it, whatever flags the new one had.
\<close>

theorem reused_fd_gets_stale_flags:
  assumes "0 \<le> fd" and "gen_find fd (fd_generations s) = None" and "\<And>v. v \<in> set (fd_waiters s) \<Longrightarrow> fw_fd (fw_mem s v) \<noteq> fd"
    and "getfl env = Inr flags" and "0 \<le> flags" and "setfl_err env = None"
    and "getfl env' = Inr flags'" and "setfl_err env' = None"
    and "mt_fd_adopt fd env True s = (rc1, c1, s1)" and "mt_fd_close_begin fd a b s1 = (r, s2)"
    and "mt_fd_close_end fd None a s2 = (rc3, s3)" and "mt_fd_adopt fd env' True s3 = (rc4, c4, s4)"
    and "mt_fd_release fd None s4 = (rc5, c5, s5)"
  shows "rc1 = MT_OK \<and> r = None \<and> rc3 = MT_OK \<and> rc4 = MT_OK \<and> rc5 = MT_OK \<and> c5 = Some flags"
proof -
  let ?g = "(gen_new fd 1 (- 1))\<lparr>fg_adopted := True, fg_original_flags := flags\<rparr>"
  have 1: "rc1 = MT_OK" "s1 = s\<lparr>fd_generations := ?g # fd_generations s\<rparr>"
    using assms(1,2,4,6,9) by (auto simp: mt_fd_adopt_def make_nonblocking_def mt_fd_is_closing_def mt_fd_generation_find_def
        mt_fd_generation_current_def gen_new_def split: if_splits)
  have 2: "r = None" "s2 = s\<lparr>fd_generations := ?g\<lparr>fg_generation := 2, fg_closing := True\<rparr> # fd_generations s\<rparr>"
    using assms(1,3,10) by (auto simp: 1(2) mt_fd_close_begin_def mt_fd_is_closing_def mt_fd_generation_find_def
        mt_fd_set_closing_def mt_fd_wake_for_close_def mt_fd_generation_bump_def gen_new_def wake_fd_nobody)
  have 3: "rc3 = MT_OK" "s3 = s\<lparr>fd_generations := ?g\<lparr>fg_generation := 2\<rparr> # fd_generations s\<rparr>"
    using assms(11) by (auto simp: 2(2) mt_fd_close_end_def mt_fd_set_closing_def mt_fd_generation_find_def gen_new_def)
  have 4: "rc4 = MT_OK" "s4 = s3"
    using assms(1,7,8,12) by (auto simp: 3(2) mt_fd_adopt_def make_nonblocking_def mt_fd_is_closing_def
        mt_fd_generation_find_def mt_fd_generation_current_def gen_new_def split: if_splits)
  have "\<not> mt_fd_waiter_conflicts fd (MT_FD_READ OR MT_FD_WRITE) s4"
    using assms(3) by (auto simp: 4(2) 3(2) mt_fd_waiter_conflicts_def list_ex_iff)
  then have "rc5 = MT_OK \<and> c5 = Some flags"
    using assms(1,5,13) by (auto simp: 4(2) 3(2) mt_fd_release_def mt_fd_is_closing_def mt_fd_generation_find_def
        mt_fd_generation_remove_def gen_new_def)
  then show ?thesis using 1(1) 2(1) 3(1) 4(1) by simp
qed

theorem reused_fd_gets_stale_flags_witness:
  "\<exists>s1 s2 s3 s4 s5. snd (snd (mt_fd_adopt 4 \<lparr>getfl = Inr 2, setfl_err = None\<rparr> True zero_state)) = s1 \<and>
     snd (mt_fd_close_begin 4 True True s1) = s2 \<and> snd (mt_fd_close_end 4 None True s2) = s3 \<and>
     snd (snd (mt_fd_adopt 4 \<lparr>getfl = Inr 0, setfl_err = None\<rparr> True s3)) = s4 \<and>
     mt_fd_release 4 None s4 = (MT_OK, Some 2, s5)"
proof -
  obtain rc1 c1 s1 where 1: "mt_fd_adopt 4 \<lparr>getfl = Inr 2, setfl_err = None\<rparr> True zero_state = (rc1, c1, s1)" by (rule prod_cases3)
  obtain r s2 where 2: "mt_fd_close_begin 4 True True s1 = (r, s2)" by fastforce
  obtain rc3 s3 where 3: "mt_fd_close_end 4 None True s2 = (rc3, s3)" by fastforce
  obtain rc4 c4 s4 where 4: "mt_fd_adopt 4 \<lparr>getfl = Inr 0, setfl_err = None\<rparr> True s3 = (rc4, c4, s4)" by (rule prod_cases3)
  obtain rc5 c5 s5 where 5: "mt_fd_release 4 None s4 = (rc5, c5, s5)" by (rule prod_cases3)
  have z: "gen_find 4 (fd_generations zero_state) = None" "\<And>v. v \<in> set (fd_waiters zero_state) \<Longrightarrow> fw_fd (fw_mem zero_state v) \<noteq> 4"
    by (simp_all add: zero_state_def)
  have "rc5 = MT_OK \<and> c5 = Some 2" using reused_fd_gets_stale_flags[OF _ z _ _ _ _ _ 1 2 3 4 5] by simp
  then show ?thesis using 1 2 3 4 5 by simp
qed

end
