(* ===== verification/Testing_Hooks.thy ===== *)
theory Testing_Hooks
  imports Scheduler Stack
begin

text \<open>
  \<^verbatim>\<open>src/testing_hooks.c\<close>: the allocation functions, the fault injection and the counters of the test
  build (\<^verbatim>\<open>MT_TESTING\<close>), the allocation functions of the release build, and the observers of
  \<^verbatim>\<open>microthread_debug.h\<close>; with them the places in \<^verbatim>\<open>stack.c\<close>, \<^verbatim>\<open>timer.c\<close> and \<^verbatim>\<open>io_backend.c\<close> that
  the test build instruments.

  The block that \<^verbatim>\<open>calloc\<close>, \<^verbatim>\<open>malloc\<close> or \<^verbatim>\<open>realloc\<close> would return is an argument, \<open>None\<close> for NULL. The
  counters are \<^verbatim>\<open>size_t\<close> and wrap around.
\<close>

section \<open>State\<close>

record test_hooks =
  g_fail_next_task_alloc :: bool
  g_fail_next_stack_alloc :: bool
  g_fail_next_context_make :: bool
  g_fail_next_timer_alloc :: bool
  g_fail_next_clock_read :: bool
  g_fail_next_channel_alloc :: bool
  g_fail_next_channel_buffer_alloc :: bool
  g_fail_next_handle_alloc :: bool
  g_fail_next_select_alloc :: bool
  g_fail_next_fd_waiter_alloc :: bool
  g_fail_next_io_backend_init :: bool
  g_fail_next_io_backend_register :: bool
  g_fail_next_io_backend_unregister :: bool
  g_task_allocs :: u64
  g_task_frees :: u64
  g_stack_allocs :: u64
  g_stack_frees :: u64
  g_timer_allocs :: u64
  g_timer_frees :: u64
  g_channel_allocs :: u64
  g_channel_frees :: u64
  g_channel_buffer_allocs :: u64
  g_channel_buffer_frees :: u64
  g_handle_allocs :: u64
  g_handle_frees :: u64
  g_select_allocs :: u64
  g_select_frees :: u64
  g_fd_waiter_allocs :: u64
  g_fd_waiter_frees :: u64
  g_io_backend_inits :: u64
  g_io_backend_shutdowns :: u64
  g_io_backend_registers :: u64
  g_io_backend_unregisters :: u64

definition zero_hooks :: test_hooks where
  "zero_hooks = \<lparr>g_fail_next_task_alloc = False, g_fail_next_stack_alloc = False,
     g_fail_next_context_make = False, g_fail_next_timer_alloc = False,
     g_fail_next_clock_read = False, g_fail_next_channel_alloc = False,
     g_fail_next_channel_buffer_alloc = False, g_fail_next_handle_alloc = False,
     g_fail_next_select_alloc = False, g_fail_next_fd_waiter_alloc = False,
     g_fail_next_io_backend_init = False, g_fail_next_io_backend_register = False,
     g_fail_next_io_backend_unregister = False, g_task_allocs = 0, g_task_frees = 0,
     g_stack_allocs = 0, g_stack_frees = 0, g_timer_allocs = 0, g_timer_frees = 0,
     g_channel_allocs = 0, g_channel_frees = 0, g_channel_buffer_allocs = 0,
     g_channel_buffer_frees = 0, g_handle_allocs = 0, g_handle_frees = 0, g_select_allocs = 0,
     g_select_frees = 0, g_fd_waiter_allocs = 0, g_fd_waiter_frees = 0,
     g_io_backend_inits = 0, g_io_backend_shutdowns = 0, g_io_backend_registers = 0,
     g_io_backend_unregisters = 0\<rparr>"

section \<open>Allocation in the test build\<close>

definition mt_alloc_task_memory :: "nat option \<Rightarrow> test_hooks \<Rightarrow> nat option \<times> test_hooks" where
  "mt_alloc_task_memory block h =
     (if g_fail_next_task_alloc h then (None, h\<lparr>g_fail_next_task_alloc := False\<rparr>)
      else (block, if block \<noteq> None then h\<lparr>g_task_allocs := g_task_allocs h + 1\<rparr> else h))"

definition mt_free_task_memory :: "nat option \<Rightarrow> test_hooks \<Rightarrow> test_hooks" where
  "mt_free_task_memory block h =
     (if block \<noteq> None then h\<lparr>g_task_frees := g_task_frees h + 1\<rparr> else h)"

text \<open>\<open>made\<close> is what \<^verbatim>\<open>mt_ctx_make\<close> returns.\<close>

definition mt_make_context :: "int \<Rightarrow> test_hooks \<Rightarrow> int \<times> test_hooks" where
  "mt_make_context made h =
     (if g_fail_next_context_make h then (- 1, h\<lparr>g_fail_next_context_make := False\<rparr>) else (made, h))"

definition mt_alloc_timer_memory :: "nat option \<Rightarrow> test_hooks \<Rightarrow> nat option \<times> test_hooks" where
  "mt_alloc_timer_memory block h =
     (if g_fail_next_timer_alloc h then (None, h\<lparr>g_fail_next_timer_alloc := False\<rparr>)
      else (block, if block \<noteq> None then h\<lparr>g_timer_allocs := g_timer_allocs h + 1\<rparr> else h))"

text \<open>\<open>ptr\<close> is the block to resize. A failed call leaves it allocated.\<close>

definition mt_realloc_timer_memory ::
  "nat option \<Rightarrow> nat option \<Rightarrow> test_hooks \<Rightarrow> nat option \<times> test_hooks" where
  "mt_realloc_timer_memory ptr block h =
     (if g_fail_next_timer_alloc h then (None, h\<lparr>g_fail_next_timer_alloc := False\<rparr>)
      else (block, if block \<noteq> None \<and> ptr = None then h\<lparr>g_timer_allocs := g_timer_allocs h + 1\<rparr> else h))"

definition mt_free_timer_memory :: "nat option \<Rightarrow> test_hooks \<Rightarrow> test_hooks" where
  "mt_free_timer_memory block h =
     (if block \<noteq> None then h\<lparr>g_timer_frees := g_timer_frees h + 1\<rparr> else h)"

definition mt_alloc_channel_memory :: "nat option \<Rightarrow> test_hooks \<Rightarrow> nat option \<times> test_hooks" where
  "mt_alloc_channel_memory block h =
     (if g_fail_next_channel_alloc h then (None, h\<lparr>g_fail_next_channel_alloc := False\<rparr>)
      else (block, if block \<noteq> None then h\<lparr>g_channel_allocs := g_channel_allocs h + 1\<rparr> else h))"

definition mt_free_channel_memory :: "nat option \<Rightarrow> test_hooks \<Rightarrow> test_hooks" where
  "mt_free_channel_memory block h =
     (if block \<noteq> None then h\<lparr>g_channel_frees := g_channel_frees h + 1\<rparr> else h)"

definition mt_alloc_channel_buffer :: "nat option \<Rightarrow> test_hooks \<Rightarrow> nat option \<times> test_hooks" where
  "mt_alloc_channel_buffer block h =
     (if g_fail_next_channel_buffer_alloc h then (None, h\<lparr>g_fail_next_channel_buffer_alloc := False\<rparr>)
      else (block, if block \<noteq> None then h\<lparr>g_channel_buffer_allocs := g_channel_buffer_allocs h + 1\<rparr> else h))"

definition mt_free_channel_buffer :: "nat option \<Rightarrow> test_hooks \<Rightarrow> test_hooks" where
  "mt_free_channel_buffer block h =
     (if block \<noteq> None then h\<lparr>g_channel_buffer_frees := g_channel_buffer_frees h + 1\<rparr> else h)"

definition mt_alloc_handle_memory :: "nat option \<Rightarrow> test_hooks \<Rightarrow> nat option \<times> test_hooks" where
  "mt_alloc_handle_memory block h =
     (if g_fail_next_handle_alloc h then (None, h\<lparr>g_fail_next_handle_alloc := False\<rparr>)
      else (block, if block \<noteq> None then h\<lparr>g_handle_allocs := g_handle_allocs h + 1\<rparr> else h))"

definition mt_free_handle_memory :: "nat option \<Rightarrow> test_hooks \<Rightarrow> test_hooks" where
  "mt_free_handle_memory block h =
     (if block \<noteq> None then h\<lparr>g_handle_frees := g_handle_frees h + 1\<rparr> else h)"

definition mt_alloc_select_waiter :: "nat option \<Rightarrow> test_hooks \<Rightarrow> nat option \<times> test_hooks" where
  "mt_alloc_select_waiter block h =
     (if g_fail_next_select_alloc h then (None, h\<lparr>g_fail_next_select_alloc := False\<rparr>)
      else (block, if block \<noteq> None then h\<lparr>g_select_allocs := g_select_allocs h + 1\<rparr> else h))"

definition mt_free_select_waiter :: "nat option \<Rightarrow> test_hooks \<Rightarrow> test_hooks" where
  "mt_free_select_waiter block h =
     (if block \<noteq> None then h\<lparr>g_select_frees := g_select_frees h + 1\<rparr> else h)"

definition mt_alloc_fd_waiter :: "nat option \<Rightarrow> test_hooks \<Rightarrow> nat option \<times> test_hooks" where
  "mt_alloc_fd_waiter block h =
     (if g_fail_next_fd_waiter_alloc h then (None, h\<lparr>g_fail_next_fd_waiter_alloc := False\<rparr>)
      else (block, if block \<noteq> None then h\<lparr>g_fd_waiter_allocs := g_fd_waiter_allocs h + 1\<rparr> else h))"

definition mt_free_fd_waiter :: "nat option \<Rightarrow> test_hooks \<Rightarrow> test_hooks" where
  "mt_free_fd_waiter block h =
     (if block \<noteq> None then h\<lparr>g_fd_waiter_frees := g_fd_waiter_frees h + 1\<rparr> else h)"

section \<open>Allocation in the release build\<close>

definition mt_alloc_task_memory_release :: "nat option \<Rightarrow> nat option" where
  "mt_alloc_task_memory_release block = block"

definition mt_make_context_release :: "int \<Rightarrow> int" where
  "mt_make_context_release made = made"

definition mt_alloc_timer_memory_release :: "nat option \<Rightarrow> nat option" where
  "mt_alloc_timer_memory_release block = block"

definition mt_realloc_timer_memory_release :: "nat option \<Rightarrow> nat option \<Rightarrow> nat option" where
  "mt_realloc_timer_memory_release ptr block = block"

definition mt_alloc_channel_memory_release :: "nat option \<Rightarrow> nat option" where
  "mt_alloc_channel_memory_release block = block"

definition mt_alloc_channel_buffer_release :: "nat option \<Rightarrow> nat option" where
  "mt_alloc_channel_buffer_release block = block"

definition mt_alloc_handle_memory_release :: "nat option \<Rightarrow> nat option" where
  "mt_alloc_handle_memory_release block = block"

definition mt_alloc_select_waiter_release :: "nat option \<Rightarrow> nat option" where
  "mt_alloc_select_waiter_release block = block"

definition mt_alloc_fd_waiter_release :: "nat option \<Rightarrow> nat option" where
  "mt_alloc_fd_waiter_release block = block"

section \<open>Observers\<close>

definition mt_debug_runnable_count :: "mt_state \<Rightarrow> nat" where
  "mt_debug_runnable_count s = runnable_count s"

definition mt_debug_live_task_count :: "mt_state \<Rightarrow> nat" where
  "mt_debug_live_task_count s = live_count s"

definition mt_debug_completed_task_count :: "mt_state \<Rightarrow> nat" where
  "mt_debug_completed_task_count s = completed_count s"

definition mt_debug_sleeping_task_count :: "mt_state \<Rightarrow> nat" where
  "mt_debug_sleeping_task_count s = length (items (timers s))"

definition mt_debug_channel_waiting_task_count :: "mt_state \<Rightarrow> nat" where
  "mt_debug_channel_waiting_task_count s = channel_waiting_count s"

definition mt_debug_join_waiting_task_count :: "mt_state \<Rightarrow> nat" where
  "mt_debug_join_waiting_task_count s = join_waiting_count s"

definition mt_debug_fd_waiting_task_count :: "mt_state \<Rightarrow> nat" where
  "mt_debug_fd_waiting_task_count s = fd_waiting_count s"

text \<open>\<open>cur\<close> is the task that calls, as \<^verbatim>\<open>mt_current_task\<close> reports it.\<close>

definition mt_debug_current_task_id :: "tptr option \<Rightarrow> mt_state \<Rightarrow> i32" where
  "mt_debug_current_task_id cur s =
     (case cur of None \<Rightarrow> 0 | Some t \<Rightarrow> task_id (task_mem s t))"

definition mt_test_current_stack_base :: "tptr option \<Rightarrow> mt_state \<Rightarrow> nat option" where
  "mt_test_current_stack_base cur s =
     (case cur of None \<Rightarrow> None | Some t \<Rightarrow> usable (stack (task_mem s t)))"

definition mt_test_current_stack_size :: "tptr option \<Rightarrow> mt_state \<Rightarrow> u64" where
  "mt_test_current_stack_size cur s =
     (case cur of None \<Rightarrow> 0 | Some t \<Rightarrow> usable_size (stack (task_mem s t)))"

definition mt_test_current_stack_guard_size :: "tptr option \<Rightarrow> mt_state \<Rightarrow> u64" where
  "mt_test_current_stack_guard_size cur s =
     (case cur of None \<Rightarrow> 0 | Some t \<Rightarrow> guard_size (stack (task_mem s t)))"

section \<open>Fault injection\<close>

definition mt_test_fail_next_task_alloc :: "test_hooks \<Rightarrow> test_hooks" where
  "mt_test_fail_next_task_alloc h = h\<lparr>g_fail_next_task_alloc := True\<rparr>"

definition mt_test_fail_next_stack_alloc :: "test_hooks \<Rightarrow> test_hooks" where
  "mt_test_fail_next_stack_alloc h = h\<lparr>g_fail_next_stack_alloc := True\<rparr>"

definition mt_test_fail_next_context_make :: "test_hooks \<Rightarrow> test_hooks" where
  "mt_test_fail_next_context_make h = h\<lparr>g_fail_next_context_make := True\<rparr>"

definition mt_test_fail_next_timer_alloc :: "test_hooks \<Rightarrow> test_hooks" where
  "mt_test_fail_next_timer_alloc h = h\<lparr>g_fail_next_timer_alloc := True\<rparr>"

definition mt_test_fail_next_clock_read :: "test_hooks \<Rightarrow> test_hooks" where
  "mt_test_fail_next_clock_read h = h\<lparr>g_fail_next_clock_read := True\<rparr>"

definition mt_test_fail_next_channel_alloc :: "test_hooks \<Rightarrow> test_hooks" where
  "mt_test_fail_next_channel_alloc h = h\<lparr>g_fail_next_channel_alloc := True\<rparr>"

definition mt_test_fail_next_channel_buffer_alloc :: "test_hooks \<Rightarrow> test_hooks" where
  "mt_test_fail_next_channel_buffer_alloc h = h\<lparr>g_fail_next_channel_buffer_alloc := True\<rparr>"

definition mt_test_fail_next_handle_alloc :: "test_hooks \<Rightarrow> test_hooks" where
  "mt_test_fail_next_handle_alloc h = h\<lparr>g_fail_next_handle_alloc := True\<rparr>"

definition mt_test_fail_next_select_alloc :: "test_hooks \<Rightarrow> test_hooks" where
  "mt_test_fail_next_select_alloc h = h\<lparr>g_fail_next_select_alloc := True\<rparr>"

definition mt_test_fail_next_fd_waiter_alloc :: "test_hooks \<Rightarrow> test_hooks" where
  "mt_test_fail_next_fd_waiter_alloc h = h\<lparr>g_fail_next_fd_waiter_alloc := True\<rparr>"

definition mt_test_fail_next_io_backend_init :: "test_hooks \<Rightarrow> test_hooks" where
  "mt_test_fail_next_io_backend_init h = h\<lparr>g_fail_next_io_backend_init := True\<rparr>"

definition mt_test_fail_next_io_backend_register :: "test_hooks \<Rightarrow> test_hooks" where
  "mt_test_fail_next_io_backend_register h = h\<lparr>g_fail_next_io_backend_register := True\<rparr>"

definition mt_test_fail_next_io_backend_unregister :: "test_hooks \<Rightarrow> test_hooks" where
  "mt_test_fail_next_io_backend_unregister h = h\<lparr>g_fail_next_io_backend_unregister := True\<rparr>"

definition mt_test_reset_faults :: "test_hooks \<Rightarrow> test_hooks" where
  "mt_test_reset_faults h = h\<lparr>g_fail_next_task_alloc := False, g_fail_next_stack_alloc := False,
     g_fail_next_context_make := False, g_fail_next_timer_alloc := False,
     g_fail_next_clock_read := False, g_fail_next_channel_alloc := False,
     g_fail_next_channel_buffer_alloc := False, g_fail_next_handle_alloc := False,
     g_fail_next_select_alloc := False, g_fail_next_fd_waiter_alloc := False,
     g_fail_next_io_backend_init := False, g_fail_next_io_backend_register := False,
     g_fail_next_io_backend_unregister := False\<rparr>"

section \<open>Reading the counters\<close>

text \<open>
  Each pointer argument is an address or NULL; the counter is stored where there is an address. The
  memory of the caller is a map from addresses to values.
\<close>

definition store_counter :: "nat option \<Rightarrow> u64 \<Rightarrow> (nat \<Rightarrow> u64) \<Rightarrow> (nat \<Rightarrow> u64)" where
  "store_counter out v m = (case out of None \<Rightarrow> m | Some a \<Rightarrow> m(a := v))"

definition mt_test_memory_counters ::
  "nat option \<Rightarrow> nat option \<Rightarrow> nat option \<Rightarrow> nat option \<Rightarrow> nat option \<Rightarrow> nat option \<Rightarrow>
   test_hooks \<Rightarrow> (nat \<Rightarrow> u64) \<Rightarrow> (nat \<Rightarrow> u64)" where
  "mt_test_memory_counters task_allocs task_frees stack_allocs stack_frees timer_allocs timer_frees h m =
     (let m = store_counter task_allocs (g_task_allocs h) m;
          m = store_counter task_frees (g_task_frees h) m;
          m = store_counter stack_allocs (g_stack_allocs h) m;
          m = store_counter stack_frees (g_stack_frees h) m;
          m = store_counter timer_allocs (g_timer_allocs h) m
      in store_counter timer_frees (g_timer_frees h) m)"

definition mt_test_channel_memory_counters ::
  "nat option \<Rightarrow> nat option \<Rightarrow> nat option \<Rightarrow> nat option \<Rightarrow>
   test_hooks \<Rightarrow> (nat \<Rightarrow> u64) \<Rightarrow> (nat \<Rightarrow> u64)" where
  "mt_test_channel_memory_counters channel_allocs channel_frees buffer_allocs buffer_frees h m =
     (let m = store_counter channel_allocs (g_channel_allocs h) m;
          m = store_counter channel_frees (g_channel_frees h) m;
          m = store_counter buffer_allocs (g_channel_buffer_allocs h) m
      in store_counter buffer_frees (g_channel_buffer_frees h) m)"

definition mt_test_handle_memory_counters ::
  "nat option \<Rightarrow> nat option \<Rightarrow>
   test_hooks \<Rightarrow> (nat \<Rightarrow> u64) \<Rightarrow> (nat \<Rightarrow> u64)" where
  "mt_test_handle_memory_counters handle_allocs handle_frees h m =
     (let m = store_counter handle_allocs (g_handle_allocs h) m
      in store_counter handle_frees (g_handle_frees h) m)"

definition mt_test_select_memory_counters ::
  "nat option \<Rightarrow> nat option \<Rightarrow>
   test_hooks \<Rightarrow> (nat \<Rightarrow> u64) \<Rightarrow> (nat \<Rightarrow> u64)" where
  "mt_test_select_memory_counters select_allocs select_frees h m =
     (let m = store_counter select_allocs (g_select_allocs h) m
      in store_counter select_frees (g_select_frees h) m)"

definition mt_test_io_memory_counters ::
  "nat option \<Rightarrow> nat option \<Rightarrow> nat option \<Rightarrow> nat option \<Rightarrow> nat option \<Rightarrow> nat option \<Rightarrow>
   test_hooks \<Rightarrow> (nat \<Rightarrow> u64) \<Rightarrow> (nat \<Rightarrow> u64)" where
  "mt_test_io_memory_counters fd_waiter_allocs fd_waiter_frees backend_inits backend_shutdowns backend_registers backend_unregisters h m =
     (let m = store_counter fd_waiter_allocs (g_fd_waiter_allocs h) m;
          m = store_counter fd_waiter_frees (g_fd_waiter_frees h) m;
          m = store_counter backend_inits (g_io_backend_inits h) m;
          m = store_counter backend_shutdowns (g_io_backend_shutdowns h) m;
          m = store_counter backend_registers (g_io_backend_registers h) m
      in store_counter backend_unregisters (g_io_backend_unregisters h) m)"

section \<open>Instrumented operations\<close>

definition test_mt_stack_alloc ::
  "u64 \<Rightarrow> int \<Rightarrow> nat option \<Rightarrow> bool \<Rightarrow> test_hooks \<Rightarrow>
     mt_rc \<times> mt_stack \<times> sys_call list \<times> test_hooks" where
  "test_mt_stack_alloc requested page map_addr mprotect_ok h =
     (let requested_size = (if requested = 0 then MT_DEFAULT_STACK_SIZE else requested)
      in if requested_size < MT_MIN_STACK_SIZE then (MT_ERR_INVALID, zero_stack, [], h)
         else if g_fail_next_stack_alloc h
         then (MT_ERR_NOMEM, zero_stack, [], h\<lparr>g_fail_next_stack_alloc := False\<rparr>)
         else let (rc, st, calls) = mt_stack_alloc requested page map_addr mprotect_ok
              in (rc, st, calls, if rc = MT_OK then h\<lparr>g_stack_allocs := g_stack_allocs h + 1\<rparr> else h))"

definition test_mt_stack_free :: "mt_stack \<Rightarrow> test_hooks \<Rightarrow> sys_call list \<times> mt_stack \<times> test_hooks" where
  "test_mt_stack_free st h =
     (let (calls, st) = mt_stack_free st
      in (calls, st, if calls \<noteq> [] then h\<lparr>g_stack_frees := g_stack_frees h + 1\<rparr> else h))"

text \<open>The time, the new \<^verbatim>\<open>last_good_ns\<close> and the hooks.\<close>

definition test_mt_now_ns :: "(u64 \<times> u64) option \<Rightarrow> u64 \<Rightarrow> test_hooks \<Rightarrow> u64 \<times> u64 \<times> test_hooks" where
  "test_mt_now_ns clock last_good_ns h =
     (if g_fail_next_clock_read h
      then let h = h\<lparr>g_fail_next_clock_read := False\<rparr>
           in if last_good_ns \<noteq> 0 then (last_good_ns, last_good_ns, h)
              else let (fallback, fallback_ok) = mt_now_ns_raw clock
                   in if fallback_ok then (fallback, fallback, h) else (0, last_good_ns, h)
      else let (now, last_good) = mt_now_ns clock last_good_ns in (now, last_good, h))"

definition test_mt_io_backend_init ::
  "init_env \<Rightarrow> test_hooks \<Rightarrow> mt_state \<Rightarrow> mt_rc \<times> test_hooks \<times> mt_state" where
  "test_mt_io_backend_init env h s =
     (if g_fail_next_io_backend_init h
      then (MT_ERR_BACKEND, h\<lparr>g_fail_next_io_backend_init := False\<rparr>, s)
      else let h = h\<lparr>g_io_backend_inits := g_io_backend_inits h + 1\<rparr>;
               (rc, s) = mt_io_backend_init env s
           in (rc, h, s))"

definition test_mt_io_backend_shutdown :: "test_hooks \<Rightarrow> mt_state \<Rightarrow> test_hooks \<times> mt_state" where
  "test_mt_io_backend_shutdown h s =
     ((if io_backend_kind s \<noteq> MT_IO_BACKEND_NONE \<or> io_backend_fd s \<ge> 0 \<or>
          io_wake_read_fd s \<ge> 0 \<or> io_wake_write_fd s \<ge> 0
       then h\<lparr>g_io_backend_shutdowns := g_io_backend_shutdowns h + 1\<rparr> else h),
      mt_io_backend_shutdown s)"

definition test_mt_io_backend_add ::
  "fptr \<Rightarrow> ctl_result \<Rightarrow> test_hooks \<Rightarrow> mt_state \<Rightarrow> mt_rc \<times> test_hooks \<times> mt_state" where
  "test_mt_io_backend_add w ctl h s =
     (if g_fail_next_io_backend_register h
      then (MT_ERR_BACKEND, h\<lparr>g_fail_next_io_backend_register := False\<rparr>, s)
      else let (rc, s) = mt_io_backend_add w ctl s
           in (rc, if rc = MT_OK then h\<lparr>g_io_backend_registers := g_io_backend_registers h + 1\<rparr> else h, s))"

definition test_mt_io_backend_remove :: "fptr \<Rightarrow> test_hooks \<Rightarrow> mt_state \<Rightarrow> test_hooks \<times> mt_state" where
  "test_mt_io_backend_remove w h s =
     (let h = h\<lparr>g_io_backend_unregisters := g_io_backend_unregisters h + 1\<rparr>
      in if g_fail_next_io_backend_unregister h
         then (h\<lparr>g_fail_next_io_backend_unregister := False\<rparr>, s)
         else (h, mt_io_backend_remove w s))"

text \<open>One worker that reports \<open>MT_ERR_STATE\<close> instead of waiting for timers (\<^verbatim>\<open>sleep_for_timers\<close> is 0).\<close>

definition mt_test_run_until_blocked :: "tptr option \<Rightarrow> init_env \<Rightarrow> mt_state \<Rightarrow> mt_rc option \<times> mt_state" where
  "mt_test_run_until_blocked cur env s = mt_run_begin cur 1 env s"

end
