(* ===== verification/Testing_Theorems.thy ===== *)
theory Testing_Theorems
  imports Testing_Hooks
begin

text \<open>
  What the hooks of the test build promise: an injected fault makes exactly one allocation fail,
  otherwise the test build allocates as the release build does, and the counters tell exactly
  whether a block has been leaked.
\<close>

section \<open>The contract of the counted allocation functions\<close>

text \<open>
  One pair of functions for every kind of memory. The laws are those a client of the counters needs:
  which calls succeed, which counter they move, and that no call touches the counters of another
  kind.
\<close>

locale counted_allocator =
  fixes alloc :: "'k \<Rightarrow> 'p option \<Rightarrow> 'h \<Rightarrow> 'p option \<times> 'h"
    and dealloc :: "'k \<Rightarrow> 'p option \<Rightarrow> 'h \<Rightarrow> 'h"
    and armed :: "'k \<Rightarrow> 'h \<Rightarrow> bool"
    and allocs :: "'k \<Rightarrow> 'h \<Rightarrow> u64"
    and frees :: "'k \<Rightarrow> 'h \<Rightarrow> u64"
  assumes alloc_result: "fst (alloc k b h) = (if armed k h then None else b)"
    and alloc_disarms: "armed k' (snd (alloc k b h)) \<longleftrightarrow> armed k' h \<and> k' \<noteq> k"
    and alloc_allocs: "allocs k' (snd (alloc k b h)) =
          allocs k' h + (if k' = k \<and> fst (alloc k b h) \<noteq> None then 1 else 0)"
    and alloc_frees: "frees k' (snd (alloc k b h)) = frees k' h"
    and dealloc_armed: "armed k' (dealloc k b h) = armed k' h"
    and dealloc_allocs: "allocs k' (dealloc k b h) = allocs k' h"
    and dealloc_frees: "frees k' (dealloc k b h) = frees k' h + (if k' = k \<and> b \<noteq> None then 1 else 0)"
begin

text \<open>The difference of the counters, by which a leak is recognised.\<close>

definition balance :: "'k \<Rightarrow> 'h \<Rightarrow> u64" where
  "balance k h = allocs k h - frees k h"

lemma balance_alloc:
  "balance k' (snd (alloc k b h)) = balance k' h + (if k' = k \<and> fst (alloc k b h) \<noteq> None then 1 else 0)"
  by (simp add: balance_def alloc_allocs alloc_frees)

lemma balance_dealloc:
  "balance k' (dealloc k b h) = balance k' h - (if k' = k \<and> b \<noteq> None then 1 else 0)"
  by (simp add: balance_def dealloc_allocs dealloc_frees)

text \<open>A fault hits one call only: of two allocations in a row the second gets its block.\<close>

lemma second_alloc_succeeds:
  "alloc k b h = (r, h') \<Longrightarrow> fst (alloc k b' h') = b'"
  using alloc_result[of k b' h'] alloc_disarms[of k k b h] by simp

end

section \<open>The allocation functions by kind\<close>

datatype mem_kind = TaskMem | TimerMem | ChannelMem | BufferMem | HandleMem | SelectMem | FdWaiterMem

fun alloc_of :: "mem_kind \<Rightarrow> nat option \<Rightarrow> test_hooks \<Rightarrow> nat option \<times> test_hooks" where
  "alloc_of TaskMem b h = mt_alloc_task_memory b h"
| "alloc_of TimerMem b h = mt_alloc_timer_memory b h"
| "alloc_of ChannelMem b h = mt_alloc_channel_memory b h"
| "alloc_of BufferMem b h = mt_alloc_channel_buffer b h"
| "alloc_of HandleMem b h = mt_alloc_handle_memory b h"
| "alloc_of SelectMem b h = mt_alloc_select_waiter b h"
| "alloc_of FdWaiterMem b h = mt_alloc_fd_waiter b h"

fun free_of :: "mem_kind \<Rightarrow> nat option \<Rightarrow> test_hooks \<Rightarrow> test_hooks" where
  "free_of TaskMem b h = mt_free_task_memory b h"
| "free_of TimerMem b h = mt_free_timer_memory b h"
| "free_of ChannelMem b h = mt_free_channel_memory b h"
| "free_of BufferMem b h = mt_free_channel_buffer b h"
| "free_of HandleMem b h = mt_free_handle_memory b h"
| "free_of SelectMem b h = mt_free_select_waiter b h"
| "free_of FdWaiterMem b h = mt_free_fd_waiter b h"

fun armed_of :: "mem_kind \<Rightarrow> test_hooks \<Rightarrow> bool" where
  "armed_of TaskMem h = g_fail_next_task_alloc h"
| "armed_of TimerMem h = g_fail_next_timer_alloc h"
| "armed_of ChannelMem h = g_fail_next_channel_alloc h"
| "armed_of BufferMem h = g_fail_next_channel_buffer_alloc h"
| "armed_of HandleMem h = g_fail_next_handle_alloc h"
| "armed_of SelectMem h = g_fail_next_select_alloc h"
| "armed_of FdWaiterMem h = g_fail_next_fd_waiter_alloc h"

fun allocs_of :: "mem_kind \<Rightarrow> test_hooks \<Rightarrow> u64" where
  "allocs_of TaskMem h = g_task_allocs h"
| "allocs_of TimerMem h = g_timer_allocs h"
| "allocs_of ChannelMem h = g_channel_allocs h"
| "allocs_of BufferMem h = g_channel_buffer_allocs h"
| "allocs_of HandleMem h = g_handle_allocs h"
| "allocs_of SelectMem h = g_select_allocs h"
| "allocs_of FdWaiterMem h = g_fd_waiter_allocs h"

fun frees_of :: "mem_kind \<Rightarrow> test_hooks \<Rightarrow> u64" where
  "frees_of TaskMem h = g_task_frees h"
| "frees_of TimerMem h = g_timer_frees h"
| "frees_of ChannelMem h = g_channel_frees h"
| "frees_of BufferMem h = g_channel_buffer_frees h"
| "frees_of HandleMem h = g_handle_frees h"
| "frees_of SelectMem h = g_select_frees h"
| "frees_of FdWaiterMem h = g_fd_waiter_frees h"

fun fail_next_of :: "mem_kind \<Rightarrow> test_hooks \<Rightarrow> test_hooks" where
  "fail_next_of TaskMem h = mt_test_fail_next_task_alloc h"
| "fail_next_of TimerMem h = mt_test_fail_next_timer_alloc h"
| "fail_next_of ChannelMem h = mt_test_fail_next_channel_alloc h"
| "fail_next_of BufferMem h = mt_test_fail_next_channel_buffer_alloc h"
| "fail_next_of HandleMem h = mt_test_fail_next_handle_alloc h"
| "fail_next_of SelectMem h = mt_test_fail_next_select_alloc h"
| "fail_next_of FdWaiterMem h = mt_test_fail_next_fd_waiter_alloc h"

lemmas alloc_defs =
  mt_alloc_task_memory_def mt_alloc_timer_memory_def mt_alloc_channel_memory_def
  mt_alloc_channel_buffer_def mt_alloc_handle_memory_def mt_alloc_select_waiter_def
  mt_alloc_fd_waiter_def mt_realloc_timer_memory_def

lemmas free_defs =
  mt_free_task_memory_def mt_free_timer_memory_def mt_free_channel_memory_def
  mt_free_channel_buffer_def mt_free_handle_memory_def mt_free_select_waiter_def
  mt_free_fd_waiter_def

lemmas fail_next_defs =
  mt_test_fail_next_task_alloc_def mt_test_fail_next_timer_alloc_def
  mt_test_fail_next_channel_alloc_def mt_test_fail_next_channel_buffer_alloc_def
  mt_test_fail_next_handle_alloc_def mt_test_fail_next_select_alloc_def
  mt_test_fail_next_fd_waiter_alloc_def

interpretation hooks: counted_allocator alloc_of free_of armed_of allocs_of frees_of
proof
  fix k k' b h
  show "fst (alloc_of k b h) = (if armed_of k h then None else b)"
    by (cases k) (simp_all add: alloc_defs)
  show "armed_of k' (snd (alloc_of k b h)) \<longleftrightarrow> armed_of k' h \<and> k' \<noteq> k"
    by (cases k; cases k') (simp_all add: alloc_defs)
  show "allocs_of k' (snd (alloc_of k b h)) =
      allocs_of k' h + (if k' = k \<and> fst (alloc_of k b h) \<noteq> None then 1 else 0)"
    by (cases k; cases k') (simp_all add: alloc_defs)
  show "frees_of k' (snd (alloc_of k b h)) = frees_of k' h"
    by (cases k; cases k') (simp_all add: alloc_defs)
  show "armed_of k' (free_of k b h) = armed_of k' h"
    by (cases k; cases k') (simp_all add: free_defs)
  show "allocs_of k' (free_of k b h) = allocs_of k' h"
    by (cases k; cases k') (simp_all add: free_defs)
  show "frees_of k' (free_of k b h) = frees_of k' h + (if k' = k \<and> b \<noteq> None then 1 else 0)"
    by (cases k; cases k') (simp_all add: free_defs)
qed


section \<open>Sequences of calls\<close>

text \<open>
  The calls a run makes. The first argument of an allocation or of a resize is what the system would
  answer; \<open>ResizeTimers old block\<close> is \<^verbatim>\<open>mt_realloc_timer_memory\<close>.
\<close>

datatype mem_op =
    Alloc mem_kind "nat option"
  | ResizeTimers "nat option" "nat option"
  | Release mem_kind "nat option"
  | FailNext mem_kind
  | ResetFaults

text \<open>The blocks in use, kept beside the hooks: what a call returned and nobody has released.\<close>

type_synonym blocks = "mem_kind \<Rightarrow> nat set"

definition put :: "mem_kind \<Rightarrow> nat option \<Rightarrow> blocks \<Rightarrow> blocks" where
  "put k b live = (case b of None \<Rightarrow> live | Some a \<Rightarrow> live(k := insert a (live k)))"

definition drop_block :: "mem_kind \<Rightarrow> nat option \<Rightarrow> blocks \<Rightarrow> blocks" where
  "drop_block k b live = (case b of None \<Rightarrow> live | Some a \<Rightarrow> live(k := live k - {a}))"

fun mem_step :: "mem_op \<Rightarrow> test_hooks \<times> blocks \<Rightarrow> test_hooks \<times> blocks" where
  "mem_step (Alloc k b) (h, live) = (let (r, h) = alloc_of k b h in (h, put k r live))"
| "mem_step (ResizeTimers p b) (h, live) =
     (let (r, h) = mt_realloc_timer_memory p b h
      in (h, if r = None then live else put TimerMem r (drop_block TimerMem p live)))"
| "mem_step (Release k b) (h, live) = (free_of k b h, drop_block k b live)"
| "mem_step (FailNext k) (h, live) = (fail_next_of k h, live)"
| "mem_step ResetFaults (h, live) = (mt_test_reset_faults h, live)"

text \<open>
  What the C standard asks of a program and promises of the allocator: only blocks in use, or NULL,
  are released or resized, and a new block differs from those in use.
\<close>

fun allowed :: "mem_op \<Rightarrow> blocks \<Rightarrow> bool" where
  "allowed (Alloc k b) live = (case b of None \<Rightarrow> True | Some a \<Rightarrow> a \<notin> live k)"
| "allowed (ResizeTimers p b) live =
     ((case p of None \<Rightarrow> True | Some a \<Rightarrow> a \<in> live TimerMem) \<and>
      (case b of None \<Rightarrow> True | Some a \<Rightarrow> a \<notin> drop_block TimerMem p live TimerMem))"
| "allowed (Release k b) live = (case b of None \<Rightarrow> True | Some a \<Rightarrow> a \<in> live k)"
| "allowed (FailNext k) live = True"
| "allowed ResetFaults live = True"

fun mem_run :: "mem_op list \<Rightarrow> test_hooks \<times> blocks \<Rightarrow> test_hooks \<times> blocks" where
  "mem_run [] s = s"
| "mem_run (m # ms) s = mem_run ms (mem_step m s)"

fun allowed_run :: "mem_op list \<Rightarrow> test_hooks \<times> blocks \<Rightarrow> bool" where
  "allowed_run [] s \<longleftrightarrow> True"
| "allowed_run (m # ms) s \<longleftrightarrow> allowed m (snd s) \<and> allowed_run ms (mem_step m s)"

section \<open>The counters and the blocks in use\<close>

definition counted :: "test_hooks \<times> blocks \<Rightarrow> bool" where
  "counted s \<longleftrightarrow> (\<forall>k. finite (snd s k) \<and> hooks.balance k (fst s) = of_nat (card (snd s k)))"

lemma counted_put:
  assumes "counted (h, live)" and "\<And>a. b = Some a \<Longrightarrow> a \<notin> live k"
    and "\<And>k'. hooks.balance k' h' = hooks.balance k' h + (if k' = k \<and> b \<noteq> None then 1 else 0)"
  shows "counted (h', put k b live)"
  using assms by (auto simp: counted_def put_def split: option.split)

lemma counted_drop:
  assumes "counted (h, live)" and "\<And>a. b = Some a \<Longrightarrow> a \<in> live k"
    and "\<And>k'. hooks.balance k' h' = hooks.balance k' h - (if k' = k \<and> b \<noteq> None then 1 else 0)"
  shows "counted (h', drop_block k b live)"
proof (cases b)
  case (Some a)
  have "Suc (card (live k - {a})) = card (live k)"
    using assms(1,2) Some by (intro card_Suc_Diff1) (auto simp: counted_def)
  from this[symmetric] Some assms(1,3) show ?thesis by (auto simp: counted_def drop_block_def)
qed (use assms in \<open>simp add: counted_def drop_block_def\<close>)

lemma counters_fail_next [simp]:
  "allocs_of k (fail_next_of k' h) = allocs_of k h" "frees_of k (fail_next_of k' h) = frees_of k h"
  by (cases k'; cases k; simp add: fail_next_defs)+

lemma counters_reset [simp]:
  "allocs_of k (mt_test_reset_faults h) = allocs_of k h" "frees_of k (mt_test_reset_faults h) = frees_of k h"
  by (cases k; simp add: mt_test_reset_faults_def)+

lemma balance_faults [simp]:
  "hooks.balance k (fail_next_of k' h) = hooks.balance k h"
  "hooks.balance k (mt_test_reset_faults h) = hooks.balance k h"
  by (simp_all add: hooks.balance_def)

lemma balance_resize:
  assumes "mt_realloc_timer_memory p b h = (r, h')"
  shows "hooks.balance k h' = hooks.balance k h + (if k = TimerMem \<and> r \<noteq> None \<and> p = None then 1 else 0)"
    and "r = None \<or> r = b"
  using assms by (cases k; auto simp: hooks.balance_def alloc_defs split: if_splits)+

lemma counted_resize:
  assumes c: "counted (h, live)" and ok: "allowed (ResizeTimers p b) live"
  shows "counted (mem_step (ResizeTimers p b) (h, live))"
proof -
  obtain r h' where r: "mt_realloc_timer_memory p b h = (r, h')" by fastforce
  note bal = balance_resize[OF r]
  show ?thesis
  proof (cases r)
    case None
    then show ?thesis using r bal(1) c by (simp add: counted_def)
  next
    case (Some a)
    let ?h = "free_of TimerMem p h"
    have "counted (?h, drop_block TimerMem p live)"
      using ok by (intro counted_drop[OF c]) (auto simp: hooks.balance_dealloc simp del: free_of.simps split: option.splits)
    then have "counted (h', put TimerMem r (drop_block TimerMem p live))"
      by (rule counted_put)
        (use Some bal ok in \<open>auto simp: hooks.balance_dealloc simp del: free_of.simps split: option.splits\<close>)
    then show ?thesis using r Some by simp
  qed
qed

lemma counted_step: "counted s \<Longrightarrow> allowed m (snd s) \<Longrightarrow> counted (mem_step m s)"
proof (cases s, cases m)
  fix h live assume c: "counted s" and ok: "allowed m (snd s)" and s: "s = (h, live)"
  show "counted (mem_step m s)" if "m = Alloc k b" for k b
  proof -
    obtain r h' where r: "alloc_of k b h = (r, h')" by fastforce
    then have "counted (h', put k r live)"
      using c ok s that hooks.alloc_result[of k b h] hooks.balance_alloc[of _ k b h]
      by (intro counted_put[of h live]) (auto split: if_splits)
    then show ?thesis using r s that by simp
  qed
  show "counted (mem_step m s)" if "m = ResizeTimers p b" for p b
    using counted_resize c ok s that by simp
  show "counted (mem_step m s)" if "m = Release k b" for k b
    using c ok s that counted_drop[of h live b k "free_of k b h"] hooks.balance_dealloc[of _ k b h]
    by (simp split: option.splits)
qed (auto simp: counted_def)

lemma counted_run: "counted s \<Longrightarrow> allowed_run ms s \<Longrightarrow> counted (mem_run ms s)"
  by (induction ms s rule: mem_run.induct) (simp_all add: counted_step)

text \<open>A call adds at most one block.\<close>

lemma card_put: "card (put k b live k') \<le> Suc (card (live k'))"
  by (auto simp: put_def card_insert_le_m1 le_SucI card_insert_if split: option.split)

lemma card_drop: "finite (live k') \<Longrightarrow> card (drop_block k b live k') \<le> card (live k')"
  by (auto simp: drop_block_def card_Diff1_le split: option.split)

lemma card_step: "counted s \<Longrightarrow> card (snd (mem_step m s) k) \<le> Suc (card (snd s k))"
  using card_drop[of "snd s" k]
  by (cases s; cases m)
    (auto simp: counted_def card_put le_SucI split: prod.split intro: le_trans[OF card_put])

lemma card_run: "counted s \<Longrightarrow> allowed_run ms s \<Longrightarrow> card (snd (mem_run ms s) k) \<le> card (snd s k) + length ms"
proof (induction ms s rule: mem_run.induct)
  case (2 m ms s)
  then have "counted (mem_step m s)" by (simp add: counted_step)
  with 2 have "card (snd (mem_run ms (mem_step m s)) k) \<le> card (snd (mem_step m s) k) + length ms" by simp
  with card_step[OF 2(2), of m k] show ?case by simp
qed simp

lemma counted_zero: "counted (zero_hooks, \<lambda>_. {})"
proof -
  have "allocs_of k zero_hooks = 0" "frees_of k zero_hooks = 0" for k
    by (cases k; simp add: zero_hooks_def)+
  then show ?thesis by (simp add: counted_def hooks.balance_def)
qed

section \<open>Equivalence with the release build\<close>

fun release_of :: "mem_kind \<Rightarrow> nat option \<Rightarrow> nat option" where
  "release_of TaskMem b = mt_alloc_task_memory_release b"
| "release_of TimerMem b = mt_alloc_timer_memory_release b"
| "release_of ChannelMem b = mt_alloc_channel_memory_release b"
| "release_of BufferMem b = mt_alloc_channel_buffer_release b"
| "release_of HandleMem b = mt_alloc_handle_memory_release b"
| "release_of SelectMem b = mt_alloc_select_waiter_release b"
| "release_of FdWaiterMem b = mt_alloc_fd_waiter_release b"

text \<open>
  The test build allocates like the release build. With no fault armed an allocation returns the
  same block; an armed fault makes exactly the next allocation of its kind fail, and the one after it
  returns its block again.
\<close>

lemma test_build_transparent:
  assumes "alloc_of k b h = (r, h')"
  shows "r = (if armed_of k h then None else release_of k b) \<and>
    fst (alloc_of k b' h') = release_of k b' \<and>
    (\<forall>k'. k' \<noteq> k \<longrightarrow> fst (alloc_of k' b' h') = fst (alloc_of k' b' h))"
proof -
  have rel: "release_of k b = b" for k b
    by (cases k) (simp_all add: mt_alloc_task_memory_release_def mt_alloc_timer_memory_release_def
        mt_alloc_channel_memory_release_def mt_alloc_channel_buffer_release_def
        mt_alloc_handle_memory_release_def mt_alloc_select_waiter_release_def
        mt_alloc_fd_waiter_release_def)
  show ?thesis
    using assms hooks.alloc_result[of k b h] hooks.second_alloc_succeeds[OF assms, of b']
      hooks.alloc_result hooks.alloc_disarms[of _ k b h] by (simp add: rel)
qed

section \<open>Properties\<close>

text \<open>
  C36: The leak test of the test suite is exact. However allocations, resizes, releases and injected
  faults are interleaved, as long as the program and the allocator keep to the C standard and the run
  is shorter than the range of the counters: the counters of a kind of memory differ by the number of
  its blocks in use, and they are equal exactly if none is.
\<close>

theorem leak_counters_exact:
  assumes "allowed_run ms (zero_hooks, \<lambda>_. {})" and "length ms < 2 ^ 64"
  shows "case mem_run ms (zero_hooks, \<lambda>_. {}) of (h, live) \<Rightarrow>
    unat (allocs_of k h - frees_of k h) = card (live k) \<and>
    (allocs_of k h = frees_of k h \<longleftrightarrow> live k = {})"
proof -
  obtain h live where r: "mem_run ms (zero_hooks, \<lambda>_. {}) = (h, live)" by fastforce
  have c: "counted (h, live)" using counted_run[OF counted_zero assms(1)] r by simp
  have "card (live k) < 2 ^ 64" using card_run[OF counted_zero assms(1), of k] r assms(2) by simp
  then have u: "unat (allocs_of k h - frees_of k h) = card (live k)"
    using c by (simp add: counted_def hooks.balance_def unat_of_nat)
  have "allocs_of k h = frees_of k h \<longleftrightarrow> unat (allocs_of k h - frees_of k h) = 0"
    by (simp add: unat_eq_zero)
  also have "\<dots> \<longleftrightarrow> live k = {}" using u c by (simp add: counted_def)
  finally show ?thesis using r u by simp
qed

text \<open>A channel whose buffer cannot be allocated is released again, and a task stays in use.\<close>

definition leak_trace :: "mem_op list" where
  "leak_trace = [Alloc TaskMem (Some 1), FailNext BufferMem, Alloc ChannelMem (Some 2),
     Alloc BufferMem (Some 3), Release ChannelMem (Some 2), ResizeTimers None (Some 4),
     ResizeTimers (Some 4) (Some 5), Release TimerMem (Some 5)]"

theorem leak_counters_exact_witness:
  "allowed_run leak_trace (zero_hooks, \<lambda>_. {}) \<and> length leak_trace < 2 ^ 64 \<and>
   (case mem_run leak_trace (zero_hooks, \<lambda>_. {}) of (h, live) \<Rightarrow>
      unat (allocs_of TaskMem h - frees_of TaskMem h) = card (live TaskMem) \<and> live TaskMem = {1} \<and>
      (allocs_of ChannelMem h = frees_of ChannelMem h \<longleftrightarrow> live ChannelMem = {}))"
proof -
  have a: "allowed_run leak_trace (zero_hooks, \<lambda>_. {})" by code_simp
  have l: "length leak_trace < 2 ^ 64" by (simp add: leak_trace_def)
  have "snd (mem_run leak_trace (zero_hooks, \<lambda>_. {})) TaskMem = {1}" by code_simp
  with leak_counters_exact[OF a l, of TaskMem] leak_counters_exact[OF a l, of ChannelMem] a l
  show ?thesis by (simp split: prod.splits)
qed

end
