(* ===== verification/Unsupported_Io.thy ===== *)
theory Unsupported_Io
  imports Io
begin

text \<open>
  The build without sockets (Windows): the stubs at the end of \<^verbatim>\<open>src/io.c\<close> and \<^verbatim>\<open>src/io_backend.c\<close>.
  Every call checks its arguments and reports \<open>MT_ERR_UNSUPPORTED\<close>; the backend does nothing. The
  definitions carry the names of the source with the suffix \<open>_unsupported\<close>.
\<close>

section \<open>Descriptor calls\<close>

definition mt_fd_set_nonblocking_unsupported :: "int \<Rightarrow> mt_rc" where
  "mt_fd_set_nonblocking_unsupported fd = (if fd < 0 then MT_ERR_INVALID else MT_ERR_UNSUPPORTED)"

definition mt_fd_adopt_unsupported :: "int \<Rightarrow> mt_rc" where
  "mt_fd_adopt_unsupported fd = (if fd < 0 then MT_ERR_INVALID else MT_ERR_UNSUPPORTED)"

definition mt_fd_release_unsupported :: "int \<Rightarrow> mt_rc" where
  "mt_fd_release_unsupported fd = (if fd < 0 then MT_ERR_INVALID else MT_ERR_UNSUPPORTED)"

definition mt_io_backend_name_locked_unsupported :: string where
  "mt_io_backend_name_locked_unsupported = ''unsupported''"

definition mt_io_backend_name_unsupported :: string where
  "mt_io_backend_name_unsupported = mt_io_backend_name_locked_unsupported"

text \<open>\<open>out\<close> says whether the pointer for the ready events is not NULL; if so it receives 0.\<close>

definition mt_fd_wait_unsupported :: "int \<Rightarrow> i32 \<Rightarrow> u64 \<Rightarrow> bool \<Rightarrow> mt_rc \<times> i32 option" where
  "mt_fd_wait_unsupported fd events timeout out =
     (if fd < 0 \<or> \<not> out then MT_ERR_INVALID else MT_ERR_UNSUPPORTED, if out then Some 0 else None)"

definition mt_fd_wait_read_unsupported :: "int \<Rightarrow> u64 \<Rightarrow> mt_rc" where
  "mt_fd_wait_read_unsupported fd timeout = fst (mt_fd_wait_unsupported fd MT_FD_READ timeout True)"

definition mt_fd_wait_write_unsupported :: "int \<Rightarrow> u64 \<Rightarrow> mt_rc" where
  "mt_fd_wait_write_unsupported fd timeout = fst (mt_fd_wait_unsupported fd MT_FD_WRITE timeout True)"

definition mt_fd_read_unsupported :: "int \<Rightarrow> nat \<Rightarrow> u64 \<Rightarrow> int" where
  "mt_fd_read_unsupported fd len timeout =
     rc_code (if fd < 0 then MT_ERR_INVALID else MT_ERR_UNSUPPORTED)"

definition mt_fd_write_unsupported :: "int \<Rightarrow> byte list \<Rightarrow> u64 \<Rightarrow> int" where
  "mt_fd_write_unsupported fd buf timeout =
     rc_code (if fd < 0 then MT_ERR_INVALID else MT_ERR_UNSUPPORTED)"

definition mt_fd_close_unsupported :: "int \<Rightarrow> mt_rc" where
  "mt_fd_close_unsupported fd = (if fd < 0 then MT_ERR_INVALID else MT_ERR_UNSUPPORTED)"

section \<open>Sockets\<close>

definition mt_net_listen_tcp_unsupported :: "string option \<Rightarrow> string option \<Rightarrow> int \<Rightarrow> mt_rc" where
  "mt_net_listen_tcp_unsupported host port backlog =
     (if port \<noteq> None then MT_ERR_UNSUPPORTED else MT_ERR_INVALID)"

definition mt_net_accept_unsupported :: "int \<Rightarrow> u64 \<Rightarrow> mt_rc" where
  "mt_net_accept_unsupported listen_fd timeout =
     (if listen_fd < 0 then MT_ERR_INVALID else MT_ERR_UNSUPPORTED)"

definition mt_net_read_unsupported :: "int \<Rightarrow> nat \<Rightarrow> u64 \<Rightarrow> int" where
  "mt_net_read_unsupported fd len timeout = mt_fd_read_unsupported fd len timeout"

definition mt_net_write_unsupported :: "int \<Rightarrow> byte list \<Rightarrow> u64 \<Rightarrow> int" where
  "mt_net_write_unsupported fd buf timeout = mt_fd_write_unsupported fd buf timeout"

definition mt_net_close_unsupported :: "int \<Rightarrow> mt_rc" where
  "mt_net_close_unsupported fd = mt_fd_close_unsupported fd"

section \<open>The backend\<close>

definition mt_io_backend_wake_unsupported :: "mt_state \<Rightarrow> mt_state" where
  "mt_io_backend_wake_unsupported s = s"

definition mt_io_backend_init_unsupported :: "mt_state \<Rightarrow> mt_rc \<times> mt_state" where
  "mt_io_backend_init_unsupported s = (MT_OK, s)"

definition mt_io_backend_shutdown_unsupported :: "mt_state \<Rightarrow> mt_state" where
  "mt_io_backend_shutdown_unsupported s = s"

definition mt_fd_timeout_ready_unsupported :: "tptr option \<Rightarrow> mt_state \<Rightarrow> mt_state" where
  "mt_fd_timeout_ready_unsupported task s =
     (case task of None \<Rightarrow> s | Some t \<Rightarrow> mt_task_mark_ready t s)"

definition mt_poll_fd_waiters_once_unsupported :: "u64 \<Rightarrow> mt_state \<Rightarrow> mt_state" where
  "mt_poll_fd_waiters_once_unsupported now_ns s = s"

definition mt_poll_fd_waiters_with_timeout_unsupported :: "int \<Rightarrow> mt_state \<Rightarrow> mt_state" where
  "mt_poll_fd_waiters_with_timeout_unsupported timeout s = s"

text \<open>The loop over the waiters is the one of the other builds.\<close>

definition mt_fd_wake_all_unsupported :: "mt_rc \<Rightarrow> mt_state \<Rightarrow> mt_state" where
  "mt_fd_wake_all_unsupported result s = wake_all_in result (fd_waiters s) s"

definition mt_fd_wake_for_close_unsupported :: "int \<Rightarrow> mt_state \<Rightarrow> mt_state" where
  "mt_fd_wake_for_close_unsupported fd s = s"

section \<open>No call of this build waits or succeeds\<close>

lemma unsupported_reads_fail:
  "mt_fd_read_unsupported fd len timeout < 0" "mt_fd_write_unsupported fd buf timeout < 0"
  "mt_net_read_unsupported fd len timeout < 0" "mt_net_write_unsupported fd buf timeout < 0"
  by (simp_all add: mt_net_read_unsupported_def mt_net_write_unsupported_def
      mt_fd_read_unsupported_def mt_fd_write_unsupported_def rc_code_neg_iff)

lemma unsupported_waits_fail:
  "fst (mt_fd_wait_unsupported fd events timeout out) \<noteq> MT_OK"
  "mt_fd_wait_read_unsupported fd timeout = mt_fd_adopt_unsupported fd"
  "mt_fd_wait_write_unsupported fd timeout = mt_fd_adopt_unsupported fd"
  by (simp_all add: mt_fd_wait_unsupported_def mt_fd_wait_read_unsupported_def
      mt_fd_wait_write_unsupported_def mt_fd_adopt_unsupported_def)

text \<open>A runtime of this build never has a waiter, so waking all of them does nothing.\<close>

lemma unsupported_wake_all: "fd_waiters s = [] \<Longrightarrow> mt_fd_wake_all_unsupported result s = s"
  by (simp add: mt_fd_wake_all_unsupported_def)

end
