(* ===== verification/Calm.thy ===== *)
theory Calm
  imports Stable_Relation
begin

text \<open>
  Operations that disturb no waiting discipline. A state is calmer than another if no channel has
  got a new blocked sender or receiver and its ring has kept its length, and if the descriptor waiters
  are among those there were. Almost every operation leads to a calmer state, since the relation is a
  stable one.
\<close>

section \<open>The relation\<close>

definition calm :: "mt_chan \<Rightarrow> mt_chan \<Rightarrow> bool" where
  "calm ch ch' \<longleftrightarrow> ch_len ch' = ch_len ch \<and> capacity ch' = capacity ch \<and>
     (send_q ch = [] \<longrightarrow> send_q ch' = []) \<and> (recv_q ch = [] \<longrightarrow> recv_q ch' = []) \<and>
     (ch_closed ch' = ch_closed ch \<or> send_q ch' = [] \<and> recv_q ch' = [])"

definition fds_calm :: "mt_state \<Rightarrow> mt_state \<Rightarrow> bool" where
  "fds_calm s s' \<longleftrightarrow> (distinct (fd_waiters s) \<longrightarrow>
     distinct (fd_waiters s') \<and> set (fd_waiters s') \<subseteq> set (fd_waiters s) \<and>
     (\<forall>w \<in> set (fd_waiters s'). fw_fd (fw_mem s' w) = fw_fd (fw_mem s w) \<and>
        fw_events (fw_mem s' w) = fw_events (fw_mem s w) \<and>
        (mt_fd_waiter_reserves_conflict (fw_mem s w) \<longrightarrow> mt_fd_waiter_reserves_conflict (fw_mem s' w))))"

definition calmer :: "mt_state \<Rightarrow> mt_state \<Rightarrow> bool" where
  "calmer s s' \<longleftrightarrow> (\<forall>c. calm (chan_mem s c) (chan_mem s' c)) \<and> fds_calm s s'"

lemma calm_refl [simp]: "calm ch ch"
  by (simp add: calm_def)

lemma calm_trans: "calm a b \<Longrightarrow> calm b c \<Longrightarrow> calm a c"
  by (auto simp: calm_def)

lemma fds_calm_refl [simp]: "fds_calm s s"
  by (simp add: fds_calm_def)

lemma fds_calm_trans:
  assumes "fds_calm s r" and "fds_calm r s'"
  shows "fds_calm s s'"
  using assms unfolding fds_calm_def by (metis subsetD subset_trans)

lemma calmer_refl [simp]: "calmer s s"
  by (simp add: calmer_def)

lemma calmer_trans [trans]: "calmer s r \<Longrightarrow> calmer r s' \<Longrightarrow> calmer s s'"
  unfolding calmer_def using calm_trans fds_calm_trans by blast

text \<open>An operation that writes neither channels nor descriptor waiters.\<close>

definition waits_part :: "mt_state \<Rightarrow> (cptr \<Rightarrow> mt_chan) \<times> fptr list \<times> (fptr \<Rightarrow> mt_fd_waiter)" where
  "waits_part s = (chan_mem s, fd_waiters s, fw_mem s)"

lemma calmer_same: "waits_part s' = waits_part s \<Longrightarrow> calmer s0 s' = calmer s0 s"
  by (simp add: waits_part_def calmer_def fds_calm_def)

lemma calmer_fields [simp]:
  "calmer s0 (s\<lparr>all_tasks := x0\<rparr>) = calmer s0 s" "calmer s0 (s\<lparr>runq := x1\<rparr>) = calmer s0 s"
  "calmer s0 (s\<lparr>runnable_count := x2\<rparr>) = calmer s0 s" "calmer s0 (s\<lparr>handles := x3\<rparr>) = calmer s0 s"
  "calmer s0 (s\<lparr>channels := x4\<rparr>) = calmer s0 s" "calmer s0 (s\<lparr>timers := x5\<rparr>) = calmer s0 s"
  "calmer s0 (s\<lparr>live_count := x6\<rparr>) = calmer s0 s" "calmer s0 (s\<lparr>completed_count := x7\<rparr>) = calmer s0 s"
  "calmer s0 (s\<lparr>channel_waiting_count := x8\<rparr>) = calmer s0 s" "calmer s0 (s\<lparr>join_waiting_count := x9\<rparr>) = calmer s0 s"
  "calmer s0 (s\<lparr>fd_waiting_count := x11\<rparr>) = calmer s0 s"
  "calmer s0 (s\<lparr>fd_generations := x12\<rparr>) = calmer s0 s" "calmer s0 (s\<lparr>io_polling := x13\<rparr>) = calmer s0 s"
  "calmer s0 (s\<lparr>current := x14\<rparr>) = calmer s0 s" "calmer s0 (s\<lparr>running_tasks := x15\<rparr>) = calmer s0 s"
  "calmer s0 (s\<lparr>active_workers := x16\<rparr>) = calmer s0 s" "calmer s0 (s\<lparr>worker_threads := x17\<rparr>) = calmer s0 s"
  "calmer s0 (s\<lparr>worker_count := x18\<rparr>) = calmer s0 s" "calmer s0 (s\<lparr>running := x19\<rparr>) = calmer s0 s"
  "calmer s0 (s\<lparr>stopping := x20\<rparr>) = calmer s0 s" "calmer s0 (s\<lparr>run_result := x21\<rparr>) = calmer s0 s"
  "calmer s0 (s\<lparr>next_id := x22\<rparr>) = calmer s0 s" "calmer s0 (s\<lparr>task_mem := x23\<rparr>) = calmer s0 s"
  "calmer s0 (s\<lparr>handle_mem := x24\<rparr>) = calmer s0 s" "calmer s0 (s\<lparr>sw_mem := x25\<rparr>) = calmer s0 s"
  "calmer s0 (s\<lparr>user_mem := x27\<rparr>) = calmer s0 s"
  "calmer s0 (s\<lparr>backend_calls := x28\<rparr>) = calmer s0 s" "calmer s0 (s\<lparr>cond_signals := x29\<rparr>) = calmer s0 s"
  "calmer s0 (s\<lparr>cond_broadcasts := x30\<rparr>) = calmer s0 s" "calmer s0 (s\<lparr>io_wakes := x31\<rparr>) = calmer s0 s"
  "calmer s0 (s\<lparr>sys_calls := x32\<rparr>) = calmer s0 s"
  by (rule calmer_same; simp add: waits_part_def)+

lemma calmer_objects [simp]:
  "calmer s0 (upd_task t f s) = calmer s0 s" "calmer s0 (upd_handle h g s) = calmer s0 s"
  "calmer s0 (upd_sw w k s) = calmer s0 s"
  by (rule calmer_same; simp add: waits_part_def)+

lemma calmer_upd_chan [simp]:
  "calm (chan_mem s c) (f (chan_mem s c)) \<Longrightarrow> calmer s0 s \<Longrightarrow> calmer s0 (upd_chan c f s)"
proof -
  assume f: "calm (chan_mem s c) (f (chan_mem s c))" and s: "calmer s0 s"
  have "calmer s (upd_chan c f s)" using f by (auto simp: calmer_def fds_calm_def)
  with s show ?thesis by (rule calmer_trans)
qed

lemma calm_queues [simp]:
  "calm ch (ch\<lparr>send_waiters := n\<rparr>)" "calm ch (ch\<lparr>recv_waiters := n\<rparr>)"
  "calm ch (ch\<lparr>select_send_q := a\<rparr>)" "calm ch (ch\<lparr>select_recv_q := a\<rparr>)"
  "calm ch (ch\<lparr>select_send_waiters := n\<rparr>)" "calm ch (ch\<lparr>select_recv_waiters := n\<rparr>)"
  by (simp_all add: calm_def)

section \<open>Operations\<close>

lemma runq_calmer [simp]:
  "calmer s0 (mt_runq_push t s) = calmer s0 s" "calmer s0 (snd (mt_runq_pop s)) = calmer s0 s"
  "calmer s0 (snd (mt_runq_remove t s)) = calmer s0 s"
  by (simp_all add: mt_notify_one_def mt_io_backend_wake_def mt_runq_push_def mt_runq_pop_def mt_runq_remove_def
      Let_def split: list.split)

lemma chan_pops_calmer [simp]:
  "calmer s0 s \<Longrightarrow> calmer s0 (snd (chan_send_pop c s))"
  "calmer s0 s \<Longrightarrow> calmer s0 (snd (chan_recv_pop c s))"
  by (cases "send_q (chan_mem s c)"; simp add: chan_send_pop_def calm_def)
    (cases "recv_q (chan_mem s c)"; simp add: chan_recv_pop_def calm_def)

lemma chan_removes_calmer [simp]:
  "calmer s0 s \<Longrightarrow> calmer s0 (snd (chan_send_remove c t s))"
  "calmer s0 s \<Longrightarrow> calmer s0 (snd (chan_recv_remove c t s))"
  by (simp_all add: chan_send_remove_def chan_recv_remove_def calm_def)

lemma select_queues_calmer [simp]:
  "calmer s0 s \<Longrightarrow> calmer s0 (select_send_push c w s)" "calmer s0 s \<Longrightarrow> calmer s0 (select_recv_push c w s)"
  "calmer s0 s \<Longrightarrow> calmer s0 (snd (select_send_remove c w s))"
  "calmer s0 s \<Longrightarrow> calmer s0 (snd (select_recv_remove c w s))"
  by (simp_all add: select_send_push_def select_recv_push_def select_send_remove_def select_recv_remove_def calm_def)

lemma select_pops_calmer [simp]:
  "calmer s0 s \<Longrightarrow> calmer s0 (snd (select_send_pop c s))"
  "calmer s0 s \<Longrightarrow> calmer s0 (snd (select_recv_pop c s))"
  by (cases "select_send_q (chan_mem s c)"; simp add: select_send_pop_def calm_def)
    (cases "select_recv_q (chan_mem s c)"; simp add: select_recv_pop_def calm_def)

text \<open>A deactivated waiter stays reserved in its place or leaves the list.\<close>

lemma deactivate_chan_mem [simp]: "chan_mem (snd (mt_fd_waiter_deactivate w b s)) = chan_mem s"
  by (simp add: mt_fd_waiter_deactivate_def mt_fd_waiter_set_state_def mt_fd_waiter_unlink_def Let_def)

lemma deactivate_calmer [simp]:
  assumes "calmer s0 s"
  shows "calmer s0 (snd (mt_fd_waiter_deactivate w b s))"
proof -
  have "fds_calm s (snd (mt_fd_waiter_deactivate w b s))"
    by (auto simp: fds_calm_def deactivate_fields mt_fd_waiter_reserves_conflict_def
        set_remove1_distinct)
  then have "calmer s (snd (mt_fd_waiter_deactivate w b s))" by (simp add: calmer_def)
  with assms show ?thesis by (rule calmer_trans)
qed

interpretation calmer: switch_relation calmer
  by unfold_locales (simp_all add: mt_task_register_def mt_task_unregister_def)

lemma wake_for_cancel_calmer [simp]: "calmer s0 s \<Longrightarrow> calmer s0 (mt_task_wake_for_cancel t s)"
  by (simp add: mt_task_wake_for_cancel_def split_beta Let_def split: option.split mt_task_state.split)

lemma cancel_calmer: "mt_task_cancel h s = (rc, s') \<Longrightarrow> calmer s s'"
  by (auto simp: mt_task_cancel_def Let_def split: option.splits if_splits)

lemma worker_iter_calmer: "calmer s (snd (mt_worker_iter b now es a now' s))"
  by (simp add: mt_worker_iter_def split_beta Let_def split: option.split)

lemma worker_step_calmer: "worker_step s s' \<Longrightarrow> calmer s s'"
proof (induction rule: worker_step.induct)
  case (worker_iter b now es a now' s act s')
  then show ?case using worker_iter_calmer[of s b now es a now'] by simp
next
  case (worker_dispatch s t s')
  then show ?case using runq_calmer(2)[of s s] by simp
next
  case (worker_idle s r b now act s')
  then show ?case using runq_calmer(2)[of s s]
    by (auto simp: mt_worker_idle_def stop_with_def split: if_splits option.splits)
next
  case (shutdown s cur)
  then show ?case by (simp add: mt_shutdown_def mt_fd_wake_all_def)
qed (simp_all add: mt_worker_enter_def mt_worker_exit_def mt_run_end_def mt_run_no_memory_def
    mt_run_thread_failed_def mt_run_threads_def mt_worker_thread_main_failed_def stop_with_def Let_def)

lemma shutdown_calmer [simp]:
  "calmer s0 s \<Longrightarrow> calmer s0 (reset_channels cs s)" "calmer s0 (reset_handles hs s) = calmer s0 s"
  "calmer s0 s \<Longrightarrow> calmer s0 (shutdown_tasks s)"
proof -
  show "calmer s0 s \<Longrightarrow> calmer s0 (reset_channels cs s)"
    by (induction cs arbitrary: s) (simp_all add: reset_channel_def calm_def)
  show "calmer s0 (reset_handles hs s) = calmer s0 s" by (induction hs arbitrary: s) simp_all
  show "calmer s0 s \<Longrightarrow> calmer s0 (shutdown_tasks s)"
  proof (induction s rule: shutdown_tasks.induct)
    case (1 s)
    have "calmer s0 (shutdown_task t s)" for t
      using 1(2) by (simp add: shutdown_task_def mt_fd_waiter_remove_def Let_def split: option.split)
    with 1 show ?case by (subst shutdown_tasks.simps) (simp split: list.split)
  qed
qed

end
