(* ===== verification/Wakeups.thy ===== *)
theory Wakeups
  imports Calm
begin

text \<open>
  No wake-up of a plain channel operation is missed, and no two waits for a descriptor overlap, in
  any reachable state.
\<close>

unbundle bit_operations_syntax

section \<open>The invariant\<close>

text \<open>
  A blocked receiver has an empty channel without blocked senders; a blocked sender has a full one;
  nobody is blocked on a closed channel.
\<close>

definition idle_ok :: "mt_chan \<Rightarrow> bool" where
  "idle_ok ch \<longleftrightarrow> ch_len ch \<le> capacity ch \<and>
     (recv_q ch \<noteq> [] \<longrightarrow> ch_len ch = 0 \<and> send_q ch = []) \<and>
     (send_q ch \<noteq> [] \<longrightarrow> ch_len ch = capacity ch) \<and>
     (ch_closed ch \<longrightarrow> send_q ch = [] \<and> recv_q ch = [])"

definition fds_exclusive :: "mt_state \<Rightarrow> bool" where
  "fds_exclusive s \<longleftrightarrow> distinct (fd_waiters s) \<and>
     (\<forall>w \<in> set (fd_waiters s). mt_fd_waiter_reserves_conflict (fw_mem s w)) \<and>
     (\<forall>v \<in> set (fd_waiters s). \<forall>w \<in> set (fd_waiters s). v \<noteq> w \<longrightarrow> fw_fd (fw_mem s v) = fw_fd (fw_mem s w) \<longrightarrow>
        fw_events (fw_mem s v) AND fw_events (fw_mem s w) = 0)"

definition waits_ok :: "mt_state \<Rightarrow> bool" where
  "waits_ok s \<longleftrightarrow> (\<forall>c. idle_ok (chan_mem s c)) \<and> fds_exclusive s"

lemma idle_ok_calm: "calm ch ch' \<Longrightarrow> idle_ok ch \<Longrightarrow> idle_ok ch'"
  by (auto simp: calm_def idle_ok_def)

lemma fds_exclusive_calm: "fds_calm s s' \<Longrightarrow> fds_exclusive s \<Longrightarrow> fds_exclusive s'"
  unfolding fds_calm_def fds_exclusive_def by (metis subsetD)

lemma waits_calmer: "calmer s s' \<Longrightarrow> waits_ok s \<Longrightarrow> waits_ok s'"
  unfolding calmer_def waits_ok_def using idle_ok_calm fds_exclusive_calm by blast

lemma waits_upd_chan [simp]:
  "waits_ok s \<Longrightarrow> idle_ok (f (chan_mem s c)) \<Longrightarrow> waits_ok (upd_chan c f s)"
  by (auto simp: waits_ok_def fds_exclusive_def)

lemma waits_same: "waits_part s' = waits_part s \<Longrightarrow> waits_ok s' = waits_ok s"
  by (simp add: waits_part_def waits_ok_def fds_exclusive_def)

lemma waits_chan: "waits_ok s \<Longrightarrow> idle_ok (chan_mem s c)"
  by (simp add: waits_ok_def)

section \<open>Sending and receiving\<close>

lemma waits_push:
  assumes "waits_ok s" and "recv_q (chan_mem s c) = []" and "ch_len (chan_mem s c) < capacity (chan_mem s c)"
  shows "waits_ok (buffer_push c bs s)"
  using assms waits_chan[OF assms(1), of c]
  by (simp add: buffer_push_def idle_ok_def mt_chan_buffer_push_def)

text \<open>The facts a calmer state inherits for a push.\<close>

lemma calmerD:
  assumes "calmer s s'"
  shows "recv_q (chan_mem s c) = [] \<Longrightarrow> recv_q (chan_mem s' c) = []"
    "send_q (chan_mem s c) = [] \<Longrightarrow> send_q (chan_mem s' c) = []"
    "ch_len (chan_mem s' c) = ch_len (chan_mem s c)" "capacity (chan_mem s' c) = capacity (chan_mem s c)"
  using assms by (auto simp: calmer_def calm_def)

lemma waits_fill:
  assumes "waits_ok s" and "recv_q (chan_mem s c) = []" and "send_q (chan_mem s c) = []"
  shows "waits_ok (mt_chan_fill_buffer_from_waiting_sender c s)"
proof -
  obtain w q where p: "select_send_pop c s = (w, q)" by fastforce
  have c: "calmer s q" using calmer.popsD(3)[OF p] by simp
  note d = calmerD[OF c, of c]
  show ?thesis
    using assms p waits_calmer[OF c] d waits_push[of q c]
    by (auto simp: mt_chan_fill_buffer_from_waiting_sender_def pop_Nil_eq split: option.split
        intro!: waits_calmer[OF calmer.select(3)[OF calmer_refl]])
qed

lemma waits_refill:
  assumes w: "waits_ok s" and l: "0 < ch_len (chan_mem s c)"
  shows "waits_ok (mt_chan_fill_buffer_from_waiting_sender c (buffer_pop c v s))"
proof -
  let ?b = "buffer_pop c v s"
  note i = waits_chan[OF w, of c]
  have r: "recv_q (chan_mem s c) = []" using i l by (auto simp: idle_ok_def)
  have b: "chan_mem ?b c = snd (mt_chan_buffer_pop (chan_mem s c))" by (simp add: buffer_pop_eq store_at_def)
  show ?thesis
  proof (cases "send_q (chan_mem s c)")
    case Nil
    then have "idle_ok (snd (mt_chan_buffer_pop (chan_mem s c)))"
      using i r by (auto simp: idle_ok_def mt_chan_buffer_pop_def)
    then have "waits_ok (upd_chan c (\<lambda>ch. snd (mt_chan_buffer_pop ch)) s)" using w by simp
    then have "waits_ok ?b"
      unfolding buffer_pop_eq by (subst waits_same) (simp_all add: waits_part_def store_at_def)
    then show ?thesis by (rule waits_fill) (simp_all add: b mt_chan_buffer_pop_def Nil r)
  next
    case (Cons t q)
    have full: "ch_len (chan_mem s c) = capacity (chan_mem s c)" "\<not> ch_closed (chan_mem s c)"
      using i Cons by (auto simp: idle_ok_def)
    let ?f = "\<lambda>bs ch. mt_chan_buffer_push bs ((snd (mt_chan_buffer_pop ch))
        \<lparr>send_q := q, send_waiters := send_waiters ch - 1\<rparr>)"
    have ok: "idle_ok (?f bs (chan_mem s c))" for bs
      using i Cons r l full by (auto simp: idle_ok_def mt_chan_buffer_pop_def mt_chan_buffer_push_def)
    then have "waits_ok (upd_chan c (?f bs) s)" for bs using w by simp
    moreover have "\<exists>bs. waits_part (mt_chan_fill_buffer_from_waiting_sender c ?b) = waits_part (upd_chan c (?f bs) s)"
      using full l Cons by (auto simp: mt_chan_fill_buffer_from_waiting_sender_def b chan_send_pop_def waits_part_def
          mt_chan_buffer_pop_def buffer_push_def buffer_pop_eq store_at_def mt_chan_ready_waiter_def Let_def
          mt_task_complete_channel_wait_def mark_ready_eq dec_channel_waiting_eq upd_chan_def)
    ultimately show ?thesis using waits_same by blast
  qed
qed

lemma waits_send_now:
  assumes w: "waits_ok s" and s: "send_now c v s = (rc, s')"
  shows "waits_ok s'" and "rc = None \<Longrightarrow> recv_q (chan_mem s' c) = [] \<and>
    capacity (chan_mem s' c) = ch_len (chan_mem s' c) \<and> \<not> ch_closed (chan_mem s' c)"
proof -
  obtain t r where p: "chan_recv_pop c s = (t, r)" by fastforce
  obtain x q where p': "select_recv_pop c r = (x, q)" by fastforce
  have cr: "calmer s r" using calmer.popsD(2)[OF p] by simp
  have cq: "calmer s q" using calmer.popsD(4)[OF p' cr] .
  have none: "recv_q (chan_mem s c) = []" if "t = None"
    using p that by (cases "recv_q (chan_mem s c)") (auto simp: chan_recv_pop_def)
  have cl: "ch_closed (chan_mem q c) = ch_closed (chan_mem s c)"
    using p p' by (auto simp: chan_recv_pop_def select_recv_pop_def split: prod.splits)
  note wq = waits_calmer[OF cq w]
  have wake: "waits_ok (mt_chan_ready_waiter u e (store_at d bs r))"
    "waits_ok (mt_select_complete_waiter y e (store_at d bs q))" for u e d bs y
    using waits_calmer[OF _ w] cr cq by simp_all
  show "waits_ok s'"
    using s p p' w wq waits_push[OF wq, of c] calmerD[OF cq, of c] none wake
    by (auto simp: send_now_def split: if_splits option.splits)
  show "recv_q (chan_mem s' c) = [] \<and> capacity (chan_mem s' c) = ch_len (chan_mem s' c) \<and> \<not> ch_closed (chan_mem s' c)"
    if "rc = None"
    using s p p' that none calmerD[OF cq, of c] waits_chan[OF w, of c] cl
    by (auto simp: send_now_def idle_ok_def split: if_splits option.splits)
qed

lemma waits_recv_now:
  assumes w: "waits_ok s" and s: "recv_now c v s = (rc, s')"
  shows "waits_ok s'" and "rc = None \<Longrightarrow> send_q (chan_mem s' c) = [] \<and>
    ch_len (chan_mem s' c) = 0 \<and> \<not> ch_closed (chan_mem s' c)"
proof -
  obtain t r where p: "chan_send_pop c s = (t, r)" by fastforce
  obtain x q where p': "select_send_pop c r = (x, q)" by fastforce
  have cr: "calmer s r" using calmer.popsD(1)[OF p] by simp
  have cq: "calmer s q" using calmer.popsD(3)[OF p' cr] .
  have none: "send_q (chan_mem s c) = []" if "t = None"
    using p that by (cases "send_q (chan_mem s c)") (auto simp: chan_send_pop_def)
  have cl: "ch_closed (chan_mem q c) = ch_closed (chan_mem s c)"
    using p p' by (auto simp: chan_send_pop_def select_send_pop_def split: prod.splits)
  have wake: "waits_ok (mt_chan_ready_waiter u e r)" "waits_ok (mt_chan_ready_waiter u e (store_at d bs r))"
    "waits_ok (mt_select_complete_waiter y e q)" "waits_ok (mt_select_complete_waiter y e (store_at d bs q))"
    for u e d bs y using waits_calmer[OF _ w] cr cq by simp_all
  show "waits_ok s'"
    using s p p' w waits_refill[OF w, of c v] waits_calmer[OF cq w] wake
    by (auto simp: recv_now_def split: if_splits option.splits)
  show "send_q (chan_mem s' c) = [] \<and> ch_len (chan_mem s' c) = 0 \<and> \<not> ch_closed (chan_mem s' c)"
    if "rc = None"
    using s p p' that none calmerD[OF cq, of c] cl by (auto simp: recv_now_def split: if_splits option.splits)
qed

lemma waits_chan_calls:
  assumes w: "waits_ok s"
  shows "mt_chan_try_send ch v s = (rc, s') \<Longrightarrow> waits_ok s'" "mt_chan_try_recv ch v s = (rc, s') \<Longrightarrow> waits_ok s'"
    "mt_chan_send cur ch v s = (out, s') \<Longrightarrow> waits_ok s'" "mt_chan_recv cur ch v s = (out, s') \<Longrightarrow> waits_ok s'"
proof -
  show "mt_chan_try_send ch v s = (rc, s') \<Longrightarrow> waits_ok s'" "mt_chan_try_recv ch v s = (rc, s') \<Longrightarrow> waits_ok s'"
    using w by (auto simp: mt_chan_try_send_def mt_chan_try_recv_def split: option.splits prod.splits if_splits
        dest: waits_send_now(1) waits_recv_now(1))
  have block: "waits_ok (mt_task_block_on_channel t c k u r) = waits_ok r" for t c k u r
    by (rule waits_same) (simp add: waits_part_def mt_task_block_on_channel_def Let_def)
  have cm: "chan_mem (mt_task_block_on_channel t c k u r) = chan_mem r" for t c k u r
    by (simp add: mt_task_block_on_channel_def Let_def)
  have push: "waits_ok (chan_send_push c t (mt_task_block_on_channel t c k u r))"
    if "send_now c u' s = (None, r)" for c t k u u' r
    using waits_send_now[OF w that] waits_chan[of r c]
    by (simp add: chan_send_push_def block cm idle_ok_def)
  have push': "waits_ok (chan_recv_push c t (mt_task_block_on_channel t c k u r))"
    if "recv_now c u' s = (None, r)" for c t k u u' r
    using waits_recv_now[OF w that] waits_chan[of r c]
    by (simp add: chan_recv_push_def block cm idle_ok_def)
  show "mt_chan_send cur ch v s = (out, s') \<Longrightarrow> waits_ok s'"
    using w waits_send_now(1)[OF w] push by (auto simp: mt_chan_send_def split: option.splits prod.splits if_splits)
  show "mt_chan_recv cur ch v s = (out, s') \<Longrightarrow> waits_ok s'"
    using w waits_recv_now(1)[OF w] push' by (auto simp: mt_chan_recv_def split: option.splits prod.splits if_splits)
qed

section \<open>Closing, destroying and creating\<close>

lemma waits_wake_closed:
  assumes w: "waits_ok s" and s': "s' = mt_chan_wake_closed_waiters c (upd_chan c (\<lambda>k. k\<lparr>ch_closed := True\<rparr>) s)"
  shows "waits_ok s'"
proof -
  let ?s = "upd_chan c (\<lambda>k. k\<lparr>ch_closed := True\<rparr>) s"
  have c: "calmer ?s s'" by (simp add: s' mt_chan_wake_closed_waiters_def)
  have "fds_exclusive ?s" using w by (simp add: waits_ok_def fds_exclusive_def)
  then have f: "fds_exclusive s'" using c fds_exclusive_calm by (auto simp: calmer_def)
  have "idle_ok (chan_mem s' d)" for d
  proof (cases "d = c")
    case True
    then show ?thesis using wake_closed_waiters_empty(1,2)[OF s'] calmerD(3,4)[OF c, of c] waits_chan[OF w, of c]
      by (auto simp: idle_ok_def)
  next
    case False
    then have "idle_ok (chan_mem ?s d)" using waits_chan[OF w] by simp
    moreover have "calm (chan_mem ?s d) (chan_mem s' d)" using c by (simp add: calmer_def)
    ultimately show ?thesis by (rule idle_ok_calm[rotated])
  qed
  with f show ?thesis by (simp add: waits_ok_def)
qed

lemma waits_close: "waits_ok s \<Longrightarrow> mt_chan_close ch s = (rc, s') \<Longrightarrow> waits_ok s'"
  by (auto simp: mt_chan_close_def split: option.splits if_splits intro: waits_wake_closed)

lemma idle_ok_zero [simp]: "idle_ok zero_chan"
  by (simp add: idle_ok_def zero_chan_def)

lemma waits_destroy: "waits_ok s \<Longrightarrow> mt_chan_destroy ch s = (rc, s') \<Longrightarrow> waits_ok s'"
proof -
  assume w: "waits_ok s" and d: "mt_chan_destroy ch s = (rc, s')"
  have u: "waits_ok (mt_chan_unregister c r) = waits_ok r" for c r
    by (rule waits_same) (simp add: waits_part_def mt_chan_unregister_def)
  have c: "waits_ok (mt_chan_wake_closed_waiters c (upd_chan c (\<lambda>k. k\<lparr>ch_closed := True\<rparr>) s))" for c
    using waits_wake_closed[OF w refl] .
  show ?thesis
    using d w c by (auto simp: mt_chan_destroy_def Let_def u split: option.splits if_splits)
qed

section \<open>Select\<close>

lemma waits_try_case: "waits_ok s \<Longrightarrow> mt_select_try_case k s = (rc, s') \<Longrightarrow> waits_ok s'"
  by (cases "sc_op k") (auto simp: mt_select_try_case_def dest: waits_chan_calls(1,2))

lemma waits_select_try: "waits_ok s \<Longrightarrow> select_try ks i s = (r, s') \<Longrightarrow> waits_ok s'"
proof (induction ks i s rule: select_try.induct)
  case (2 k ks i s)
  obtain rc q where t: "mt_select_try_case k s = (rc, q)" by fastforce
  show ?case
    using "2.IH"(1) "2.IH"(2)[OF _ t[symmetric] refl] "2.prems" waits_try_case[OF "2.prems"(1) t] t
    by (auto split: if_splits)
qed simp

lemma waits_select: "waits_ok s \<Longrightarrow> mt_select cur ks ix as now ok s = (out, s') \<Longrightarrow> waits_ok s'"
proof -
  assume w: "waits_ok s" and s: "mt_select cur ks ix as now ok s = (out, s')"
  obtain t q where q: "select_try ks 0 s = (t, q)" by fastforce
  note wq = waits_select_try[OF w q]
  have "waits_ok (snd (mt_select_park cur ks p as now ok q))" for p
    using waits_calmer[OF calmer.select_park[OF calmer_refl] wq] .
  then have park: "mt_select_park cur ks p as now ok q = (o', r) \<Longrightarrow> waits_ok r" for p o' r by (metis snd_conv)
  show ?thesis using s q w wq park by (auto simp: mt_select_def split: if_splits option.splits)
qed

section \<open>Waiting for a descriptor\<close>

text \<open>The new waiter shares no event with the others, because none of them conflicted.\<close>

lemma fds_exclusive_add:
  assumes f: "fds_exclusive s" and w: "w \<notin> set (fd_waiters s)"
    and c: "\<not> mt_fd_waiter_conflicts fd events s"
    and r: "fd_waiters s' = w # fd_waiters s" "fw_fd (fw_mem s' w) = fd" "fw_events (fw_mem s' w) = events"
      "fw_state (fw_mem s' w) = MT_FD_WAITER_ACTIVE" "\<And>v. v \<noteq> w \<Longrightarrow> fw_mem s' v = fw_mem s v"
  shows "fds_exclusive s'"
proof -
  have "fw_events (fw_mem s v) AND events = 0" if "v \<in> set (fd_waiters s)" "fw_fd (fw_mem s v) = fd" for v
    using c that f by (auto simp: mt_fd_waiter_conflicts_def list_ex_iff fds_exclusive_def)
  then have "fw_events (fw_mem s v) AND events = 0 \<and> events AND fw_events (fw_mem s v) = 0"
    if "v \<in> set (fd_waiters s)" "fw_fd (fw_mem s v) = fd" for v
    using that by (simp add: and.commute)
  with f w r show ?thesis
    by (auto simp: fds_exclusive_def mt_fd_waiter_reserves_conflict_def) metis+
qed

lemma waits_waiter_add:
  assumes wo: "waits_ok s" and f: "w \<notin> set (fd_waiters s)" and conf: "\<not> mt_fd_waiter_conflicts fd ev s"
    and a: "mt_fd_waiter_add w ctl (fd_wait_register t w fd ev g s) = (rc, q)"
  shows "waits_ok q"
proof -
  let ?r = "fd_wait_register t w fd ev g s"
  note reg = register_fields[OF refl, of t w fd ev g s]
  obtain k q1 where k: "mt_io_backend_add w ctl ?r = (k, q1)" by fastforce
  note add = backend_add_fields[OF k]
  have qc: "chan_mem q = chan_mem s"
    using a k add reg by (auto simp: mt_fd_waiter_add_def mt_fd_waiter_set_state_def Let_def split: if_splits)
  have "fds_exclusive q"
  proof (cases "k = MT_OK")
    case True
    obtain gen where m: "fw_mem ?r = (fw_mem s)(w := zero_fw\<lparr>fw_task := Some t, fw_fd := fd, fw_events := ev,
        fw_generation := gen\<rparr>)" using reg(2) by blast
    have "q = mt_notify_all ((mt_fd_waiter_set_state w MT_FD_WAITER_ACTIVE q1)
        \<lparr>fd_waiters := w # fd_waiters q1, fd_waiting_count := fd_waiting_count q1 + 1\<rparr>)"
      using a k True by (simp add: mt_fd_waiter_add_def mt_fd_waiter_set_state_def Let_def)
    then have q: "fd_waiters q = w # fd_waiters s" "fw_mem q = (fw_mem s)(w := zero_fw\<lparr>fw_task := Some t,
        fw_fd := fd, fw_events := ev, fw_generation := gen, fw_state := MT_FD_WAITER_ACTIVE\<rparr>)"
      using add(1,2) reg(3) m by (simp_all add: mt_fd_waiter_set_state_def)
    from wo have "fds_exclusive s" by (simp add: waits_ok_def)
    then show ?thesis by (rule fds_exclusive_add[OF _ f conf q(1)]) (simp_all add: q(2))
  next
    case False
    then have "fd_waiters q = fd_waiters s" "fw_mem q = fw_mem ?r"
      using a k add reg by (auto simp: mt_fd_waiter_add_def split: if_splits)
    then show ?thesis using wo f reg(2) by (auto simp: waits_ok_def fds_exclusive_def)
  qed
  then show ?thesis using wo qc by (simp add: waits_ok_def)
qed

lemma waits_fd_wait:
  assumes wo: "waits_ok s" and fresh: "\<And>w. w_alloc env = Some w \<Longrightarrow> w \<notin> set (fd_waiters s)"
    and b: "mt_fd_wait_begin (Some t) fd ev tmo out env s = (res, s')"
  shows "waits_ok s'"
proof (cases "fd < 0 \<or> \<not> mt_fd_validate_events ev \<or> \<not> out \<or> fd_wait_now fd ev tmo (w_poll env) s \<noteq> None \<or> w_alloc env = None")
  case True
  then show ?thesis using b wo by (auto simp: mt_fd_wait_begin_def split: option.splits if_splits)
next
  case False
  then obtain w where w: "w_alloc env = Some w" by auto
  have now: "fd_wait_now fd ev tmo (w_poll env) s = None" and g: "\<not> fd < 0" "mt_fd_validate_events ev" out
    using False by blast+
  then have conf: "\<not> mt_fd_waiter_conflicts fd ev s" by (auto simp: fd_wait_now_def split: if_splits)
  obtain rc q where a: "mt_fd_waiter_add w (w_ctl env) (fd_wait_register t w fd ev (w_gen_ok env) s) = (rc, q)" by fastforce
  note q = waits_waiter_add[OF wo fresh[OF w] conf a]
  have push: "calmer q r" if "mt_timer_push_state t d st m q = (e, r)" for d st m e r
    using calmer.push_state[OF calmer_refl, of q t d st m] that by simp
  have "calmer q s'"
    using b by (auto simp: mt_fd_wait_begin_def now g w a Let_def mt_fd_waiter_remove_def
        split: if_splits prod.splits dest!: push)
  then show ?thesis using waits_calmer q by blast
qed

section \<open>Every step keeps the invariant\<close>

lemma waits_call_step:
  assumes w: "waits_ok s" and "call_step s s'"
  shows "waits_ok s'"
  using assms(2)
proof cases
  case (yield t b r)
  then show ?thesis using calmer.task_calls(1)[of s "Some t"] by (intro waits_calmer[OF _ w]) simp
next
  case (sleep t ms now ok b r)
  then show ?thesis using calmer.task_calls(2)[of s "Some t" ms now ok] by (intro waits_calmer[OF _ w]) simp
next
  case (join t h out r)
  then show ?thesis using calmer.task_calls(3)[of s "Some t" "Some h"] by (intro waits_calmer[OF _ w]) simp
next
  case (cancel h rc)
  then show ?thesis using waits_calmer[OF cancel_calmer w] by blast
next
  case (send cur c v out r)
  then show ?thesis using waits_chan_calls(3)[OF w send(4)] waits_calmer[OF calmer.switched[OF calmer_refl]] by simp
next
  case (recv cur c v out r)
  then show ?thesis using waits_chan_calls(4)[OF w recv(4)] waits_calmer[OF calmer.switched[OF calmer_refl]] by simp
next
  case (select cur allocs cases ix now ok out r)
  then show ?thesis using waits_select[OF w select(5)] waits_calmer[OF calmer.switched[OF calmer_refl]] by simp
next
  case (select_park t allocs cases p now ok out r)
  then show ?thesis using calmer.select_park[OF calmer_refl, of s "Some t" cases p allocs now ok]
    by (intro waits_calmer[OF _ w]) simp
next
  case (close ch rc)
  then show ?thesis using waits_close[OF w] by blast
next
  case (destroy c rc)
  then show ?thesis using waits_destroy[OF w] by blast
next
  case (finish t)
  then show ?thesis by (intro waits_calmer[OF _ w]) (simp add: mt_task_entry_finish_def)
next
  case (handle_release h)
  then show ?thesis by (intro waits_calmer[OF _ w]) simp
qed (use waits_chan_calls[OF w] in blast)+

lemma waits_io_step:
  assumes w: "waits_ok s" and "io_step s s'"
  shows "waits_ok s'"
  using assms(2)
proof cases
  case (fd_wait t env fd ev tmo out res r)
  then show ?thesis using waits_fd_wait[OF w fd_wait(3,4)] waits_calmer[OF calmer.switched[OF calmer_refl]] by simp
next
  case (fd_wait_end t v res)
  then show ?thesis using calmer.io(5)[of s t v] waits_calmer[OF _ w] by simp
next
  case (fd_adopt fd fenv a rc c)
  then show ?thesis using waits_calmer[OF calmer.io(1) w] by blast
qed (use waits_calmer[OF _ w] calmer.io in simp_all)

section \<open>Starting\<close>

text \<open>Initialisation and creation leave the channels alone; the first empties the list of waiters.\<close>

lemma waits_emptied: "waits_ok s \<Longrightarrow> chan_mem s' = chan_mem s \<Longrightarrow> fd_waiters s' = [] \<Longrightarrow> waits_ok s'"
  by (simp add: waits_ok_def fds_exclusive_def)

lemma init_fd_waiters:
  assumes "mt_init_with_options opts env s = (rc, s')"
  shows "s' = s \<or> fd_waiters s' = []"
proof -
  have c: "fd_waiters (clear_runtime r) = []" for r :: mt_state
    using clear_runtime_fresh[of r] by (simp add: fresh_runtime_def del: clear_runtime_fresh)
  have i: "fd_waiters q = fd_waiters r" if "mt_io_backend_init env r = (k, q)" for r k q
    using that by (auto simp: backend_init_defs Let_def split: option.splits if_splits)
  have d: "fd_waiters (mt_io_backend_shutdown r) = fd_waiters r" for r
    by (simp add: backend_shutdown_defs Let_def)
  show ?thesis
    using assms by (auto simp: mt_init_with_options_def Let_def c d split: if_splits prod.splits dest!: i)
qed

lemma waits_init: "waits_ok s \<Longrightarrow> mt_init_with_options opts env s = (rc, s') \<Longrightarrow> waits_ok s'"
  using init_fd_waiters[of opts env s rc s'] init_chan_mem[of opts env s rc s'] waits_emptied by blast

lemma waits_ensure_init: "waits_ok s \<Longrightarrow> ensure_init env s = (ok, s') \<Longrightarrow> waits_ok s'"
  by (auto simp: ensure_init_def mt_init_def split: if_splits prod.splits dest: waits_init)

lemma waits_create:
  "waits_ok s \<Longrightarrow> mt_create_task_internal fn arg sz want env s = (rc, h, s') \<Longrightarrow> waits_ok s'"
  using waits_calmer calmer.create by blast

lemma waits_run_begin: "waits_ok s \<Longrightarrow> mt_run_begin cur n ienv s = (r, s') \<Longrightarrow> waits_ok s'"
proof -
  assume w: "waits_ok s" and r: "mt_run_begin cur n ienv s = (r, s')"
  obtain ok q where e: "ensure_init ienv s = (ok, q)" by fastforce
  have "waits_ok (q\<lparr>running := x, stopping := y, run_result := z, worker_count := n\<rparr>) = waits_ok q" for x y z
    by (rule waits_same) (simp add: waits_part_def)
  then show "waits_ok s'" using waits_ensure_init[OF w e] r e by (auto simp: mt_run_begin_def split: if_splits)
qed

lemma waits_chan_create: "waits_ok s \<Longrightarrow> mt_chan_create es n env new_ch buf_ok junk s = (out, s') \<Longrightarrow> waits_ok s'"
proof -
  assume w: "waits_ok s" and c: "mt_chan_create es n env new_ch buf_ok junk s = (out, s')"
  obtain ok q where e: "ensure_init env s = (ok, q)" by fastforce
  note wq = waits_ensure_init[OF w e]
  have reg: "waits_ok (mt_chan_register k r) = waits_ok r" for k r
    by (rule waits_same) (simp add: waits_part_def mt_chan_register_def)
  have "idle_ok (zero_chan\<lparr>elem_size := es, capacity := n, ch_buffer := b\<rparr>)" for b
    by (simp add: idle_ok_def zero_chan_def)
  with c e w wq show ?thesis by (auto simp: mt_chan_create_def reg split: if_splits option.splits)
qed

lemma waits_teardown:
  assumes "waits_ok s" and "initialized s" and "\<not> running s"
  shows "waits_ok ((mt_shutdown None s)\<lparr>sw_mem := m\<rparr>)"
proof -
  let ?s = "shutdown_tasks (reset_handles (handles s) (reset_channels (channels s) s))"
  have "waits_ok ?s"
    by (rule waits_calmer[OF _ assms(1)]) simp
  moreover have "handles (reset_channels (channels s) s) = handles s" by simp
  then have "chan_mem (mt_shutdown None s) = chan_mem ?s"
    using assms(2,3) by (simp add: mt_shutdown_def Let_def)
  moreover have "fd_waiters (mt_shutdown None s) = []"
    using assms(2,3) clear_runtime_fresh by (simp add: mt_shutdown_def Let_def fresh_runtime_def del: clear_runtime_fresh)
  ultimately show ?thesis using waits_emptied[of ?s] by simp
qed

lemma waits_start:
  assumes w: "waits_ok s" and "start_step s s'"
  shows "waits_ok s'"
  using assms(2)
proof cases
  case (init opts ienv rc)
  then show ?thesis using waits_init[OF w] by blast
next
  case (run_begin cur n ienv q)
  then show ?thesis using waits_run_begin[OF w] by blast
next
  case (runtime_start cur n ienv q)
  then show ?thesis using w
    by (auto simp: mt_runtime_start_def split: if_splits prod.splits dest: waits_ensure_init waits_run_begin)
next
  case (chan_create new_ch es n ienv buf_ok junk ch)
  then show ?thesis using waits_chan_create[OF w] by blast
next
  case (teardown m)
  then show ?thesis using waits_teardown[OF w] by simp
qed (use w in \<open>auto simp: mt_go_def mt_go_with_stack_def mt_go_handle_def mt_go_handle_with_stack_def
    dest: waits_ensure_init waits_create split: if_splits prod.splits\<close>)

lemma waits_step: "waits_ok s \<Longrightarrow> rt_step s s' \<Longrightarrow> waits_ok s'"
  by (auto elim!: rt_step.cases intro: waits_start waits_calmer[OF worker_step_calmer] waits_call_step waits_io_step)

lemma waits_zero: "waits_ok zero_state"
  by (simp add: waits_ok_def fds_exclusive_def zero_state_def)

interpretation waits: inductive_invariant "\<lambda>s. s = zero_state" rt_step waits_ok
  by unfold_locales (auto intro: waits_step waits_zero)

end
