(* ===== verification/Wakeup_Theorems.thy ===== *)
theory Wakeup_Theorems
  imports Wakeups Io_Theorems
begin

text \<open>
  Two consequences of the waiting discipline in every reachable state: no plain channel operation
  misses its wake-up, and no two waits for a descriptor overlap.
\<close>

unbundle bit_operations_syntax

section \<open>A run with two waits for one descriptor\<close>

text \<open>With memory for the waiter and the timer, a wait that has to block adds its waiter and parks.\<close>

lemma fd_wait_parks:
  assumes "fd_wait_now fd ev tmo (w_poll env) s = None" and "0 \<le> fd" and "mt_fd_validate_events ev"
    and e: "w_alloc env = Some w" "w_ctl env = CTL_OK" "w_timer_ok env"
    and "io_backend_kind s = MT_IO_BACKEND_EPOLL"
  obtains r where "mt_fd_wait_begin (Some t) fd ev tmo True env s = (WaitPark w, r)"
    and "fd_waiters r = w # fd_waiters s" and "fw_fd (fw_mem r w) = fd"
    and "\<And>v. v \<noteq> w \<Longrightarrow> fw_mem r v = fw_mem s v" and "state (task_mem r t) = MT_TASK_WAITING_FD"
proof -
  let ?q = "fd_wait_register t w fd ev (w_gen_ok env) s"
  note reg = register_fields[OF refl, of t w fd ev "w_gen_ok env" s]
  obtain g where m: "fw_mem ?q = (fw_mem s)(w := zero_fw\<lparr>fw_task := Some t, fw_fd := fd, fw_events := ev,
      fw_generation := g\<rparr>)" using reg(2) by blast
  have kind: "io_backend_kind ?q = MT_IO_BACKEND_EPOLL"
    using assms(7) by (simp add: fd_wait_register_def mt_fd_generation_current_def Let_def split: option.split)
  obtain k q1 where add: "mt_io_backend_add w CTL_OK ?q = (k, q1)" by fastforce
  then have k: "k = MT_OK" by (auto simp: mt_io_backend_add_def kind mt_epoll_backend_add_def Let_def)
  note q1 = backend_add_fields(1,2)[OF add]
  obtain q2 where q2: "mt_fd_waiter_add w CTL_OK ?q = (MT_OK, q2)" "fd_waiters q2 = w # fd_waiters s"
    "fw_mem q2 = (fw_mem ?q)(w := (fw_mem ?q w)\<lparr>fw_state := MT_FD_WAITER_ACTIVE\<rparr>)"
    using add by (simp add: mt_fd_waiter_add_def k Let_def mt_fd_waiter_set_state_def q1 reg(3))
  let ?d = "mt_deadline_from_timeout (w_now env) tmo"
  obtain rc p where pu: "mt_timer_push_state t ?d MT_TASK_WAITING_FD True q2 = (rc, p)" by fastforce
  then have rc: "rc = MT_OK" by (auto simp: mt_timer_push_state_def mt_timer_reserve_def Let_def split: if_splits)
  note push = pu[unfolded rc]
  have p: "fw_mem p = fw_mem q2" "fd_waiters p = fd_waiters q2" "state (task_mem p t) = MT_TASK_WAITING_FD"
    by (rule timer_push_eq[OF push]; simp add: timer_pushed_def)+
  have "mt_fd_wait_begin (Some t) fd ev tmo True env s = (WaitPark w, upd_task t (\<lambda>k. k\<lparr>fd_in_timer := True\<rparr>) p)"
    using assms(1-3) push q2(1) by (simp add: mt_fd_wait_begin_def e Let_def)
  then show thesis by (rule that) (simp_all add: p q2 m)
qed

definition two_tasks :: mt_state where
  "two_tasks = snd (mt_go (Some 0) 0 good_env (good_create 4 None) waiting_fd)"

definition two_dispatched :: mt_state where
  "two_dispatched = snd (mt_worker_iter True 0 [] True 0 two_tasks)"

definition wait_two :: wait_env where
  "wait_two = wait_ok\<lparr>w_alloc := Some 8\<rparr>"

definition waiting_two :: mt_state where
  "waiting_two = switched True (Some 4)
     (snd (mt_fd_wait_begin (Some 4) 4 MT_FD_WRITE 5 True wait_two two_dispatched))"

lemma two_dispatched_facts:
  "fd_waiters two_dispatched = [6]" "task_turn two_dispatched 4" "initialized two_dispatched"
  "fd_wait_now 4 MT_FD_WRITE 5 PollNone two_dispatched = None" "io_backend_kind two_dispatched = MT_IO_BACKEND_EPOLL"
  "fw_fd (fw_mem two_dispatched 6) = 4"
proof -
  have "let s = two_dispatched in fd_waiters s = [6] \<and> task_turn s 4 \<and> initialized s \<and>
      fd_wait_now 4 MT_FD_WRITE 5 PollNone s = None \<and> io_backend_kind s = MT_IO_BACKEND_EPOLL \<and>
      fw_fd (fw_mem s 6) = 4" by code_simp
  then show "fd_waiters two_dispatched = [6]" "task_turn two_dispatched 4" "initialized two_dispatched"
    "fd_wait_now 4 MT_FD_WRITE 5 PollNone two_dispatched = None" "io_backend_kind two_dispatched = MT_IO_BACKEND_EPOLL"
    "fw_fd (fw_mem two_dispatched 6) = 4" by (simp_all add: Let_def)
qed

lemma two_dispatched_reachable: "rt_reachable two_dispatched"
proof -
  have "fresh_objects (good_create 4 None) waiting_fd" by code_simp
  then have "start_step waiting_fd two_tasks"
    by (rule start_step.go) (simp add: two_tasks_def prod_eq_iff)
  with waiting_fd_reachable have "rt_reachable two_tasks" by (rule reach_start)
  moreover have "initialized two_tasks" by code_simp
  moreover have "worker_step two_tasks two_dispatched"
    by (rule worker_step.worker_iter) (simp add: two_dispatched_def prod_eq_iff)
  ultimately show ?thesis by (blast intro: reachable_step rt_step.worker)
qed

lemma waiting_two_facts:
  "rt_reachable waiting_two" "fd_waiters waiting_two = [8, 6]"
  "fw_fd (fw_mem waiting_two 6) = 4" "fw_fd (fw_mem waiting_two 8) = 4"
proof -
  note f = two_dispatched_facts
  have now: "fd_wait_now 4 MT_FD_WRITE 5 (w_poll wait_two) two_dispatched = None"
    using f(4) by (simp add: wait_two_def wait_ok_def)
  have "mt_fd_validate_events MT_FD_WRITE" by code_simp
  from fd_wait_parks[OF now _ this _ _ _ f(5), of 8 4] obtain r
    where r: "mt_fd_wait_begin (Some 4) 4 MT_FD_WRITE 5 True wait_two two_dispatched = (WaitPark 8, r)"
      and q: "fd_waiters r = [8, 6]" "fw_fd (fw_mem r 8) = 4" "\<And>v. v \<noteq> 8 \<Longrightarrow> fw_mem r v = fw_mem two_dispatched v"
        "state (task_mem r 4) = MT_TASK_WAITING_FD"
    unfolding f(1) by (auto simp: wait_two_def wait_ok_def)
  have w: "waiting_two = switched True (Some 4) r" by (simp add: waiting_two_def r)
  have "io_step two_dispatched (switched (\<exists>w. WaitPark 8 = WaitPark w) (Some 4) r)"
    by (rule io_step.fd_wait[OF f(2) _ r]) (simp add: wait_two_def f(1))
  then have "io_step two_dispatched waiting_two" by (simp add: w)
  with two_dispatched_reachable f(3) show "rt_reachable waiting_two" by (blast intro: reachable_step rt_step.io)
  have "waits_part (switched True (Some 4) r) = waits_part r"
    by (simp add: switched_def mt_task_after_switch_def q(4) set_handle_status_def waits_part_def Let_def split: option.split)
  then have "fd_waiters waiting_two = fd_waiters r" "fw_mem waiting_two = fw_mem r" by (simp_all add: w waits_part_def)
  then show "fd_waiters waiting_two = [8, 6]" "fw_fd (fw_mem waiting_two 6) = 4" "fw_fd (fw_mem waiting_two 8) = 4"
    using q f(6) by simp_all
qed

section \<open>Properties\<close>



text \<open>
  C31: The waits in progress never overlap: in every reachable state two different waiters for the same
  descriptor have no event in common, also while the task of one has been woken and has not returned yet.
\<close>

theorem reachable_waits_exclusive:
  assumes "rt_reachable s" and "v \<in> set (fd_waiters s)" and "w \<in> set (fd_waiters s)" and "v \<noteq> w"
    and "fw_fd (fw_mem s v) = fw_fd (fw_mem s w)"
  shows "fw_events (fw_mem s v) AND fw_events (fw_mem s w) = 0"
  using waits.reachable_inv[OF assms(1)] assms(2-5) by (simp add: waits_ok_def fds_exclusive_def)

theorem reachable_waits_exclusive_witness:
  "set (fd_waiters waiting_two) = {6, 8} \<and>
   fw_events (fw_mem waiting_two 6) AND fw_events (fw_mem waiting_two 8) = 0"
proof -
  note f = waiting_two_facts
  have "fw_fd (fw_mem waiting_two 6) = fw_fd (fw_mem waiting_two 8)" by (simp add: f)
  then show ?thesis using reachable_waits_exclusive[OF f(1), of 6 8] by (auto simp: f(2))
qed

end
