(* ===== verification/Channel_Fifo.thy ===== *)
theory Channel_Fifo
  imports Channel_Theorems Wakeups
begin

text \<open>
  A channel as its users see it, blocked tasks included: the values on their way, in order, are those
  in the ring followed by those the blocked senders offer. Whatever the interleaving, plain sends and
  receives lose, invent and reorder nothing.
\<close>

section \<open>Values on their way\<close>

definition in_transit :: "cptr \<Rightarrow> mt_state \<Rightarrow> byte list list" where
  "in_transit c s = ring_content (chan_mem s c) @
     map (\<lambda>t. value_at c (chan_value (task_mem s t)) s) (send_q (chan_mem s c))"

text \<open>A channel that is open and on which no select is registered.\<close>

definition plain_chan :: "cptr \<Rightarrow> mt_state \<Rightarrow> bool" where
  "plain_chan c s \<longleftrightarrow> \<not> ch_closed (chan_mem s c) \<and> select_send_q (chan_mem s c) = [] \<and> select_recv_q (chan_mem s c) = []"

text \<open>What the operations rely on; it holds in every reachable state.\<close>

definition flow_ok :: "cptr \<Rightarrow> mt_state \<Rightarrow> bool" where
  "flow_ok c s \<longleftrightarrow> plain_chan c s \<and> idle_ok (chan_mem s c) \<and> ring_safe (chan_mem s c) \<and>
     distinct (send_q (chan_mem s c))"

text \<open>The memory a receive writes belongs to nobody who is blocked in a send on the channel.\<close>

definition target_free :: "cptr \<Rightarrow> vptr \<Rightarrow> mt_state \<Rightarrow> bool" where
  "target_free c v s \<longleftrightarrow> (\<forall>t \<in> set (send_q (chan_mem s c)).
     mem_disjoint v (elem_size (chan_mem s c)) (the (chan_value (task_mem s t))) (elem_size (chan_mem s c)))"

text \<open>The value a send hands to the receiver that has waited longest, as it is in its memory afterwards.\<close>

definition handed_over :: "cptr \<Rightarrow> mt_state \<Rightarrow> mt_state \<Rightarrow> byte list list" where
  "handed_over c s s' =
     (case recv_q (chan_mem s c) of [] \<Rightarrow> [] | t # _ \<Rightarrow> [value_at c (chan_value (task_mem s t)) s'])"

lemma flow_reachable:
  assumes "rt_reachable s" and "plain_chan c s"
  shows "flow_ok c s"
proof -
  have "distinct (send_q (chan_mem s c))"
    using wfD(3)[OF reachable_wf[OF assms(1)]] by (simp add: wf_send_def)
  moreover have "ring_safe (chan_mem s c)" using rings.reachable_inv[OF assms(1)] by (simp add: rings_ok_def)
  ultimately show ?thesis using waits_chan[OF waits.reachable_inv[OF assms(1)], of c] assms(2) by (simp add: flow_ok_def)
qed

lemma value_at_ready [simp]: "value_at d p (mt_chan_ready_waiter t r s) = value_at d p s"
  by (simp add: value_at_def ready_waiter_task)

lemma ready_chan_mem [simp]: "chan_mem (mt_chan_ready_waiter t r s) = chan_mem s"
  by (simp add: mt_chan_ready_waiter_def mt_task_complete_channel_wait_def mark_ready_eq dec_channel_waiting_eq Let_def)

lemma ring_content_queues [simp]:
  "ring_content (ch\<lparr>recv_q := q, recv_waiters := n\<rparr>) = ring_content ch"
  "ring_content (ch\<lparr>send_q := q, send_waiters := n\<rparr>) = ring_content ch"
  by (rule ring_content_part; simp add: ring_part_def)+

section \<open>Sending\<close>

lemma send_now_flow:
  assumes f: "flow_ok c s" and s': "send_now c (Some v) s = (rc, s')"
  shows "rc = Some MT_OK \<Longrightarrow> in_transit c s @ [value_at c (Some v) s] = handed_over c s s' @ in_transit c s'"
    and "rc \<noteq> Some MT_OK \<Longrightarrow> rc = None \<and> s' = s \<and> recv_q (chan_mem s c) = []"
    and "plain_chan c s'"
proof -
  note p = f[unfolded flow_ok_def plain_chan_def]
  show "rc = Some MT_OK \<Longrightarrow> in_transit c s @ [value_at c (Some v) s] = handed_over c s s' @ in_transit c s'"
  proof (cases "recv_q (chan_mem s c)")
    case Nil
    assume "rc = Some MT_OK"
    then have l: "ch_len (chan_mem s c) < capacity (chan_mem s c)" "s' = buffer_push c (value_at c (Some v) s) s"
      using s' send_now_plain[OF Nil] p by (auto split: if_splits)
    have "ring_ok (chan_mem s c)" "send_q (chan_mem s c) = []" using p l(1) by (auto simp: ring_safe_def idle_ok_def)
    then show ?thesis
      using push_content[OF _ l(1), of "value_at c (Some v) s"] Nil
      by (simp add: in_transit_def handed_over_def l(2) buffer_push_def value_at_def) (simp add: mt_chan_buffer_push_def)
  next
    case (Cons t ts)
    then have z: "send_q (chan_mem s c) = []" "ring_content (chan_mem s c) = []"
      using p by (auto simp: idle_ok_def ring_content_empty)
    show ?thesis using s' Cons p z
      by (auto simp: send_now_def chan_recv_pop_def in_transit_def handed_over_def store_at_def value_at_def ready_waiter_task)
  qed
  show "rc \<noteq> Some MT_OK \<Longrightarrow> rc = None \<and> s' = s \<and> recv_q (chan_mem s c) = []" "plain_chan c s'"
    using s' p by (cases "recv_q (chan_mem s c)"; auto simp: send_now_def chan_recv_pop_def pop_Nil_eq plain_chan_def store_at_def
        buffer_push_def mt_chan_buffer_push_def split: if_splits)+
qed

section \<open>Receiving\<close>

lemma values_kept:
  assumes "target_free c v s" and "t \<in> set (send_q (chan_mem s c))" and "length bs = elem_size (chan_mem s c)"
  shows "read_mem (write_mem v bs (user_mem s)) (the (chan_value (task_mem s t))) (elem_size (chan_mem s c)) =
    value_at c (chan_value (task_mem s t)) s"
  using assms read_write_other[of v bs "the (chan_value (task_mem s t))" "elem_size (chan_mem s c)" "user_mem s"]
  by (simp add: target_free_def value_at_def)

text \<open>A receive with a blocked sender behind a full ring: the oldest value leaves, the sender's enters.\<close>

lemma recv_now_refill:
  assumes ok: "ring_ok (chan_mem s c)" and l: "0 < ch_len (chan_mem s c)" and f: "flow_ok c s" "target_free c v s"
    and q: "send_q (chan_mem s c) = t # ts"
  obtains s' where "recv_now c (Some v) s = (Some MT_OK, s')" and "send_q (chan_mem s' c) = ts"
    and "ring_content (chan_mem s' c) = tl (ring_content (chan_mem s c)) @ [value_at c (chan_value (task_mem s t)) s]"
    and "\<And>u. u \<noteq> t \<Longrightarrow> task_mem s' u = task_mem s u" and "plain_chan c s'" and "elem_size (chan_mem s' c) = elem_size (chan_mem s c)"
    and "user_mem s' = write_mem v (hd (ring_content (chan_mem s c))) (user_mem s)"
proof -
  let ?es = "elem_size (chan_mem s c)" and ?x = "fst (mt_chan_buffer_pop (chan_mem s c))"
    and ?v = "value_at c (chan_value (task_mem s t)) s" and ?b = "buffer_pop c (Some v) s"
  let ?s1 = "upd_chan c (\<lambda>ch. ch\<lparr>send_q := ts, send_waiters := send_waiters (chan_mem s c) - 1\<rparr>) ?b"
  note x = length_popped[OF ok l] and p = f(1)[unfolded flow_ok_def plain_chan_def]
  have cap: "ch_len (chan_mem s c) \<le> capacity (chan_mem s c)" using p by (simp add: idle_ok_def)
  have part: "ring_part (chan_mem ?s1 c) = ring_part (snd (mt_chan_buffer_pop (chan_mem s c)))" by (simp add: ring_part_def)
  have s1: "ring_ok (chan_mem ?s1 c)" "ring_content (chan_mem ?s1 c) = tl (ring_content (chan_mem s c))"
    "ch_len (chan_mem ?s1 c) < capacity (chan_mem ?s1 c)"
    using pop_ring_ok[OF ok l] pop_content[OF ok l] l cap
    unfolding ring_ok_part[OF part] ring_content_part[OF part] by simp_all
  have pop: "chan_send_pop c ?b = (Some t, ?s1)" using q by (simp add: chan_send_pop_def)
  have "value_at c (chan_value (task_mem s t)) ?s1 = ?v"
    using values_kept[OF f(2) _ x, of t] q by (simp add: value_at_def)
  then have r: "recv_now c (Some v) s = (Some MT_OK, mt_chan_ready_waiter t MT_OK (buffer_push c ?v ?s1))"
    using l cap p pop by (simp add: recv_now_def mt_chan_fill_buffer_from_waiting_sender_def)
  show thesis
  proof (rule that[OF r])
    show "ring_content (chan_mem (mt_chan_ready_waiter t MT_OK (buffer_push c ?v ?s1)) c) =
        tl (ring_content (chan_mem s c)) @ [?v]"
      using push_content[OF s1(1,3), of ?v] s1(2) by (simp add: buffer_push_def value_at_def)
  qed (use p pop_content[OF ok l] in \<open>simp_all add: buffer_push_def mt_chan_buffer_push_def ready_waiter_task plain_chan_def
      mt_chan_buffer_pop_def\<close>)
qed

text \<open>A receive from an empty ring with a blocked sender takes the value from the sender itself.\<close>

lemma recv_now_direct:
  assumes f: "flow_ok c s" "target_free c v s" and l: "ch_len (chan_mem s c) = 0" and q: "send_q (chan_mem s c) = u # ts"
    and s': "recv_now c (Some v) s = (rc, s')"
  shows "rc = Some MT_OK \<and> in_transit c s = value_at c (Some v) s' # in_transit c s' \<and> plain_chan c s'"
proof -
  note p = f(1)[unfolded flow_ok_def plain_chan_def]
  have z: "ring_content (chan_mem s c) = []" using l by (simp add: ring_content_empty)
  have s1: "rc = Some MT_OK" "s' = mt_chan_ready_waiter u MT_OK (store_at (Some v) (value_at c (chan_value (task_mem s u)) s)
      (upd_chan c (\<lambda>ch. ch\<lparr>send_q := ts, send_waiters := send_waiters (chan_mem s c) - 1\<rparr>) s))"
    using s' l q p by (auto simp: recv_now_def chan_send_pop_def value_at_def)
  have "value_at c (chan_value (task_mem s' w)) s' = value_at c (chan_value (task_mem s w)) s" if "w \<in> set ts" for w
    using that p q values_kept[OF f(2), of w "value_at c (chan_value (task_mem s u)) s"]
    by (auto simp: s1 ready_waiter_task store_at_def value_at_def)
  then show ?thesis
    using s1(1) p q z by (auto simp: in_transit_def s1(2) store_at_def plain_chan_def value_at_def[of c "Some v"] ready_waiter_task)
qed

lemma recv_now_flow:
  assumes f: "flow_ok c s" and t: "target_free c v s" and s': "recv_now c (Some v) s = (rc, s')"
  shows "rc = Some MT_OK \<Longrightarrow> in_transit c s = value_at c (Some v) s' # in_transit c s'"
    and "rc \<noteq> Some MT_OK \<Longrightarrow> rc = None \<and> s' = s"
    and "plain_chan c s'"
proof -
  note p = f[unfolded flow_ok_def plain_chan_def]
  have "(rc = Some MT_OK \<longrightarrow> in_transit c s = value_at c (Some v) s' # in_transit c s') \<and>
      (rc \<noteq> Some MT_OK \<longrightarrow> rc = None \<and> s' = s) \<and> plain_chan c s'"
  proof (cases "0 < ch_len (chan_mem s c)"; cases "send_q (chan_mem s c)")
    assume l: "0 < ch_len (chan_mem s c)" and q: "send_q (chan_mem s c) = []"
    have ok: "ring_ok (chan_mem s c)" using p l by (auto simp: ring_safe_def)
    show ?thesis
      using s' recv_now_plain[OF q] p l length_popped[OF ok l] pop_content[OF ok l] q
      by (auto simp: in_transit_def value_at_def plain_chan_def mt_chan_buffer_pop_def)
  next
    fix u ts assume l: "0 < ch_len (chan_mem s c)" and q: "send_q (chan_mem s c) = u # ts"
    have ok: "ring_ok (chan_mem s c)" using p l by (auto simp: ring_safe_def)
    obtain x xs where c: "ring_content (chan_mem s c) = x # xs" "length x = elem_size (chan_mem s c)"
      using pop_content[OF ok l] length_popped[OF ok l] by blast
    from recv_now_refill[OF ok l f t q] obtain r where r: "recv_now c (Some v) s = (Some MT_OK, r)"
      "send_q (chan_mem r c) = ts" "ring_content (chan_mem r c) = xs @ [value_at c (chan_value (task_mem s u)) s]"
      "\<And>w. w \<noteq> u \<Longrightarrow> task_mem r w = task_mem s w" "plain_chan c r" "elem_size (chan_mem r c) = elem_size (chan_mem s c)"
      "user_mem r = write_mem v x (user_mem s)" by (auto simp: c)
    have "value_at c (chan_value (task_mem r w)) r = value_at c (chan_value (task_mem s w)) s" if "w \<in> set ts" for w
    proof -
      have "w \<noteq> u" using that p q by auto
      then show ?thesis using that q values_kept[OF t _ c(2), of w] by (simp add: value_at_def r(4,6,7))
    qed
    then show ?thesis
      using s' r c q by (auto simp: in_transit_def value_at_def[of c "Some v"])
  next
    assume l: "\<not> 0 < ch_len (chan_mem s c)" and q: "send_q (chan_mem s c) = []"
    show ?thesis using s' recv_now_plain[OF q] p l by (auto simp: plain_chan_def)
  next
    fix u ts assume "\<not> 0 < ch_len (chan_mem s c)" and "send_q (chan_mem s c) = u # ts"
    then show ?thesis using recv_now_direct[OF f t _ _ s'] by simp
  qed
  then show "rc = Some MT_OK \<Longrightarrow> in_transit c s = value_at c (Some v) s' # in_transit c s'"
    "rc \<noteq> Some MT_OK \<Longrightarrow> rc = None \<and> s' = s" "plain_chan c s'" by blast+
qed

section \<open>Any number of steps\<close>

text \<open>
  A run of the whole runtime, as one channel sees it: what was offered to it and what was taken from
  it, each in order. Steps that do not concern the channel may come in between in any number, as long
  as they leave the memory of the blocked senders alone.
\<close>

definition undisturbed :: "cptr \<Rightarrow> mt_state \<Rightarrow> mt_state \<Rightarrow> bool" where
  "undisturbed c s s' \<longleftrightarrow> chan_mem s' c = chan_mem s c \<and> (\<forall>t \<in> set (send_q (chan_mem s c)).
     value_at c (chan_value (task_mem s' t)) s' = value_at c (chan_value (task_mem s t)) s)"

inductive chan_trace :: "cptr \<Rightarrow> mt_state \<Rightarrow> byte list list \<Rightarrow> byte list list \<Rightarrow> mt_state \<Rightarrow> bool" for c s0 where
  trace_start: "chan_trace c s0 [] [] s0"
| trace_send: "chan_trace c s0 sent recd s \<Longrightarrow> initialized s \<Longrightarrow> c \<in> set (channels s) \<Longrightarrow> caller s cur \<Longrightarrow>
    mt_chan_send cur (Some c) (Some v) s = (out, s') \<Longrightarrow>
    chan_trace c s0 (sent @ (if out = Return MT_OK \<or> out = Park then [value_at c (Some v) s] else []))
      (recd @ handed_over c s s') (switched (out = Park) cur s')"
| trace_try_send: "chan_trace c s0 sent recd s \<Longrightarrow> initialized s \<Longrightarrow> mt_chan_try_send (Some c) (Some v) s = (rc, s') \<Longrightarrow>
    chan_trace c s0 (sent @ (if rc = MT_OK then [value_at c (Some v) s] else [])) (recd @ handed_over c s s') s'"
| trace_recv: "chan_trace c s0 sent recd s \<Longrightarrow> initialized s \<Longrightarrow> c \<in> set (channels s) \<Longrightarrow> caller s cur \<Longrightarrow>
    target_free c v s \<Longrightarrow> mt_chan_recv cur (Some c) (Some v) s = (out, s') \<Longrightarrow>
    chan_trace c s0 sent (recd @ (if out = Return MT_OK then [value_at c (Some v) s'] else [])) (switched (out = Park) cur s')"
| trace_try_recv: "chan_trace c s0 sent recd s \<Longrightarrow> initialized s \<Longrightarrow> target_free c v s \<Longrightarrow>
    mt_chan_try_recv (Some c) (Some v) s = (rc, s') \<Longrightarrow>
    chan_trace c s0 sent (recd @ (if rc = MT_OK then [value_at c (Some v) s'] else [])) s'"
| trace_other: "chan_trace c s0 sent recd s \<Longrightarrow> rt_step s s' \<Longrightarrow> undisturbed c s s' \<Longrightarrow> chan_trace c s0 sent recd s'"

text \<open>A task that parks on a channel adds itself and changes nothing else the channel knows of.\<close>

lemma parked_flow:
  assumes r: "r = chan_send_push c t (mt_task_block_on_channel t c MT_CHAN_WAIT_SEND v s) \<or>
      r = chan_recv_push c t (mt_task_block_on_channel t c MT_CHAN_WAIT_RECV v s)"
  shows "user_mem (switched True (Some t) r) = user_mem s"
    and "chan_mem (switched True (Some t) r) = chan_mem r"
    and "chan_value (task_mem (switched True (Some t) r) u) = (if u = t then v else chan_value (task_mem s u))"
proof -
  have "state (task_mem r t) = MT_TASK_WAITING_CHAN"
    using r by (auto simp: chan_send_push_def chan_recv_push_def mt_task_block_on_channel_def Let_def)
  then have a: "switched True (Some t) r = set_handle_status t MT_TASK_STATUS_WAITING_CHAN
      (r\<lparr>current := None, running_tasks := running_tasks r - 1\<rparr>)"
    by (simp add: switched_def mt_task_after_switch_def Let_def)
  have h: "user_mem (set_handle_status t k q) = user_mem q" "chan_mem (set_handle_status t k q) = chan_mem q"
    "task_mem (set_handle_status t k q) = task_mem q" for k and q :: mt_state
    by (simp_all add: set_handle_status_def split: option.split)
  show "user_mem (switched True (Some t) r) = user_mem s"
    "chan_mem (switched True (Some t) r) = chan_mem r"
    "chan_value (task_mem (switched True (Some t) r) u) = (if u = t then v else chan_value (task_mem s u))"
    using r unfolding a h by (auto simp: chan_send_push_def chan_recv_push_def mt_task_block_on_channel_def Let_def)
qed

lemma send_flow:
  assumes f: "flow_ok c s" and t: "\<And>t. cur = Some t \<Longrightarrow> t \<notin> set (send_q (chan_mem s c))"
    and r: "mt_chan_send cur (Some c) (Some v) s = (out, r)"
  shows "in_transit c s @ (if out = Return MT_OK \<or> out = Park then [value_at c (Some v) s] else []) =
      handed_over c s r @ in_transit c (switched (out = Park) cur r) \<and> plain_chan c (switched (out = Park) cur r)"
proof -
  obtain rc q where n: "send_now c (Some v) s = (rc, q)" by fastforce
  note flow = send_now_flow[OF f n]
  show ?thesis
  proof (cases "rc = Some MT_OK")
    case True
    then show ?thesis using r n flow(1,3) by (auto simp: mt_chan_send_def switched_def)
  next
    case False
    note w = flow(2)[OF False]
    then have h: "handed_over c s r = []" by (simp add: handed_over_def)
    show ?thesis
    proof (cases cur)
      case None
      then show ?thesis using r n w h flow(3) by (auto simp: mt_chan_send_def switched_def)
    next
      case (Some t)
      then have p: "out = Park" "r = chan_send_push c t (mt_task_block_on_channel t c MT_CHAN_WAIT_SEND (Some v) s)"
        using r n w by (auto simp: mt_chan_send_def)
      note e = parked_flow[OF disjI1[OF p(2)]]
      have ch: "chan_mem r c = (chan_mem s c)\<lparr>send_q := send_q (chan_mem s c) @ [t], send_waiters := send_waiters (chan_mem s c) + 1\<rparr>"
        by (simp add: p(2) chan_send_push_def mt_task_block_on_channel_def Let_def)
      have "t \<notin> set (send_q (chan_mem s c))" using assms(2) Some by blast
      then show ?thesis
        using p(1) h flow(3) w by (auto simp: Some in_transit_def value_at_def plain_chan_def e ch intro!: map_cong)
    qed
  qed
qed

lemma recv_flow:
  assumes f: "flow_ok c s" and t: "target_free c v s" and r: "mt_chan_recv cur (Some c) (Some v) s = (out, r)"
    and c: "\<And>t. cur = Some t \<Longrightarrow> t \<notin> set (send_q (chan_mem s c))"
  shows "in_transit c s = (if out = Return MT_OK then [value_at c (Some v) r] else []) @
      in_transit c (switched (out = Park) cur r) \<and> plain_chan c (switched (out = Park) cur r)"
proof -
  obtain rc q where n: "recv_now c (Some v) s = (rc, q)" by fastforce
  note flow = recv_now_flow[OF f t n]
  show ?thesis
  proof (cases "rc = Some MT_OK")
    case True
    then show ?thesis using r n flow(1,3) by (auto simp: mt_chan_recv_def switched_def)
  next
    case False
    note w = flow(2)[OF False]
    show ?thesis
    proof (cases cur)
      case None
      then show ?thesis using r n w flow(3) by (auto simp: mt_chan_recv_def switched_def)
    next
      case (Some t)
      then have p: "out = Park" "r = chan_recv_push c t (mt_task_block_on_channel t c MT_CHAN_WAIT_RECV (Some v) s)"
        using r n w by (auto simp: mt_chan_recv_def)
      note e = parked_flow[OF disjI2[OF p(2)]]
      have ch: "chan_mem r c = (chan_mem s c)\<lparr>recv_q := recv_q (chan_mem s c) @ [t], recv_waiters := recv_waiters (chan_mem s c) + 1\<rparr>"
        by (simp add: p(2) chan_recv_push_def mt_task_block_on_channel_def Let_def)
      have "t \<notin> set (send_q (chan_mem s c))" using c Some by blast
      then show ?thesis
        using p(1) flow(3) w by (auto simp: Some in_transit_def value_at_def plain_chan_def e ch intro!: map_cong)
    qed
  qed
qed

text \<open>The non-blocking calls are those of a caller that cannot park.\<close>

lemma try_flow:
  assumes f: "flow_ok c s"
  shows "mt_chan_try_send (Some c) (Some v) s = (rc, s') \<Longrightarrow>
      in_transit c s @ (if rc = MT_OK then [value_at c (Some v) s] else []) = handed_over c s s' @ in_transit c s' \<and> plain_chan c s'"
    and "mt_chan_try_recv (Some c) (Some v) s = (rc, s') \<Longrightarrow> target_free c v s \<Longrightarrow>
      in_transit c s = (if rc = MT_OK then [value_at c (Some v) s'] else []) @ in_transit c s' \<and> plain_chan c s'"
proof -
  obtain k q where n: "send_now c (Some v) s = (k, q)" by fastforce
  show "in_transit c s @ (if rc = MT_OK then [value_at c (Some v) s] else []) = handed_over c s s' @ in_transit c s' \<and> plain_chan c s'"
    if "mt_chan_try_send (Some c) (Some v) s = (rc, s')"
    using that n send_now_flow[OF f n] by (cases "k = Some MT_OK") (auto simp: mt_chan_try_send_def handed_over_def)
  obtain l p where m: "recv_now c (Some v) s = (l, p)" by fastforce
  show "in_transit c s = (if rc = MT_OK then [value_at c (Some v) s'] else []) @ in_transit c s' \<and> plain_chan c s'"
    if "mt_chan_try_recv (Some c) (Some v) s = (rc, s')" "target_free c v s"
    using that(1) m recv_now_flow[OF f that(2) m] by (cases "l = Some MT_OK") (auto simp: mt_chan_try_recv_def)
qed

lemma caller_not_queued:
  assumes "rt_reachable s" and "caller s (Some t)"
  shows "t \<notin> set (send_q (chan_mem s c))"
  using wfD(3)[OF reachable_wf[OF assms(1)]] callerD[OF assms(2) refl]
  by (auto simp: wf_send_def waits_send_def is_running_def)

lemma undisturbed_flow: "undisturbed c s s' \<Longrightarrow> in_transit c s' = in_transit c s \<and> plain_chan c s' = plain_chan c s"
  by (auto simp: undisturbed_def in_transit_def plain_chan_def)

text \<open>One step of each kind, from a reachable state to a reachable state.\<close>

lemma send_step_flow:
  assumes r: "rt_reachable s" and "plain_chan c s" and i: "initialized s" "c \<in> set (channels s)" "caller s cur"
    and s': "mt_chan_send cur (Some c) (Some v) s = (out, r)"
  shows "in_transit c s @ (if out = Return MT_OK \<or> out = Park then [value_at c (Some v) s] else []) =
      handed_over c s r @ in_transit c (switched (out = Park) cur r)"
    and "plain_chan c (switched (out = Park) cur r)" and "rt_reachable (switched (out = Park) cur r)"
proof -
  have "t \<notin> set (send_q (chan_mem s c))" if "cur = Some t" for t using caller_not_queued r i(3) that by blast
  note f = send_flow[OF flow_reachable[OF assms(1,2)] this s']
  show "in_transit c s @ (if out = Return MT_OK \<or> out = Park then [value_at c (Some v) s] else []) =
      handed_over c s r @ in_transit c (switched (out = Park) cur r)"
    "plain_chan c (switched (out = Park) cur r)" using f by blast+
  show "rt_reachable (switched (out = Park) cur r)"
    by (rule reachable_step[OF r rt_step.call[OF i(1) call_step.send[OF i(3,2) s']]])
qed

lemma recv_step_flow:
  assumes r: "rt_reachable s" and "plain_chan c s" and i: "initialized s" "c \<in> set (channels s)" "caller s cur"
    and t: "target_free c v s" and s': "mt_chan_recv cur (Some c) (Some v) s = (out, r)"
  shows "in_transit c s = (if out = Return MT_OK then [value_at c (Some v) r] else []) @
      in_transit c (switched (out = Park) cur r)"
    and "plain_chan c (switched (out = Park) cur r)" and "rt_reachable (switched (out = Park) cur r)"
proof -
  have "u \<notin> set (send_q (chan_mem s c))" if "cur = Some u" for u using caller_not_queued r i(3) that by blast
  note f = recv_flow[OF flow_reachable[OF assms(1,2)] t s' this]
  show "in_transit c s = (if out = Return MT_OK then [value_at c (Some v) r] else []) @
      in_transit c (switched (out = Park) cur r)" "plain_chan c (switched (out = Park) cur r)" using f by blast+
  show "rt_reachable (switched (out = Park) cur r)"
    by (rule reachable_step[OF r rt_step.call[OF i(1) call_step.recv[OF i(3,2) s']]])
qed

lemma try_step_flow:
  assumes r: "rt_reachable s" and "plain_chan c s" and i: "initialized s"
  shows "mt_chan_try_send (Some c) (Some v) s = (rc, s') \<Longrightarrow>
      in_transit c s @ (if rc = MT_OK then [value_at c (Some v) s] else []) = handed_over c s s' @ in_transit c s' \<and>
      plain_chan c s' \<and> rt_reachable s'"
    and "mt_chan_try_recv (Some c) (Some v) s = (rc, s') \<Longrightarrow> target_free c v s \<Longrightarrow>
      in_transit c s = (if rc = MT_OK then [value_at c (Some v) s'] else []) @ in_transit c s' \<and>
      plain_chan c s' \<and> rt_reachable s'"
  using try_flow[OF flow_reachable[OF assms(1,2)]] reachable_step[OF r rt_step.call[OF i call_step.try_send]]
    reachable_step[OF r rt_step.call[OF i call_step.try_recv]] by blast+

section \<open>Properties\<close>

text \<open>
  C3: A channel is a FIFO queue for all its users together. In every run of the runtime from a
  reachable state, as long as the channel is open and used by plain sends and receives, blocking or
  not, the values taken from it followed by those still on their way (in the ring, then with the
  blocked senders in the order they came) are those on their way at the start followed by the values
  offered: none is lost, duplicated, altered or overtaken, whichever tasks call and however their calls
  interleave. Receivers must not point into the memory of a blocked sender.
\<close>

theorem channel_fifo:
  assumes "rt_reachable s" and "plain_chan c s" and "chan_trace c s sent recd s'"
  shows "in_transit c s @ sent = recd @ in_transit c s'"
proof -
  from assms(3) have "in_transit c s @ sent = recd @ in_transit c s' \<and> rt_reachable s' \<and> plain_chan c s'"
  proof induction
    case trace_start
    then show ?case using assms(1,2) by simp
  next
    case (trace_send sent recd q cur v out r)
    then show ?case using send_step_flow[OF _ _ trace_send.hyps(2-5)] by (metis append_assoc)
  next
    case (trace_try_send sent recd q v rc r)
    then show ?case using try_step_flow(1)[OF _ _ trace_try_send.hyps(2,3)] by (metis append_assoc)
  next
    case (trace_recv sent recd q cur v out r)
    then show ?case using recv_step_flow[OF _ _ trace_recv.hyps(2-6)] by (metis append_assoc)
  next
    case (trace_try_recv sent recd q v rc r)
    then show ?case using try_step_flow(2)[OF _ _ trace_try_recv.hyps(2,4,3)] by (metis append_assoc)
  next
    case (trace_other sent recd q r)
    then show ?case using undisturbed_flow[OF trace_other.hyps(3)] reachable_step by metis
  qed
  then show ?thesis by blast
qed

text \<open>A channel with room for two values; the main thread sends the bytes 9 and 10 and receives one.\<close>

definition fifo0 :: mt_state where
  "fifo0 = with_ring\<lparr>user_mem := word_of_nat\<rparr>"

definition fifo1 :: mt_state where
  "fifo1 = snd (mt_chan_try_send (Some 7) (Some 9) fifo0)"

definition fifo2 :: mt_state where
  "fifo2 = snd (mt_chan_try_send (Some 7) (Some 10) fifo1)"

definition fifo3 :: mt_state where
  "fifo3 = snd (mt_chan_try_recv (Some 7) (Some 20) fifo2)"

lemma with_ring_fields: "chan_mem with_ring 7 = small_ring" "initialized with_ring"
proof -
  have "fst (ensure_init good_env zero_state)" "initialized (snd (ensure_init good_env zero_state))" by code_simp+
  then show "chan_mem with_ring 7 = small_ring" "initialized with_ring"
    by (cases "ensure_init good_env zero_state";
        simp add: with_ring_def mt_chan_create_def mt_chan_register_def zero_chan_def small_ring_def upt_rec)+
qed

lemma fifo_steps:
  "mt_chan_try_send (Some 7) (Some 9) fifo0 = (MT_OK, fifo1)" "mt_chan_try_send (Some 7) (Some 10) fifo1 = (MT_OK, fifo2)"
  "mt_chan_try_recv (Some 7) (Some 20) fifo2 = (MT_OK, fifo3)" "initialized fifo0" "initialized fifo1" "initialized fifo2"
  "value_at 7 (Some 9) fifo0 = [9]" "value_at 7 (Some 10) fifo1 = [10]" "value_at 7 (Some 20) fifo3 = [9]"
  "plain_chan 7 fifo0" "target_free 7 20 fifo2" "handed_over 7 fifo0 fifo1 = []" "handed_over 7 fifo1 fifo2 = []"
  "in_transit 7 fifo0 = []"
proof -
  note d = small_ring_def zero_chan_def mt_chan_buffer_push_def mt_chan_buffer_pop_def copy_in_def copy_out_def
  have c0: "chan_mem fifo0 7 = small_ring" "initialized fifo0" "user_mem fifo0 = word_of_nat"
    by (simp_all add: fifo0_def with_ring_fields)
  have v0: "value_at 7 (Some 9) fifo0 = [9]" by (simp add: value_at_def read_mem_def c0 d)
  have s1: "mt_chan_try_send (Some 7) (Some 9) fifo0 = (MT_OK, buffer_push 7 [9] fifo0)"
    using v0 by (simp add: mt_chan_try_send_def send_now_plain c0 d)
  then have f1: "fifo1 = buffer_push 7 [9] fifo0" by (simp add: fifo1_def)
  have c1: "chan_mem fifo1 7 = mt_chan_buffer_push [9] small_ring" "initialized fifo1" "user_mem fifo1 = word_of_nat"
    by (simp_all add: f1 buffer_push_def c0)
  have v1: "value_at 7 (Some 10) fifo1 = [10]" by (simp add: value_at_def read_mem_def c1 d)
  have s2: "mt_chan_try_send (Some 7) (Some 10) fifo1 = (MT_OK, buffer_push 7 [10] fifo1)"
    using v1 by (simp add: mt_chan_try_send_def send_now_plain c1 d)
  then have f2: "fifo2 = buffer_push 7 [10] fifo1" by (simp add: fifo2_def)
  have c2: "chan_mem fifo2 7 = mt_chan_buffer_push [10] (mt_chan_buffer_push [9] small_ring)" "initialized fifo2"
    by (simp_all add: f2 buffer_push_def c1)
  have s3: "mt_chan_try_recv (Some 7) (Some 20) fifo2 = (MT_OK, buffer_pop 7 (Some 20) fifo2)"
    by (simp add: mt_chan_try_recv_def recv_now_plain c2 d)
  then have f3: "fifo3 = buffer_pop 7 (Some 20) fifo2" by (simp add: fifo3_def)
  have "fst (mt_chan_buffer_pop (chan_mem fifo2 7)) = [9]" "elem_size (chan_mem fifo2 7) = 1" by (simp_all add: c2 d)
  then show "value_at 7 (Some 20) fifo3 = [9]" by (simp add: f3 value_at_def)
  show "mt_chan_try_send (Some 7) (Some 9) fifo0 = (MT_OK, fifo1)" "mt_chan_try_send (Some 7) (Some 10) fifo1 = (MT_OK, fifo2)"
    "mt_chan_try_recv (Some 7) (Some 20) fifo2 = (MT_OK, fifo3)" "initialized fifo0" "initialized fifo1" "initialized fifo2"
    "value_at 7 (Some 9) fifo0 = [9]" "value_at 7 (Some 10) fifo1 = [10]"
    using s1 s2 s3 f1 f2 f3 v0 v1 c0 c1 c2 by simp_all
  show "plain_chan 7 fifo0" "target_free 7 20 fifo2" "handed_over 7 fifo0 fifo1 = []" "handed_over 7 fifo1 fifo2 = []"
    "in_transit 7 fifo0 = []"
    by (simp_all add: plain_chan_def target_free_def handed_over_def in_transit_def ring_content_def c0 c1 c2 d)
qed

lemma fifo0_reachable: "rt_reachable fifo0"
proof -
  have "start_step zero_state with_ring"
    by (rule start_step.chan_create[where new_ch = "Some 7"])
      (auto simp: zero_state_def with_ring_def intro: prod.collapse[symmetric])
  then have "rt_reachable with_ring" by (intro reach_start[OF reachable_start]) simp_all
  then show ?thesis
    unfolding fifo0_def by (rule reachable_step) (intro rt_step.worker with_ring_fields(2) worker_step.user_code)
qed

theorem channel_fifo_witness:
  "chan_trace 7 fifo0 [[9], [10]] [[9]] fifo3 \<and> in_transit 7 fifo3 = [[10]]"
proof -
  note f = fifo_steps
  have "chan_trace 7 fifo0 [[9]] [] fifo1"
    using trace_try_send[OF trace_start f(4,1)] by (simp add: f)
  from trace_try_send[OF this f(5,2)] have "chan_trace 7 fifo0 [[9], [10]] [] fifo2" by (simp add: f)
  from trace_try_recv[OF this f(6,11,3)] have t: "chan_trace 7 fifo0 [[9], [10]] [[9]] fifo3" by (simp add: f)
  show ?thesis using channel_fifo[OF fifo0_reachable f(10) t] t by (simp add: f)
qed

end
