(* ===== verification/Context.thy ===== *)
theory Context
  imports Stack
begin

text \<open>
  Execution contexts (\<^verbatim>\<open>src/context.h\<close>) in their four builds: hand-written switches for x86-64 and
  aarch64 (\<^verbatim>\<open>src/context_asm.c\<close> and \<^verbatim>\<open>src/context_asm_macos.S\<close>), \<^verbatim>\<open>ucontext\<close>
  (\<^verbatim>\<open>src/context_ucontext.c\<close>) and Windows fibers (\<^verbatim>\<open>src/context_win_fiber.c\<close>). The assembly runs on
  a machine that has the registers it names, memory in words of eight bytes and the contexts in
  memory; what the surrounding code does between two switches is arbitrary. The machine also has the
  floating-point state that the calling conventions have a call preserve and the switches leave out.
\<close>

unbundle bit_operations_syntax

section \<open>What a context switch promises\<close>

text \<open>
  A switch saves what runs in one context and resumes what another one holds. \<open>current_regs\<close> is what
  a context records of the machine, \<open>running\<close> what runs on it, and \<open>resumes\<close> what a saved context
  makes run.
\<close>

locale context_switch =
  fixes switch :: "'s \<Rightarrow> 's" and from_ctx :: "'s \<Rightarrow> u64" and to_ctx :: "'s \<Rightarrow> u64"
    and contexts :: "'s \<Rightarrow> u64 \<Rightarrow> 'c" and current_regs :: "'s \<Rightarrow> 'c"
    and running_regs :: "'s \<Rightarrow> 'r" and resumes :: "'s \<Rightarrow> 'c \<Rightarrow> 'r"
  assumes switch_saves: "contexts (switch s) = (contexts s)(from_ctx s := current_regs s)"
    and switch_resumes: "running_regs (switch s) = resumes s (contexts (switch s) (to_ctx s))"
begin

lemma saved: "contexts (switch s) (from_ctx s) = current_regs s"
  by (simp add: switch_saves)

lemma others_kept: "c \<noteq> from_ctx s \<Longrightarrow> contexts (switch s) c = contexts s c"
  by (simp add: switch_saves)

text \<open>Whatever runs in between, switching back resumes what was saved.\<close>

lemma round_trip:
  assumes "contexts s' (from_ctx s) = contexts (switch s) (from_ctx s)"
    and "to_ctx s' = from_ctx s" and "from_ctx s' \<noteq> from_ctx s"
  shows "running_regs (switch s') = resumes s' (current_regs s)"
  using assms by (simp add: switch_resumes switch_saves)

text \<open>A context that nobody has run yet is resumed as it was made.\<close>

lemma first_switch: "to_ctx s \<noteq> from_ctx s \<Longrightarrow> running_regs (switch s) = resumes s (contexts s (to_ctx s))"
  by (simp add: switch_resumes switch_saves)

end

section \<open>x86-64\<close>

record mt_context_x86 =
  rsp :: u64
  r15 :: u64
  r14 :: u64
  r13 :: u64
  r12 :: u64
  rbx :: u64
  rbp :: u64

text \<open>
  The registers a switch and the entry of a context use, memory, and the contexts in memory. The control
  and status register of SSE and the control word of the x87 unit are there too: the System V calling
  convention has a call preserve their control bits, though the switch does not name them.
\<close>

record x86 =
  reg_rsp :: u64
  reg_r15 :: u64
  reg_r14 :: u64
  reg_r13 :: u64
  reg_r12 :: u64
  reg_rbx :: u64
  reg_rbp :: u64
  reg_rdi :: u64
  reg_rsi :: u64
  reg_rip :: u64
  reg_mxcsr :: "32 word"
  reg_fpucw :: "16 word"
  mem_x86 :: "u64 \<Rightarrow> u64"
  ctxs_x86 :: "u64 \<Rightarrow> mt_context_x86"

definition mt_align_down :: "u64 \<Rightarrow> u64 \<Rightarrow> u64" where
  "mt_align_down val alignment = val AND NOT (alignment - 1)"

definition zero_context_x86 :: mt_context_x86 where
  "zero_context_x86 = \<lparr>rsp = 0, r15 = 0, r14 = 0, r13 = 0, r12 = 0, rbx = 0, rbp = 0\<rparr>"

text \<open>
  \<open>ctx\<close> is the context pointed to, \<open>None\<close> for a null pointer, and \<open>start\<close> the address of
  \<^verbatim>\<open>mt_ctx_start\<close>. The result is the C \<^verbatim>\<open>int\<close>.
\<close>

definition mt_ctx_init_scheduler_x86 :: "mt_context_x86 option \<Rightarrow> int \<times> mt_context_x86 option" where
  "mt_ctx_init_scheduler_x86 ctx =
     (case ctx of None \<Rightarrow> (- 1, None) | Some _ \<Rightarrow> (0, Some zero_context_x86))"

definition mt_ctx_make_x86 ::
  "u64 \<Rightarrow> mt_context_x86 option \<Rightarrow> u64 \<Rightarrow> u64 \<Rightarrow> u64 \<Rightarrow> u64 \<Rightarrow> (u64 \<Rightarrow> u64) \<Rightarrow>
     int \<times> mt_context_x86 option \<times> (u64 \<Rightarrow> u64)" where
  "mt_ctx_make_x86 start ctx stk stack_size entry arg m =
     (if ctx = None \<or> stk = 0 \<or> stack_size < 64 \<or> entry = 0 then (- 1, ctx, m)
      else let top = stk + stack_size;
               top = mt_align_down top 16;
               sp0 = top - 16
           in (0, Some (zero_context_x86\<lparr>rsp := sp0, r12 := entry, r13 := arg\<rparr>), m(sp0 := start)))"

text \<open>\<^verbatim>\<open>ret\<close>, and \<^verbatim>\<open>callq\<close> of a function at \<open>target\<close> from a call that ends at \<open>next_rip\<close>.\<close>

definition x86_ret :: "x86 \<Rightarrow> x86" where
  "x86_ret s = s\<lparr>reg_rip := mem_x86 s (reg_rsp s), reg_rsp := reg_rsp s + 8\<rparr>"

definition x86_call :: "u64 \<Rightarrow> u64 \<Rightarrow> x86 \<Rightarrow> x86" where
  "x86_call target next_rip s =
     (let s = s\<lparr>reg_rsp := reg_rsp s - 8\<rparr>;
          s = s\<lparr>mem_x86 := (mem_x86 s)(reg_rsp s := next_rip)\<rparr>
      in s\<lparr>reg_rip := target\<rparr>)"

definition save_x86 :: "x86 \<Rightarrow> mt_context_x86" where
  "save_x86 s = \<lparr>rsp = reg_rsp s, r15 = reg_r15 s, r14 = reg_r14 s, r13 = reg_r13 s, r12 = reg_r12 s,
     rbx = reg_rbx s, rbp = reg_rbp s\<rparr>"

definition load_x86 :: "mt_context_x86 \<Rightarrow> x86 \<Rightarrow> x86" where
  "load_x86 c s = s\<lparr>reg_rsp := rsp c, reg_r15 := r15 c, reg_r14 := r14 c, reg_r13 := r13 c, reg_r12 := r12 c,
     reg_rbx := rbx c, reg_rbp := rbp c\<rparr>"

definition mt_ctx_switch_asm_x86 :: "x86 \<Rightarrow> x86" where
  "mt_ctx_switch_asm_x86 s =
     (let s = s\<lparr>ctxs_x86 := (ctxs_x86 s)(reg_rdi s := save_x86 s)\<rparr>;
          s = load_x86 (ctxs_x86 s (reg_rsi s)) s
      in x86_ret s)"

text \<open>\<^verbatim>\<open>mt_ctx_start\<close> up to the entry of \<^verbatim>\<open>mt_ctx_entry\<close>, which does not return.\<close>

definition mt_ctx_start_x86 :: "u64 \<Rightarrow> u64 \<Rightarrow> x86 \<Rightarrow> x86" where
  "mt_ctx_start_x86 entry_fn next_rip s =
     (let s = s\<lparr>reg_rsp := reg_rsp s - 8\<rparr>;
          s = s\<lparr>reg_rdi := reg_r12 s\<rparr>;
          s = s\<lparr>reg_rsi := reg_r13 s\<rparr>
      in x86_call entry_fn next_rip s)"

text \<open>
  What a context stands for: the next instruction, the stack pointer and the general-purpose registers a
  call preserves. The two control words are not part of a context.
\<close>

definition running_x86 :: "x86 \<Rightarrow> u64 \<times> mt_context_x86" where
  "running_x86 s = (reg_rip s, save_x86 s)"

definition resumes_x86 :: "x86 \<Rightarrow> mt_context_x86 \<Rightarrow> u64 \<times> mt_context_x86" where
  "resumes_x86 s c = (mem_x86 s (rsp c), c\<lparr>rsp := rsp c + 8\<rparr>)"

interpretation x86: context_switch mt_ctx_switch_asm_x86 reg_rdi reg_rsi ctxs_x86 save_x86 running_x86 resumes_x86
  by unfold_locales (simp_all add: mt_ctx_switch_asm_x86_def load_x86_def x86_ret_def running_x86_def
      resumes_x86_def save_x86_def Let_def)

section \<open>aarch64\<close>

record mt_context_arm64 =
  sp :: u64
  x19 :: u64
  x20 :: u64
  x21 :: u64
  x22 :: u64
  x23 :: u64
  x24 :: u64
  x25 :: u64
  x26 :: u64
  x27 :: u64
  x28 :: u64
  fp :: u64
  lr :: u64

text \<open>
  \<open>reg_d8_d15\<close> are the eight floating-point registers \<^verbatim>\<open>d8\<close> to \<^verbatim>\<open>d15\<close>, which a call preserves by the
  procedure call standard and which the switch does not name.
\<close>

record arm64 =
  reg_sp :: u64
  reg_x19 :: u64
  reg_x20 :: u64
  reg_x21 :: u64
  reg_x22 :: u64
  reg_x23 :: u64
  reg_x24 :: u64
  reg_x25 :: u64
  reg_x26 :: u64
  reg_x27 :: u64
  reg_x28 :: u64
  reg_fp :: u64
  reg_lr :: u64
  reg_x0 :: u64
  reg_x1 :: u64
  reg_pc :: u64
  reg_d8_d15 :: "u64 list"
  ctxs_arm64 :: "u64 \<Rightarrow> mt_context_arm64"

definition zero_context_arm64 :: mt_context_arm64 where
  "zero_context_arm64 = \<lparr>sp = 0, x19 = 0, x20 = 0, x21 = 0, x22 = 0, x23 = 0, x24 = 0, x25 = 0, x26 = 0, x27 = 0, x28 = 0,
     fp = 0, lr = 0\<rparr>"

definition mt_ctx_init_scheduler_arm64 :: "mt_context_arm64 option \<Rightarrow> int \<times> mt_context_arm64 option" where
  "mt_ctx_init_scheduler_arm64 ctx =
     (case ctx of None \<Rightarrow> (- 1, None) | Some _ \<Rightarrow> (0, Some zero_context_arm64))"

definition mt_ctx_make_arm64 ::
  "u64 \<Rightarrow> mt_context_arm64 option \<Rightarrow> u64 \<Rightarrow> u64 \<Rightarrow> u64 \<Rightarrow> u64 \<Rightarrow> int \<times> mt_context_arm64 option" where
  "mt_ctx_make_arm64 start ctx stk stack_size entry arg =
     (if ctx = None \<or> stk = 0 \<or> stack_size < 64 \<or> entry = 0 then (- 1, ctx)
      else let top = stk + stack_size;
               top = mt_align_down top 16
           in (0, Some (zero_context_arm64\<lparr>sp := top, x19 := entry, x20 := arg, lr := start\<rparr>)))"

definition save_arm64 :: "arm64 \<Rightarrow> mt_context_arm64" where
  "save_arm64 s = \<lparr>sp = reg_sp s, x19 = reg_x19 s, x20 = reg_x20 s, x21 = reg_x21 s, x22 = reg_x22 s, x23 = reg_x23 s, x24 =
     reg_x24 s, x25 = reg_x25 s, x26 = reg_x26 s, x27 = reg_x27 s, x28 = reg_x28 s,
     fp = reg_fp s, lr = reg_lr s\<rparr>"

definition load_arm64 :: "mt_context_arm64 \<Rightarrow> arm64 \<Rightarrow> arm64" where
  "load_arm64 c s = s\<lparr>reg_sp := sp c, reg_x19 := x19 c, reg_x20 := x20 c, reg_x21 := x21 c, reg_x22 := x22 c, reg_x23 := x23 c,
     reg_x24 := x24 c, reg_x25 := x25 c, reg_x26 := x26 c, reg_x27 := x27 c, reg_x28 := x28 c,
     reg_fp := fp c, reg_lr := lr c\<rparr>"

text \<open>\<^verbatim>\<open>ret\<close> continues at the link register.\<close>

definition mt_ctx_switch_asm_arm64 :: "arm64 \<Rightarrow> arm64" where
  "mt_ctx_switch_asm_arm64 s =
     (let s = s\<lparr>ctxs_arm64 := (ctxs_arm64 s)(reg_x0 s := save_arm64 s)\<rparr>;
          s = load_arm64 (ctxs_arm64 s (reg_x1 s)) s
      in s\<lparr>reg_pc := reg_lr s\<rparr>)"

text \<open>\<^verbatim>\<open>bl\<close> leaves the address of the next instruction in the link register.\<close>

definition mt_ctx_start_arm64 :: "u64 \<Rightarrow> u64 \<Rightarrow> arm64 \<Rightarrow> arm64" where
  "mt_ctx_start_arm64 entry_fn next_pc s =
     (let s = s\<lparr>reg_x0 := reg_x19 s\<rparr>;
          s = s\<lparr>reg_x1 := reg_x20 s\<rparr>
      in s\<lparr>reg_lr := next_pc, reg_pc := entry_fn\<rparr>)"

definition running_arm64 :: "arm64 \<Rightarrow> u64 \<times> mt_context_arm64" where
  "running_arm64 s = (reg_pc s, save_arm64 s)"

definition resumes_arm64 :: "arm64 \<Rightarrow> mt_context_arm64 \<Rightarrow> u64 \<times> mt_context_arm64" where
  "resumes_arm64 s c = (lr c, c)"

interpretation arm64: context_switch mt_ctx_switch_asm_arm64 reg_x0 reg_x1 ctxs_arm64 save_arm64 running_arm64
  resumes_arm64
  by unfold_locales (simp_all add: mt_ctx_switch_asm_arm64_def load_arm64_def running_arm64_def
      resumes_arm64_def save_arm64_def Let_def)

section \<open>ucontext\<close>

text \<open>
  What the code sets of an \<^verbatim>\<open>ucontext_t\<close>: the stack, the flags, the link, and the function and
  arguments \<^verbatim>\<open>makecontext\<close> is called with. Whether \<^verbatim>\<open>getcontext\<close> succeeds is an argument.
\<close>

record mt_context_uc =
  ss_sp :: u64
  ss_size :: u64
  ss_flags :: int
  uc_link :: u64
  uc_entry :: "(u64 \<times> u64) option"

definition mt_ctx_init_scheduler_uc :: "bool \<Rightarrow> mt_context_uc option \<Rightarrow> int" where
  "mt_ctx_init_scheduler_uc getcontext_ok ctx =
     (if ctx = None then - 1 else if getcontext_ok then 0 else - 1)"

definition mt_ctx_make_uc ::
  "bool \<Rightarrow> mt_context_uc option \<Rightarrow> u64 \<Rightarrow> u64 \<Rightarrow> u64 \<Rightarrow> u64 \<Rightarrow> int \<times> mt_context_uc option" where
  "mt_ctx_make_uc getcontext_ok ctx stk stack_size entry arg =
     (if ctx = None \<or> stk = 0 \<or> stack_size = 0 \<or> entry = 0 then (- 1, ctx)
      else if \<not> getcontext_ok then (- 1, ctx)
      else (0, Some ((the ctx)\<lparr>ss_sp := stk, ss_size := stack_size, ss_flags := 0, uc_link := 0,
                     uc_entry := Some (entry, arg)\<rparr>)))"

section \<open>Windows fibers\<close>

record mt_context_fiber =
  fiber :: "nat option"
  fib_data :: "nat option"
  owns_fiber :: int

text \<open>The system calls that give something back, in order.\<close>

datatype fiber_call = ConvertFiberToThread | DeleteFiber nat | HeapFree nat

text \<open>
  \<open>this_fiber\<close> is the fiber of the thread if it is one, \<open>converted\<close> what \<^verbatim>\<open>ConvertThreadToFiber\<close>
  returns, \<open>block\<close> and \<open>created\<close> what \<^verbatim>\<open>HeapAlloc\<close> and \<^verbatim>\<open>CreateFiber\<close> return.
\<close>

definition mt_ctx_init_scheduler_fiber ::
  "nat option \<Rightarrow> nat option \<Rightarrow> mt_context_fiber option \<Rightarrow> int \<times> mt_context_fiber option" where
  "mt_ctx_init_scheduler_fiber this_fiber converted ctx =
     (case ctx of
        None \<Rightarrow> (- 1, None)
      | Some c \<Rightarrow>
          if this_fiber \<noteq> None then (0, Some (c\<lparr>fiber := this_fiber, fib_data := None, owns_fiber := 0\<rparr>))
          else let c = c\<lparr>fiber := converted, fib_data := None, owns_fiber := (if converted \<noteq> None then 2 else 0)\<rparr>
               in (if converted \<noteq> None then 0 else - 1, Some c))"

definition mt_ctx_make_fiber ::
  "nat option \<Rightarrow> nat option \<Rightarrow> mt_context_fiber option \<Rightarrow> bool \<Rightarrow> int \<times> fiber_call list \<times> mt_context_fiber option" where
  "mt_ctx_make_fiber block created ctx entry =
     (if ctx = None \<or> \<not> entry then (- 1, [], ctx)
      else case block of
             None \<Rightarrow> (- 1, [], ctx)
           | Some b \<Rightarrow>
               let c = (the ctx)\<lparr>fiber := created, fib_data := Some b, owns_fiber := 1\<rparr>
               in if created = None then (- 1, [HeapFree b], Some (c\<lparr>fib_data := None\<rparr>))
                  else (0, [], Some c))"

definition mt_ctx_destroy_fiber :: "mt_context_fiber option \<Rightarrow> fiber_call list \<times> mt_context_fiber option" where
  "mt_ctx_destroy_fiber ctx =
     (case ctx of
        None \<Rightarrow> ([], None)
      | Some c \<Rightarrow>
          (case fiber c of
             None \<Rightarrow> ([], Some c)
           | Some f \<Rightarrow>
               if owns_fiber c = 2
               then ([ConvertFiberToThread], Some (c\<lparr>fiber := None, fib_data := None, owns_fiber := 0\<rparr>))
               else if owns_fiber c = 1
               then (DeleteFiber f # (case fib_data c of None \<Rightarrow> [] | Some d \<Rightarrow> [HeapFree d]),
                     Some (c\<lparr>fiber := None, fib_data := None, owns_fiber := 0\<rparr>))
               else ([], Some c)))"

section \<open>Alignment\<close>

lemma align_down_16: "unat (mt_align_down v 16) = unat v div 16 * 16"
proof -
  have m: "(15 :: u64) = mask 4" by (simp add: mask_eq_exp_minus_1)
  have "mt_align_down v 16 = push_bit 4 (drop_bit 4 v)"
    by (rule bit_word_eqI) (auto simp: mt_align_down_def m bit_simps)
  then have "mt_align_down v 16 = v - take_bit 4 v"
    using bits_ident[of 4 v] by (simp add: algebra_simps)
  moreover have t: "unat (take_bit 4 v) = unat v mod 16" by (simp add: take_bit_eq_mod unat_mod)
  then have "take_bit 4 v \<le> v" by (simp add: word_le_nat_alt)
  ultimately have "unat (mt_align_down v 16) = unat v - unat v mod 16" using t by (simp add: unat_sub)
  then show ?thesis by (simp add: minus_mod_eq_div_mult)
qed

text \<open>The aligned top of a stack that does not wrap around lies in its last sixteen bytes, or just above.\<close>

lemma stack_top:
  assumes "unat stk + unat sz < 2 ^ 64"
  shows "16 dvd unat (mt_align_down (stk + sz) 16)"
    and "unat (mt_align_down (stk + sz) 16) \<le> unat stk + unat sz"
    and "unat stk + unat sz < unat (mt_align_down (stk + sz) 16) + 16"
proof -
  let ?n = "unat stk + unat sz"
  have "unat (stk + sz) = ?n" using assms by (simp add: unat_add_lem[THEN iffD1])
  then have e: "unat (mt_align_down (stk + sz) 16) = ?n div 16 * 16" by (simp add: align_down_16)
  have d: "?n div 16 * 16 + ?n mod 16 = ?n" "?n mod 16 < 16" by simp_all
  show "16 dvd unat (mt_align_down (stk + sz) 16)" by (simp add: e)
  show "unat (mt_align_down (stk + sz) 16) \<le> ?n" "?n < unat (mt_align_down (stk + sz) 16) + 16"
    using d unfolding e by linarith+
qed

section \<open>The aarch64 build\<close>

text \<open>The first switch to a new context enters it, as on x86-64; the stack pointer is the aligned top.\<close>

lemma fresh_context_enters_arm64:
  assumes make: "mt_ctx_make_arm64 start (Some c0) stk sz entry arg = (0, Some c)"
    and room: "unat stk + unat sz < 2 ^ 64" and s: "ctxs_arm64 s (reg_x1 s) = c" "reg_x1 s \<noteq> reg_x0 s"
  shows "reg_pc (mt_ctx_switch_asm_arm64 s) = start \<and>
    (let s' = mt_ctx_start_arm64 entry_fn next_pc (mt_ctx_switch_asm_arm64 s) in
       reg_pc s' = entry_fn \<and> reg_x0 s' = entry \<and> reg_x1 s' = arg \<and> unat (reg_sp s') mod 16 = 0 \<and>
       unat stk < unat (reg_sp s') \<and> unat (reg_sp s') \<le> unat stk + unat sz)"
proof -
  have g: "64 \<le> sz" and c: "c = zero_context_arm64\<lparr>sp := mt_align_down (stk + sz) 16, x19 := entry, x20 := arg, lr := start\<rparr>"
    using make by (auto simp: mt_ctx_make_arm64_def Let_def split: if_splits)
  have r: "running_arm64 (mt_ctx_switch_asm_arm64 s) = (start, c)"
    using arm64.first_switch[OF s(2)] by (simp add: s(1) resumes_arm64_def c)
  let ?w = "mt_ctx_switch_asm_arm64 s"
  have f: "reg_pc ?w = start" "reg_sp ?w = mt_align_down (stk + sz) 16" "reg_x19 ?w = entry" "reg_x20 ?w = arg"
    using r by (simp_all add: running_arm64_def save_arm64_def c zero_context_arm64_def)
  note t = stack_top[OF room]
  show ?thesis using t g by (simp add: mt_ctx_start_arm64_def Let_def f word_le_nat_alt)
qed

text \<open>
  A round trip restores the program counter, the stack pointer and the general-purpose registers a call
  preserves. It does not restore \<^verbatim>\<open>d8\<close> to \<^verbatim>\<open>d15\<close>: they keep the values of the task that switched back.
\<close>

lemma switch_round_trip_arm64:
  assumes "reg_x1 s' = reg_x0 s" and "reg_x0 s' \<noteq> reg_x0 s"
    and "ctxs_arm64 s' (reg_x0 s) = ctxs_arm64 (mt_ctx_switch_asm_arm64 s) (reg_x0 s)"
  shows "running_arm64 (mt_ctx_switch_asm_arm64 s') = running_arm64 (s\<lparr>reg_pc := reg_lr s\<rparr>)"
    and "reg_d8_d15 (mt_ctx_switch_asm_arm64 s') = reg_d8_d15 s'"
  using arm64.round_trip[OF assms(3,1,2)]
  by (simp_all add: resumes_arm64_def running_arm64_def save_arm64_def mt_ctx_switch_asm_arm64_def load_arm64_def Let_def)

text \<open>So floating-point values of a task do not survive a switch to another one that computes with them.\<close>

lemma float_registers_lost_arm64:
  assumes "reg_x1 s' = reg_x0 s" and "reg_x0 s' \<noteq> reg_x0 s"
    and "ctxs_arm64 s' (reg_x0 s) = ctxs_arm64 (mt_ctx_switch_asm_arm64 s) (reg_x0 s)"
    and "reg_d8_d15 s' \<noteq> reg_d8_d15 s"
  shows "reg_d8_d15 (mt_ctx_switch_asm_arm64 s') \<noteq> reg_d8_d15 s"
  using switch_round_trip_arm64(2)[OF assms(1-3)] assms(4) by simp

section \<open>Fibers and empty stacks\<close>

text \<open>
  A context on Windows gives back what it has taken, once. Making one succeeds iff memory and a
  fiber are available; what it took is returned either by the failing call itself or by
  \<^verbatim>\<open>mt_ctx_destroy\<close>, the fiber before the memory its entry reads, and destroying again does nothing.
\<close>

lemma fiber_contexts_released:
  assumes "fiber c = None" and "mt_ctx_make_fiber block created (Some c) True = (rc, calls, c')"
  shows "(rc = 0 \<longleftrightarrow> block \<noteq> None \<and> created \<noteq> None) \<and>
    calls @ fst (mt_ctx_destroy_fiber c') =
      (case block of None \<Rightarrow> [] | Some b \<Rightarrow> (case created of None \<Rightarrow> [] | Some f \<Rightarrow> [DeleteFiber f]) @ [HeapFree b]) \<and>
    fst (mt_ctx_destroy_fiber (snd (mt_ctx_destroy_fiber c'))) = []"
  using assms by (auto simp: mt_ctx_make_fiber_def mt_ctx_destroy_fiber_def Let_def split: option.splits)

text \<open>The fiber of a thread is converted back, never deleted, and one that was there before is left alone.\<close>

lemma scheduler_fiber_released:
  assumes "mt_ctx_init_scheduler_fiber this_fiber converted (Some c) = (rc, c')"
  shows "fst (mt_ctx_destroy_fiber c') =
    (if this_fiber = None \<and> converted \<noteq> None then [ConvertFiberToThread] else [])"
  using assms by (auto simp: mt_ctx_init_scheduler_fiber_def mt_ctx_destroy_fiber_def Let_def
      split: option.splits if_splits)

text \<open>
  The rounding of stack sizes is unchecked: a request within one page of \<^verbatim>\<open>SIZE_MAX\<close> wraps to an
  empty usable area, and \<^verbatim>\<open>mt_stack_alloc\<close> reports success when the one guard page can be mapped. The
  error is caught one call later: no build that uses such stacks makes a context on an empty one.
\<close>

lemma mt_stack_alloc_wraps:
  "let (rc, st, calls) = mt_stack_alloc (- 1) 4096 (Some a) True in
     rc = MT_OK \<and> mapping_size st = 4096 \<and> mt_stack_context_size st = 0 \<and>
     fst (mt_ctx_make_uc ok uc stk (mt_stack_context_size st) entry arg) = - 1 \<and>
     fst (mt_ctx_make_x86 start x stk (mt_stack_context_size st) entry arg m) = - 1 \<and>
     fst (mt_ctx_make_arm64 start y stk (mt_stack_context_size st) entry arg) = - 1"
proof -
  have "mt_round_up (- 1) 4096 = 0" "mt_page_size 4096 = 4096" by code_simp+
  moreover have "\<not> (- 1 :: u64) < MT_MIN_STACK_SIZE" "(- 1 :: u64) \<noteq> 0" by simp_all
  ultimately show ?thesis
    by (simp add: mt_stack_alloc_def mt_stack_context_size_def mt_ctx_make_uc_def mt_ctx_make_x86_def
        mt_ctx_make_arm64_def Let_def)
qed

section \<open>Properties\<close>

text \<open>
  C39: The first switch to a context that \<^verbatim>\<open>mt_ctx_make\<close> has set up on a stack (x86-64) starts
  \<^verbatim>\<open>mt_ctx_start\<close>, which enters \<^verbatim>\<open>mt_ctx_entry\<close> with the entry function and its argument. At that
  point the stack pointer is aligned as the calling convention demands (eight below a multiple of
  sixteen), and everything pushed so far lies inside the stack.
\<close>

theorem fresh_context_enters_x86:
  assumes make: "mt_ctx_make_x86 start (Some c0) stk sz entry arg m = (0, Some c, m')"
    and room: "unat stk + unat sz < 2 ^ 64"
    and s: "mem_x86 s = m'" "ctxs_x86 s (reg_rsi s) = c" "reg_rsi s \<noteq> reg_rdi s"
  shows "reg_rip (mt_ctx_switch_asm_x86 s) = start \<and>
    (let s' = mt_ctx_start_x86 entry_fn next_rip (mt_ctx_switch_asm_x86 s) in
       reg_rip s' = entry_fn \<and> reg_rdi s' = entry \<and> reg_rsi s' = arg \<and>
       unat (reg_rsp s') mod 16 = 8 \<and> unat stk \<le> unat (reg_rsp s') \<and> unat (reg_rsp s') + 24 \<le> unat stk + unat sz)"
proof -
  let ?t = "mt_align_down (stk + sz) 16"
  have g: "64 \<le> sz" and c: "c = zero_context_x86\<lparr>rsp := ?t - 16, r12 := entry, r13 := arg\<rparr>"
    and m: "m' (?t - 16) = start"
    using make by (auto simp: mt_ctx_make_x86_def Let_def split: if_splits)
  have r: "running_x86 (mt_ctx_switch_asm_x86 s) = (start, c\<lparr>rsp := ?t - 8\<rparr>)"
    using x86.first_switch[OF s(3)] m by (simp add: s(1,2) resumes_x86_def c)
  let ?w = "mt_ctx_switch_asm_x86 s"
  have f: "reg_rip ?w = start" "reg_rsp ?w = ?t - 8" "reg_r12 ?w = entry" "reg_r13 ?w = arg"
    using r by (simp_all add: running_x86_def save_x86_def c zero_context_x86_def)
  note t = stack_top[OF room]
  have sz: "64 \<le> unat sz" using g by (simp add: word_le_nat_alt)
  then have ge: "24 \<le> ?t" using t(3) by (simp add: word_le_nat_alt)
  then have u: "unat (?t - 24) = unat ?t - 24" by (simp add: unat_sub)
  obtain k where k: "unat ?t = 16 * k" using t(1) by blast
  have "unat ?t - 24 = 16 * (k - 2) + 8" using k ge by (simp add: word_le_nat_alt)
  then have "unat (?t - 24) mod 16 = 8" by (simp add: u)
  then show ?thesis
    using u ge t sz by (simp add: mt_ctx_start_x86_def x86_call_def Let_def f word_le_nat_alt)
qed

text \<open>A stack of 128 bytes from address 4096 on, and a machine that is about to switch to it.\<close>

definition fresh_x86 :: "mt_context_x86 \<times> (u64 \<Rightarrow> u64)" where
  "fresh_x86 = (the (fst (snd (mt_ctx_make_x86 900 (Some zero_context_x86) 4096 128 700 5 (\<lambda>_. 0)))),
     snd (snd (mt_ctx_make_x86 900 (Some zero_context_x86) 4096 128 700 5 (\<lambda>_. 0))))"

definition machine_x86 :: x86 where
  "machine_x86 = \<lparr>reg_rsp = 8000, reg_r15 = 15, reg_r14 = 14, reg_r13 = 13, reg_r12 = 12, reg_rbx = 3, reg_rbp = 4,
     reg_rdi = 100, reg_rsi = 200, reg_rip = 300, reg_mxcsr = 0x1F80, reg_fpucw = 0x37F, mem_x86 = (snd fresh_x86)(8000 := 42),
     ctxs_x86 = (\<lambda>_. zero_context_x86)(200 := fst fresh_x86)\<rparr>"

theorem fresh_context_enters_x86_witness:
  "reg_rip (mt_ctx_switch_asm_x86 (machine_x86\<lparr>mem_x86 := snd fresh_x86\<rparr>)) = 900"
proof -
  have "fst (mt_ctx_make_x86 900 (Some zero_context_x86) 4096 128 700 5 (\<lambda>_. 0)) = 0"
    "fst (snd (mt_ctx_make_x86 900 (Some zero_context_x86) 4096 128 700 5 (\<lambda>_. 0))) = Some (fst fresh_x86)"
    by (simp_all add: fresh_x86_def mt_ctx_make_x86_def Let_def)
  then have m: "mt_ctx_make_x86 900 (Some zero_context_x86) 4096 128 700 5 (\<lambda>_. 0) = (0, Some (fst fresh_x86), snd fresh_x86)"
    by (simp add: prod_eq_iff fresh_x86_def)
  show ?thesis
    using fresh_context_enters_x86[OF m, of "machine_x86\<lparr>mem_x86 := snd fresh_x86\<rparr>"] by (simp add: machine_x86_def)
qed

text \<open>
  C40: What switching away and back restores (x86-64). If between the two switches nobody touches the
  saved context and the return address on its stack, the caller of the first switch continues at its
  return address, with its stack pointer and with the six general-purpose registers a call must preserve
  (\<^verbatim>\<open>rbx\<close>, \<^verbatim>\<open>rbp\<close>, \<^verbatim>\<open>r12\<close> to \<^verbatim>\<open>r15\<close>) as if the call had just returned. Nothing else is restored: the control
  words of SSE and x87, which a call must preserve too, are those of the task that switched back.
\<close>

theorem switch_round_trip_x86:
  assumes "reg_rsi s' = reg_rdi s" and "reg_rdi s' \<noteq> reg_rdi s"
    and "ctxs_x86 s' (reg_rdi s) = ctxs_x86 (mt_ctx_switch_asm_x86 s) (reg_rdi s)"
    and "mem_x86 s' (reg_rsp s) = mem_x86 s (reg_rsp s)"
  shows "running_x86 (mt_ctx_switch_asm_x86 s') = running_x86 (x86_ret s) \<and>
    reg_mxcsr (mt_ctx_switch_asm_x86 s') = reg_mxcsr s' \<and> reg_fpucw (mt_ctx_switch_asm_x86 s') = reg_fpucw s'"
proof -
  have "running_x86 (mt_ctx_switch_asm_x86 s') = running_x86 (x86_ret s)"
    using x86.round_trip[OF assms(3,1,2)] assms(4)
    by (simp add: resumes_x86_def running_x86_def save_x86_def x86_ret_def)
  then show ?thesis by (simp add: mt_ctx_switch_asm_x86_def load_x86_def x86_ret_def Let_def)
qed

text \<open>
  The new context has run, has chosen another rounding mode, and switches back with other values in
  every register: the first task goes on with its own registers and with that rounding mode.
\<close>

definition machine_back :: x86 where
  "machine_back = (mt_ctx_switch_asm_x86 machine_x86)\<lparr>reg_rsp := 4100, reg_r15 := 0, reg_r14 := 0, reg_r13 := 0, reg_r12 := 0,
     reg_rbx := 0, reg_rbp := 0, reg_rdi := 200, reg_rsi := 100, reg_mxcsr := 0x7F80\<rparr>"

theorem switch_round_trip_x86_witness:
  "running_x86 (mt_ctx_switch_asm_x86 machine_back) =
     (42, \<lparr>rsp = 8008, r15 = 15, r14 = 14, r13 = 13, r12 = 12, rbx = 3, rbp = 4\<rparr>) \<and>
   reg_mxcsr machine_x86 = 0x1F80 \<and> reg_mxcsr (mt_ctx_switch_asm_x86 machine_back) = 0x7F80"
proof -
  have "running_x86 (mt_ctx_switch_asm_x86 machine_back) = running_x86 (x86_ret machine_x86) \<and>
      reg_mxcsr (mt_ctx_switch_asm_x86 machine_back) = reg_mxcsr machine_back \<and>
      reg_fpucw (mt_ctx_switch_asm_x86 machine_back) = reg_fpucw machine_back"
    by (rule switch_round_trip_x86)
      (simp_all add: machine_back_def machine_x86_def mt_ctx_switch_asm_x86_def x86_ret_def load_x86_def Let_def)
  then show ?thesis by (simp add: running_x86_def x86_ret_def save_x86_def machine_x86_def machine_back_def)
qed

end
