(* ===== verification/Clock.thy ===== *)
theory Clock
  imports Scheduler
begin

text \<open>
  The system's side of time (\<^verbatim>\<open>src/timer.c\<close>): the clock of the Windows build and the sleep of a
  thread that is not a task, in both builds. Also the two entry points of \<^verbatim>\<open>src/scheduler.c\<close> that
  only forward to the start of a run.
\<close>

section \<open>The clock of the Windows build\<close>

text \<open>
  \<open>freq\<close> is the static \<^verbatim>\<open>frequency\<close>; \<open>query_freq\<close> and \<open>counter\<close> are what the two system calls
  deliver, \<open>None\<close> when they fail. The product of the counter, which the system returns as a signed
  number, and the unsigned constant is unsigned.
\<close>

definition mt_now_ns_raw_windows :: "u64 option \<Rightarrow> u64 option \<Rightarrow> u64 \<Rightarrow> (u64 \<times> bool) \<times> u64" where
  "mt_now_ns_raw_windows query_freq counter freq =
     (if freq = 0 \<and> query_freq = None then ((0, False), freq)
      else let freq = (if freq = 0 then the query_freq else freq)
           in case counter of
                None \<Rightarrow> ((0, False), freq)
              | Some n \<Rightarrow> ((n * 1000000000 div freq, True), freq))"

text \<open>The reading is exact while the product fits into 64 bits.\<close>

lemma windows_clock_exact:
  assumes "unat n * 1000000000 < 2 ^ 64" and "freq \<noteq> 0"
  shows "mt_now_ns_raw_windows q (Some n) freq = ((r, True), freq) \<longleftrightarrow> unat r = unat n * 1000000000 div unat freq"
proof -
  have "unat (n * 1000000000) = unat n * 1000000000" using assms(1) by (simp add: unat_mult_lem[THEN iffD1])
  then have "unat (n * 1000000000 div freq) = unat n * 1000000000 div unat freq" by (simp add: unat_div)
  then show ?thesis using assms(2) by (auto simp: mt_now_ns_raw_windows_def word_unat_eq_iff)
qed

text \<open>
  At ten million ticks a second this is half an hour: one tick later the clock is back near zero, and a
  deadline that was set before is far in the future again.
\<close>

lemma windows_clock_wraps:
  "mt_now_ns_raw_windows None (Some 18446744073) 10000000 = ((1844674407300, True), 10000000)"
  "mt_now_ns_raw_windows None (Some 18446744074) 10000000 = ((29, True), 10000000)"
  by (simp_all add: mt_now_ns_raw_windows_def)

section \<open>Sleeping\<close>

text \<open>One call of \<^verbatim>\<open>nanosleep\<close>: it sleeps to the end, is interrupted with a rest left, or fails.\<close>

datatype nanosleep_result = SleptAll | Interrupted "u64 \<times> u64" | SleepError

text \<open>The requests made, one for each result; \<open>None\<close> says that the loop is still running.\<close>

fun nanosleep_loop :: "u64 \<times> u64 \<Rightarrow> nanosleep_result list \<Rightarrow> (u64 \<times> u64) list option" where
  "nanosleep_loop req [] = None"
| "nanosleep_loop req (SleptAll # rs) = Some [req]"
| "nanosleep_loop req (SleepError # rs) = Some [req]"
| "nanosleep_loop req (Interrupted left # rs) = map_option ((#) req) (nanosleep_loop left rs)"

definition mt_sleep_os_ns :: "u64 \<Rightarrow> nanosleep_result list \<Rightarrow> (u64 \<times> u64) list option" where
  "mt_sleep_os_ns ns rs =
     (if ns = 0 then Some []
      else nanosleep_loop (ns div 1000000000, ns mod 1000000000) rs)"

text \<open>The argument of \<^verbatim>\<open>Sleep\<close> in the Windows build, a 32-bit number of milliseconds; \<open>None\<close> without a call.\<close>

definition mt_sleep_os_windows :: "u64 \<Rightarrow> 32 word option" where
  "mt_sleep_os_windows ns =
     (if ns = 0 then None
      else Some (ucast ((ns + MT_NS_PER_MS - 1) div MT_NS_PER_MS)))"

definition timespec_ns :: "u64 \<times> u64 \<Rightarrow> nat" where
  "timespec_ns req = unat (fst req) * 1000000000 + unat (snd req)"

text \<open>The first request is the whole time, in the form the call accepts.\<close>

lemma sleep_request_valid:
  "timespec_ns (ns div 1000000000, ns mod 1000000000) = unat ns \<and> unat (ns mod 1000000000) < 1000000000"
  using div_mult_mod_eq[of "unat ns" 1000000000] by (simp add: timespec_ns_def unat_div unat_mod)

text \<open>What each call slept, if an interrupted one reports the rest truly; the calls add up to the request.\<close>

fun time_slept :: "u64 \<times> u64 \<Rightarrow> nanosleep_result list \<Rightarrow> nat" where
  "time_slept req (SleptAll # rs) = timespec_ns req"
| "time_slept req (Interrupted left # rs) = (timespec_ns req - timespec_ns left) + time_slept left rs"
| "time_slept req _ = 0"

fun rests_shrink :: "u64 \<times> u64 \<Rightarrow> nanosleep_result list \<Rightarrow> bool" where
  "rests_shrink req (SleptAll # rs) \<longleftrightarrow> True"
| "rests_shrink req (Interrupted left # rs) \<longleftrightarrow> timespec_ns left \<le> timespec_ns req \<and> rests_shrink left rs"
| "rests_shrink req _ \<longleftrightarrow> False"

lemma nanosleep_total:
  "rests_shrink req rs \<Longrightarrow> nanosleep_loop req rs \<noteq> None \<and> time_slept req rs = timespec_ns req"
  by (induction req rs rule: rests_shrink.induct) auto

lemma sleep_whole:
  assumes "ns \<noteq> 0" and "rests_shrink (ns div 1000000000, ns mod 1000000000) rs"
  shows "mt_sleep_os_ns ns rs \<noteq> None \<and> time_slept (ns div 1000000000, ns mod 1000000000) rs = unat ns"
  using nanosleep_total[OF assms(2)] assms(1) sleep_request_valid[of ns] by (simp add: mt_sleep_os_ns_def)

text \<open>The Windows build rounds up, but a sleep that was capped at the end of the clock's range returns at once.\<close>

lemma sleep_windows_rounds_up:
  assumes "0 < unat ns" and "unat ns + 999999 < 2 ^ 32 * 1000000"
  shows "\<exists>ms. mt_sleep_os_windows ns = Some ms \<and> unat ns \<le> unat ms * 1000000 \<and> unat ms * 1000000 < unat ns + 1000000"
proof -
  have "unat (ns + 999999) = unat ns + 999999" using assms(2) by (simp add: unat_add_lem[THEN iffD1])
  then have q: "unat ((ns + 999999) div 1000000) = (unat ns + 999999) div 1000000" by (simp add: unat_div)
  then have "unat (ucast ((ns + 999999) div 1000000) :: 32 word) = (unat ns + 999999) div 1000000"
    using assms(2) by (simp add: unsigned_ucast_eq take_bit_nat_eq_self q less_mult_imp_div_less)
  moreover have "ns \<noteq> 0" using assms(1) by auto
  ultimately show ?thesis using ceil_div[of "unat ns"] by (simp add: mt_sleep_os_windows_def add.commute)
qed

lemma sleep_windows_forever_returns: "mt_sleep_os_windows UINT64_MAX = Some 0"
  by code_simp

section \<open>Entry points of a run\<close>

definition mt_run :: "tptr option \<Rightarrow> init_env \<Rightarrow> mt_state \<Rightarrow> mt_rc option \<times> mt_state" where
  "mt_run cur env s =
     (let (ok, s) = ensure_init env s
      in if \<not> ok then (Some MT_ERR, s) else mt_run_begin cur 1 env s)"

definition mt_run_workers :: "tptr option \<Rightarrow> nat \<Rightarrow> init_env \<Rightarrow> mt_state \<Rightarrow> mt_rc option \<times> mt_state" where
  "mt_run_workers cur workers env s = mt_runtime_start cur workers env s"

text \<open>The guard of \<^verbatim>\<open>mt_run\<close> repeats that of the start of a run: the result is a run with one worker.\<close>

lemma mt_run_one_worker: "mt_run cur env s = mt_run_workers cur 1 env s"
proof -
  obtain ok q where e: "ensure_init env s = (ok, q)" by fastforce
  have "ensure_init env q = (True, q)" if ok
    using e that by (auto simp: ensure_init_def mt_init_def mt_init_with_options_def Let_def split: if_splits prod.splits)
  then show ?thesis using e by (auto simp: mt_run_def mt_run_workers_def mt_runtime_start_def mt_run_begin_def)
qed

end
