(* ===== verification/Spec2Isabelle.thy ===== *)
theory Spec2Isabelle
  imports Select_Theorems Task_Theorems Sched_Theorems Queue_Theorems Io_Theorems Testing_Theorems
    Unsupported_Io Wakeup_Theorems Channel_Fifo Context Clock
begin

text \<open>
  \<^bold>\<open>A verification of the microthread runtime.\<close>

  \<^verbatim>\<open>src/src\<close> is a C runtime for cooperative tasks: worker threads take tasks from one run queue,
  switch to them, and get control back when a task yields, sleeps, blocks or ends. Tasks communicate
  through channels, wait for several channels at once with a select, join and cancel each other
  through handles, and wait for descriptors with the help of epoll, kqueue or poll. All parts share
  one global structure, \<^verbatim>\<open>g_rt\<close>, which is guarded by one mutex.

  \<^bold>\<open>The model.\<close> A state of the runtime is a value of the record \<open>mt_state\<close> (theory \<open>MT_Types\<close>): the
  fields of \<^verbatim>\<open>g_rt\<close> and one store for each kind of object a pointer can lead to. A function of the
  source is a HOL function of the same name from states to results and states. What the operating
  system answers (blocks of memory, clock readings, results of system calls, reported events) is an
  argument. A call that parks its task is split at the context switch: its first part says that the
  task parks, and \<open>mt_task_after_switch\<close> is what the worker does next. Sizes and counters that the
  code lets wrap around are words; indices and lengths are natural numbers. Every error path of the
  source is a branch that returns a value of \<open>mt_rc\<close>. What the code takes from the system and gives
  back (descriptors, stack mappings and blocks, the mutex, the condition variable, the scheduler
  context) and what it protects is recorded, call by call, in the field \<open>sys_calls\<close>; \<open>held\<close> is what has been taken
  and not given back, so a forgotten \<^verbatim>\<open>close\<close> or \<^verbatim>\<open>munmap\<close> shows.

  \<^bold>\<open>Parts and theories.\<close> The theories follow the files of the source.
  \<^item> \<open>MT_Prelude\<close>: machine types, addresses, collections of facts, lemmas on lists and words.
    \<open>MT_Types\<close>: \<^verbatim>\<open>runtime_internal.h\<close>, \<^verbatim>\<open>fd_wait_internal.h\<close> and the enumerations of
    \<^verbatim>\<open>microthread.h\<close>. \<open>MT_Status\<close>: \<^verbatim>\<open>status.c\<close>.
  \<^item> \<open>Intrusive_Queue\<close>: the head, tail and link manipulations of \<^verbatim>\<open>wait_queue.c\<close> on pointers, and the
    contract of a FIFO queue as the locale \<open>fifo_queue\<close>. \<open>Wait_Queue\<close> (\<^verbatim>\<open>wait_queue.c\<close>) and
    \<open>Run_Queue\<close> (\<^verbatim>\<open>run_queue.c\<close>, \<^verbatim>\<open>runtime.c\<close>) are the same operations on lists; each is an
    interpretation of the locale.
  \<^item> \<open>Task_State\<close>: \<^verbatim>\<open>task_state.c\<close>, the transitions between task states.
  \<^item> \<open>Timer_Heap\<close>, \<open>Timer\<close>, \<open>Wake_Timers\<close>: \<^verbatim>\<open>timer.c\<close>, the array heap (locales \<open>timer_order\<close> and
    \<open>timer_queue\<close>), deadlines and the expiry loop. \<open>Clock\<close>: the clock and the sleep of the operating systems.
  \<^item> \<open>Ring_Buffer\<close>, \<open>Channel\<close>: \<^verbatim>\<open>channel.c\<close> up to the select; the byte ring implements the locale
    \<open>bounded_fifo\<close>. \<open>Select_Wait\<close> (\<^verbatim>\<open>select_wait.c\<close>) and \<open>Select\<close> (\<^verbatim>\<open>mt_select\<close> of \<^verbatim>\<open>channel.c\<close>).
  \<^item> \<open>Stack\<close>: \<^verbatim>\<open>stack.c\<close>. \<open>Context\<close>: \<^verbatim>\<open>context_asm.c\<close>, \<^verbatim>\<open>context_asm_macos.S\<close>,
    \<^verbatim>\<open>context_ucontext.c\<close> and \<^verbatim>\<open>context_win_fiber.c\<close>; the two assembly switches are interpretations of
    the locale \<open>context_switch\<close>. \<open>Task\<close>: \<^verbatim>\<open>task.c\<close> and \<^verbatim>\<open>join.c\<close>.
  \<^item> \<open>Fd_Wait\<close>: \<^verbatim>\<open>io_backend.c\<close> and the registration of interest in \<^verbatim>\<open>io_backend_epoll.c\<close> and
    \<^verbatim>\<open>io_backend_kqueue.c\<close>. \<open>Poll_Backend\<close> and \<open>Kqueue_Backend\<close>: how these backends deliver events;
    that of epoll is in \<open>Scheduler\<close>. \<open>Io\<close>: \<^verbatim>\<open>io.c\<close>. \<open>Unsupported_Io\<close>: the stubs of the build
    without sockets.
  \<^item> \<open>Scheduler\<close>: \<^verbatim>\<open>scheduler.c\<close>. \<open>Runtime_Init\<close> and \<open>Lifecycle\<close>: \<^verbatim>\<open>runtime_lifecycle.c\<close>.
  \<^item> \<open>Testing_Hooks\<close>: \<^verbatim>\<open>testing_hooks.c\<close> and the places the test build instruments.

  \<^bold>\<open>The invariant and the transition system.\<close> \<open>Invariant\<close> defines \<open>wf X s\<close>: every live task outside
  \<open>X\<close> sits in exactly the queue its state calls for, every queue holds only such tasks, every counter
  has the length of what it counts, registrations of selects and descriptor waiters point back to
  their tasks, and the timers form a heap. \<open>X\<close> holds the tasks that are just being moved; the theories
  \<open>Invariant_Moves\<close>, \<open>Invariant_Fds\<close> and \<open>Invariant_Life\<close> say how each move changes it. The theories
  \<open>Preserve_...\<close> show that every operation keeps \<open>wf {}\<close>, and \<open>Frames\<close> what no operation but a few
  changes. \<open>System\<close> puts the operations together: \<open>rt_step\<close> is one critical section of the mutex, by
  any thread, so its reachable states are those of every interleaving of workers, tasks and the main
  thread. A polling pass and a select, which release the mutex in between, are also split into
  separate steps. The locale \<open>inductive_invariant\<close> carries the induction; it is interpreted for the
  queue invariant, for the channel rings and, in \<open>Wakeups\<close>, for the waiting discipline: who is blocked
  has a reason to be, and waits for a descriptor do not overlap. The theory \<open>Stable_Relation\<close> follows
  the call graph once for every relation between states that most operations respect: the locale
  \<open>stable_relation\<close> for the calls of tasks, \<open>switch_relation\<close> for the switches too and \<open>channel_relation\<close> for
  those relations that the channel operations respect as well. \<open>Calm\<close> interprets the second for the waiting
  discipline, \<open>Running\<close> the third for the set of running tasks and \<open>Fairness\<close> both for the order of the run queue.

  \<^bold>\<open>What is shown.\<close>
  \<^item> \<open>Reachable\<close>: in every reachable state no task is lost (a parked task is in the structure whose
    event will find it), the counts of ready, registered and descriptor-waiting tasks and of the waiters of
    each channel and handle are exact, the copies of the channels stay inside their buffers, and a reported
    deadlock is one: every task waits for another one. \<open>Running\<close>: the count of running tasks is at least
    the number of those that run. The global counts of tasks waiting for channels and joins are not
    exact; \<open>Task_Theorems\<close> shows how a cancellation makes them too low.
  \<^item> \<open>Wakeup_Theorems\<close>: in every reachable state a task that is blocked on a channel cannot proceed, so
    no plain channel operation misses its wake-up, and two waits for one descriptor share no event.
  \<^item> \<open>Channel_Fifo\<close>: over any interleaving of the calls of all its users an open channel without selects
    is a FIFO queue, made of the ring and the blocked senders behind it.
  \<^item> \<open>Channel_Theorems\<close>: the ring refines a bounded queue; \<^verbatim>\<open>mt_chan_try_send\<close> and
    \<^verbatim>\<open>mt_chan_try_recv\<close> refine an abstract channel on every branch; a waiting peer is served first and
    in order; closing wakes everybody; destroying leaves no reference behind.
  \<^item> \<open>Select_Theorems\<close>: which calls are rejected, which case is taken and how the registrations of a
    parked select look, that a select completes once, that running out of memory is undone, and the
    wake-up it can lose.
  \<^item> \<open>Task_Theorems\<close>: creation is all or nothing, the end of a task releases its joiners,
    cancellation interrupts a wait; two flaws of cancellation.
  \<^item> \<open>Fairness\<close>: over any number of steps a ready task is not overtaken; no more tasks are dispatched
    before it than were ahead of it.
  \<^item> \<open>Sched_Theorems\<close>: the oldest ready task runs next, each decision of an idle worker is justified,
    expired timers are woken exactly and in order, shutdown leaves a runtime as good as new and gives
    back the stacks, descriptors and system objects, each once.
  \<^item> \<open>Queue_Theorems\<close>: the linked queue and the list agree on every sequence of operations.
  \<^item> \<open>Io_Theorems\<close>: exclusive descriptor waits, close wakes the waiters, writes report a prefix,
    timeouts are not cut short, adoption can be undone, the loop for invalid descriptors ends; and the
    stale flags of a descriptor number that is used again.
  \<^item> \<open>Testing_Theorems\<close>: the counters of the test build tell exactly whether a block has leaked
    (locale \<open>counted_allocator\<close>), and without faults it allocates like the release build.
  \<^item> \<open>Context\<close>: a new context enters its function on an aligned stack pointer inside its stack; switching
    away and back restores the program counter, the stack pointer and the general-purpose registers a
    call preserves, but neither the control words of SSE and x87 nor \<^verbatim>\<open>d8\<close> to \<^verbatim>\<open>d15\<close> of aarch64, which a
    call preserves too; fibers are given back once, and an empty stack is refused.
  \<^item> \<open>Clock\<close>: where the clock of Windows is exact and where it wraps around; a sleep lasts as long as asked.
  \<^item> \<open>Runtime_Init\<close>: initialisation is all or nothing, also in what it holds of the system.
    \<open>Stack\<close>: the bounds of a stack, its inaccessible guard page, and that a failed allocation leaves nothing mapped.

  \<^bold>\<open>Loops and bounds.\<close> Loops are structural recursion or functions with a termination proof: the
  expiry loop by the number of timers, the sift loops by the index, the epoll loop by the bits that
  remain, the wake loops of close and join by the length of the queue. The loop for an invalid
  descriptor has the number of waiters as its fuel; \<open>Io_Theorems\<close> defines it without fuel and shows
  that it returns, with the same result, in every reachable state. The retry loops of reads, writes
  and accepts consume a list with one entry for each round, since how often the system interrupts
  them is not bounded; \<open>None\<close> says that the call is still running when the list ends.

  \<^bold>\<open>Not modelled.\<close>
  \<^item> In the transition system a context switch is the boundary between two steps; \<open>Context\<close> justifies
    this for the integer state in the assembly builds. \<^verbatim>\<open>swapcontext\<close> and \<^verbatim>\<open>SwitchToFiber\<close> are system calls.
  \<^item> The mutex, the condition variable and the threads: mutual exclusion is the granularity of the
    steps; signals, broadcasts and wake-pipe writes are counted. Fairness of the operating system is
    not assumed, so the liveness properties say that an event makes a task ready, not that a worker
    will get the processor.
  \<^item> The release of the memory of tasks, channels, handles and waiters to the allocator; the counters of
    the test build, which see it, are in \<open>Testing_Hooks\<close>.
  \<^item> The calls that record an error number for \<^verbatim>\<open>mt_last_os_error\<close>, which nothing in the runtime
    reads; the two functions themselves are in \<open>MT_Status\<close>.
  \<^item> \<^verbatim>\<open>microthread.c\<close>, \<^verbatim>\<open>runtime_shard_lsp.h\<close> and the public headers hold includes and prototypes; the
    examples and tests are client programs.

  \<^bold>\<open>Left to do.\<close> The order of values on channels that selects are registered on; the test hooks threaded
  through task creation and shutdown, to show that these operations leak nothing.
\<close>

end
